(* ===== verification/Prelude.thy ===== *)
theory Prelude
  imports
    Main
    "HOL-Library.AList"
    "HOL-Library.Char_ord"
    "HOL-Library.List_Lexorder"
    "HOL-Library.Product_Lexorder"
    "HOL-Library.Option_ord"
begin

text \<open>
  Shared vocabulary of the development: Python dictionaries as association lists that keep
  the insertion order, results that carry an error, sequential composition of steps that may
  raise, and the string operations the sources use (\<open>str\<close>, \<open>int\<close>, \<open>startswith\<close>, \<open>split\<close>,
  \<open>join\<close>). A Python string is a list of characters, so the code points above 255 are not
  represented; comparison is by code point, as in Python.
\<close>

named_theorems result_simps
  \<open>how the result monad computes and inverts\<close>
named_theorems dict_simps
  \<open>lookup after update and deletion\<close>

section \<open>Dictionaries\<close>

text \<open>
  A Python dict iterates in insertion order; assigning to a present key keeps its place. That
  is what \<^const>\<open>AList.update\<close> does on an association list.
\<close>

type_synonym ('k, 'v) dict = "('k \<times> 'v) list"

abbreviation dget :: "('k, 'v) dict \<Rightarrow> 'k \<Rightarrow> 'v option" where
  "dget d k \<equiv> map_of d k"

abbreviation dset :: "'k \<Rightarrow> 'v \<Rightarrow> ('k, 'v) dict \<Rightarrow> ('k, 'v) dict" where
  "dset k v d \<equiv> AList.update k v d"

abbreviation ddel :: "'k \<Rightarrow> ('k, 'v) dict \<Rightarrow> ('k, 'v) dict" where
  "ddel k d \<equiv> AList.delete k d"

abbreviation dkeys :: "('k, 'v) dict \<Rightarrow> 'k list" where
  "dkeys d \<equiv> map fst d"

abbreviation dvals :: "('k, 'v) dict \<Rightarrow> 'v list" where
  "dvals d \<equiv> map snd d"

abbreviation dmem :: "'k \<Rightarrow> ('k, 'v) dict \<Rightarrow> bool" where
  "dmem k d \<equiv> map_of d k \<noteq> None"

text \<open>A dict has no duplicate keys.\<close>

abbreviation dict_ok :: "('k, 'v) dict \<Rightarrow> bool" where
  "dict_ok d \<equiv> distinct (dkeys d)"

text \<open>\<open>{k(x): v(x) for x in xs}\<close>: a later duplicate overwrites the value in place.\<close>

fun dict_of :: "('k \<times> 'v) list \<Rightarrow> ('k, 'v) dict \<Rightarrow> ('k, 'v) dict" where
  "dict_of [] d = d"
| "dict_of ((k, v) # xs) d = dict_of xs (dset k v d)"

text \<open>\<open>d.setdefault(k, v)\<close> as a statement.\<close>

definition setdefault :: "'k \<Rightarrow> 'v \<Rightarrow> ('k, 'v) dict \<Rightarrow> ('k, 'v) dict" where
  "setdefault k v d = (if dmem k d then d else dset k v d)"

lemma dget_dset [simp, dict_simps]: "dget (dset k v d) k' = (if k' = k then Some v else dget d k')"
  by (simp add: update_conv')

lemma dget_ddel [simp, dict_simps]: "dget (ddel k d) k' = (if k' = k then None else dget d k')"
  by (simp add: delete_conv')

lemma dict_ok_dset [simp, intro]: "dict_ok d \<Longrightarrow> dict_ok (dset k v d)"
  by (rule distinct_update)

lemma dict_ok_ddel [simp, intro]: "dict_ok d \<Longrightarrow> dict_ok (ddel k d)"
  by (rule distinct_delete)

lemma set_dkeys_dset [simp]: "set (dkeys (dset k v d)) = insert k (set (dkeys d))"
  by (induction d) auto

lemma fst_set_dset [simp]: "fst ` set (dset k v d) = insert k (fst ` set d)"
  using set_dkeys_dset[of k v d] by simp

lemma set_dkeys_ddel [simp]: "set (dkeys (ddel k d)) = set (dkeys d) - {k}"
  by (auto simp: AList.delete_eq)

lemma mem_dkeys [simp]: "k \<in> fst ` set d \<longleftrightarrow> (\<exists>v. dget d k = Some v)"
  using map_of_eq_None_iff[of d k] by (cases "map_of d k") simp_all

lemma dget_None: "dget d k = None \<longleftrightarrow> k \<notin> set (dkeys d)"
  by (simp only: map_of_eq_None_iff set_map)

lemma dget_SomeD: "dget d k = Some v \<Longrightarrow> k \<in> set (dkeys d)"
  by simp

lemma dset_fresh: "dget d k = None \<Longrightarrow> dset k v d = d @ [(k, v)]"
  by (induction d) (auto split: if_splits)

lemma dget_in_set: "dget d k = Some v \<Longrightarrow> (k, v) \<in> set d"
  by (rule map_of_SomeD)

lemma in_set_dget: "dict_ok d \<Longrightarrow> (k, v) \<in> set d \<Longrightarrow> dget d k = Some v"
  by (rule map_of_is_SomeI)

lemma set_dset: "dict_ok d \<Longrightarrow> set (dset k v d) = insert (k, v) {e \<in> set d. fst e \<noteq> k}"
  by (induction d) (force simp: image_iff)+

lemma set_ddel: "set (ddel k d) = {e \<in> set d. fst e \<noteq> k}"
  by (auto simp: AList.delete_eq)

lemma dict_of_ok: "dict_ok d \<Longrightarrow> dict_ok (dict_of xs d)"
  by (induction xs d rule: dict_of.induct) simp_all

lemma dkeys_dict_of: "set (dkeys (dict_of xs d)) = fst ` set xs \<union> set (dkeys d)"
  by (induction xs d rule: dict_of.induct) auto

lemma dict_of_fresh:
  "distinct (map fst xs) \<Longrightarrow> set (map fst xs) \<inter> set (dkeys d) = {} \<Longrightarrow> dict_of xs d = d @ xs"
proof (induction xs d rule: dict_of.induct)
  case (2 k v xs d)
  then have fresh: "dget d k = None"
    by (metis dget_None disjoint_iff image_iff list.set_intros(1) fst_conv set_map)
  then have "dict_of ((k, v) # xs) d = dict_of xs (d @ [(k, v)])"
    by (simp add: dset_fresh)
  also have "\<dots> = (d @ [(k, v)]) @ xs"
    using 2 fresh by (subst dset_fresh[symmetric]) (auto simp: dset_fresh simp del: mem_dkeys)
  finally show ?case by simp
qed simp

lemma setdefault_ok [simp, intro]: "dict_ok d \<Longrightarrow> dict_ok (setdefault k v d)"
  by (simp add: setdefault_def)

lemma dkeys_setdefault [simp]: "set (dkeys (setdefault k v d)) = insert k (set (dkeys d))"
  by (auto simp: setdefault_def)

lemma dget_setdefault:
  "dget (setdefault k v d) k' = (if k' = k \<and> dget d k = None then Some v else dget d k')"
  by (auto simp: setdefault_def)

section \<open>Results that may be errors\<close>

definition rbind :: "'e + 'a \<Rightarrow> ('a \<Rightarrow> 'e + 'b) \<Rightarrow> 'e + 'b" where
  "rbind m f = (case m of Inl e \<Rightarrow> Inl e | Inr x \<Rightarrow> f x)"

lemma rbind_simps [simp, result_simps]:
  "rbind (Inl e) f = Inl e" "rbind (Inr x) f = f x"
  by (simp_all add: rbind_def)

lemma rbind_Inr [result_simps]: "rbind m f = Inr y \<longleftrightarrow> (\<exists>x. m = Inr x \<and> f x = Inr y)"
  by (cases m) simp_all

lemma rbind_Inl [result_simps]:
  "rbind m f = Inl e \<longleftrightarrow> m = Inl e \<or> (\<exists>x. m = Inr x \<and> f x = Inl e)"
  by (cases m) simp_all

definition guard :: "bool \<Rightarrow> 'e \<Rightarrow> 'e + unit" where
  "guard b e = (if b then Inr () else Inl e)"

lemma guard_simps [simp, result_simps]:
  "guard b e = Inr u \<longleftrightarrow> b" "guard b e = Inl e' \<longleftrightarrow> \<not> b \<and> e' = e"
  by (auto simp: guard_def)

text \<open>A comprehension whose body may raise: the first error wins.\<close>

fun traverse :: "('a \<Rightarrow> 'e + 'b) \<Rightarrow> 'a list \<Rightarrow> 'e + 'b list" where
  "traverse f [] = Inr []"
| "traverse f (x # xs) = rbind (f x) (\<lambda>y. rbind (traverse f xs) (\<lambda>ys. Inr (y # ys)))"

lemma traverse_Inr: "traverse f xs = Inr ys \<longleftrightarrow> list_all2 (\<lambda>x y. f x = Inr y) xs ys"
  by (induction xs arbitrary: ys) (auto simp: rbind_Inr list_all2_Cons1)

lemma traverse_length: "traverse f xs = Inr ys \<Longrightarrow> length ys = length xs"
  by (auto simp: traverse_Inr list_all2_lengthD)

lemma traverse_all:
  "traverse f xs = Inr ys \<Longrightarrow> (\<And>x y. f x = Inr y \<Longrightarrow> P y) \<Longrightarrow> y \<in> set ys \<Longrightarrow> P y"
  by (fastforce simp: traverse_Inr list_all2_conv_all_nth in_set_conv_nth)

text \<open>A body that raises on no element: the result lists what it returned.\<close>

lemma traverse_map: "(\<And>x. x \<in> set xs \<Longrightarrow> f (g x) = Inr x) \<Longrightarrow> traverse f (map g xs) = Inr xs"
  by (induction xs) simp_all

section \<open>Loops whose body may raise\<close>

text \<open>
  \<open>for x in xs: body\<close> over a state: the body returns the new state, or raises with the state
  it leaves behind. An exception skips the remaining elements.
\<close>

fun for_each :: "('a \<Rightarrow> 's \<Rightarrow> 'e + 's) \<Rightarrow> 'a list \<Rightarrow> 's \<Rightarrow> 'e + 's" where
  "for_each f [] s = Inr s"
| "for_each f (x # xs) s = rbind (f x s) (for_each f xs)"

lemma for_each_append:
  "for_each f (xs @ ys) s = rbind (for_each f xs s) (for_each f ys)"
  by (induction xs arbitrary: s) (auto simp: rbind_def split: sum.splits)

lemma for_each_pure: "for_each (\<lambda>x s. Inr (g x s)) xs s = Inr (fold g xs s)"
  by (induction xs arbitrary: s) simp_all

text \<open>
  A loop invariant between the state at the start and the state now: any reflexive and
  transitive relation that every iteration respects. \<open>G x\<close> is what the iteration for \<open>x\<close>
  relies on; the relation has to keep it.
\<close>

lemma for_each_rel:
  assumes refl: "\<And>s. R s s"
    and trans: "\<And>s t u. R s t \<Longrightarrow> R t u \<Longrightarrow> R s u"
    and stable: "\<And>x s t. x \<in> set xs \<Longrightarrow> R s t \<Longrightarrow> G x s \<Longrightarrow> G x t"
    and step: "\<And>x s t. x \<in> set xs \<Longrightarrow> G x s \<Longrightarrow> f x s = Inr t \<Longrightarrow> R s t"
    and run: "for_each f xs s = Inr t"
    and start: "\<And>x. x \<in> set xs \<Longrightarrow> G x s"
  shows "R s t"
  using stable step run start
proof (induction xs arbitrary: s)
  case Nil
  then show ?case using refl by simp
next
  case (Cons x xs)
  from Cons.prems(3) obtain u where fx: "f x s = Inr u" and rest: "for_each f xs u = Inr t"
    by (auto simp: rbind_Inr)
  have su: "R s u"
    using Cons.prems(2)[of x s u] Cons.prems(4)[of x] fx by simp
  have "R u t"
  proof (rule Cons.IH)
    show "\<And>y s t. y \<in> set xs \<Longrightarrow> R s t \<Longrightarrow> G y s \<Longrightarrow> G y t"
      by (rule Cons.prems(1)) simp_all
    show "\<And>y s t. y \<in> set xs \<Longrightarrow> G y s \<Longrightarrow> f y s = Inr t \<Longrightarrow> R s t"
      by (rule Cons.prems(2)) simp_all
    show "for_each f xs u = Inr t" by (rule rest)
    show "\<And>y. y \<in> set xs \<Longrightarrow> G y u"
      using Cons.prems(1) Cons.prems(4) su by (metis list.set_intros(2))
  qed
  with su show ?case using trans by blast
qed

text \<open>Where an exception comes from: an iteration that raised, in a state the loop had reached.\<close>

lemma for_each_Inl:
  assumes refl: "\<And>s. R s s"
    and trans: "\<And>s t u. R s t \<Longrightarrow> R t u \<Longrightarrow> R s u"
    and stable: "\<And>x s t. x \<in> set xs \<Longrightarrow> R s t \<Longrightarrow> G x s \<Longrightarrow> G x t"
    and step: "\<And>x s t. x \<in> set xs \<Longrightarrow> G x s \<Longrightarrow> f x s = Inr t \<Longrightarrow> R s t"
    and run: "for_each f xs s = Inl e"
    and start: "\<And>x. x \<in> set xs \<Longrightarrow> G x s"
  obtains x u where "x \<in> set xs" "R s u" "G x u" "f x u = Inl e"
  using stable step run start
proof (induction xs arbitrary: s thesis)
  case Nil
  from Nil.prems(4) show ?case by simp
next
  case (Cons x xs)
  show ?case
  proof (cases "f x s")
    case (Inl e')
    with Cons.prems(4) have "f x s = Inl e" by simp
    with Cons.prems(1)[of x s] Cons.prems(5)[of x] refl show ?thesis by simp
  next
    case (Inr u)
    have su: "R s u" using Cons.prems(3)[of x s u] Cons.prems(5)[of x] Inr by simp
    show ?thesis
    proof (rule Cons.IH)
      show "\<And>y s t. y \<in> set xs \<Longrightarrow> R s t \<Longrightarrow> G y s \<Longrightarrow> G y t"
        by (rule Cons.prems(2)) simp_all
      show "\<And>y s t. y \<in> set xs \<Longrightarrow> G y s \<Longrightarrow> f y s = Inr t \<Longrightarrow> R s t"
        by (rule Cons.prems(3)) simp_all
      show "for_each f xs u = Inl e" using Cons.prems(4) Inr by simp
      show "\<And>y. y \<in> set xs \<Longrightarrow> G y u"
        using Cons.prems(2) Cons.prems(5) su by (metis list.set_intros(2))
      show "thesis" if "y \<in> set xs" "R u w" "G y w" "f y w = Inl e" for y w
        using that su trans Cons.prems(1) by (metis list.set_intros(2))
    qed
  qed
qed

lemma for_each_inv:
  assumes "for_each f xs s = Inr t" and "P s"
    and "\<And>x s t. x \<in> set xs \<Longrightarrow> P s \<Longrightarrow> f x s = Inr t \<Longrightarrow> P t"
  shows "P t"
  using assms
  by (induction xs arbitrary: s) (auto simp: rbind_Inr)

section \<open>Sorting\<close>

text \<open>\<open>sorted(set(xs))\<close>.\<close>

definition sorted_set :: "'a::linorder list \<Rightarrow> 'a list" where
  "sorted_set xs = sort (remdups xs)"

lemma set_sorted_set [simp]: "set (sorted_set xs) = set xs"
  by (simp add: sorted_set_def)

lemma sorted_sorted_set [simp]: "sorted (sorted_set xs)"
  by (simp add: sorted_set_def)

lemma distinct_sorted_set [simp]: "distinct (sorted_set xs)"
  by (simp add: sorted_set_def)

lemma sorted_set_cong: "set xs = set ys \<Longrightarrow> sorted_set xs = sorted_set ys"
  unfolding sorted_set_def by (metis sorted_list_of_set_sort_remdups)

lemma list_all2_left: "list_all2 P xs ys \<Longrightarrow> x \<in> set xs \<Longrightarrow> \<exists>y \<in> set ys. P x y"
  by (induction rule: list_all2_induct) auto

end
