(* ===== verification/Strings.thy ===== *)
theory Strings
  imports Prelude
begin

text \<open>
  The operations of Python's \<open>str\<close> and \<open>int\<close> that the sources use: decimal printing
  (\<open>str(n)\<close>), \<open>int(s)\<close> with its sign, blanks and digit separators, \<open>startswith\<close>, \<open>split\<close> on a
  character and \<open>join\<close>. The round trip \<open>int(str(n)) = n\<close> makes printing injective, which is what
  the unique names the engine builds from counters rest on.
\<close>

text \<open>\<open>ord(c)\<close>, as an integer so that it evaluates in binary.\<close>

definition code_of :: "char \<Rightarrow> int" where
  "code_of c = of_char c"

section \<open>Printing integers\<close>

definition digit_char :: "nat \<Rightarrow> char" where
  "digit_char d = char_of (48 + d)"

fun str_of_nat :: "nat \<Rightarrow> string" where
  "str_of_nat n = (if n < 10 then [digit_char n] else str_of_nat (n div 10) @ [digit_char (n mod 10)])"

declare str_of_nat.simps [simp del]

definition str_of_int :: "int \<Rightarrow> string" where
  "str_of_int i = (if i < 0 then CHR ''-'' # str_of_nat (nat (- i)) else str_of_nat (nat i))"

section \<open>Reading integers\<close>

text \<open>
  \<open>int(s)\<close>: surrounding white space is dropped, then an optional sign, then decimal digits, with
  single underscores allowed between digits. Everything else raises \<open>ValueError\<close> (None here).
\<close>

definition is_digit :: "char \<Rightarrow> bool" where
  "is_digit c \<longleftrightarrow> 48 \<le> (of_char c :: nat) \<and> (of_char c :: nat) \<le> 57"

definition digit_val :: "char \<Rightarrow> nat" where
  "digit_val c = of_char c - 48"

definition is_space :: "char \<Rightarrow> bool" where
  "is_space c \<longleftrightarrow> (let n = (of_char c :: nat) in
     (9 \<le> n \<and> n \<le> 13) \<or> (28 \<le> n \<and> n \<le> 32) \<or> n = 133 \<or> n = 160)"

definition strip :: "string \<Rightarrow> string" where
  "strip s = rev (dropWhile is_space (rev (dropWhile is_space s)))"

text \<open>The digits after the first one; \<open>acc\<close> is the value read so far.\<close>

fun read_digits :: "nat \<Rightarrow> string \<Rightarrow> nat option" where
  "read_digits acc [] = Some acc"
| "read_digits acc (c # cs) =
     (if is_digit c then read_digits (10 * acc + digit_val c) cs
      else if c = CHR ''_'' then
        (case cs of
           [] \<Rightarrow> None
         | d # ds \<Rightarrow> if is_digit d then read_digits (10 * acc + digit_val d) ds else None)
      else None)"

definition read_nat :: "string \<Rightarrow> nat option" where
  "read_nat s = (case s of [] \<Rightarrow> None | c # cs \<Rightarrow> if is_digit c then read_digits (digit_val c) cs else None)"

definition py_int :: "string \<Rightarrow> int option" where
  "py_int s =
     (case strip s of
        [] \<Rightarrow> None
      | c # cs \<Rightarrow>
          if c = CHR ''-'' then map_option (\<lambda>n. - int n) (read_nat cs)
          else if c = CHR ''+'' then map_option int (read_nat cs)
          else map_option int (read_nat (c # cs)))"

lemma of_char_digit_char: "d < 10 \<Longrightarrow> (of_char (digit_char d) :: nat) = 48 + d"
  by (simp add: digit_char_def)

lemma digit_char_facts [simp]:
  assumes "d < 10"
  shows "is_digit (digit_char d)" "digit_val (digit_char d) = d" "\<not> is_space (digit_char d)"
    "digit_char d \<noteq> CHR ''-''" "digit_char d \<noteq> CHR ''+''"
proof -
  note oc = of_char_digit_char[OF assms]
  show "is_digit (digit_char d)" "digit_val (digit_char d) = d" "\<not> is_space (digit_char d)"
    using assms by (simp_all add: is_digit_def digit_val_def is_space_def oc)
  have "(of_char (CHR ''-'') :: nat) = 45" "(of_char (CHR ''+'') :: nat) = 43"
    by simp_all
  with oc show "digit_char d \<noteq> CHR ''-''" "digit_char d \<noteq> CHR ''+''"
    by (metis Suc_n_not_le_n add.commute le_add2 numeral_le_iff nat_le_linear semiring_norm)+
qed

lemma str_of_nat_digits: "c \<in> set (str_of_nat n) \<Longrightarrow> is_digit c \<and> \<not> is_space c"
proof (induction n rule: str_of_nat.induct)
  case (1 n)
  show ?case
  proof (cases "n < 10")
    case True
    with 1 show ?thesis by (simp add: str_of_nat.simps)
  next
    case False
    with 1 show ?thesis by (subst (asm) (2) str_of_nat.simps) auto
  qed
qed

lemma str_of_nat_nonempty [simp]: "str_of_nat n \<noteq> []"
  by (subst str_of_nat.simps) simp

lemma read_digits_append:
  "\<forall>c \<in> set xs. is_digit c \<Longrightarrow> read_digits acc (xs @ ys) = Option.bind (read_digits acc xs) (\<lambda>a. read_digits a ys)"
  by (induction xs arbitrary: acc) auto

lemma read_nat_snoc:
  assumes "read_nat s = Some n" and "\<forall>c \<in> set s. is_digit c" and "d < 10"
  shows "read_nat (s @ [digit_char d]) = Some (10 * n + d)"
  using assms
  by (cases s) (auto simp: read_nat_def read_digits_append)

lemma read_nat_str_of_nat: "read_nat (str_of_nat n) = Some n"
proof (induction n rule: str_of_nat.induct)
  case (1 n)
  show ?case
  proof (cases "n < 10")
    case True
    then show ?thesis by (simp add: str_of_nat.simps read_nat_def)
  next
    case False
    with 1 have "read_nat (str_of_nat (n div 10)) = Some (n div 10)" by simp
    then have "read_nat (str_of_nat (n div 10) @ [digit_char (n mod 10)]) = Some (10 * (n div 10) + n mod 10)"
      by (rule read_nat_snoc) (simp_all add: str_of_nat_digits)
    with False show ?thesis by (subst str_of_nat.simps) simp
  qed
qed

lemma dropWhile_no_space: "\<forall>c \<in> set s. \<not> is_space c \<Longrightarrow> dropWhile is_space s = s"
  by (cases s) auto

lemma strip_no_space: "\<forall>c \<in> set s. \<not> is_space c \<Longrightarrow> strip s = s"
  by (simp add: strip_def dropWhile_no_space)

text \<open>Printing and reading back an integer gives the integer.\<close>

lemma str_of_nat_hd:
  obtains c cs where "str_of_nat n = c # cs" and "is_digit c"
  using str_of_nat_digits[of _ n] str_of_nat_nonempty[of n]
  by (cases "str_of_nat n") auto

lemma py_int_str_of_int [simp]: "py_int (str_of_int i) = Some i"
proof (cases "i < 0")
  case True
  have "strip (CHR ''-'' # str_of_nat (nat (- i))) = CHR ''-'' # str_of_nat (nat (- i))"
    by (rule strip_no_space) (auto simp: is_space_def dest: str_of_nat_digits)
  with True show ?thesis
    by (simp add: str_of_int_def py_int_def read_nat_str_of_nat)
next
  case False
  obtain c cs where s: "str_of_nat (nat i) = c # cs" and c: "is_digit c"
    by (rule str_of_nat_hd)
  have "strip (str_of_nat (nat i)) = str_of_nat (nat i)"
    by (rule strip_no_space) (auto dest: str_of_nat_digits)
  moreover have "c \<noteq> CHR ''-''" "c \<noteq> CHR ''+''"
    using c by (auto simp: is_digit_def)
  ultimately show ?thesis
    using False s read_nat_str_of_nat[of "nat i"]
    by (simp add: str_of_int_def py_int_def)
qed

lemma str_of_int_inject [simp]: "str_of_int i = str_of_int j \<longleftrightarrow> i = j"
  by (metis option.inject py_int_str_of_int)

lemma str_of_int_nonempty [simp]: "str_of_int i \<noteq> []"
  by (simp add: str_of_int_def)

section \<open>Prefixes, splitting, joining\<close>

fun starts_with :: "string \<Rightarrow> string \<Rightarrow> bool" where
  "starts_with s [] = True"
| "starts_with [] (p # ps) = False"
| "starts_with (c # cs) (p # ps) = (c = p \<and> starts_with cs ps)"

lemma starts_with_append [simp]: "starts_with (p @ s) p"
  by (induction p) simp_all

lemma starts_with_iff: "starts_with s p \<longleftrightarrow> (\<exists>r. s = p @ r)"
  by (induction s p rule: starts_with.induct) auto

lemma starts_with_drop: "starts_with s p \<Longrightarrow> s = p @ drop (length p) s"
  by (auto simp: starts_with_iff)

text \<open>\<open>s.split(c)\<close>: the pieces between the separators, empty ones included.\<close>

fun split_on :: "char \<Rightarrow> string \<Rightarrow> string list" where
  "split_on c [] = [[]]"
| "split_on c (x # xs) =
     (if x = c then [] # split_on c xs
      else (case split_on c xs of [] \<Rightarrow> [[x]] | p # ps \<Rightarrow> (x # p) # ps))"

lemma split_on_nonempty [simp]: "split_on c s \<noteq> []"
  by (induction s) (auto split: list.splits)

lemma split_on_no_sep: "c \<notin> set s \<Longrightarrow> split_on c s = [s]"
  by (induction s) auto

lemma split_on_append_sep: "c \<notin> set s \<Longrightarrow> split_on c (s @ c # t) = s # split_on c t"
  by (induction s) (auto split: list.splits)

text \<open>\<open>sep.join(parts)\<close>.\<close>

fun join :: "string \<Rightarrow> string list \<Rightarrow> string" where
  "join sep [] = []"
| "join sep [p] = p"
| "join sep (p # q # ps) = p @ sep @ join sep (q # ps)"

lemma split_on_join:
  "ps \<noteq> [] \<Longrightarrow> \<forall>p \<in> set ps. c \<notin> set p \<Longrightarrow> split_on c (join [c] ps) = ps"
  by (induction "[c]" ps rule: join.induct) (simp_all add: split_on_no_sep split_on_append_sep)

lemma join_split_on: "join [c] (split_on c s) = s"
proof (induction s)
  case (Cons x xs)
  show ?case
  proof (cases "split_on c xs")
    case Nil
    then show ?thesis by simp
  next
    case (Cons p ps)
    with Cons.IH show ?thesis by (cases ps) auto
  qed
qed simp

lemma split_on_pieces: "p \<in> set (split_on c s) \<Longrightarrow> c \<notin> set p"
proof (induction s arbitrary: p)
  case (Cons x xs)
  then show ?case by (cases "split_on c xs") (auto split: if_splits)
qed simp

section \<open>Searching for a free name\<close>

text \<open>
  The loops that number a new object until its name is free: the names are pairwise distinct, so
  only finitely many numbers are taken and their count falls with every step.
\<close>

lemma finite_taken:
  fixes name :: "int \<Rightarrow> string"
  assumes "inj name"
  shows "finite {j. k \<le> j \<and> name j \<in> set taken}"
proof (rule finite_imageD)
  show "finite (name ` {j. k \<le> j \<and> name j \<in> set taken})"
    by (rule finite_subset[of _ "set taken"]) auto
  show "inj_on name {j. k \<le> j \<and> name j \<in> set taken}"
    using assms by (rule inj_on_subset) simp
qed

lemma taken_decreases:
  fixes name :: "int \<Rightarrow> string"
  assumes "inj name" and "name k \<in> set taken"
  shows "card {j. k + 1 \<le> j \<and> name j \<in> set taken} < card {j. k \<le> j \<and> name j \<in> set taken}"
proof (rule psubset_card_mono)
  show "finite {j. k \<le> j \<and> name j \<in> set taken}"
    by (rule finite_taken) (rule assms(1))
  show "{j. k + 1 \<le> j \<and> name j \<in> set taken} \<subset> {j. k \<le> j \<and> name j \<in> set taken}"
    using assms(2) by force
qed

end
