(* ===== verification/Json.thy ===== *)
theory Json
  imports Strings "HOL-Library.Multiset"
begin

text \<open>
  The raw documents the parsers read: JSON values, the accessors of \<open>model.py\<close>
  (\<open>_obj\<close>, \<open>_list\<close>, \<open>_str\<close>, \<open>_req\<close>, \<open>_int\<close>, \<open>_strs\<close>), the canonical serialization, and Python's
  \<open>str\<close> of a JSON value, which the parser applies to free-text fields. Each \<open>ModelError\<close> the
  parser raises is a constructor of \<open>model_error\<close>; the texts of the messages are not modelled.
\<close>

section \<open>JSON values\<close>

text \<open>A float is kept as its \<open>repr\<close>: the parsers only look at its type.\<close>

datatype json =
    JNull
  | JBool bool
  | JInt int
  | JFloat string
  | JStr string
  | JList "json list"
  | JObj "(string \<times> json) list"

datatype model_error =
    ExpectedObject string
  | ExpectedList string
  | TooManyEntries string
  | MissingString string string
  | BadString string string
  | MissingInteger string string
  | BadInteger string string int
  | BadStringItem string nat
  | ReservedUid string string
  | DuplicateIdentifier string
  | EmptyAudiences
  | VerbsAndResourcesRequired string
  | UnsupportedRoleKind string
  | ClusterBindingNeedsClusterRole string
  | UnsupportedSubjectKind string
  | SubjectNeedsNamespace
  | SecretBodySupplied string
  | UnknownControllerRef string string
  | UnsupportedAction string string
  | CommaInKeepUids string
  | UnknownFields string "string list"
  | UnrecognizedSchema
  | MalformedSchemaVersion
  | UnsupportedSchemaMajor int
  | HistoryAfterAnalysis
  | UnsupportedFactKind string
  | FactArity string nat
  | UnknownStatus string
  | UnknownCredential string
  | BadSecretVersion
  | UnsupportedObjectiveKind string
  | NoObjective
  | UnsupportedLegitKind string
  | RemediationTooLong
  | MissingParameter string string
  | ValueErr string

definition MAX_STRING :: nat where "MAX_STRING = 512"
definition MAX_COLLECTION :: nat where "MAX_COLLECTION = 10000"

type_synonym 'a parsed = "model_error + 'a"

section \<open>Accessors\<close>

fun obj_of :: "json \<Rightarrow> string \<Rightarrow> (string, json) dict parsed" where
  "obj_of (JObj m) w = Inr m"
| "obj_of _ w = Inl (ExpectedObject w)"

text \<open>\<open>m.get(key)\<close>: an absent key reads as \<open>None\<close>.\<close>

definition jget :: "(string, json) dict \<Rightarrow> string \<Rightarrow> json" where
  "jget m key = (case dget m key of None \<Rightarrow> JNull | Some v \<Rightarrow> v)"

fun list_of :: "json \<Rightarrow> string \<Rightarrow> json list parsed" where
  "list_of JNull w = Inr []"
| "list_of (JList xs) w = (if length xs > MAX_COLLECTION then Inl (TooManyEntries w) else Inr xs)"
| "list_of _ w = Inl (ExpectedList w)"

definition good_string :: "string \<Rightarrow> bool" where
  "good_string s \<longleftrightarrow> s \<noteq> [] \<and> length s \<le> MAX_STRING"

fun str_opt :: "(string, json) dict \<Rightarrow> string \<Rightarrow> string \<Rightarrow> string option parsed" where
  "str_opt m key w =
     (case jget m key of
        JNull \<Rightarrow> Inr None
      | JStr s \<Rightarrow> if good_string s then Inr (Some s) else Inl (BadString w key)
      | _ \<Rightarrow> Inl (BadString w key))"

definition req :: "(string, json) dict \<Rightarrow> string \<Rightarrow> string \<Rightarrow> string parsed" where
  "req m key w =
     (case jget m key of
        JNull \<Rightarrow> Inl (MissingString w key)
      | JStr s \<Rightarrow> if good_string s then Inr s else Inl (BadString w key)
      | _ \<Rightarrow> Inl (BadString w key))"

definition int_opt :: "(string, json) dict \<Rightarrow> string \<Rightarrow> string \<Rightarrow> int \<Rightarrow> int option parsed" where
  "int_opt m key w minimum =
     (case jget m key of
        JNull \<Rightarrow> Inr None
      | JInt v \<Rightarrow> if v < minimum then Inl (BadInteger w key minimum) else Inr (Some v)
      | _ \<Rightarrow> Inl (BadInteger w key minimum))"

definition int_req :: "(string, json) dict \<Rightarrow> string \<Rightarrow> string \<Rightarrow> int \<Rightarrow> int parsed" where
  "int_req m key w minimum =
     (case jget m key of
        JNull \<Rightarrow> Inl (MissingInteger w key)
      | JInt v \<Rightarrow> if v < minimum then Inl (BadInteger w key minimum) else Inr v
      | _ \<Rightarrow> Inl (BadInteger w key minimum))"

fun strs_from :: "nat \<Rightarrow> json list \<Rightarrow> string \<Rightarrow> string list parsed" where
  "strs_from i [] w = Inr []"
| "strs_from i (x # xs) w =
     (case x of
        JStr s \<Rightarrow> if good_string s then rbind (strs_from (Suc i) xs w) (\<lambda>ys. Inr (s # ys))
                  else Inl (BadStringItem w i)
      | _ \<Rightarrow> Inl (BadStringItem w i))"

definition strs_of :: "json \<Rightarrow> string \<Rightarrow> string list parsed" where
  "strs_of v w = rbind (list_of v w) (\<lambda>xs. strs_from 0 xs w)"

fun unique_from :: "'k set \<Rightarrow> 'k list \<Rightarrow> string \<Rightarrow> unit parsed" where
  "unique_from seen [] w = Inr ()"
| "unique_from seen (k # ks) w =
     (if k \<in> seen then Inl (DuplicateIdentifier w) else unique_from (insert k seen) ks w)"

definition unique_by :: "'a list \<Rightarrow> ('a \<Rightarrow> 'k) \<Rightarrow> string \<Rightarrow> unit parsed" where
  "unique_by items key w = unique_from {} (map key items) w"

text \<open>What the accessors accept.\<close>

lemma req_Inr: "req m key w = Inr s \<longleftrightarrow> jget m key = JStr s \<and> good_string s"
  by (auto simp: req_def split: json.splits if_splits)

lemma str_opt_Inr:
  "str_opt m key w = Inr r \<longleftrightarrow>
     (r = None \<and> jget m key = JNull) \<or> (\<exists>s. r = Some s \<and> jget m key = JStr s \<and> good_string s)"
  by (auto split: json.splits if_splits)

lemma int_opt_Inr:
  "int_opt m key w minimum = Inr r \<longleftrightarrow>
     (r = None \<and> jget m key = JNull) \<or> (\<exists>v. r = Some v \<and> jget m key = JInt v \<and> minimum \<le> v)"
  by (auto simp: int_opt_def split: json.splits if_splits)

lemma int_req_Inr: "int_req m key w minimum = Inr v \<longleftrightarrow> jget m key = JInt v \<and> minimum \<le> v"
  by (auto simp: int_req_def split: json.splits if_splits)

lemma strs_from_Inr: "strs_from i xs w = Inr ys \<longleftrightarrow> xs = map JStr ys \<and> (\<forall>y \<in> set ys. good_string y)"
proof (induction xs arbitrary: i ys)
  case (Cons x xs)
  then show ?case
    by (cases ys) (auto simp: rbind_Inr split: json.splits if_splits)
qed auto

lemma strs_Inr:
  "strs_of v w = Inr ys \<longleftrightarrow>
     (v = JNull \<and> ys = []) \<or>
     (v = JList (map JStr ys) \<and> length ys \<le> MAX_COLLECTION \<and> (\<forall>y \<in> set ys. good_string y))"
  by (cases v) (auto simp: strs_of_def rbind_Inr strs_from_Inr split: if_splits)

lemma unique_from_Inr:
  "unique_from seen ks w = Inr u \<longleftrightarrow> distinct ks \<and> set ks \<inter> seen = {}"
  by (induction ks arbitrary: seen) auto

lemma unique_Inr: "unique_by items key w = Inr u \<longleftrightarrow> distinct (map key items)"
  by (simp add: unique_by_def unique_from_Inr)

lemma list_Inr:
  "list_of v w = Inr xs \<longleftrightarrow>
     (v = JNull \<and> xs = []) \<or> (v = JList xs \<and> length xs \<le> MAX_COLLECTION)"
  by (cases v) auto

lemma obj_Inr: "obj_of v w = Inr m \<longleftrightarrow> v = JObj m"
  by (cases v) auto

lemmas accessor_simps =
  obj_Inr list_Inr req_Inr str_opt_Inr int_opt_Inr int_req_Inr strs_Inr unique_Inr

declare str_opt.simps [simp del]

section \<open>Serialization\<close>

definition hex_digit :: "nat \<Rightarrow> char" where
  "hex_digit n = (if n < 10 then char_of (48 + n) else char_of (87 + n))"

definition hex2 :: "nat \<Rightarrow> string" where
  "hex2 n = [hex_digit (n div 16), hex_digit (n mod 16)]"

text \<open>Escapes of \<open>json.dumps(\<dots>, ensure_ascii=False)\<close>.\<close>

definition json_escape :: "char \<Rightarrow> string" where
  "json_escape c = (let n = code_of c in
     if n = 34 then [CHR 0x5C, CHR 0x22]
     else if n = 92 then [CHR 0x5C, CHR 0x5C]
     else if n = 8 then [CHR 0x5C, CHR ''b'']
     else if n = 9 then [CHR 0x5C, CHR ''t'']
     else if n = 10 then [CHR 0x5C, CHR ''n'']
     else if n = 12 then [CHR 0x5C, CHR ''f'']
     else if n = 13 then [CHR 0x5C, CHR ''r'']
     else if n < 32 then CHR 0x5C # ''u00'' @ hex2 (nat n)
     else [c])"

definition json_quote :: "string \<Rightarrow> string" where
  "json_quote s = [CHR 0x22] @ concat (map json_escape s) @ [CHR 0x22]"

text \<open>
  \<open>canonical_json\<close>: sorted keys, no blanks. The values are printed before the keys are sorted,
  which the stable sort on the keys does not see.
\<close>

fun canonical_json :: "json \<Rightarrow> string" where
  "canonical_json JNull = ''null''"
| "canonical_json (JBool b) = (if b then ''true'' else ''false'')"
| "canonical_json (JInt n) = str_of_int n"
| "canonical_json (JFloat r) = r"
| "canonical_json (JStr s) = json_quote s"
| "canonical_json (JList xs) = ''['' @ join '','' (map canonical_json xs) @ '']''"
| "canonical_json (JObj kvs) =
     ''{'' @ join '','' (map (\<lambda>(k, t). json_quote k @ '':'' @ t)
                          (sort_key fst (map (\<lambda>(k, v). (k, canonical_json v)) kvs))) @ ''}''"

text \<open>\<open>digest\<close>; SHA-256 (hexadecimal) is a parameter.\<close>

definition digest :: "(string \<Rightarrow> string) \<Rightarrow> json \<Rightarrow> string" where
  "digest sha256 v = ''sha256:'' @ sha256 (canonical_json v)"

text \<open>The canonical form does not depend on the order in which an object lists its keys.\<close>

lemma insort_key_commute:
  "f x \<noteq> f y \<Longrightarrow> insort_key f x (insort_key f y zs) = insort_key f y (insort_key f x zs)"
  by (induction zs) auto

lemma sort_key_perm:
  "mset xs = mset ys \<Longrightarrow> distinct (map f xs) \<Longrightarrow> sort_key f xs = sort_key f ys"
proof (rule properties_for_sort_key[symmetric])
  assume m: "mset xs = mset ys" and d: "distinct (map f xs)"
  show "mset (sort_key f xs) = mset ys" using m by simp
  show "sorted (map f (sort_key f xs))" by simp
next
  fix k
  assume m: "mset xs = mset ys" and d: "distinct (map f xs)" and k: "k \<in> set (sort_key f xs)"
  then have kx: "k \<in> set xs" by simp
  have single: "filter (\<lambda>x. f k = f x) zs = [k]" if "mset zs = mset xs" for zs
  proof -
    have dz: "distinct (map f zs)" and kz: "k \<in> set zs"
      using that d kx by (metis mset_eq_imp_distinct_iff mset_map, metis mset_eq_setD)
    from split_list[OF kz] obtain as bs where zs: "zs = as @ k # bs" by blast
    with dz show ?thesis
      by (auto simp: filter_empty_conv image_iff)
  qed
  show "filter (\<lambda>x. f k = f x) (sort_key f xs) = filter (\<lambda>x. f k = f x) ys"
    using single[of "sort_key f xs"] single[of ys] m by simp
qed

lemma canonical_json_key_order:
  assumes "mset kvs = mset kvs'" and "distinct (map fst kvs)"
  shows "canonical_json (JObj kvs) = canonical_json (JObj kvs')"
proof -
  let ?f = "\<lambda>(k, v). (k, canonical_json v)"
  have "map fst (map ?f kvs) = map fst kvs" by (simp add: case_prod_beta)
  with assms have "sort_key fst (map ?f kvs) = sort_key fst (map ?f kvs')"
    by (intro sort_key_perm) (simp_all only: mset_map)
  then show ?thesis by simp
qed

section \<open>Python's str of a JSON value\<close>

definition repr_escape :: "int \<Rightarrow> char \<Rightarrow> string" where
  "repr_escape q c = (let n = code_of c in
     if n = q \<or> n = 92 then [CHR 0x5C, c]
     else if n = 9 then [CHR 0x5C, CHR ''t'']
     else if n = 10 then [CHR 0x5C, CHR ''n'']
     else if n = 13 then [CHR 0x5C, CHR ''r'']
     else if n < 32 \<or> (127 \<le> n \<and> n \<le> 160) \<or> n = 173 then CHR 0x5C # ''x'' @ hex2 (nat n)
     else [c])"

definition repr_str :: "string \<Rightarrow> string" where
  "repr_str s =
     (let q = (if CHR 0x27 \<in> set s \<and> CHR 0x22 \<notin> set s then 34 else 39)
      in [char_of q] @ concat (map (repr_escape q) s) @ [char_of q])"

fun py_repr :: "json \<Rightarrow> string" where
  "py_repr JNull = ''None''"
| "py_repr (JBool b) = (if b then ''True'' else ''False'')"
| "py_repr (JInt n) = str_of_int n"
| "py_repr (JFloat r) = r"
| "py_repr (JStr s) = repr_str s"
| "py_repr (JList xs) = ''['' @ join '', '' (map py_repr xs) @ '']''"
| "py_repr (JObj kvs) = ''{'' @ join '', '' (map (\<lambda>(k, v). repr_str k @ '': '' @ py_repr v) kvs) @ ''}''"

definition py_str :: "json \<Rightarrow> string" where
  "py_str v = (case v of JStr s \<Rightarrow> s | _ \<Rightarrow> py_repr v)"

text \<open>\<open>str(m.get(key, ""))[:MAX_STRING]\<close>.\<close>

definition free_text :: "(string, json) dict \<Rightarrow> string \<Rightarrow> string" where
  "free_text m key =
     (case dget m key of None \<Rightarrow> [] | Some v \<Rightarrow> take MAX_STRING (py_str v))"

lemma free_text_bound: "length (free_text m key) \<le> MAX_STRING"
  by (simp add: free_text_def split: option.splits)

end
