(* ===== verification/Reference.thy ===== *)
theory Reference
  imports Json
begin

text \<open>
  The independent reference checker, \<open>packages/afterlock_reference/__init__.py\<close>. Like the source
  it shares nothing with the engine's model: it reads the raw document itself, keeps the world as
  tuples of frozen sets, and explores every interleaving of single attacker actions and defender
  steps breadth first. This theory holds the environment, the semantics, the attacker's steps and
  the search.

  A frozenset is represented by the sorted list of its elements, so that equal sets are equal
  values; where the source iterates over a set without sorting it, the order is unspecified there
  and the sorted one here. The source reads the members of the document where it needs them and
  does not check their types: here a record is read as a whole, a missing member is a \<open>KeyError\<close>
  and a member of another type than the format's is \<open>RefType\<close>.
\<close>

section \<open>Reading the raw document\<close>

datatype ref_error =
    RefKey string
  | RefType string
  | RefValue string
  | RefIndex
  | RefUnpack
  | RefAction string

type_synonym 'a checked = "ref_error + 'a"

text \<open>\<open>m[key]\<close>, and \<open>m.get(key, [])\<close>, whose default does not replace an explicit null.\<close>

definition item :: "(string, json) dict \<Rightarrow> string \<Rightarrow> json checked" where
  "item m key = (case dget m key of None \<Rightarrow> Inl (RefKey key) | Some v \<Rightarrow> Inr v)"

fun as_str :: "string \<Rightarrow> json \<Rightarrow> string checked" where
  "as_str key (JStr s) = Inr s"
| "as_str key _ = Inl (RefType key)"

fun as_num :: "string \<Rightarrow> json \<Rightarrow> int checked" where
  "as_num key (JInt n) = Inr n"
| "as_num key _ = Inl (RefType key)"

fun as_list :: "string \<Rightarrow> json \<Rightarrow> json list checked" where
  "as_list key (JList xs) = Inr xs"
| "as_list key _ = Inl (RefType key)"

fun as_obj :: "string \<Rightarrow> json \<Rightarrow> (string, json) dict checked" where
  "as_obj key (JObj m) = Inr m"
| "as_obj key _ = Inl (RefType key)"

definition str_item :: "(string, json) dict \<Rightarrow> string \<Rightarrow> string checked" where
  "str_item m key = rbind (item m key) (as_str key)"

definition num_item :: "(string, json) dict \<Rightarrow> string \<Rightarrow> int checked" where
  "num_item m key = rbind (item m key) (as_num key)"

definition obj_item :: "(string, json) dict \<Rightarrow> string \<Rightarrow> (string, json) dict checked" where
  "obj_item m key = rbind (item m key) (as_obj key)"

definition list_item :: "(string, json) dict \<Rightarrow> string \<Rightarrow> json list checked" where
  "list_item m key = rbind (item m key) (as_list key)"

definition strs_item :: "(string, json) dict \<Rightarrow> string \<Rightarrow> string list checked" where
  "strs_item m key = rbind (list_item m key) (traverse (as_str key))"

definition list_get :: "(string, json) dict \<Rightarrow> string \<Rightarrow> json list checked" where
  "list_get m key = (case dget m key of None \<Rightarrow> Inr [] | Some v \<Rightarrow> as_list key v)"

definition strs_get :: "(string, json) dict \<Rightarrow> string \<Rightarrow> string list checked" where
  "strs_get m key = rbind (list_get m key) (traverse (as_str key))"

definition objs_get :: "(string, json) dict \<Rightarrow> string \<Rightarrow> (string, json) dict list checked" where
  "objs_get m key = rbind (list_get m key) (traverse (as_obj key))"

text \<open>\<open>m.get(key)\<close>: absent and null both read as \<open>None\<close>.\<close>

definition str_get :: "(string, json) dict \<Rightarrow> string \<Rightarrow> string option checked" where
  "str_get m key =
     (case jget m key of JNull \<Rightarrow> Inr None | v \<Rightarrow> rbind (as_str key v) (\<lambda>s. Inr (Some s)))"

definition num_get :: "(string, json) dict \<Rightarrow> string \<Rightarrow> int option checked" where
  "num_get m key =
     (case jget m key of JNull \<Rightarrow> Inr None | v \<Rightarrow> rbind (as_num key v) (\<lambda>n. Inr (Some n)))"

definition strs_opt :: "(string, json) dict \<Rightarrow> string \<Rightarrow> string list option checked" where
  "strs_opt m key =
     (case jget m key of
        JNull \<Rightarrow> Inr None
      | v \<Rightarrow> rbind (rbind (as_list key v) (traverse (as_str key))) (\<lambda>xs. Inr (Some xs)))"

text \<open>\<open>int(v)\<close>; the truncation of a float is outside the model.\<close>

fun to_int :: "json \<Rightarrow> int checked" where
  "to_int (JInt n) = Inr n"
| "to_int (JBool b) = Inr (if b then 1 else 0)"
| "to_int (JStr s) = (case py_int s of Some n \<Rightarrow> Inr n | None \<Rightarrow> Inl (RefValue s))"
| "to_int _ = Inl (RefType ''int'')"

definition int_item :: "(string, json) dict \<Rightarrow> string \<Rightarrow> int checked" where
  "int_item m key = rbind (item m key) to_int"

section \<open>The environment\<close>

text \<open>
  The rows of the environment: \<open>(ns, name, uid)\<close>, \<open>(uid, ns, name, sa, auds, ctrl)\<close>,
  \<open>(uid, ns, name, sa, auds)\<close>, \<open>(ns, name)\<close>, \<open>(ns, name, version)\<close>,
  \<open>(name, src_ns, src_name, accepted, delay, old)\<close>, and for credentials
  \<open>(id, kind, user, sa_uid, pod_uid, aud, exp)\<close>.
\<close>

type_synonym ref_sa = "string \<times> string \<times> string"
type_synonym ref_pod = "string \<times> string \<times> string \<times> string \<times> string list \<times> string option"
type_synonym ref_ctrl = "string \<times> string \<times> string \<times> string \<times> string list"
type_synonym ref_key = "string option \<times> string"
type_synonym ref_secret = "string \<times> string \<times> int"
type_synonym ref_service = "string \<times> string \<times> string \<times> int \<times> int \<times> (int \<times> int) list"
type_synonym ref_cred =
  "string \<times> string \<times> string \<times> string option \<times> string option \<times> string \<times> int option"

record ref_env =
  re_time :: int
  re_sas :: "ref_sa list"
  re_pods :: "ref_pod list"
  re_ctrls :: "ref_ctrl list"
  re_bindings :: "ref_key list"
  re_secrets :: "ref_secret list"
  re_services :: "ref_service list"
  re_counters :: "(string \<times> int) list"

definition SA_PREFIX :: string where
  "SA_PREFIX = ''system:serviceaccount:''"

definition frozenset :: "'a::linorder list \<Rightarrow> 'a list" where
  "frozenset xs = sorted_set xs"

definition sa_row :: "(string, json) dict \<Rightarrow> ref_sa checked" where
  "sa_row m =
     rbind (str_item m ''namespace'') (\<lambda>ns.
     rbind (str_item m ''name'') (\<lambda>n.
     rbind (str_item m ''uid'') (\<lambda>u. Inr (ns, n, u))))"

definition pod_row :: "(string, json) dict \<Rightarrow> ref_pod checked" where
  "pod_row m =
     rbind (str_item m ''uid'') (\<lambda>u.
     rbind (str_item m ''namespace'') (\<lambda>ns.
     rbind (str_item m ''name'') (\<lambda>n.
     rbind (str_item m ''service_account'') (\<lambda>sa.
     rbind (strs_get m ''token_audiences'') (\<lambda>auds.
     rbind (str_get m ''controller_uid'') (\<lambda>c. Inr (u, ns, n, sa, auds, c)))))))"

definition ctrl_row :: "(string, json) dict \<Rightarrow> ref_ctrl checked" where
  "ctrl_row m =
     rbind (str_item m ''uid'') (\<lambda>u.
     rbind (str_item m ''namespace'') (\<lambda>ns.
     rbind (str_item m ''name'') (\<lambda>n.
     rbind (str_item m ''service_account'') (\<lambda>sa.
     rbind (strs_get m ''token_audiences'') (\<lambda>auds. Inr (u, ns, n, sa, auds))))))"

definition binding_row :: "(string, json) dict \<Rightarrow> ref_key checked" where
  "binding_row m =
     rbind (str_get m ''namespace'') (\<lambda>ns.
     rbind (str_item m ''name'') (\<lambda>n. Inr (ns, n)))"

definition secret_row :: "(string, json) dict \<Rightarrow> ref_secret checked" where
  "secret_row m =
     rbind (str_item m ''namespace'') (\<lambda>ns.
     rbind (str_item m ''name'') (\<lambda>n.
     rbind (num_item m ''version'') (\<lambda>v. Inr (ns, n, v))))"

text \<open>\<open>int(s.get("rotation_propagation_seconds") or 0)\<close>.\<close>

definition service_row :: "(string, json) dict \<Rightarrow> ref_service checked" where
  "service_row m =
     rbind (str_item m ''name'') (\<lambda>n.
     rbind (str_item m ''source_namespace'') (\<lambda>sns.
     rbind (str_item m ''source_secret'') (\<lambda>ss.
     rbind (num_item m ''accepted_version'') (\<lambda>v.
     rbind (num_get m ''rotation_propagation_seconds'') (\<lambda>d.
     Inr (n, sns, ss, v, (case d of None \<Rightarrow> 0 | Some k \<Rightarrow> k), []))))))"

definition rows :: "(string, json) dict \<Rightarrow> string \<Rightarrow> ((string, json) dict \<Rightarrow> 'a checked) \<Rightarrow> 'a list checked" where
  "rows iv key row = rbind (objs_get iv key) (traverse row)"

definition env0 :: "(string, json) dict \<Rightarrow> int \<Rightarrow> ref_env checked" where
  "env0 iv t =
     rbind (rows iv ''service_accounts'' sa_row) (\<lambda>sas.
     rbind (rows iv ''pods'' pod_row) (\<lambda>pods.
     rbind (rows iv ''controllers'' ctrl_row) (\<lambda>ctrls.
     rbind (rows iv ''bindings'' binding_row) (\<lambda>bindings.
     rbind (rows iv ''secrets'' secret_row) (\<lambda>secrets.
     rbind (rows iv ''services'' service_row) (\<lambda>services.
     Inr \<lparr>re_time = t, re_sas = frozenset sas, re_pods = frozenset pods, re_ctrls = frozenset ctrls,
          re_bindings = frozenset bindings, re_secrets = frozenset secrets,
          re_services = frozenset services, re_counters = []\<rparr>))))))"

section \<open>The static parts\<close>

record ref_rule =
  rr_verbs :: "string list"
  rr_resources :: "string list"
  rr_names :: "string list option"

record ref_subject =
  rj_kind :: string
  rj_name :: string
  rj_namespace :: "string option"

record ref_body =
  rb_ns :: "string option"
  rb_nm :: string
  rb_kind :: string
  rb_role :: string
  rb_subjs :: "ref_subject list"

record ref_policy =
  rp_namespace :: string
  rp_kind :: string
  rp_allowed :: "(string, string list option) dict"

record ref_static =
  rs_roles :: "(ref_key, ref_rule list) dict"
  rs_binding_body :: "(ref_key, ref_body) dict"
  rs_admission :: "ref_policy list"
  rs_api_auds :: "string list"
  rs_ttl :: int
  rs_creds :: "(string, ref_cred) dict"

definition rule_of :: "(string, json) dict \<Rightarrow> ref_rule checked" where
  "rule_of m =
     rbind (strs_item m ''verbs'') (\<lambda>vs.
     rbind (strs_item m ''resources'') (\<lambda>rs.
     rbind (strs_opt m ''resource_names'') (\<lambda>ns.
     Inr \<lparr>rr_verbs = vs, rr_resources = rs, rr_names = ns\<rparr>)))"

definition role_entry :: "(string, json) dict \<Rightarrow> (ref_key \<times> ref_rule list) checked" where
  "role_entry m =
     rbind (str_get m ''namespace'') (\<lambda>ns.
     rbind (str_item m ''name'') (\<lambda>n.
     rbind (objs_get m ''rules'') (\<lambda>raws.
     rbind (traverse rule_of raws) (\<lambda>rules. Inr ((ns, n), rules)))))"

definition subject_of :: "(string, json) dict \<Rightarrow> ref_subject checked" where
  "subject_of m =
     rbind (str_item m ''kind'') (\<lambda>k.
     rbind (str_item m ''name'') (\<lambda>n.
     rbind (str_get m ''namespace'') (\<lambda>ns.
     Inr \<lparr>rj_kind = k, rj_name = n, rj_namespace = ns\<rparr>)))"

definition body_entry :: "(string, json) dict \<Rightarrow> (ref_key \<times> ref_body) checked" where
  "body_entry m =
     rbind (str_get m ''namespace'') (\<lambda>ns.
     rbind (str_item m ''name'') (\<lambda>n.
     rbind (str_item m ''role_kind'') (\<lambda>rk.
     rbind (str_item m ''role_name'') (\<lambda>rn.
     rbind (objs_get m ''subjects'') (\<lambda>raws.
     rbind (traverse subject_of raws) (\<lambda>subjects.
     Inr ((ns, n), \<lparr>rb_ns = ns, rb_nm = n, rb_kind = rk, rb_role = rn, rb_subjs = subjects\<rparr>)))))))"

text \<open>Python's truth value, for \<open>p.get("allowed_service_accounts") or {}\<close>.\<close>

fun falsy :: "json \<Rightarrow> bool" where
  "falsy JNull = True"
| "falsy (JBool b) = (\<not> b)"
| "falsy (JInt n) = (n = 0)"
| "falsy (JFloat r) = (r = ''0.0'' \<or> r = ''-0.0'')"
| "falsy (JStr s) = (s = [])"
| "falsy (JList xs) = (xs = [])"
| "falsy (JObj m) = (m = [])"

text \<open>The names of one user; an explicit null reads as \<open>None\<close>.\<close>

definition allowed_entry :: "string \<times> json \<Rightarrow> (string \<times> string list option) checked" where
  "allowed_entry kv =
     (case kv of (user, v) \<Rightarrow>
        rbind (strs_opt [(user, v)] user) (\<lambda>ns. Inr (user, ns)))"

definition allowed_of :: "(string, json) dict \<Rightarrow> (string, string list option) dict checked" where
  "allowed_of m =
     (let v = jget m ''allowed_service_accounts'' in
      rbind (if falsy v then Inr [] else as_obj ''allowed_service_accounts'' v) (traverse allowed_entry))"

definition policy_of :: "(string, json) dict \<Rightarrow> ref_policy checked" where
  "policy_of m =
     rbind (str_item m ''namespace'') (\<lambda>ns.
     rbind (str_item m ''kind'') (\<lambda>k.
     rbind (allowed_of m) (\<lambda>al.
     Inr \<lparr>rp_namespace = ns, rp_kind = k, rp_allowed = al\<rparr>)))"

definition cred_row :: "(string, json) dict \<Rightarrow> ref_cred checked" where
  "cred_row m =
     rbind (str_item m ''id'') (\<lambda>i.
     rbind (str_item m ''kind'') (\<lambda>k.
     rbind (str_item m ''username'') (\<lambda>u.
     rbind (str_get m ''sa_uid'') (\<lambda>su.
     rbind (str_get m ''bound_pod_uid'') (\<lambda>bp.
     rbind (str_item m ''audience'') (\<lambda>a.
     rbind (num_get m ''expires_at'') (\<lambda>e. Inr (i, k, u, su, bp, a, e))))))))"

definition static_of :: "(string, json) dict \<Rightarrow> ref_static checked" where
  "static_of raw =
     rbind (obj_item raw ''inventory'') (\<lambda>iv.
     rbind (rows iv ''roles'' role_entry) (\<lambda>roles.
     rbind (rows iv ''bindings'' body_entry) (\<lambda>bodies.
     rbind (rows iv ''admission_policies'' policy_of) (\<lambda>policies.
     rbind (obj_item raw ''profile'') (\<lambda>prof.
     rbind (strs_item prof ''api_audiences'') (\<lambda>auds.
     rbind (int_item prof ''projected_token_ttl_seconds'') (\<lambda>ttl.
     rbind (rows raw ''credentials'' cred_row) (\<lambda>creds.
     Inr \<lparr>rs_roles = dict_of roles [], rs_binding_body = dict_of bodies [], rs_admission = policies,
          rs_api_auds = auds, rs_ttl = ttl,
          rs_creds = dict_of (map (\<lambda>c. (fst c, c)) creds) []\<rparr>))))))))"

section \<open>Authorization, credentials, admission\<close>

definition sa_of :: "string \<Rightarrow> (string \<times> string) option" where
  "sa_of username =
     (if \<not> starts_with username SA_PREFIX then None
      else (let bits = split_on (CHR '':'') (drop (length SA_PREFIX) username)
            in if length bits = 2 \<and> list_all (\<lambda>b. b \<noteq> []) bits then Some (bits ! 0, bits ! 1) else None))"

definition rule_allows :: "ref_rule \<Rightarrow> string \<Rightarrow> string \<Rightarrow> string option \<Rightarrow> bool" where
  "rule_allows r verb resource name =
     (if \<not> (''*'' \<in> set (rr_verbs r) \<or> verb \<in> set (rr_verbs r)) then False
      else if \<not> (''*'' \<in> set (rr_resources r) \<or> resource \<in> set (rr_resources r)) then False
      else (case rr_names r of
              None \<Rightarrow> True
            | Some names \<Rightarrow> (case name of None \<Rightarrow> False | Some n \<Rightarrow> n \<in> set names)))"

definition subject_ok :: "string \<Rightarrow> (string \<times> string) option \<Rightarrow> ref_subject \<Rightarrow> bool" where
  "subject_ok user sa s =
     (if rj_kind s = ''User'' \<and> rj_name s = user then True
      else if rj_kind s = ''ServiceAccount'' \<and>
              (case sa of None \<Rightarrow> False | Some (ns, n) \<Rightarrow> (Some ns, n) = (rj_namespace s, rj_name s)) then True
      else if rj_kind s = ''Group'' \<and>
              (rj_name s = ''system:authenticated'' \<or>
               (case sa of
                  None \<Rightarrow> False
                | Some (ns, n) \<Rightarrow> rj_name s \<in> set [''system:serviceaccounts'', ''system:serviceaccounts:'' @ ns]))
      then True
      else False)"

definition body_grants ::
  "ref_static \<Rightarrow> ref_body \<Rightarrow> string \<Rightarrow> string \<Rightarrow> string \<Rightarrow> string \<Rightarrow> string option \<Rightarrow> bool" where
  "body_grants st b user verb resource ns name =
     (if rb_ns b \<noteq> None \<and> rb_ns b \<noteq> Some ns then False
      else if \<not> list_ex (subject_ok user (sa_of user)) (rb_subjs b) then False
      else (case dget (rs_roles st) (if rb_kind b = ''Role'' then rb_ns b else None, rb_role b) of
              None \<Rightarrow> False
            | Some rules \<Rightarrow> list_ex (\<lambda>r. rule_allows r verb resource name) rules))"

definition body_label :: "ref_body \<Rightarrow> string" where
  "body_label b =
     (case rb_ns b of None \<Rightarrow> ''<cluster>'' | Some s \<Rightarrow> if s = [] then ''<cluster>'' else s) @ ''/'' @ rb_nm b"

text \<open>
  \<open>st.binding_body[key]\<close> cannot fail: the bindings of the environment are keys of the static table
  and are only ever removed.
\<close>

definition granting ::
  "ref_static \<Rightarrow> ref_env \<Rightarrow> string \<Rightarrow> string \<Rightarrow> string \<Rightarrow> string \<Rightarrow> string option \<Rightarrow> string list" where
  "granting st env user verb resource ns name =
     frozenset (concat (map (\<lambda>key.
       case dget (rs_binding_body st) key of
         None \<Rightarrow> []
       | Some b \<Rightarrow> if body_grants st b user verb resource ns name then [body_label b] else [])
     (re_bindings env)))"

definition can_read :: "ref_static \<Rightarrow> ref_env \<Rightarrow> string \<Rightarrow> string \<Rightarrow> string \<Rightarrow> bool" where
  "can_read st env user ns name =
     list_ex (\<lambda>v. granting st env user v ''secrets'' ns (Some name) \<noteq> []) [''watch'', ''list'', ''get'']"

datatype ref_verdict = VOk | VBad | VUnsupported

text \<open>
  \<open>window\<close> is the pair \<open>(lo, hi)\<close> of a possible-history check, whose lower end may be open; without
  it the instant of the use is the time of the environment.
\<close>

definition expired :: "ref_env \<Rightarrow> int option \<Rightarrow> (int option \<times> int) option \<Rightarrow> bool" where
  "expired env ex window =
     (case ex of
        None \<Rightarrow> False
      | Some e \<Rightarrow>
          (case (case window of None \<Rightarrow> Some (re_time env) | Some (lo, hi) \<Rightarrow> lo) of
             None \<Rightarrow> False
           | Some earliest \<Rightarrow> \<not> earliest < e))"

definition cred_ok :: "ref_static \<Rightarrow> ref_env \<Rightarrow> ref_cred \<Rightarrow> (int option \<times> int) option \<Rightarrow> ref_verdict" where
  "cred_ok st env c window =
     (case c of (i, kind, user, uid, pod, aud, ex) \<Rightarrow>
        if kind \<noteq> ''sa_token'' then VUnsupported
        else (case sa_of user of
                None \<Rightarrow> VUnsupported
              | Some sa \<Rightarrow>
                  if expired env ex window then VBad
                  else if aud \<notin> set (rs_api_auds st) then VBad
                  else (case filter (\<lambda>(ns, n, u). (ns, n) = sa) (re_sas env) of
                          [] \<Rightarrow> VBad
                        | (_, _, u0) # _ \<Rightarrow>
                            if uid \<noteq> None \<and> Some u0 \<noteq> uid then VBad
                            else (case pod of
                                    None \<Rightarrow> VOk
                                  | Some p \<Rightarrow>
                                      (case filter (\<lambda>q. fst q = p) (re_pods env) of
                                         [] \<Rightarrow> VBad
                                       | (_, pns, _, psa, _, _) # _ \<Rightarrow> if (pns, psa) \<noteq> sa then VBad else VOk)))))"

datatype ref_admission = VAllow | VDeny | VUnsupportedPolicy

definition allowed_names :: "ref_policy \<Rightarrow> string \<Rightarrow> string list option" where
  "allowed_names p creator =
     (case dget (rp_allowed p) creator of
        Some ns \<Rightarrow> ns
      | None \<Rightarrow> (case dget (rp_allowed p) ''*'' of Some ns \<Rightarrow> ns | None \<Rightarrow> None))"

definition forbids :: "ref_policy \<Rightarrow> string \<Rightarrow> string \<Rightarrow> bool" where
  "forbids p creator sa =
     (case allowed_names p creator of
        None \<Rightarrow> False
      | Some names \<Rightarrow> ''*'' \<notin> set names \<and> sa \<notin> set names)"

definition ref_admit :: "ref_static \<Rightarrow> string \<Rightarrow> string \<Rightarrow> string \<Rightarrow> ref_admission" where
  "ref_admit st creator ns sa =
     (let relevant = filter (\<lambda>p. rp_namespace p = ns) (rs_admission st)
      in if list_ex (\<lambda>p. rp_kind p \<noteq> ''service-account-restriction'') relevant then VUnsupportedPolicy
         else fold (\<lambda>p verdict. if forbids p creator sa then VDeny else verdict) relevant VAllow)"

definition honours :: "ref_env \<Rightarrow> ref_service \<Rightarrow> int \<Rightarrow> bool" where
  "honours env svc version =
     (case svc of (_, _, _, acc, _, old) \<Rightarrow>
        if acc = version then True
        else list_ex (\<lambda>(old_version, deadline). old_version = version \<and> re_time env < deadline) old)"

section \<open>Reconciliation and defender actions\<close>

definition pod_number :: "string \<Rightarrow> int \<Rightarrow> string" where
  "pod_number base k = base @ ''-p'' @ str_of_int k"

lemma inj_pod_number: "inj (pod_number base)"
  by (simp add: inj_def pod_number_def)

function fresh_number :: "string \<Rightarrow> string list \<Rightarrow> int \<Rightarrow> int" where
  "fresh_number cuid taken k =
     (if pod_number cuid k \<in> set taken then fresh_number cuid taken (k + 1) else k)"
  by pat_completeness auto
termination
  by (relation "measure (\<lambda>(cuid, taken, k). card {j. k \<le> j \<and> pod_number cuid j \<in> set taken})")
    (simp_all add: taken_decreases inj_pod_number)

declare fresh_number.simps [simp del]

definition counter :: "(string, int) dict \<Rightarrow> string \<Rightarrow> int" where
  "counter cnt key = (case dget cnt key of None \<Rightarrow> 0 | Some k \<Rightarrow> k)"

definition restore_pod ::
  "ref_ctrl \<Rightarrow> ref_pod list \<times> (string, int) dict \<Rightarrow> ref_pod list \<times> (string, int) dict" where
  "restore_pod c s =
     (case c of (cuid, cns, cname, csa, cauds) \<Rightarrow>
      case s of (pods, cnt) \<Rightarrow>
        if list_ex (\<lambda>(_, _, _, _, _, owner). owner = Some cuid) pods then s
        else (let k = fresh_number cuid (map fst pods) (counter cnt cuid + 1)
              in (frozenset ((pod_number cuid k, cns, pod_number cname k, csa, cauds, Some cuid) # pods),
                  dset cuid k cnt)))"

definition ref_reconcile :: "ref_env \<Rightarrow> ref_env" where
  "ref_reconcile env =
     (let (pods, cnt) = fold restore_pod (sort (re_ctrls env)) (re_pods env, re_counters env)
      in env\<lparr>re_pods := pods, re_counters := frozenset cnt\<rparr>)"

definition drop_ctrls :: "string list \<Rightarrow> ref_env \<Rightarrow> ref_env" where
  "drop_ctrls gone env =
     env\<lparr>re_ctrls := filter (\<lambda>c. fst c \<notin> set gone) (re_ctrls env),
         re_pods := filter (\<lambda>(_, _, _, _, _, owner). case owner of None \<Rightarrow> True | Some u \<Rightarrow> u \<notin> set gone)
                      (re_pods env)\<rparr>"

definition rotate_credential :: "ref_env \<Rightarrow> string \<Rightarrow> ref_env" where
  "rotate_credential env service =
     (case filter (\<lambda>s. fst s = service) (re_services env) of
        [] \<Rightarrow> env
      | (name, sns, sname, acc, delay, old) # _ \<Rightarrow>
          (let cur = filter (\<lambda>(ns, n, _). (ns, n) = (sns, sname)) (re_secrets env);
               new = fold max (map (\<lambda>(_, _, v). v) cur) acc + 1;
               secs = filter (\<lambda>(ns, n, _). (ns, n) \<noteq> (sns, sname)) (re_secrets env) @
                        (if cur \<noteq> [] then [(sns, sname, new)] else []);
               old' = (if delay \<noteq> 0 then frozenset ((acc, re_time env + delay) # old) else old);
               svcs = filter (\<lambda>s. s \<noteq> (name, sns, sname, acc, delay, old)) (re_services env) @
                        [(name, sns, sname, new, delay, old')]
           in env\<lparr>re_secrets := frozenset secs, re_services := frozenset svcs\<rparr>))"

definition defend :: "ref_env \<Rightarrow> (string, json) dict \<Rightarrow> ref_env checked" where
  "defend env a =
     rbind (str_item a ''kind'') (\<lambda>k.
     if k = ''remove_binding'' then
       rbind (str_get a ''namespace'') (\<lambda>ns.
       rbind (str_item a ''name'') (\<lambda>n.
       Inr (env\<lparr>re_bindings := filter (\<lambda>b. b \<noteq> (ns, n)) (re_bindings env)\<rparr>)))
     else if k = ''delete_pod'' then
       rbind (str_item a ''uid'') (\<lambda>u.
       Inr (env\<lparr>re_pods := filter (\<lambda>p. fst p \<noteq> u) (re_pods env)\<rparr>))
     else if k = ''delete_controller'' then
       rbind (str_item a ''uid'') (\<lambda>u. Inr (drop_ctrls [u] env))
     else if k = ''delete_pods_except'' then
       rbind (strs_get a ''keep_uids'') (\<lambda>keep.
       rbind (str_item a ''namespace'') (\<lambda>ns.
       rbind (str_item a ''service_account'') (\<lambda>sa.
       Inr (env\<lparr>re_pods := filter (\<lambda>(u, pns, _, psa, _, _).
                  \<not> (pns = ns \<and> psa = sa \<and> u \<notin> set keep)) (re_pods env)\<rparr>))))
     else if k = ''delete_controllers_except'' then
       rbind (strs_get a ''keep_uids'') (\<lambda>keep.
       rbind (str_item a ''namespace'') (\<lambda>ns.
       rbind (str_item a ''service_account'') (\<lambda>sa.
       Inr (drop_ctrls
              (map fst (filter (\<lambda>(u, cns, _, csa, _). cns = ns \<and> csa = sa \<and> u \<notin> set keep)
                          (re_ctrls env))) env))))
     else if k = ''delete_service_account'' then
       rbind (str_item a ''namespace'') (\<lambda>ns.
       rbind (str_item a ''name'') (\<lambda>n.
       Inr (env\<lparr>re_sas := filter (\<lambda>(sns, sn, _). (sns, sn) \<noteq> (ns, n)) (re_sas env)\<rparr>)))
     else if k = ''rotate_downstream_credential'' then
       rbind (str_item a ''service'') (\<lambda>s. Inr (rotate_credential env s))
     else if k = ''wait'' then
       rbind (int_item a ''seconds'') (\<lambda>n. Inr (env\<lparr>re_time := re_time env + n\<rparr>))
     else Inl (RefAction k))"

end
