(* ===== verification/Explore.thy ===== *)
theory Explore
  imports Reference
begin

text \<open>
  The explicit-state exploration of the reference checker: the attacker's single steps, the goals
  of a state, the initial knowledge of each view, and \<open>explore\<close> with its two breadth-first
  searches. The generator \<open>_attacker_steps\<close> is the list of what it does in order: the states it
  yields, the notes it adds to the caller's \<open>unknown\<close>, and the one exception it can raise.
\<close>

section \<open>The attacker\<close>

record attacker =
  at_creds :: "ref_cred list"
  at_pods :: "string list"
  at_ctrls :: "string list"
  at_know :: "ref_secret list"

datatype ref_unknown = RefUnsupportedCredential string | RefUnsupportedAdmission string string string

datatype event = Yield ref_env attacker | Unknown ref_unknown | Raise ref_error

record ref_limits =
  rl_max_states :: nat
  rl_max_live :: nat

definition default_limits :: ref_limits where
  "default_limits = \<lparr>rl_max_states = 200000, rl_max_live = 2\<rparr>"

definition add_cred :: "ref_cred \<Rightarrow> attacker \<Rightarrow> attacker" where
  "add_cred c att = att\<lparr>at_creds := frozenset (c # at_creds att)\<rparr>"

definition add_pod :: "string \<Rightarrow> attacker \<Rightarrow> attacker" where
  "add_pod u att = att\<lparr>at_pods := frozenset (u # at_pods att)\<rparr>"

definition add_ctrl :: "string \<Rightarrow> attacker \<Rightarrow> attacker" where
  "add_ctrl u att = att\<lparr>at_ctrls := frozenset (u # at_ctrls att)\<rparr>"

definition add_know :: "ref_secret \<Rightarrow> attacker \<Rightarrow> attacker" where
  "add_know s att = att\<lparr>at_know := frozenset (s # at_know att)\<rparr>"

text \<open>Projected tokens of the controlled live pods; \<open>p[4] or (st.api_auds[0],)\<close>.\<close>

definition projected_id :: "string \<Rightarrow> string \<Rightarrow> string" where
  "projected_id uid aud = ''projected:'' @ uid @ '':'' @ aud"

definition projected_token :: "ref_static \<Rightarrow> ref_env \<Rightarrow> string \<Rightarrow> string \<Rightarrow> string \<Rightarrow> string \<Rightarrow> string \<Rightarrow> ref_cred" where
  "projected_token st env uid ns sa sauid aud =
     (projected_id uid aud, ''sa_token'', SA_PREFIX @ ns @ '':'' @ sa, Some sauid, Some uid, aud,
      Some (re_time env + rs_ttl st))"

definition token_events :: "ref_static \<Rightarrow> ref_env \<Rightarrow> attacker \<Rightarrow> string \<Rightarrow> event list" where
  "token_events st env att uid =
     (case dget (dict_of (map (\<lambda>p. (fst p, p)) (re_pods env)) []) uid of
        None \<Rightarrow> []
      | Some (u, ns, _, sa, auds, _) \<Rightarrow>
          (case filter (\<lambda>(sns, sn, _). (sns, sn) = (ns, sa)) (re_sas env) of
             [] \<Rightarrow> []
           | (_, _, sauid) # _ \<Rightarrow>
               if auds = [] \<and> rs_api_auds st = [] then [Raise RefIndex]
               else concat (map (\<lambda>aud.
                      let c = projected_token st env uid ns sa sauid aud
                      in if c \<in> set (at_creds att) then [] else [Yield env (add_cred c att)])
                    (if auds = [] then [hd (rs_api_auds st)] else auds))))"

text \<open>Pods owned by controlled controllers.\<close>

definition owned_events :: "ref_env \<Rightarrow> attacker \<Rightarrow> event list" where
  "owned_events env att =
     concat (map (\<lambda>(u, _, _, _, _, owner).
       case owner of
         None \<Rightarrow> []
       | Some c \<Rightarrow> if c \<in> set (at_ctrls att) \<and> u \<notin> set (at_pods att)
                   then [Yield env (add_pod u att)] else [])
     (sort (re_pods env)))"

definition read_events :: "ref_static \<Rightarrow> ref_env \<Rightarrow> attacker \<Rightarrow> string \<Rightarrow> event list" where
  "read_events st env att user =
     concat (map (\<lambda>(ns, n, v).
       if can_read st env user ns n \<and> (ns, n, v) \<notin> set (at_know att)
       then [Yield env (add_know (ns, n, v) att)] else [])
     (sort (re_secrets env)))"

definition exec_events :: "ref_static \<Rightarrow> ref_env \<Rightarrow> attacker \<Rightarrow> string \<Rightarrow> event list" where
  "exec_events st env att user =
     concat (map (\<lambda>(u, ns, n, _, _, _).
       if u \<notin> set (at_pods att) \<and> granting st env user ''create'' ''pods/exec'' ns (Some n) \<noteq> []
       then [Yield env (add_pod u att)] else [])
     (sort (re_pods env)))"

text \<open>The creation of a pod and of a deployment, numbered by a counter of the environment.\<close>

definition create_pod :: "ref_env \<Rightarrow> attacker \<Rightarrow> nat \<Rightarrow> string \<Rightarrow> string \<Rightarrow> event list" where
  "create_pod env att max_live ns sname =
     (let mine = filter (\<lambda>(u, pns, _, psa, _, _). starts_with u ''ref-pod:'' \<and> pns = ns \<and> psa = sname)
                   (re_pods env)
      in if length mine \<ge> max_live then []
         else (let n = counter (re_counters env) ''ref-pod-seq'';
                   uid = ''ref-pod:'' @ ns @ '':'' @ sname @ '':'' @ str_of_int n
               in [Yield (env\<lparr>re_pods := frozenset ((uid, ns, uid, sname, [], None) # re_pods env),
                              re_counters := frozenset (dset ''ref-pod-seq'' (n + 1) (re_counters env))\<rparr>)
                         (add_pod uid att)]))"

definition create_deployment :: "ref_env \<Rightarrow> attacker \<Rightarrow> nat \<Rightarrow> string \<Rightarrow> string \<Rightarrow> event list" where
  "create_deployment env att max_live ns sname =
     (let mine = filter (\<lambda>(u, cns, _, csa, _). starts_with u ''ref-deploy:'' \<and> cns = ns \<and> csa = sname)
                   (re_ctrls env)
      in if length mine \<ge> max_live then []
         else (let n = counter (re_counters env) ''ref-deploy-seq'';
                   uid = ''ref-deploy:'' @ ns @ '':'' @ sname @ '':'' @ str_of_int n
               in [Yield (ref_reconcile
                           (env\<lparr>re_ctrls := frozenset ((uid, ns, uid, sname, []) # re_ctrls env),
                                re_counters := frozenset (dset ''ref-deploy-seq'' (n + 1) (re_counters env))\<rparr>))
                         (add_ctrl uid att)]))"

datatype workload = WPod | WCtrl

fun workload_resource :: "workload \<Rightarrow> string" where
  "workload_resource WPod = ''pods''"
| "workload_resource WCtrl = ''deployments''"

definition create_events ::
  "ref_static \<Rightarrow> ref_env \<Rightarrow> attacker \<Rightarrow> nat \<Rightarrow> string \<Rightarrow> string \<Rightarrow> workload \<Rightarrow> event list" where
  "create_events st env att max_live user ns w =
     (if granting st env user ''create'' (workload_resource w) ns None = [] then []
      else concat (map (\<lambda>(sns, sname, _).
             if sns \<noteq> ns then []
             else (case ref_admit st user ns sname of
                     VUnsupportedPolicy \<Rightarrow> [Unknown (RefUnsupportedAdmission ns user sname)]
                   | VDeny \<Rightarrow> []
                   | VAllow \<Rightarrow> (case w of
                                  WPod \<Rightarrow> create_pod env att max_live ns sname
                                | WCtrl \<Rightarrow> create_deployment env att max_live ns sname)))
           (sort (re_sas env))))"

definition ref_namespaces :: "ref_env \<Rightarrow> string list" where
  "ref_namespaces env = sorted_set (map fst (re_sas env) @ map (fst \<circ> snd) (re_pods env))"

definition cred_events ::
  "ref_static \<Rightarrow> ref_env \<Rightarrow> attacker \<Rightarrow> ref_limits \<Rightarrow> bool \<Rightarrow> (int option \<times> int) option \<Rightarrow> ref_cred \<Rightarrow> event list" where
  "cred_events st env att lim creation window c =
     (case cred_ok st env c window of
        VUnsupported \<Rightarrow> [Unknown (RefUnsupportedCredential (fst c))]
      | VBad \<Rightarrow> []
      | VOk \<Rightarrow>
          (let user = fst (snd (snd c))
           in read_events st env att user @ exec_events st env att user @
              (if \<not> creation then []
               else concat (map (\<lambda>ns.
                      create_events st env att (rl_max_live lim) user ns WPod @
                      create_events st env att (rl_max_live lim) user ns WCtrl)
                    (ref_namespaces env)))))"

definition cred_order :: "ref_cred \<Rightarrow> string \<times> int" where
  "cred_order c = (case c of (i, _, _, _, _, _, ex) \<Rightarrow> (i, case ex of None \<Rightarrow> 0 | Some e \<Rightarrow> e))"

definition attacker_steps ::
  "ref_static \<Rightarrow> ref_env \<Rightarrow> attacker \<Rightarrow> ref_limits \<Rightarrow> bool \<Rightarrow> (int option \<times> int) option \<Rightarrow> event list" where
  "attacker_steps st env att lim creation window =
     concat (map (token_events st env att) (sort (at_pods att))) @
     owned_events env att @
     concat (map (cred_events st env att lim creation window) (sort_key cred_order (at_creds att)))"

section \<open>Goals and initial knowledge\<close>

definition goal_reached ::
  "ref_static \<Rightarrow> ref_env \<Rightarrow> attacker \<Rightarrow> (string, json) dict \<Rightarrow> bool checked" where
  "goal_reached st env att obj =
     rbind (str_item obj ''kind'') (\<lambda>k.
     if k = ''no_secret_read'' then
       rbind (str_item obj ''namespace'') (\<lambda>ns.
       rbind (str_item obj ''secret'') (\<lambda>name.
       Inr (list_ex (\<lambda>(sns, sn, _). (sns, sn) = (ns, name)) (re_secrets env) \<and>
            list_ex (\<lambda>c. cred_ok st env c None = VOk \<and> can_read st env (fst (snd (snd c))) ns name)
              (at_creds att))))
     else if re_services env = [] then Inr False
     else rbind (str_item obj ''service'') (\<lambda>s.
          Inr (list_ex (\<lambda>svc.
                 fst svc = s \<and>
                 list_ex (\<lambda>(kns, kn, kv). (kns, kn) = (fst (snd svc), fst (snd (snd svc))) \<and>
                                           honours env svc kv) (at_know att))
               (re_services env))))"

definition goals1 ::
  "ref_static \<Rightarrow> ref_env \<Rightarrow> attacker \<Rightarrow> (string, json) dict \<Rightarrow> string list \<Rightarrow> string list checked" where
  "goals1 st env att obj out =
     rbind (goal_reached st env att obj) (\<lambda>yes.
     if yes then rbind (str_item obj ''id'') (\<lambda>i. Inr (frozenset (i # out))) else Inr out)"

definition ref_goals :: "ref_static \<Rightarrow> ref_env \<Rightarrow> attacker \<Rightarrow> (string, json) dict \<Rightarrow> string list checked" where
  "ref_goals st env att raw =
     rbind (list_item raw ''objectives'') (\<lambda>os.
     rbind (traverse (as_obj ''objectives'') os) (\<lambda>objs.
     for_each (goals1 st env att) objs []))"

definition arg :: "string list \<Rightarrow> nat \<Rightarrow> string checked" where
  "arg a i = (if i < length a then Inr (a ! i) else Inl RefIndex)"

definition no_attacker :: attacker where
  "no_attacker = \<lparr>at_creds = [], at_pods = [], at_ctrls = [], at_know = []\<rparr>"

definition seed_step ::
  "(string, ref_cred) dict \<Rightarrow> (string, json) dict \<Rightarrow> attacker \<times> string list list \<Rightarrow>
     (attacker \<times> string list list) checked" where
  "seed_step table f s =
     (case s of (att, hist) \<Rightarrow>
      rbind (strs_item f ''args'') (\<lambda>a.
      rbind (str_item f ''kind'') (\<lambda>k.
      if k = ''possesses_credential'' then
        rbind (arg a 0) (\<lambda>i.
        (case dget table i of None \<Rightarrow> Inl (RefKey i) | Some c \<Rightarrow> Inr (add_cred c att, hist)))
      else if k = ''controls_pod'' then rbind (arg a 0) (\<lambda>u. Inr (add_pod u att, hist))
      else if k = ''controls_controller'' then rbind (arg a 0) (\<lambda>u. Inr (add_ctrl u att, hist))
      else if k = ''knows_secret'' then
        rbind (arg a 0) (\<lambda>ns. rbind (arg a 1) (\<lambda>n. rbind (arg a 2) (\<lambda>v.
        (case py_int v of None \<Rightarrow> Inl (RefValue v) | Some i \<Rightarrow> Inr (add_know (ns, n, i) att, hist)))))
      else if k = ''historical_pod'' then Inr (att, hist @ [a])
      else Inr (att, hist))))"

definition VIEWS :: "string list" where
  "VIEWS = [''evidence_supported'', ''conservative_possible'']"

definition skipped :: "string \<Rightarrow> (string, json) dict \<Rightarrow> bool checked" where
  "skipped view f =
     (if view = ''evidence_supported'' then rbind (str_item f ''status'') (\<lambda>s. Inr (s = ''inferred''))
      else Inr False)"

definition ref_initial ::
  "(string, ref_cred) dict \<Rightarrow> (string, json) dict \<Rightarrow> string \<Rightarrow> (attacker \<times> string list list) checked" where
  "ref_initial table raw view =
     rbind (objs_get raw ''initial_facts'') (\<lambda>fs.
     for_each (\<lambda>f s. rbind (skipped view f) (\<lambda>skip. if skip then Inr s else seed_step table f s))
       fs (no_attacker, []))"

section \<open>The searches\<close>

definition insert_unknown :: "ref_unknown \<Rightarrow> ref_unknown list \<Rightarrow> ref_unknown list" where
  "insert_unknown u us = (if u \<in> set us then us else us @ [u])"

text \<open>
  The inner loop of the history phase: the limit is tested before membership, and reaching it
  leaves the generator where it is.
\<close>

fun admit_history ::
  "nat \<Rightarrow> event list \<Rightarrow> (ref_env \<times> attacker) list \<Rightarrow> (ref_env \<times> attacker) list \<Rightarrow> ref_unknown list \<Rightarrow>
     ((ref_env \<times> attacker) list \<times> (ref_env \<times> attacker) list \<times> ref_unknown list \<times> bool) checked" where
  "admit_history n [] seen q unk = Inr (seen, q, unk, True)"
| "admit_history n (Raise e # es) seen q unk = Inl e"
| "admit_history n (Unknown u # es) seen q unk = admit_history n es seen q (insert_unknown u unk)"
| "admit_history n (Yield e a # es) seen q unk =
     (if length seen \<ge> n then Inr (seen, q, unk, False)
      else if (e, a) \<in> set seen then admit_history n es seen q unk
      else admit_history n es (seen @ [(e, a)]) (q @ [(e, a)]) unk)"

definition attacker_union :: "attacker \<Rightarrow> attacker \<Rightarrow> attacker" where
  "attacker_union a b = \<lparr>at_creds = frozenset (at_creds a @ at_creds b),
     at_pods = frozenset (at_pods a @ at_pods b),
     at_ctrls = frozenset (at_ctrls a @ at_ctrls b),
     at_know = frozenset (at_know a @ at_know b)\<rparr>"

lemma admit_history_decreases:
  "admit_history n es seen q unk = Inr (seen', q', unk', ok) \<Longrightarrow>
     (length seen' = length seen \<and> q' = q) \<or> (length seen < length seen' \<and> length seen' \<le> n)"
  by (induction n es seen q unk rule: admit_history.induct) (auto split: if_splits)

function history_search ::
  "(ref_env \<Rightarrow> attacker \<Rightarrow> event list) \<Rightarrow> nat \<Rightarrow> (ref_env \<times> attacker) list \<Rightarrow> (ref_env \<times> attacker) list \<Rightarrow>
     attacker \<Rightarrow> ref_unknown list \<Rightarrow> bool \<Rightarrow> (attacker \<times> ref_unknown list \<times> bool) checked" where
  "history_search steps n [] seen un unk complete = Inr (un, unk, complete)"
| "history_search steps n ((e, a) # q) seen un unk complete =
     (case admit_history n (steps e a) seen q unk of
        Inl err \<Rightarrow> Inl err
      | Inr (seen', q', unk', ok) \<Rightarrow>
          history_search steps n q' seen' (attacker_union un a) unk' (complete \<and> ok))"
  by pat_completeness auto
termination
  by (relation "measures [\<lambda>(steps, n, q, seen, _). n - length seen, \<lambda>(steps, n, q, _). length q]")
    (auto dest!: admit_history_decreases)

text \<open>The main phase consumes the generator first, then adds the new states until the limit.\<close>

fun drain_events :: "event list \<Rightarrow> ref_unknown list \<Rightarrow> ((ref_env \<times> attacker) list \<times> ref_unknown list) checked" where
  "drain_events [] unk = Inr ([], unk)"
| "drain_events (Raise e # es) unk = Inl e"
| "drain_events (Unknown u # es) unk = drain_events es (insert_unknown u unk)"
| "drain_events (Yield e a # es) unk = rbind (drain_events es unk) (\<lambda>(ys, unk'). Inr ((e, a) # ys, unk'))"

type_synonym ref_state = "nat \<times> ref_env \<times> attacker"

fun admit :: "nat \<Rightarrow> 's list \<Rightarrow> 's list \<Rightarrow> 's list \<Rightarrow> 's list \<times> 's list \<times> bool" where
  "admit n [] seen q = (seen, q, True)"
| "admit n (s # nxt) seen q =
     (if s \<in> set seen then admit n nxt seen q
      else if length seen \<ge> n then (seen, q, False)
      else admit n nxt (seen @ [s]) (q @ [s]))"

lemma admit_decreases:
  "admit n nxt seen q = (seen', q', ok) \<Longrightarrow>
     (length seen' = length seen \<and> q' = q) \<or> (length seen < length seen' \<and> length seen' \<le> n)"
  by (induction n nxt seen q rule: admit.induct) (auto split: if_splits)

text \<open>
  \<open>visit\<close> is what the body does with a popped state: it collects the goals and the notes and
  returns the successors.
\<close>

function search ::
  "('s \<Rightarrow> 'a \<Rightarrow> ('s list \<times> 'a) checked) \<Rightarrow> nat \<Rightarrow> 's list \<Rightarrow> 's list \<Rightarrow> 'a \<Rightarrow> ('s list \<times> 'a \<times> bool) checked" where
  "search visit n [] seen acc = Inr (seen, acc, True)"
| "search visit n (s # q) seen acc =
     (case visit s acc of
        Inl err \<Rightarrow> Inl err
      | Inr (nxt, acc') \<Rightarrow>
          (case admit n nxt seen q of
             (seen', q', ok) \<Rightarrow> if ok then search visit n q' seen' acc' else Inr (seen', acc', False)))"
  by pat_completeness auto
termination
  by (relation "measures [\<lambda>(visit, n, q, seen, _). n - length seen, \<lambda>(visit, n, q, _). length q]")
    (auto dest!: admit_decreases[OF sym])

definition defended ::
  "(string, json) dict list \<Rightarrow> ref_state \<Rightarrow> ref_state list checked" where
  "defended actions s =
     (case s of (phase, e, a) \<Rightarrow>
        if phase < length actions
        then rbind (defend e (actions ! phase)) (\<lambda>e'. Inr [(phase + 1, ref_reconcile e', a)])
        else Inr [])"

definition final_goals ::
  "ref_static \<Rightarrow> (string, json) dict \<Rightarrow> nat \<Rightarrow> ref_state \<Rightarrow> string list checked" where
  "final_goals st raw n s =
     (case s of (phase, e, a) \<Rightarrow> if phase = n then ref_goals st e a raw else Inr [])"

definition main_visit ::
  "ref_static \<Rightarrow> (string, json) dict \<Rightarrow> (string, json) dict list \<Rightarrow> ref_limits \<Rightarrow> ref_state \<Rightarrow>
     string list \<times> ref_unknown list \<Rightarrow> (ref_state list \<times> string list \<times> ref_unknown list) checked" where
  "main_visit st raw actions lim s acc =
     (case s of (phase, e, a) \<Rightarrow> case acc of (goals, unk) \<Rightarrow>
        rbind (final_goals st raw (length actions) s) (\<lambda>gs.
        rbind (drain_events (attacker_steps st e a lim True None) unk) (\<lambda>(ys, unk').
        rbind (defended actions s) (\<lambda>ds.
        Inr (map (\<lambda>(e', a'). (phase, e', a')) ys @ ds, frozenset (goals @ gs), unk')))))"

record ref_view_report =
  rv_objectives :: "string list"
  rv_states :: nat
  rv_complete :: bool
  rv_unknown :: "ref_unknown list"

fun triple :: "string list \<Rightarrow> (string \<times> string \<times> string) checked" where
  "triple [u, ns, sa] = Inr (u, ns, sa)"
| "triple _ = Inl RefUnpack"

text \<open>
  The possible-history phase of the conservative view, when there is a historical pod or a lapsed
  credential: it starts from the inventory with the historical pods added, and only what the
  attacker gains is carried forward.
\<close>

definition history_phase ::
  "ref_static \<Rightarrow> ref_limits \<Rightarrow> int option \<Rightarrow> int \<Rightarrow> ref_env \<Rightarrow> attacker \<Rightarrow> string list list \<Rightarrow>
     (attacker \<times> ref_unknown list \<times> bool) checked" where
  "history_phase st lim lo t env att hist =
     rbind (traverse triple hist) (\<lambda>hs.
     let new = filter (\<lambda>p. fst p \<notin> set (map fst (re_pods env)))
                 (map (\<lambda>(u, ns, sa). (u, ns, u, sa, [], None)) hs);
         henv = env\<lparr>re_pods := frozenset (re_pods env @ new)\<rparr>;
         att' = att\<lparr>at_pods := frozenset (at_pods att @ map fst hs)\<rparr>
     in history_search (\<lambda>e a. attacker_steps st e a lim True (Some (lo, t)))
          (rl_max_states lim) [(henv, att')] [(henv, att')] att' [] True)"

definition lapsed :: "int \<Rightarrow> attacker \<Rightarrow> bool" where
  "lapsed t att =
     list_ex (\<lambda>(_, _, _, _, _, _, ex). case ex of None \<Rightarrow> False | Some e \<Rightarrow> e \<le> t) (at_creds att)"

text \<open>
  Where the main phase starts: the reconciled inventory with what the attacker knows, after the
  history phase where the view has one.
\<close>

definition start_state ::
  "ref_static \<Rightarrow> (string, json) dict \<Rightarrow> ref_limits \<Rightarrow> string \<Rightarrow>
     (ref_state \<times> ref_unknown list \<times> bool) checked" where
  "start_state st raw lim view =
     rbind (ref_initial (rs_creds st) raw view) (\<lambda>(att, hist).
     rbind (obj_item raw ''inventory'') (\<lambda>iv.
     rbind (int_item raw ''analysis_time'') (\<lambda>t.
     rbind (env0 iv t) (\<lambda>env.
     rbind (if view = ''conservative_possible'' \<and> (hist \<noteq> [] \<or> lapsed t att)
            then rbind (num_get raw ''history_start'') (\<lambda>lo. history_phase st lim lo t env att hist)
            else Inr (att, [], True)) (\<lambda>(att', unk, history_complete).
     Inr ((0, ref_reconcile env, att'), unk, history_complete))))))"

definition explore_view ::
  "ref_static \<Rightarrow> (string, json) dict \<Rightarrow> (string, json) dict list \<Rightarrow> ref_limits \<Rightarrow> string \<Rightarrow>
     ref_view_report checked" where
  "explore_view st raw actions lim view =
     rbind (start_state st raw lim view) (\<lambda>(start, unk, history_complete).
     rbind (search (main_visit st raw actions lim) (rl_max_states lim) [start] [start] ([], unk))
       (\<lambda>(seen, (goals, unk'), complete).
     Inr \<lparr>rv_objectives = goals, rv_states = length seen,
          rv_complete = (complete \<and> history_complete), rv_unknown = unk'\<rparr>))"

definition explore :: "(string, json) dict \<Rightarrow> ref_limits \<Rightarrow> (string \<times> ref_view_report) list checked" where
  "explore raw lim =
     rbind (static_of raw) (\<lambda>st.
     rbind (objs_get raw ''remediation'') (\<lambda>actions.
     traverse (\<lambda>view. rbind (explore_view st raw actions lim view) (\<lambda>r. Inr (view, r))) VIEWS))"

end
