(* ===== verification/Replay.thy ===== *)
theory Replay
  imports Explore
begin

text \<open>
  The witness verification of the reference checker: \<open>verify_witnesses\<close> replays every witness of a
  result bundle against environments it computes itself, checks each recorded condition there, and
  reports the problems it finds. The texts of the problems are constructors that carry the values
  the source formats.
\<close>

section \<open>The replayed environments\<close>

datatype ref_object = ObjPod ref_pod | ObjCtrl ref_ctrl

type_synonym created_objects = "(int, ref_object list) dict"

text \<open>
  A model controller starts its pod counter at -1, so that the pod it is given is numbered 0.
\<close>

fun add_object :: "ref_object \<Rightarrow> ref_env \<Rightarrow> ref_env" where
  "add_object (ObjPod p) env = env\<lparr>re_pods := frozenset (p # re_pods env)\<rparr>"
| "add_object (ObjCtrl c) env =
     ref_reconcile (env\<lparr>re_ctrls := frozenset (c # re_ctrls env),
                        re_counters := frozenset (dset (fst c) (-1) (re_counters env))\<rparr>)"

definition created_at :: "created_objects \<Rightarrow> int \<Rightarrow> ref_object list" where
  "created_at created i = (case dget created i of None \<Rightarrow> [] | Some os \<Rightarrow> os)"

fun timeline_from ::
  "created_objects \<Rightarrow> (string, json) dict list \<Rightarrow> int \<Rightarrow> ref_env \<Rightarrow> ref_env list checked" where
  "timeline_from created [] i env = Inr [env]"
| "timeline_from created (a # as) i env =
     rbind (defend env a) (\<lambda>e.
     rbind (timeline_from created as (i + 1) (fold add_object (created_at created (i + 1)) (ref_reconcile e)))
       (\<lambda>envs. Inr (env # envs)))"

definition start_env :: "(string, json) dict \<Rightarrow> ref_env checked" where
  "start_env raw =
     rbind (obj_item raw ''inventory'') (\<lambda>iv.
     rbind (int_item raw ''analysis_time'') (\<lambda>t.
     rbind (env0 iv t) (\<lambda>env. Inr (ref_reconcile env))))"

definition ref_timeline :: "(string, json) dict \<Rightarrow> created_objects \<Rightarrow> ref_env list checked" where
  "ref_timeline raw created =
     rbind (start_env raw) (\<lambda>env.
     rbind (objs_get raw ''remediation'') (\<lambda>actions.
     timeline_from created actions 0 (fold add_object (created_at created 0) env)))"

type_synonym input_facts = "(string \<times> string list, string) dict"

definition history_env :: "(string, json) dict \<Rightarrow> input_facts \<Rightarrow> ref_object list \<Rightarrow> ref_env checked" where
  "history_env raw facts created =
     rbind (start_env raw) (\<lambda>env.
     rbind (traverse triple (map snd (filter (\<lambda>(k, a). k = ''historical_pod'') (dkeys facts)))) (\<lambda>hs.
     Inr (fold add_object created
            (env\<lparr>re_pods := frozenset (re_pods env @ map (\<lambda>(u, ns, sa). (u, ns, u, sa, [], None)) hs)\<rparr>))))"

definition parse_model_uid :: "string \<Rightarrow> (string \<times> string \<times> int) checked" where
  "parse_model_uid uid =
     (case split_on (CHR '':'') uid of
        [_, ns, sa, i] \<Rightarrow>
          (case py_int (drop 1 i) of None \<Rightarrow> Inl (RefValue i) | Some n \<Rightarrow> Inr (ns, sa, n))
      | _ \<Rightarrow> Inl RefUnpack)"

section \<open>Conditions\<close>

type_synonym wfact = "string list"

datatype problem =
    PremiseMissing wfact wfact
  | NoEvidence wfact
  | InferredEvidence wfact
  | IntervalOutOfRange wfact int
  | OutsideHistory wfact json
  | CredentialUnknown wfact string
  | CredentialUnusable wfact string int
  | NotAuthorized wfact string string string
  | BindingsNotGranting wfact "string list" "string list"
  | AdmissionVerdict wfact ref_admission
  | AccountAbsent wfact string string
  | PodAbsent wfact string
  | OwnershipMismatch wfact
  | SecretVersionMismatch wfact
  | NotSourced wfact
  | NotAccepted wfact
  | UnknownCondition wfact string
  | SourcePodAbsent wfact
  | SourceAccountAbsent wfact
  | SecretMismatchAt wfact int
  | GoalNotDerived
  | GoalTooEarly int int

definition unless :: "bool \<Rightarrow> problem \<Rightarrow> problem list" where
  "unless ok p = (if ok then [] else [p])"

definition check_credential ::
  "ref_static \<Rightarrow> ref_env \<Rightarrow> (string, json) dict \<Rightarrow> wfact \<Rightarrow> (string, ref_cred) dict \<Rightarrow> problem list checked" where
  "check_credential st env c f derived =
     rbind (str_item c ''credential'') (\<lambda>cid.
     Inr (case (case dget derived cid of Some cr \<Rightarrow> Some cr | None \<Rightarrow> dget (rs_creds st) cid) of
            None \<Rightarrow> [CredentialUnknown f cid]
          | Some cr \<Rightarrow> unless (cred_ok st env cr None = VOk) (CredentialUnusable f cid (re_time env))))"

definition nullable_item :: "(string, json) dict \<Rightarrow> string \<Rightarrow> string option checked" where
  "nullable_item m key = rbind (item m key) (\<lambda>_. str_get m key)"

definition check_authorized ::
  "ref_static \<Rightarrow> ref_env \<Rightarrow> (string, json) dict \<Rightarrow> wfact \<Rightarrow> problem list checked" where
  "check_authorized st env c f =
     rbind (str_item c ''username'') (\<lambda>user.
     rbind (str_item c ''verb'') (\<lambda>verb.
     rbind (str_item c ''resource'') (\<lambda>res.
     rbind (str_item c ''namespace'') (\<lambda>ns.
     rbind (nullable_item c ''name'') (\<lambda>name.
     let grants = granting st env user verb res ns name
     in if grants = [] then Inr [NotAuthorized f user verb res]
        else rbind (strs_item c ''via'') (\<lambda>via.
             Inr (unless (set via \<subseteq> set grants) (BindingsNotGranting f via grants))))))))"

definition check_admission ::
  "ref_static \<Rightarrow> (string, json) dict \<Rightarrow> wfact \<Rightarrow> problem list checked" where
  "check_admission st c f =
     rbind (str_item c ''creator'') (\<lambda>creator.
     rbind (str_item c ''namespace'') (\<lambda>ns.
     rbind (str_item c ''service_account'') (\<lambda>sa.
     let v = ref_admit st creator ns sa in Inr (unless (v = VAllow) (AdmissionVerdict f v)))))"

definition check_account :: "ref_env \<Rightarrow> (string, json) dict \<Rightarrow> wfact \<Rightarrow> problem list checked" where
  "check_account env c f =
     rbind (str_item c ''namespace'') (\<lambda>ns.
     rbind (str_item c ''name'') (\<lambda>n.
     rbind (str_get c ''uid'') (\<lambda>u.
     Inr (unless (list_ex (\<lambda>(sns, sn, su). (sns, sn) = (ns, n) \<and> (\<not> dmem ''uid'' c \<or> Some su = u)) (re_sas env))
            (AccountAbsent f ns n)))))"

definition check_owner :: "ref_env \<Rightarrow> (string, json) dict \<Rightarrow> wfact \<Rightarrow> problem list checked" where
  "check_owner env c f =
     rbind (str_item c ''pod'') (\<lambda>u.
     rbind (nullable_item c ''controller'') (\<lambda>ctrl.
     Inr (unless (list_ex (\<lambda>(pu, _, _, _, _, owner). pu = u \<and> owner = ctrl) (re_pods env))
            (OwnershipMismatch f))))"

definition check_service_sources :: "ref_env \<Rightarrow> (string, json) dict \<Rightarrow> wfact \<Rightarrow> problem list checked" where
  "check_service_sources env c f =
     rbind (str_item c ''service'') (\<lambda>s.
     rbind (str_item c ''namespace'') (\<lambda>ns.
     rbind (str_item c ''secret'') (\<lambda>sec.
     Inr (unless (list_ex (\<lambda>svc. fst svc = s \<and> (fst (snd svc), fst (snd (snd svc))) = (ns, sec)) (re_services env))
            (NotSourced f)))))"

definition check_service_accepts :: "ref_env \<Rightarrow> (string, json) dict \<Rightarrow> wfact \<Rightarrow> problem list checked" where
  "check_service_accepts env c f =
     rbind (str_item c ''service'') (\<lambda>s.
     rbind (int_item c ''version'') (\<lambda>v.
     Inr (unless (list_ex (\<lambda>svc. fst svc = s \<and> honours env svc v) (re_services env)) (NotAccepted f))))"

definition ref_check ::
  "ref_static \<Rightarrow> ref_env \<Rightarrow> (string, json) dict \<Rightarrow> wfact \<Rightarrow> (string, ref_cred) dict \<Rightarrow> problem list checked" where
  "ref_check st env c f derived =
     rbind (str_item c ''check'') (\<lambda>k.
     if k = ''credential_usable'' then check_credential st env c f derived
     else if k = ''authorized'' then check_authorized st env c f
     else if k = ''admission_allows'' then check_admission st c f
     else if k = ''service_account_exists'' then check_account env c f
     else if k = ''pod_exists'' then
       rbind (str_item c ''pod'') (\<lambda>u. Inr (unless (list_ex (\<lambda>p. fst p = u) (re_pods env)) (PodAbsent f u)))
     else if k = ''pod_owned_by_controller'' then check_owner env c f
     else if k = ''secret_version'' then
       rbind (str_item c ''namespace'') (\<lambda>ns.
       rbind (str_item c ''name'') (\<lambda>n.
       rbind (num_item c ''version'') (\<lambda>v.
       Inr (unless ((ns, n, v) \<in> set (re_secrets env)) (SecretVersionMismatch f)))))
     else if k = ''service_sources'' then check_service_sources env c f
     else if k = ''service_accepts'' then check_service_accepts env c f
     else Inr [UnknownCondition f k])"

section \<open>Steps and witnesses\<close>

record wstep =
  ws_rule :: string
  ws_fact :: wfact
  ws_interval :: int
  ws_premises :: "wfact list"
  ws_conditions :: "(string, json) dict list"

definition strs_of_json :: "string \<Rightarrow> json \<Rightarrow> string list checked" where
  "strs_of_json key v = rbind (as_list key v) (traverse (as_str key))"

definition read_step :: "(string, json) dict \<Rightarrow> wstep checked" where
  "read_step s =
     rbind (str_item s ''rule'') (\<lambda>r.
     rbind (strs_item s ''fact'') (\<lambda>f.
     rbind (num_item s ''interval'') (\<lambda>i.
     rbind (list_item s ''premises'') (\<lambda>ps.
     rbind (traverse (strs_of_json ''premises'') ps) (\<lambda>premises.
     rbind (list_item s ''conditions'') (\<lambda>cs.
     rbind (traverse (as_obj ''conditions'') cs) (\<lambda>conditions.
     Inr \<lparr>ws_rule = r, ws_fact = f, ws_interval = i, ws_premises = premises,
          ws_conditions = conditions\<rparr>)))))))"

text \<open>\<open>created.setdefault(i, []).append(...)\<close>.\<close>

definition append_object :: "int \<Rightarrow> ref_object \<Rightarrow> created_objects \<Rightarrow> created_objects" where
  "append_object i obj created = dset i (created_at created i @ [obj]) created"

definition collect_created :: "wstep \<Rightarrow> created_objects \<Rightarrow> created_objects checked" where
  "collect_created s created =
     (if ws_rule s = ''R-CREATE-POD'' then
        rbind (arg (ws_fact s) 1) (\<lambda>u.
        rbind (parse_model_uid u) (\<lambda>(ns, sa, i).
        Inr (append_object i (ObjPod (u, ns, u, sa, [], None)) created)))
      else if ws_rule s = ''R-CREATE-CONTROLLER'' then
        rbind (arg (ws_fact s) 1) (\<lambda>u.
        rbind (parse_model_uid u) (\<lambda>(ns, sa, i).
        Inr (append_object i (ObjCtrl (u, ns, u, sa, [])) created)))
      else Inr created)"

definition evidence_mapping :: "(string, string) dict" where
  "evidence_mapping =
     [(''possesses'', ''possesses_credential''), (''controls_pod'', ''controls_pod''),
      (''controls_controller'', ''controls_controller''), (''knows_secret'', ''knows_secret'')]"

definition evidence_problems :: "input_facts \<Rightarrow> string \<Rightarrow> wfact \<Rightarrow> problem list checked" where
  "evidence_problems facts view f =
     rbind (arg f 0) (\<lambda>k.
     Inr (case dget evidence_mapping k of
            None \<Rightarrow> (case dget facts (''?'', tl f) of None \<Rightarrow> [NoEvidence f] | Some s \<Rightarrow>
                       unless (\<not> (view = ''evidence_supported'' \<and> s = ''inferred'')) (InferredEvidence f))
          | Some m \<Rightarrow>
              (case dget facts (m, tl f) of
                 None \<Rightarrow> [NoEvidence f]
               | Some s \<Rightarrow> unless (\<not> (view = ''evidence_supported'' \<and> s = ''inferred'')) (InferredEvidence f))))"

text \<open>The instant a possible-history use claims, which must lie in the window.\<close>

definition claimed_time :: "(string, json) dict \<Rightarrow> int option" where
  "claimed_time c =
     (case jget c ''time'' of
        JInt n \<Rightarrow> Some n | JBool b \<Rightarrow> Some (if b then 1 else 0) | _ \<Rightarrow> None)"

definition in_window :: "int option \<Rightarrow> int \<Rightarrow> int \<Rightarrow> bool" where
  "in_window lo hi t = (\<not> (t > hi \<or> (case lo of None \<Rightarrow> False | Some l \<Rightarrow> t < l)))"

definition condition_problems ::
  "ref_static \<Rightarrow> int option \<Rightarrow> int \<Rightarrow> int \<Rightarrow> ref_env \<Rightarrow> wfact \<Rightarrow> (string, ref_cred) dict \<Rightarrow>
     (string, json) dict \<Rightarrow> problem list checked" where
  "condition_problems st lo hi i env f derived c =
     rbind (str_item c ''check'') (\<lambda>k.
     if i = -1 \<and> k = ''credential_usable'' then
       (case claimed_time c of
          None \<Rightarrow> Inr [OutsideHistory f (jget c ''time'')]
        | Some t \<Rightarrow> if in_window lo hi t then ref_check st (env\<lparr>re_time := t\<rparr>) c f derived
                    else Inr [OutsideHistory f (jget c ''time'')])
     else ref_check st env c f derived)"

definition replay_token ::
  "ref_static \<Rightarrow> ref_env \<Rightarrow> wstep \<Rightarrow> (string, ref_cred) dict \<Rightarrow>
     (problem list \<times> (string, ref_cred) dict) checked" where
  "replay_token st env s derived =
     (if ws_rule s \<noteq> ''R-OBTAIN-PROJECTED-TOKEN'' then Inr ([], derived)
      else (case ws_premises s of
              [] \<Rightarrow> Inl RefIndex
            | p # _ \<Rightarrow>
                rbind (arg p 1) (\<lambda>u.
                (case filter (\<lambda>q. fst q = u) (re_pods env) of
                   [] \<Rightarrow> Inr ([SourcePodAbsent (ws_fact s)], derived)
                 | (pu, ns, _, sa, _, _) # _ \<Rightarrow>
                     rbind (arg (ws_fact s) 1) (\<lambda>cid.
                     (case filter (\<lambda>(sns, sn, _). (sns, sn) = (ns, sa)) (re_sas env) of
                        [] \<Rightarrow> Inr ([SourceAccountAbsent (ws_fact s)], derived)
                      | (_, _, su) # _ \<Rightarrow>
                          Inr ([], dset cid
                                     (cid, ''sa_token'', SA_PREFIX @ ns @ '':'' @ sa, Some su, Some pu,
                                      drop (length (projected_id pu [])) cid,
                                      Some (re_time env + rs_ttl st)) derived)))))))"

definition replay_secret :: "ref_env \<Rightarrow> wstep \<Rightarrow> problem list checked" where
  "replay_secret env s =
     (if ws_rule s \<noteq> ''R-READ-SECRET'' then Inr []
      else
        rbind (arg (ws_fact s) 1) (\<lambda>ns.
        rbind (arg (ws_fact s) 2) (\<lambda>n.
        (case filter (\<lambda>(sns, sn, _). (sns, sn) = (ns, n)) (re_secrets env) of
           [] \<Rightarrow> Inr [SecretMismatchAt (ws_fact s) (ws_interval s)]
         | (_, _, v) # _ \<Rightarrow>
             if ws_fact s ! 0 \<noteq> ''knows_secret'' then Inr []
             else rbind (arg (ws_fact s) 3) (\<lambda>w.
                  Inr (unless (str_of_int v = w) (SecretMismatchAt (ws_fact s) (ws_interval s))))))))"

record replay_state =
  rp_established :: "wfact list"
  rp_derived :: "(string, ref_cred) dict"
  rp_problems :: "problem list"

definition report :: "problem list \<Rightarrow> replay_state \<Rightarrow> replay_state" where
  "report ps r = r\<lparr>rp_problems := rp_problems r @ ps\<rparr>"

definition establish :: "wfact \<Rightarrow> replay_state \<Rightarrow> replay_state" where
  "establish f r = r\<lparr>rp_established := f # rp_established r\<rparr>"

definition premise_problems :: "wfact list \<Rightarrow> wstep \<Rightarrow> problem list" where
  "premise_problems established s =
     map (PremiseMissing (ws_fact s)) (filter (\<lambda>p. p \<notin> set established) (ws_premises s))"

definition replay_derivation ::
  "ref_static \<Rightarrow> int option \<Rightarrow> int \<Rightarrow> ref_env \<Rightarrow> wstep \<Rightarrow> replay_state \<Rightarrow> replay_state checked" where
  "replay_derivation st lo hi env s r =
     rbind (traverse (condition_problems st lo hi (ws_interval s) env (ws_fact s) (rp_derived r))
              (ws_conditions s)) (\<lambda>pss.
     rbind (replay_token st env s (rp_derived r)) (\<lambda>(tps, derived).
     rbind (replay_secret env s) (\<lambda>sps.
     Inr (establish (ws_fact s) (report (concat pss @ tps @ sps) (r\<lparr>rp_derived := derived\<rparr>))))))"

definition replay_step ::
  "(string, json) dict \<Rightarrow> ref_static \<Rightarrow> input_facts \<Rightarrow> created_objects \<Rightarrow> ref_env list \<Rightarrow> string \<Rightarrow>
     wstep \<Rightarrow> replay_state \<Rightarrow> replay_state checked" where
  "replay_step raw st facts created envs view s r0 =
     (let i = ws_interval s; r = report (premise_problems (rp_established r0) s) r0
      in if ws_rule s = ''EVIDENCE'' then
           rbind (evidence_problems facts view (ws_fact s)) (\<lambda>ps.
           Inr (establish (ws_fact s) (report ps r)))
         else if i < -1 \<or> i > int (length envs) - 1 then
           Inr (report [IntervalOutOfRange (ws_fact s) i] r)
         else
           rbind (if i \<ge> 0 then Inr (envs ! nat i) else history_env raw facts (created_at created (-1))) (\<lambda>env.
           rbind (num_get raw ''history_start'') (\<lambda>lo.
           rbind (int_item raw ''analysis_time'') (\<lambda>hi.
           replay_derivation st lo hi env s r))))"

definition goal_problems :: "wfact \<Rightarrow> int \<Rightarrow> wstep list \<Rightarrow> replay_state \<Rightarrow> problem list" where
  "goal_problems goal n steps r =
     unless (goal \<in> set (rp_established r)) GoalNotDerived @
     (case rev (filter (\<lambda>s. ws_fact s = goal) steps) of
        [] \<Rightarrow> []
      | s # _ \<Rightarrow> unless (ws_interval s = n) (GoalTooEarly (ws_interval s) n))"

definition verify_witness ::
  "(string, json) dict \<Rightarrow> ref_static \<Rightarrow> input_facts \<Rightarrow> int \<Rightarrow> (string, json) dict \<Rightarrow>
     (string \<times> problem list) checked" where
  "verify_witness raw st facts n w =
     rbind (list_item w ''steps'') (\<lambda>raws.
     rbind (traverse (as_obj ''steps'') raws) (\<lambda>objs.
     rbind (traverse read_step objs) (\<lambda>steps.
     rbind (for_each collect_created steps []) (\<lambda>created.
     rbind (ref_timeline raw created) (\<lambda>envs.
     rbind (str_item w ''view'') (\<lambda>view.
     rbind (for_each (replay_step raw st facts created envs view) steps
              \<lparr>rp_established = [], rp_derived = [], rp_problems = []\<rparr>) (\<lambda>r.
     rbind (strs_item w ''goal'') (\<lambda>goal.
     rbind (str_item w ''id'') (\<lambda>wid.
     Inr (wid, rp_problems r @ goal_problems goal n steps r))))))))))"

definition input_fact :: "(string, json) dict \<Rightarrow> ((string \<times> string list) \<times> string) checked" where
  "input_fact f =
     rbind (str_item f ''kind'') (\<lambda>k.
     rbind (strs_item f ''args'') (\<lambda>a.
     rbind (str_item f ''status'') (\<lambda>s. Inr ((k, a), s))))"

text \<open>The report: the problems of each witness, none for a valid one.\<close>

definition verify_witnesses ::
  "(string, json) dict \<Rightarrow> (string, json) dict \<Rightarrow> (string, problem list) dict checked" where
  "verify_witnesses raw bundle =
     rbind (static_of raw) (\<lambda>st.
     rbind (rows raw ''initial_facts'' input_fact) (\<lambda>fs.
     rbind (objs_get raw ''remediation'') (\<lambda>actions.
     rbind (objs_get bundle ''witnesses'') (\<lambda>ws.
     rbind (traverse (verify_witness raw st (dict_of fs []) (int (length actions))) ws) (\<lambda>reports.
     Inr (dict_of reports []))))))"

end
