(* ===== verification/Model.thy ===== *)
theory Model
  imports Json
begin

text \<open>
  The domain model of \<open>packages/afterlock/model.py\<close>: the frozen dataclasses as records, the
  closed string vocabularies (kinds, statuses) as datatypes with a function that gives back the
  source's string, and the methods of the dataclasses. Where the source keeps a kind and a target
  tuple whose length the kind fixes (objectives, legitimate operations, initial facts), the target
  is the argument of the constructor. A \<open>frozenset\<close> is a set.
\<close>

section \<open>Service-account user names\<close>

definition SA_USER_PREFIX :: string where
  "SA_USER_PREFIX = ''system:serviceaccount:''"

definition sa_username :: "string \<Rightarrow> string \<Rightarrow> string" where
  "sa_username ns name = SA_USER_PREFIX @ ns @ '':'' @ name"

definition parse_sa_username :: "string \<Rightarrow> (string \<times> string) option" where
  "parse_sa_username username =
     (if \<not> starts_with username SA_USER_PREFIX then None
      else (case split_on (CHR '':'') (drop (length SA_USER_PREFIX) username) of
              [a, b] \<Rightarrow> if a \<noteq> [] \<and> b \<noteq> [] then Some (a, b) else None
            | _ \<Rightarrow> None))"

text \<open>The names the parser of user names can return.\<close>

definition plain_name :: "string \<Rightarrow> bool" where
  "plain_name s \<longleftrightarrow> s \<noteq> [] \<and> CHR '':'' \<notin> set s"

lemma parse_sa_username_Some:
  "parse_sa_username u = Some (ns, n) \<longleftrightarrow> u = sa_username ns n \<and> plain_name ns \<and> plain_name n"
proof
  assume a: "parse_sa_username u = Some (ns, n)"
  let ?rest = "drop (length SA_USER_PREFIX) u"
  from a have pre: "starts_with u SA_USER_PREFIX"
    and sp: "split_on (CHR '':'') ?rest = [ns, n]" and ne: "ns \<noteq> []" "n \<noteq> []"
    by (auto simp: parse_sa_username_def split: if_splits list.splits)
  have "?rest = ns @ '':'' @ n"
    using join_split_on[of "CHR '':''" ?rest] by (simp add: sp)
  moreover have "CHR '':'' \<notin> set ns" "CHR '':'' \<notin> set n"
    using split_on_pieces[of _ "CHR '':''" ?rest] by (simp_all add: sp)
  ultimately show "u = sa_username ns n \<and> plain_name ns \<and> plain_name n"
    using starts_with_drop[OF pre] ne by (simp add: sa_username_def plain_name_def)
next
  assume "u = sa_username ns n \<and> plain_name ns \<and> plain_name n"
  then show "parse_sa_username u = Some (ns, n)"
    by (simp add: parse_sa_username_def sa_username_def plain_name_def split_on_append_sep split_on_no_sep)
qed

lemma parse_sa_username_roundtrip:
  "plain_name ns \<Longrightarrow> plain_name n \<Longrightarrow> parse_sa_username (sa_username ns n) = Some (ns, n)"
  by (simp add: parse_sa_username_Some)

section \<open>Inventory objects\<close>

record service_account =
  sa_namespace :: string
  sa_name :: string
  sa_uid :: string

definition sa_user :: "service_account \<Rightarrow> string" where
  "sa_user s = sa_username (sa_namespace s) (sa_name s)"

record pod =
  pod_namespace :: string
  pod_name :: string
  pod_uid :: string
  pod_service_account :: string
  pod_token_audiences :: "string list"
  pod_controller_uid :: "string option"

record controller =
  ctrl_namespace :: string
  ctrl_name :: string
  ctrl_uid :: string
  ctrl_service_account :: string
  ctrl_token_audiences :: "string list"

record policy_rule =
  rule_verbs :: "string set"
  rule_resources :: "string set"
  rule_resource_names :: "string set option"

text \<open>\<open>PolicyRule.matches\<close>.\<close>

definition rule_matches :: "policy_rule \<Rightarrow> string \<Rightarrow> string \<Rightarrow> string option \<Rightarrow> bool" where
  "rule_matches r verb resource name =
     (if ''*'' \<notin> rule_verbs r \<and> verb \<notin> rule_verbs r then False
      else if ''*'' \<notin> rule_resources r \<and> resource \<notin> rule_resources r then False
      else (case rule_resource_names r of
              None \<Rightarrow> True
            | Some names \<Rightarrow> (case name of None \<Rightarrow> False | Some n \<Rightarrow> n \<in> names)))"

record role =
  role_namespace :: "string option"
  role_name :: string
  role_rules :: "policy_rule list"

datatype subject_kind = SubjServiceAccount | SubjUser | SubjGroup

record subject =
  subj_kind :: subject_kind
  subj_name :: string
  subj_namespace :: "string option"

datatype role_kind = KindRole | KindClusterRole

record role_binding =
  rb_namespace :: "string option"
  rb_name :: string
  rb_role_kind :: role_kind
  rb_role_name :: string
  rb_subjects :: "subject list"

text \<open>\<open>RoleBinding.key\<close>, and the pair that identifies a binding in the environment.\<close>

definition binding_label :: "string option \<Rightarrow> string \<Rightarrow> string" where
  "binding_label ns name = (case ns of None \<Rightarrow> ''<cluster>'' | Some n \<Rightarrow> n) @ ''/'' @ name"

definition rb_key :: "role_binding \<Rightarrow> string" where
  "rb_key b = binding_label (rb_namespace b) (rb_name b)"

record secret =
  sec_namespace :: string
  sec_name :: string
  sec_uid :: string
  sec_version :: int

record downstream_service =
  svc_name :: string
  svc_source_namespace :: string
  svc_source_secret :: string
  svc_accepted_version :: int
  svc_rotation_propagation_seconds :: int
  svc_grace :: "(int \<times> int) list"

text \<open>\<open>DownstreamService.accepts\<close>: the current version, or an old one within its grace.\<close>

definition svc_accepts :: "downstream_service \<Rightarrow> int \<Rightarrow> int \<Rightarrow> bool" where
  "svc_accepts s version time =
     (if version = svc_accepted_version s then True
      else list_ex (\<lambda>(v, until). v = version \<and> time < until) (svc_grace s))"

record admission_policy =
  adm_namespace :: string
  adm_name :: string
  adm_kind :: string
  adm_allowed_service_accounts :: "(string \<times> string list) list"

definition adm_supported :: "admission_policy \<Rightarrow> bool" where
  "adm_supported p \<longleftrightarrow> adm_kind p = ''service-account-restriction''"

record inventory =
  inv_service_accounts :: "service_account list"
  inv_pods :: "pod list"
  inv_controllers :: "controller list"
  inv_roles :: "role list"
  inv_bindings :: "role_binding list"
  inv_secrets :: "secret list"
  inv_services :: "downstream_service list"
  inv_admission_policies :: "admission_policy list"

section \<open>Attacker-state facts, actions, objectives\<close>

datatype epistemic = Observed | Assumed | Inferred

fun epistemic_name :: "epistemic \<Rightarrow> string" where
  "epistemic_name Observed = ''observed''"
| "epistemic_name Assumed = ''assumed''"
| "epistemic_name Inferred = ''inferred''"

record credential_spec =
  cred_id :: string
  cred_kind :: string
  cred_username :: string
  cred_sa_uid :: "string option"
  cred_bound_pod_uid :: "string option"
  cred_audience :: string
  cred_expires_at :: "int option"

datatype seed =
    SeedPossessesCredential string
  | SeedControlsPod string
  | SeedControlsController string
  | SeedKnowsSecret string string string
  | SeedHistoricalPod string string string

fun seed_kind :: "seed \<Rightarrow> string" where
  "seed_kind (SeedPossessesCredential _) = ''possesses_credential''"
| "seed_kind (SeedControlsPod _) = ''controls_pod''"
| "seed_kind (SeedControlsController _) = ''controls_controller''"
| "seed_kind (SeedKnowsSecret _ _ _) = ''knows_secret''"
| "seed_kind (SeedHistoricalPod _ _ _) = ''historical_pod''"

fun seed_args :: "seed \<Rightarrow> string list" where
  "seed_args (SeedPossessesCredential c) = [c]"
| "seed_args (SeedControlsPod u) = [u]"
| "seed_args (SeedControlsController u) = [u]"
| "seed_args (SeedKnowsSecret ns n v) = [ns, n, v]"
| "seed_args (SeedHistoricalPod u ns sa) = [u, ns, sa]"

record initial_fact =
  if_seed :: seed
  if_status :: epistemic
  if_evidence :: "string list"
  if_note :: string

datatype action_kind =
    RemoveBinding | DeletePod | DeleteController | DeleteServiceAccount
  | DeletePodsExcept | DeleteControllersExcept | RotateDownstreamCredential | Wait

fun action_kind_name :: "action_kind \<Rightarrow> string" where
  "action_kind_name RemoveBinding = ''remove_binding''"
| "action_kind_name DeletePod = ''delete_pod''"
| "action_kind_name DeleteController = ''delete_controller''"
| "action_kind_name DeleteServiceAccount = ''delete_service_account''"
| "action_kind_name DeletePodsExcept = ''delete_pods_except''"
| "action_kind_name DeleteControllersExcept = ''delete_controllers_except''"
| "action_kind_name RotateDownstreamCredential = ''rotate_downstream_credential''"
| "action_kind_name Wait = ''wait''"

record defender_action =
  act_kind :: action_kind
  act_params :: "(string \<times> string) list"

text \<open>\<open>DefenderAction.param\<close>, \<open>opt\<close>, \<open>label\<close> and \<open>to_json\<close>.\<close>

fun lookup_param :: "(string \<times> string) list \<Rightarrow> string \<Rightarrow> string option" where
  "lookup_param [] key = None"
| "lookup_param ((k, v) # ps) key = (if k = key then Some v else lookup_param ps key)"

definition act_opt :: "defender_action \<Rightarrow> string \<Rightarrow> string option" where
  "act_opt a key = lookup_param (act_params a) key"

definition act_param :: "defender_action \<Rightarrow> string \<Rightarrow> string parsed" where
  "act_param a key =
     (case lookup_param (act_params a) key of
        Some v \<Rightarrow> Inr v
      | None \<Rightarrow> Inl (MissingParameter (action_kind_name (act_kind a)) key))"

definition act_label :: "defender_action \<Rightarrow> string" where
  "act_label a = action_kind_name (act_kind a) @ ''('' @
     join '', '' (map (\<lambda>(k, v). k @ ''='' @ v) (act_params a)) @ '')''"

text \<open>\<open>[x for x in v.split(",") if x]\<close>.\<close>

definition keep_list :: "string \<Rightarrow> string list" where
  "keep_list v = filter (\<lambda>x. x \<noteq> []) (split_on (CHR '','') v)"

definition param_json :: "string \<times> string \<Rightarrow> (string \<times> json) parsed" where
  "param_json kv = (case kv of (k, v) \<Rightarrow>
     if k = ''seconds'' then
       (case py_int v of Some n \<Rightarrow> Inr (k, JInt n) | None \<Rightarrow> Inl (ValueErr v))
     else if k = ''keep_uids'' then Inr (k, JList (map JStr (keep_list v)))
     else Inr (k, JStr v))"

definition act_to_json :: "defender_action \<Rightarrow> json parsed" where
  "act_to_json a =
     rbind (traverse param_json (act_params a))
       (\<lambda>kvs. Inr (JObj (dict_of kvs [(''kind'', JStr (action_kind_name (act_kind a)))])))"

datatype goal_target = NoSecretRead string string | NoDownstreamUse string

record objective =
  obj_id :: string
  obj_target :: goal_target
  obj_description :: string

datatype legit_target = LegitReadSecret string string | LegitUseDownstream string

record legitimate_operation =
  leg_id :: string
  leg_pod_uid :: string
  leg_target :: legit_target
  leg_description :: string

record coverage_gap =
  gap_id :: string
  gap_kind :: string
  gap_description :: string
  gap_evidence :: "string list"

record profile =
  prof_id :: string
  prof_kubernetes_version :: string
  prof_api_audiences :: "string list"
  prof_projected_token_ttl_seconds :: int

record bounds =
  max_intervals :: int
  max_derivations :: int
  max_states :: int

record analysis_input =
  inp_case_id :: string
  inp_cluster_id :: string
  inp_analysis_time :: int
  inp_profile :: profile
  inp_inventory :: inventory
  inp_credentials :: "credential_spec list"
  inp_initial_facts :: "initial_fact list"
  inp_remediation :: "defender_action list"
  inp_objectives :: "objective list"
  inp_legitimate_operations :: "legitimate_operation list"
  inp_coverage_gaps :: "coverage_gap list"
  inp_assumptions :: "string list"
  inp_bounds :: bounds
  inp_raw_digest :: string
  inp_history_start :: "int option"

text \<open>\<open>AnalysisInput.credential\<close> and \<open>with_remediation\<close>.\<close>

fun find_credential :: "credential_spec list \<Rightarrow> string \<Rightarrow> credential_spec parsed" where
  "find_credential [] cid = Inl (UnknownCredential cid)"
| "find_credential (c # cs) cid = (if cred_id c = cid then Inr c else find_credential cs cid)"

definition inp_credential :: "analysis_input \<Rightarrow> string \<Rightarrow> credential_spec parsed" where
  "inp_credential inp cid = find_credential (inp_credentials inp) cid"

definition with_remediation :: "analysis_input \<Rightarrow> defender_action list \<Rightarrow> analysis_input" where
  "with_remediation inp as = inp\<lparr>inp_remediation := as\<rparr>"

section \<open>Facts about the methods\<close>

lemma rule_matches_iff:
  "rule_matches r verb resource name \<longleftrightarrow>
     (''*'' \<in> rule_verbs r \<or> verb \<in> rule_verbs r) \<and>
     (''*'' \<in> rule_resources r \<or> resource \<in> rule_resources r) \<and>
     (rule_resource_names r = None \<or>
       (\<exists>names n. rule_resource_names r = Some names \<and> name = Some n \<and> n \<in> names))"
  by (auto simp: rule_matches_def split: option.splits)

lemma svc_accepts_iff:
  "svc_accepts s v t \<longleftrightarrow>
     v = svc_accepted_version s \<or> (\<exists>until. (v, until) \<in> set (svc_grace s) \<and> t < until)"
  by (auto simp: svc_accepts_def list_ex_iff)

lemma svc_accepts_antimono: "svc_accepts s v t \<Longrightarrow> t' \<le> t \<Longrightarrow> svc_accepts s v t'"
  by (fastforce simp: svc_accepts_iff)

lemma lookup_param_map_of: "lookup_param ps key = map_of ps key"
  by (induction ps key rule: lookup_param.induct) simp_all

lemma find_credential_Inr:
  "find_credential cs cid = Inr c \<Longrightarrow> c \<in> set cs \<and> cred_id c = cid"
  by (induction cs cid rule: find_credential.induct) (auto split: if_splits)

lemma find_credential_total:
  "cid \<in> cred_id ` set cs \<Longrightarrow> \<exists>c. find_credential cs cid = Inr c"
  by (induction cs cid rule: find_credential.induct) auto

lemma keep_list_join:
  assumes "\<forall>k \<in> set ks. k \<noteq> [] \<and> CHR '','' \<notin> set k"
  shows "keep_list (join '','' ks) = ks"
proof (cases "ks = []")
  case True
  then show ?thesis by (simp add: keep_list_def)
next
  case False
  with assms show ?thesis
    by (auto simp: keep_list_def split_on_join filter_id_conv)
qed

end
