(* ===== verification/Parse.thy ===== *)
theory Parse
  imports Model
begin

text \<open>
  The parser of \<open>model.py\<close>: from the raw \<open>afterlock.analysis-input/1\<close> document to the typed
  input, every check in the order of the source, and what a document that is accepted is known to
  satisfy: identifiers are unique, references resolve, the reserved prefixes are free, there is an
  objective.
\<close>

section \<open>Small helpers\<close>

definition MODEL_POD_PREFIX :: string where "MODEL_POD_PREFIX = ''model-pod:''"
definition MODEL_DEPLOY_PREFIX :: string where "MODEL_DEPLOY_PREFIX = ''model-deploy:''"

definition reserved_uid :: "string \<Rightarrow> bool" where
  "reserved_uid uid \<longleftrightarrow> starts_with uid MODEL_POD_PREFIX \<or> starts_with uid MODEL_DEPLOY_PREFIX"

definition not_reserved :: "string \<Rightarrow> string \<Rightarrow> unit parsed" where
  "not_reserved uid w = guard (\<not> reserved_uid uid) (ReservedUid w uid)"

text \<open>Python's truth value, for \<open>x or {}\<close>.\<close>

fun truthy :: "json \<Rightarrow> bool" where
  "truthy JNull = False"
| "truthy (JBool b) = b"
| "truthy (JInt n) = (n \<noteq> 0)"
| "truthy (JFloat r) = (r \<noteq> ''0.0'' \<and> r \<noteq> ''-0.0'')"
| "truthy (JStr s) = (s \<noteq> [])"
| "truthy (JList xs) = (xs \<noteq> [])"
| "truthy (JObj m) = (m \<noteq> [])"

definition or_empty_obj :: "json \<Rightarrow> json" where
  "or_empty_obj v = (if truthy v then v else JObj [])"

definition or_empty :: "string option \<Rightarrow> string" where
  "or_empty ns = (case ns of None \<Rightarrow> [] | Some s \<Rightarrow> s)"

definition opt_strs :: "(string, json) dict \<Rightarrow> string \<Rightarrow> string \<Rightarrow> string list parsed" where
  "opt_strs m key w = (if dmem key m then strs_of (jget m key) w else Inr [])"

section \<open>Profile and inventory\<close>

definition parse_profile :: "(string, json) dict \<Rightarrow> profile parsed" where
  "parse_profile raw =
     rbind (int_req raw ''projected_token_ttl_seconds'' ''profile'' 1) (\<lambda>ttl.
     rbind (strs_of (jget raw ''api_audiences'') ''profile.api_audiences'') (\<lambda>auds.
     rbind (guard (auds \<noteq> []) EmptyAudiences) (\<lambda>_.
     rbind (req raw ''id'' ''profile'') (\<lambda>i.
     rbind (req raw ''kubernetes_version'' ''profile'') (\<lambda>kv.
     Inr \<lparr>prof_id = i, prof_kubernetes_version = kv, prof_api_audiences = auds,
          prof_projected_token_ttl_seconds = ttl\<rparr>)))))"

definition parse_rule :: "string \<Rightarrow> json \<Rightarrow> policy_rule parsed" where
  "parse_rule w raw =
     rbind (obj_of raw w) (\<lambda>m.
     rbind (strs_of (jget m ''verbs'') (w @ ''.verbs'')) (\<lambda>verbs.
     rbind (strs_of (jget m ''resources'') (w @ ''.resources'')) (\<lambda>resources.
     rbind (guard (verbs \<noteq> [] \<and> resources \<noteq> []) (VerbsAndResourcesRequired w)) (\<lambda>_.
     rbind (case jget m ''resource_names'' of
              JNull \<Rightarrow> Inr None
            | v \<Rightarrow> rbind (strs_of v (w @ ''.resource_names'')) (\<lambda>ns. Inr (Some (set ns)))) (\<lambda>names.
     Inr \<lparr>rule_verbs = set verbs, rule_resources = set resources, rule_resource_names = names\<rparr>)))))"

definition parse_service_account :: "json \<Rightarrow> service_account parsed" where
  "parse_service_account x =
     rbind (obj_of x ''inventory.service_accounts'') (\<lambda>m.
     rbind (req m ''namespace'' ''inventory'') (\<lambda>ns.
     rbind (req m ''name'' ''inventory'') (\<lambda>n.
     rbind (req m ''uid'' ''inventory'') (\<lambda>u.
     Inr \<lparr>sa_namespace = ns, sa_name = n, sa_uid = u\<rparr>))))"

definition parse_pod :: "json \<Rightarrow> pod parsed" where
  "parse_pod x =
     rbind (obj_of x ''inventory.pods'') (\<lambda>m.
     rbind (opt_strs m ''token_audiences'' ''inventory.pods.token_audiences'') (\<lambda>auds.
     rbind (req m ''namespace'' ''inventory'') (\<lambda>ns.
     rbind (req m ''name'' ''inventory'') (\<lambda>n.
     rbind (req m ''uid'' ''inventory'') (\<lambda>u.
     rbind (req m ''service_account'' ''inventory'') (\<lambda>sa.
     rbind (str_opt m ''controller_uid'' ''inventory'') (\<lambda>c.
     Inr \<lparr>pod_namespace = ns, pod_name = n, pod_uid = u, pod_service_account = sa,
          pod_token_audiences = auds, pod_controller_uid = c\<rparr>)))))))"

definition parse_controller :: "json \<Rightarrow> controller parsed" where
  "parse_controller x =
     rbind (obj_of x ''inventory.controllers'') (\<lambda>m.
     rbind (opt_strs m ''token_audiences'' ''inventory.controllers.token_audiences'') (\<lambda>auds.
     rbind (req m ''namespace'' ''inventory'') (\<lambda>ns.
     rbind (req m ''name'' ''inventory'') (\<lambda>n.
     rbind (req m ''uid'' ''inventory'') (\<lambda>u.
     rbind (req m ''service_account'' ''inventory'') (\<lambda>sa.
     Inr \<lparr>ctrl_namespace = ns, ctrl_name = n, ctrl_uid = u, ctrl_service_account = sa,
          ctrl_token_audiences = auds\<rparr>))))))"

definition parse_role :: "json \<Rightarrow> role parsed" where
  "parse_role x =
     rbind (obj_of x ''inventory.roles'') (\<lambda>m.
     rbind (list_of (jget m ''rules'') ''inventory.roles.rules'') (\<lambda>rs.
     rbind (traverse (parse_rule ''inventory.roles.rules'') rs) (\<lambda>rules.
     rbind (str_opt m ''namespace'' ''inventory'') (\<lambda>ns.
     rbind (req m ''name'' ''inventory'') (\<lambda>n.
     Inr \<lparr>role_namespace = ns, role_name = n, role_rules = rules\<rparr>)))))"

definition parse_subject_kind :: "string \<Rightarrow> subject_kind parsed" where
  "parse_subject_kind k =
     (if k = ''ServiceAccount'' then Inr SubjServiceAccount
      else if k = ''User'' then Inr SubjUser
      else if k = ''Group'' then Inr SubjGroup
      else Inl (UnsupportedSubjectKind k))"

definition parse_subject :: "json \<Rightarrow> subject parsed" where
  "parse_subject x =
     rbind (obj_of x ''inventory.bindings.subjects'') (\<lambda>m.
     rbind (req m ''kind'' ''inventory'') (\<lambda>ks.
     rbind (parse_subject_kind ks) (\<lambda>k.
     rbind (str_opt m ''namespace'' ''inventory'') (\<lambda>ns.
     rbind (guard (\<not> (k = SubjServiceAccount \<and> ns = None)) SubjectNeedsNamespace) (\<lambda>_.
     rbind (req m ''name'' ''inventory'') (\<lambda>n.
     Inr \<lparr>subj_kind = k, subj_name = n, subj_namespace = ns\<rparr>))))))"

definition parse_role_kind :: "string \<Rightarrow> role_kind parsed" where
  "parse_role_kind k =
     (if k = ''Role'' then Inr KindRole
      else if k = ''ClusterRole'' then Inr KindClusterRole
      else Inl (UnsupportedRoleKind k))"

definition parse_binding :: "json \<Rightarrow> role_binding parsed" where
  "parse_binding x =
     rbind (obj_of x ''inventory.bindings'') (\<lambda>m.
     rbind (req m ''role_kind'' ''inventory'') (\<lambda>ks.
     rbind (parse_role_kind ks) (\<lambda>k.
     rbind (str_opt m ''namespace'' ''inventory'') (\<lambda>ns.
     rbind (guard (\<not> (ns = None \<and> k = KindRole)) (ClusterBindingNeedsClusterRole ''inventory'')) (\<lambda>_.
     rbind (list_of (jget m ''subjects'') ''inventory.bindings.subjects'') (\<lambda>ss.
     rbind (traverse parse_subject ss) (\<lambda>subjects.
     rbind (req m ''name'' ''inventory'') (\<lambda>n.
     rbind (req m ''role_name'' ''inventory'') (\<lambda>rn.
     Inr \<lparr>rb_namespace = ns, rb_name = n, rb_role_kind = k, rb_role_name = rn,
          rb_subjects = subjects\<rparr>)))))))))"

definition parse_secret :: "json \<Rightarrow> secret parsed" where
  "parse_secret x =
     rbind (obj_of x ''inventory.secrets'') (\<lambda>m.
     rbind (guard (\<not> (dmem ''data'' m \<or> dmem ''string_data'' m \<or> dmem ''stringData'' m))
              (SecretBodySupplied ''inventory'')) (\<lambda>_.
     rbind (int_req m ''version'' ''inventory'' 1) (\<lambda>v.
     rbind (req m ''namespace'' ''inventory'') (\<lambda>ns.
     rbind (req m ''name'' ''inventory'') (\<lambda>n.
     rbind (req m ''uid'' ''inventory'') (\<lambda>u.
     Inr \<lparr>sec_namespace = ns, sec_name = n, sec_uid = u, sec_version = v\<rparr>))))))"

definition parse_service :: "json \<Rightarrow> downstream_service parsed" where
  "parse_service x =
     rbind (obj_of x ''inventory.services'') (\<lambda>m.
     rbind (int_req m ''accepted_version'' ''inventory'' 1) (\<lambda>v.
     rbind (int_opt m ''rotation_propagation_seconds'' ''inventory'' 0) (\<lambda>d.
     rbind (req m ''name'' ''inventory'') (\<lambda>n.
     rbind (req m ''source_namespace'' ''inventory'') (\<lambda>sns.
     rbind (req m ''source_secret'' ''inventory'') (\<lambda>ss.
     Inr \<lparr>svc_name = n, svc_source_namespace = sns, svc_source_secret = ss,
          svc_accepted_version = v,
          svc_rotation_propagation_seconds = (case d of None \<Rightarrow> 0 | Some k \<Rightarrow> k),
          svc_grace = []\<rparr>))))))"

definition parse_policy :: "json \<Rightarrow> admission_policy parsed" where
  "parse_policy x =
     rbind (obj_of x ''inventory.admission_policies'') (\<lambda>m.
     rbind (obj_of (or_empty_obj (jget m ''allowed_service_accounts'')) ''inventory'') (\<lambda>al.
     rbind (traverse (\<lambda>(k, v). rbind (strs_of v ''inventory.admission_policies.allowed'')
                                  (\<lambda>ns. Inr (k, ns))) al) (\<lambda>allowed.
     rbind (req m ''namespace'' ''inventory'') (\<lambda>ns.
     rbind (req m ''name'' ''inventory'') (\<lambda>n.
     rbind (req m ''kind'' ''inventory'') (\<lambda>k.
     Inr \<lparr>adm_namespace = ns, adm_name = n, adm_kind = k,
          adm_allowed_service_accounts = sort allowed\<rparr>))))))"

text \<open>The checks across the collections, in the order of the source.\<close>

definition check_inventory :: "inventory \<Rightarrow> unit parsed" where
  "check_inventory i =
     rbind (unique_by (inv_service_accounts i) sa_uid ''inventory.service_accounts uid'') (\<lambda>_.
     rbind (unique_by (inv_service_accounts i) (\<lambda>s. (sa_namespace s, sa_name s))
              ''inventory.service_accounts name'') (\<lambda>_.
     rbind (unique_by (inv_pods i) pod_uid ''inventory.pods uid'') (\<lambda>_.
     rbind (unique_by (inv_pods i) (\<lambda>p. (pod_namespace p, pod_name p)) ''inventory.pods name'') (\<lambda>_.
     rbind (unique_by (inv_controllers i) ctrl_uid ''inventory.controllers uid'') (\<lambda>_.
     rbind (unique_by (inv_roles i) (\<lambda>r. (role_namespace r, role_name r)) ''inventory.roles'') (\<lambda>_.
     rbind (unique_by (inv_bindings i) (\<lambda>b. (rb_namespace b, rb_name b)) ''inventory.bindings'') (\<lambda>_.
     rbind (unique_by (inv_secrets i) (\<lambda>s. (sec_namespace s, sec_name s)) ''inventory.secrets'') (\<lambda>_.
     rbind (unique_by (inv_services i) svc_name ''inventory.services'') (\<lambda>_.
     rbind (traverse (\<lambda>u. not_reserved u ''inventory'')
              (map pod_uid (inv_pods i) @ map ctrl_uid (inv_controllers i))) (\<lambda>_.
     rbind (traverse (\<lambda>p. case pod_controller_uid p of
                            None \<Rightarrow> Inr ()
                          | Some c \<Rightarrow> guard (c \<in> set (map ctrl_uid (inv_controllers i)))
                                        (UnknownControllerRef (pod_uid p) c)) (inv_pods i)) (\<lambda>_.
     Inr ())))))))))))"

text \<open>
  The tuples are sorted by the dataclass order. Where a uniqueness check has made a prefix of the
  fields a key, the comparison never looks past it.
\<close>

definition sort_inventory :: "inventory \<Rightarrow> inventory" where
  "sort_inventory i = \<lparr>
     inv_service_accounts = sort_key (\<lambda>s. (sa_namespace s, sa_name s)) (inv_service_accounts i),
     inv_pods = sort_key (\<lambda>p. (pod_namespace p, pod_name p)) (inv_pods i),
     inv_controllers = sort_key (\<lambda>c. (ctrl_namespace c, ctrl_name c, ctrl_uid c)) (inv_controllers i),
     inv_roles = sort_key (\<lambda>r. (or_empty (role_namespace r), role_name r)) (inv_roles i),
     inv_bindings = sort_key (\<lambda>b. (or_empty (rb_namespace b), rb_name b)) (inv_bindings i),
     inv_secrets = sort_key (\<lambda>s. (sec_namespace s, sec_name s)) (inv_secrets i),
     inv_services = sort_key svc_name (inv_services i),
     inv_admission_policies =
       sort_key (\<lambda>p. (adm_namespace p, adm_name p, adm_kind p, adm_allowed_service_accounts p))
         (inv_admission_policies i)\<rparr>"

definition parse_items :: "(string, json) dict \<Rightarrow> string \<Rightarrow> string \<Rightarrow> (json \<Rightarrow> 'a parsed) \<Rightarrow> 'a list parsed" where
  "parse_items raw key w f = rbind (list_of (jget raw key) w) (traverse f)"

definition parse_inventory :: "(string, json) dict \<Rightarrow> inventory parsed" where
  "parse_inventory raw =
     rbind (parse_items raw ''service_accounts'' ''inventory'' parse_service_account) (\<lambda>sas.
     rbind (parse_items raw ''pods'' ''inventory.pods'' parse_pod) (\<lambda>pods.
     rbind (parse_items raw ''controllers'' ''inventory.controllers'' parse_controller) (\<lambda>ctrls.
     rbind (parse_items raw ''roles'' ''inventory.roles'' parse_role) (\<lambda>roles.
     rbind (parse_items raw ''bindings'' ''inventory.bindings'' parse_binding) (\<lambda>bindings.
     rbind (parse_items raw ''secrets'' ''inventory.secrets'' parse_secret) (\<lambda>secrets.
     rbind (parse_items raw ''services'' ''inventory.services'' parse_service) (\<lambda>services.
     rbind (parse_items raw ''admission_policies'' ''inventory.admission_policies'' parse_policy) (\<lambda>policies.
     let i = \<lparr>inv_service_accounts = sas, inv_pods = pods, inv_controllers = ctrls,
              inv_roles = roles, inv_bindings = bindings, inv_secrets = secrets,
              inv_services = services, inv_admission_policies = policies\<rparr>
     in rbind (check_inventory i) (\<lambda>_. Inr (sort_inventory i))))))))))"

section \<open>Defender actions\<close>

definition action_kind_of :: "string \<Rightarrow> string \<Rightarrow> action_kind parsed" where
  "action_kind_of w k =
     (if k = ''remove_binding'' then Inr RemoveBinding
      else if k = ''delete_pod'' then Inr DeletePod
      else if k = ''delete_controller'' then Inr DeleteController
      else if k = ''delete_service_account'' then Inr DeleteServiceAccount
      else if k = ''delete_pods_except'' then Inr DeletePodsExcept
      else if k = ''delete_controllers_except'' then Inr DeleteControllersExcept
      else if k = ''rotate_downstream_credential'' then Inr RotateDownstreamCredential
      else if k = ''wait'' then Inr Wait
      else Inl (UnsupportedAction w k))"

fun required_params :: "action_kind \<Rightarrow> string list" where
  "required_params RemoveBinding = [''name'']"
| "required_params DeletePod = [''uid'']"
| "required_params DeleteController = [''uid'']"
| "required_params DeleteServiceAccount = [''namespace'', ''name'']"
| "required_params DeletePodsExcept = [''namespace'', ''service_account'']"
| "required_params DeleteControllersExcept = [''namespace'', ''service_account'']"
| "required_params RotateDownstreamCredential = [''service'']"
| "required_params Wait = []"

definition parse_keep :: "string \<Rightarrow> (string, json) dict \<Rightarrow> (string \<times> string) list parsed" where
  "parse_keep w m =
     rbind (strs_of (jget m ''keep_uids'') (w @ ''.keep_uids'')) (\<lambda>ks.
     let keep = sorted_set ks in
     rbind (guard (\<not> list_ex (\<lambda>k. CHR '','' \<in> set k) keep) (CommaInKeepUids w)) (\<lambda>_.
     Inr [(''keep_uids'', join '','' keep)]))"

text \<open>The parameters a kind has beyond its required ones.\<close>

definition parse_extra_params :: "string \<Rightarrow> action_kind \<Rightarrow> (string, json) dict \<Rightarrow> (string \<times> string) list parsed" where
  "parse_extra_params w kind m =
     (case kind of
        DeletePodsExcept \<Rightarrow> parse_keep w m
      | DeleteControllersExcept \<Rightarrow> parse_keep w m
      | RemoveBinding \<Rightarrow>
          rbind (str_opt m ''namespace'' w) (\<lambda>ns.
          Inr (case ns of None \<Rightarrow> [] | Some n \<Rightarrow> [(''namespace'', n)]))
      | Wait \<Rightarrow> rbind (int_req m ''seconds'' w 1) (\<lambda>s. Inr [(''seconds'', str_of_int s)])
      | _ \<Rightarrow> Inr [])"

definition parse_action :: "json \<Rightarrow> string \<Rightarrow> defender_action parsed" where
  "parse_action raw w =
     rbind (obj_of raw w) (\<lambda>m.
     rbind (req m ''kind'' w) (\<lambda>ks.
     rbind (action_kind_of w ks) (\<lambda>kind.
     rbind (traverse (\<lambda>key. rbind (req m key w) (\<lambda>v. Inr (key, v))) (required_params kind)) (\<lambda>params.
     rbind (if kind = DeletePod \<or> kind = DeleteController
            then (case lookup_param params ''uid'' of
                    Some u \<Rightarrow> not_reserved u w | None \<Rightarrow> Inl (MissingParameter ks ''uid''))
            else Inr ()) (\<lambda>_.
     rbind (parse_extra_params w kind m) (\<lambda>more.
     let extra = filter (\<lambda>k. k \<notin> set ([''kind'', ''namespace''] @ required_params kind @ [''seconds'', ''keep_uids'']))
                   (dkeys m)
     in rbind (guard (extra = []) (UnknownFields w (sort extra))) (\<lambda>_.
     Inr \<lparr>act_kind = kind, act_params = sort (params @ more)\<rparr>)))))))"

fun parse_actions_from :: "nat \<Rightarrow> json list \<Rightarrow> string \<Rightarrow> defender_action list parsed" where
  "parse_actions_from i [] w = Inr []"
| "parse_actions_from i (x # xs) w =
     rbind (parse_action x (w @ ''['' @ str_of_nat i @ '']'')) (\<lambda>a.
     rbind (parse_actions_from (Suc i) xs w) (\<lambda>as. Inr (a # as)))"

definition parse_actions :: "json \<Rightarrow> string \<Rightarrow> defender_action list parsed" where
  "parse_actions raw w = rbind (list_of raw w) (\<lambda>xs. parse_actions_from 0 xs w)"

section \<open>The analysis input\<close>

definition parse_credential :: "json \<Rightarrow> credential_spec parsed" where
  "parse_credential x =
     rbind (obj_of x ''credentials'') (\<lambda>m.
     rbind (req m ''id'' ''credentials'') (\<lambda>i.
     rbind (req m ''kind'' ''credentials'') (\<lambda>k.
     rbind (req m ''username'' ''credentials'') (\<lambda>u.
     rbind (str_opt m ''sa_uid'' ''credentials'') (\<lambda>su.
     rbind (str_opt m ''bound_pod_uid'' ''credentials'') (\<lambda>bp.
     rbind (req m ''audience'' ''credentials'') (\<lambda>a.
     rbind (int_opt m ''expires_at'' ''credentials'' 0) (\<lambda>e.
     Inr \<lparr>cred_id = i, cred_kind = k, cred_username = u, cred_sa_uid = su,
          cred_bound_pod_uid = bp, cred_audience = a, cred_expires_at = e\<rparr>))))))))"

definition fact_arity :: "string \<Rightarrow> nat option" where
  "fact_arity k =
     (if k = ''possesses_credential'' \<or> k = ''controls_pod'' \<or> k = ''controls_controller'' then Some 1
      else if k = ''knows_secret'' \<or> k = ''historical_pod'' then Some 3
      else None)"

definition seed_of :: "string \<Rightarrow> string list \<Rightarrow> seed parsed" where
  "seed_of k args =
     (case args of
        [a] \<Rightarrow> if k = ''possesses_credential'' then Inr (SeedPossessesCredential a)
               else if k = ''controls_pod'' then Inr (SeedControlsPod a)
               else if k = ''controls_controller'' then Inr (SeedControlsController a)
               else Inl (FactArity k 1)
      | [a, b, c] \<Rightarrow> if k = ''knows_secret'' then Inr (SeedKnowsSecret a b c)
                     else if k = ''historical_pod'' then Inr (SeedHistoricalPod a b c)
                     else Inl (FactArity k 3)
      | _ \<Rightarrow> Inl (FactArity k (length args)))"

definition epistemic_of :: "string \<Rightarrow> epistemic parsed" where
  "epistemic_of s =
     (if s = ''observed'' then Inr Observed
      else if s = ''assumed'' then Inr Assumed
      else if s = ''inferred'' then Inr Inferred
      else Inl (UnknownStatus s))"

text \<open>The checks that depend on what the fact says.\<close>

fun check_seed :: "string set \<Rightarrow> seed \<Rightarrow> unit parsed" where
  "check_seed cred_ids (SeedPossessesCredential c) = guard (c \<in> cred_ids) (UnknownCredential c)"
| "check_seed cred_ids (SeedControlsPod u) = not_reserved u ''initial_facts''"
| "check_seed cred_ids (SeedControlsController u) = not_reserved u ''initial_facts''"
| "check_seed cred_ids (SeedHistoricalPod u _ _) = not_reserved u ''initial_facts''"
| "check_seed cred_ids (SeedKnowsSecret _ _ v) =
     (case py_int v of Some n \<Rightarrow> guard (1 \<le> n) BadSecretVersion | None \<Rightarrow> Inl BadSecretVersion)"

definition parse_fact :: "string set \<Rightarrow> json \<Rightarrow> initial_fact parsed" where
  "parse_fact cred_ids x =
     rbind (obj_of x ''initial_facts'') (\<lambda>m.
     rbind (req m ''kind'' ''initial_facts'') (\<lambda>kind.
     rbind (case fact_arity kind of None \<Rightarrow> Inl (UnsupportedFactKind kind) | Some n \<Rightarrow> Inr n) (\<lambda>arity.
     rbind (strs_of (jget m ''args'') ''initial_facts.args'') (\<lambda>args.
     rbind (guard (length args = arity) (FactArity kind arity)) (\<lambda>_.
     rbind (seed_of kind args) (\<lambda>seed.
     rbind (req m ''status'' ''initial_facts'') (\<lambda>st.
     rbind (epistemic_of st) (\<lambda>status.
     rbind (check_seed cred_ids seed) (\<lambda>_.
     rbind (strs_of (jget m ''evidence'') ''initial_facts.evidence'') (\<lambda>ev.
     Inr \<lparr>if_seed = seed, if_status = status, if_evidence = ev, if_note = free_text m ''note''\<rparr>))))))))))"

definition parse_objective :: "json \<Rightarrow> objective parsed" where
  "parse_objective x =
     rbind (obj_of x ''objectives'') (\<lambda>m.
     rbind (req m ''kind'' ''objectives'') (\<lambda>kind.
     rbind (guard (kind = ''no_secret_read'' \<or> kind = ''no_downstream_use'')
              (UnsupportedObjectiveKind kind)) (\<lambda>_.
     rbind (if kind = ''no_secret_read''
            then rbind (req m ''namespace'' ''objectives'') (\<lambda>ns.
                 rbind (req m ''secret'' ''objectives'') (\<lambda>s. Inr (NoSecretRead ns s)))
            else rbind (req m ''service'' ''objectives'') (\<lambda>s. Inr (NoDownstreamUse s))) (\<lambda>t.
     rbind (req m ''id'' ''objectives'') (\<lambda>i.
     Inr \<lparr>obj_id = i, obj_target = t, obj_description = free_text m ''description''\<rparr>)))))"

definition parse_legit :: "json \<Rightarrow> legitimate_operation parsed" where
  "parse_legit x =
     rbind (obj_of x ''legitimate_operations'') (\<lambda>m.
     rbind (req m ''kind'' ''legitimate_operations'') (\<lambda>kind.
     rbind (guard (kind = ''read_secret'' \<or> kind = ''use_downstream'') (UnsupportedLegitKind kind)) (\<lambda>_.
     rbind (if kind = ''read_secret''
            then rbind (req m ''namespace'' ''legitimate_operations'') (\<lambda>ns.
                 rbind (req m ''secret'' ''legitimate_operations'') (\<lambda>s. Inr (LegitReadSecret ns s)))
            else rbind (req m ''service'' ''legitimate_operations'') (\<lambda>s. Inr (LegitUseDownstream s))) (\<lambda>t.
     rbind (req m ''id'' ''legitimate_operations'') (\<lambda>i.
     rbind (req m ''pod_uid'' ''legitimate_operations'') (\<lambda>p.
     Inr \<lparr>leg_id = i, leg_pod_uid = p, leg_target = t, leg_description = free_text m ''description''\<rparr>))))))"

definition parse_gap :: "json \<Rightarrow> coverage_gap parsed" where
  "parse_gap x =
     rbind (obj_of x ''coverage_gaps'') (\<lambda>m.
     rbind (req m ''id'' ''coverage_gaps'') (\<lambda>i.
     rbind (req m ''kind'' ''coverage_gaps'') (\<lambda>k.
     rbind (strs_of (jget m ''evidence'') ''coverage_gaps.evidence'') (\<lambda>ev.
     Inr \<lparr>gap_id = i, gap_kind = k, gap_description = free_text m ''description'', gap_evidence = ev\<rparr>))))"

definition or_default :: "int option \<Rightarrow> int \<Rightarrow> int" where
  "or_default x d = (case x of None \<Rightarrow> d | Some v \<Rightarrow> if v = 0 then d else v)"

definition parse_bounds :: "json \<Rightarrow> bounds parsed" where
  "parse_bounds raw =
     rbind (obj_of (or_empty_obj raw) ''bounds'') (\<lambda>b.
     rbind (int_opt b ''max_intervals'' ''bounds'' 1) (\<lambda>mi.
     rbind (int_opt b ''max_derivations'' ''bounds'' 1) (\<lambda>md.
     rbind (int_opt b ''max_states'' ''bounds'' 1) (\<lambda>ms.
     Inr \<lparr>max_intervals = or_default mi 64, max_derivations = or_default md 100000,
          max_states = or_default ms 200000\<rparr>))))"

definition schema_major :: "json \<Rightarrow> int parsed" where
  "schema_major v =
     (case v of
        JStr s \<Rightarrow>
          if \<not> starts_with s ''afterlock.analysis-input/'' then Inl UnrecognizedSchema
          else (case py_int (hd (split_on (CHR ''.'') (last (split_on (CHR 0x2F) s)))) of
                  Some n \<Rightarrow> Inr n | None \<Rightarrow> Inl MalformedSchemaVersion)
      | _ \<Rightarrow> Inl UnrecognizedSchema)"

definition seed_sort_key :: "initial_fact \<Rightarrow> string \<times> string list \<times> string \<times> string list \<times> string" where
  "seed_sort_key f = (seed_kind (if_seed f), seed_args (if_seed f), epistemic_name (if_status f),
     if_evidence f, if_note f)"

definition parse_analysis_input :: "(string \<Rightarrow> string) \<Rightarrow> json \<Rightarrow> analysis_input parsed" where
  "parse_analysis_input sha256 doc =
     rbind (obj_of doc ''analysis input'') (\<lambda>raw.
     rbind (schema_major (jget raw ''schema'')) (\<lambda>major.
     rbind (guard (major = 1) (UnsupportedSchemaMajor major)) (\<lambda>_.
     rbind (int_req raw ''analysis_time'' ''analysis input'' 0) (\<lambda>t.
     rbind (int_opt raw ''history_start'' ''analysis input'' 0) (\<lambda>hs.
     rbind (guard (case hs of None \<Rightarrow> True | Some h \<Rightarrow> h \<le> t) HistoryAfterAnalysis) (\<lambda>_.
     rbind (obj_of (jget raw ''profile'') ''profile'') (\<lambda>pm.
     rbind (parse_profile pm) (\<lambda>prof.
     rbind (obj_of (jget raw ''inventory'') ''inventory'') (\<lambda>im.
     rbind (parse_inventory im) (\<lambda>iv.
     rbind (parse_items raw ''credentials'' ''credentials'' parse_credential) (\<lambda>creds.
     rbind (unique_by creds cred_id ''credentials'') (\<lambda>_.
     rbind (parse_items raw ''initial_facts'' ''initial_facts'' (parse_fact (set (map cred_id creds)))) (\<lambda>facts.
     rbind (parse_items raw ''objectives'' ''objectives'' parse_objective) (\<lambda>objectives.
     rbind (guard (objectives \<noteq> []) NoObjective) (\<lambda>_.
     rbind (unique_by objectives obj_id ''objectives'') (\<lambda>_.
     rbind (parse_items raw ''legitimate_operations'' ''legitimate_operations'' parse_legit) (\<lambda>legit.
     rbind (unique_by legit leg_id ''legitimate_operations'') (\<lambda>_.
     rbind (parse_items raw ''coverage_gaps'' ''coverage_gaps'' parse_gap) (\<lambda>gaps.
     rbind (parse_bounds (jget raw ''bounds'')) (\<lambda>bnds.
     rbind (parse_actions (jget raw ''remediation'') ''remediation'') (\<lambda>rem.
     rbind (guard (\<not> int (length rem) + 1 > max_intervals bnds) RemediationTooLong) (\<lambda>_.
     rbind (req raw ''case_id'' ''analysis input'') (\<lambda>case_id.
     rbind (req raw ''cluster_id'' ''analysis input'') (\<lambda>cluster_id.
     rbind (strs_of (jget raw ''assumptions'') ''assumptions'') (\<lambda>assumptions.
     Inr \<lparr>inp_case_id = case_id, inp_cluster_id = cluster_id, inp_analysis_time = t,
          inp_profile = prof, inp_inventory = iv,
          inp_credentials = sort_key cred_id creds,
          inp_initial_facts = sort_key seed_sort_key facts,
          inp_remediation = rem,
          inp_objectives = sort_key obj_id objectives,
          inp_legitimate_operations = sort_key leg_id legit,
          inp_coverage_gaps = sort_key gap_id gaps,
          inp_assumptions = assumptions, inp_bounds = bnds,
          inp_raw_digest = digest sha256 doc, inp_history_start = hs\<rparr>)))))))))))))))))))))))))"

end
