(* ===== verification/Semantics.thy ===== *)
theory Semantics
  imports Parse
begin

text \<open>
  The supported Kubernetes semantics, \<open>packages/afterlock/semantics.py\<close>: the environment of an
  analysis interval, role-based authorization, the usability of credentials, admission, the
  controllers' reconciliation, the defender actions and the legitimate operations. The environment
  is passed and returned instead of mutated, so \<open>clone\<close> is the identity. The explanatory strings
  (reasons, notes) are constructors that carry the values the source formats.
\<close>

section \<open>The environment\<close>

record env =
  e_time :: int
  e_service_accounts :: "(string \<times> string, service_account) dict"
  e_pods :: "(string, pod) dict"
  e_controllers :: "(string, controller) dict"
  e_roles :: "(string option \<times> string, role) dict"
  e_bindings :: "(string option \<times> string, role_binding) dict"
  e_secrets :: "(string \<times> string, secret) dict"
  e_services :: "(string, downstream_service) dict"
  e_admission :: "admission_policy list"
  e_controller_pod_counter :: "(string, int) dict"

definition from_inventory :: "inventory \<Rightarrow> int \<Rightarrow> env" where
  "from_inventory i t = \<lparr>
     e_time = t,
     e_service_accounts = dict_of (map (\<lambda>s. ((sa_namespace s, sa_name s), s)) (inv_service_accounts i)) [],
     e_pods = dict_of (map (\<lambda>p. (pod_uid p, p)) (inv_pods i)) [],
     e_controllers = dict_of (map (\<lambda>c. (ctrl_uid c, c)) (inv_controllers i)) [],
     e_roles = dict_of (map (\<lambda>r. ((role_namespace r, role_name r), r)) (inv_roles i)) [],
     e_bindings = dict_of (map (\<lambda>b. ((rb_namespace b, rb_name b), b)) (inv_bindings i)) [],
     e_secrets = dict_of (map (\<lambda>s. ((sec_namespace s, sec_name s), s)) (inv_secrets i)) [],
     e_services = dict_of (map (\<lambda>s. (svc_name s, s)) (inv_services i)) [],
     e_admission = inv_admission_policies i,
     e_controller_pod_counter = []\<rparr>"

definition namespaces :: "env \<Rightarrow> string list" where
  "namespaces env =
     sorted_set (map fst (dkeys (e_service_accounts env)) @ map pod_namespace (dvals (e_pods env)))"

section \<open>RBAC\<close>

definition SECRET_READ_VERBS :: "string list" where
  "SECRET_READ_VERBS = [''get'', ''list'', ''watch'']"

definition subject_matches1 :: "string \<Rightarrow> (string \<times> string) option \<Rightarrow> subject \<Rightarrow> bool" where
  "subject_matches1 username sa s =
     (if subj_kind s = SubjServiceAccount \<and>
         (case sa of None \<Rightarrow> False | Some (ns, n) \<Rightarrow> subj_namespace s = Some ns \<and> subj_name s = n)
      then True
      else if subj_kind s = SubjUser \<and> subj_name s = username then True
      else if subj_kind s = SubjGroup then
        (if subj_name s = ''system:authenticated'' then True
         else (case sa of
                 None \<Rightarrow> False
               | Some (ns, n) \<Rightarrow> subj_name s = ''system:serviceaccounts'' \<or>
                                 subj_name s = ''system:serviceaccounts:'' @ ns))
      else False)"

definition subject_matches :: "role_binding \<Rightarrow> string \<Rightarrow> bool" where
  "subject_matches b username =
     list_ex (subject_matches1 username (parse_sa_username username)) (rb_subjects b)"

text \<open>The body of the loop of \<open>authorizing_bindings\<close>: does this binding grant the request?\<close>

definition binding_grants ::
  "env \<Rightarrow> role_binding \<Rightarrow> string \<Rightarrow> string \<Rightarrow> string \<Rightarrow> string \<Rightarrow> string option \<Rightarrow> bool" where
  "binding_grants env b username verb resource namespace name =
     (if rb_namespace b \<noteq> None \<and> rb_namespace b \<noteq> Some namespace then False
      else if \<not> subject_matches b username then False
      else (case dget (e_roles env)
                   (if rb_role_kind b = KindRole then rb_namespace b else None, rb_role_name b) of
              None \<Rightarrow> False
            | Some r \<Rightarrow> list_ex (\<lambda>rule. rule_matches rule verb resource name) (role_rules r)))"

definition sorted_bindings :: "env \<Rightarrow> role_binding list" where
  "sorted_bindings env =
     map snd (sort_key (\<lambda>kb. (or_empty (fst (fst kb)), snd (fst kb))) (e_bindings env))"

definition authorizing_bindings ::
  "env \<Rightarrow> string \<Rightarrow> string \<Rightarrow> string \<Rightarrow> string \<Rightarrow> string option \<Rightarrow> string list" where
  "authorizing_bindings env username verb resource namespace name =
     map rb_key (filter (\<lambda>b. binding_grants env b username verb resource namespace name)
                   (sorted_bindings env))"

section \<open>Credentials\<close>

datatype reason =
    KindUnsupported string string
  | ExpiredAt int bool int
  | AudienceRejected string
  | NotServiceAccount string
  | AccountGone string string
  | AccountRecreated string string
  | BoundPodGone string
  | BoundPodOtherAccount string string
  | AllChecksPass

record usability =
  us_usable :: bool
  us_supported :: bool
  us_reasons :: "reason list"

definition expiry_reasons :: "credential_spec \<Rightarrow> bool \<Rightarrow> int \<Rightarrow> reason list" where
  "expiry_reasons c now time =
     (case cred_expires_at c of
        Some e \<Rightarrow> if time \<ge> e then [ExpiredAt e now time] else []
      | None \<Rightarrow> [])"

definition account_reasons :: "env \<Rightarrow> credential_spec \<Rightarrow> string \<times> string \<Rightarrow> reason list" where
  "account_reasons env c sa =
     (case dget (e_service_accounts env) sa of
        None \<Rightarrow> [AccountGone (fst sa) (snd sa)]
      | Some acct \<Rightarrow>
          (case cred_sa_uid c of
             Some u \<Rightarrow> if sa_uid acct \<noteq> u then [AccountRecreated (fst sa) (snd sa)] else []
           | None \<Rightarrow> []))"

definition bound_pod_reasons :: "env \<Rightarrow> credential_spec \<Rightarrow> string \<times> string \<Rightarrow> reason list" where
  "bound_pod_reasons env c sa =
     (case cred_bound_pod_uid c of
        None \<Rightarrow> []
      | Some u \<Rightarrow>
          (case dget (e_pods env) u of
             None \<Rightarrow> [BoundPodGone u]
           | Some p \<Rightarrow> if (pod_namespace p, pod_service_account p) \<noteq> sa
                       then [BoundPodOtherAccount u (cred_username c)] else []))"

text \<open>Each failed check appends a reason and clears \<open>ok\<close>, so \<open>ok\<close> is \<open>no reason so far\<close>.\<close>

definition credential_usable :: "env \<Rightarrow> credential_spec \<Rightarrow> profile \<Rightarrow> int option \<Rightarrow> usability" where
  "credential_usable env c prof at =
     (if cred_kind c \<noteq> ''sa_token'' then
        \<lparr>us_usable = False, us_supported = False, us_reasons = [KindUnsupported (cred_kind c) (prof_id prof)]\<rparr>
      else
        (let time = (case at of None \<Rightarrow> e_time env | Some t \<Rightarrow> t);
             r1 = expiry_reasons c (at = None) time;
             r2 = (if cred_audience c \<notin> set (prof_api_audiences prof)
                   then [AudienceRejected (cred_audience c)] else [])
         in (case parse_sa_username (cred_username c) of
               None \<Rightarrow> \<lparr>us_usable = False, us_supported = False,
                        us_reasons = [NotServiceAccount (cred_username c)]\<rparr>
             | Some sa \<Rightarrow>
                 (let bad = r1 @ r2 @ account_reasons env c sa @ bound_pod_reasons env c sa
                  in \<lparr>us_usable = (bad = []), us_supported = True,
                      us_reasons = (if bad = [] then [AllChecksPass] else bad)\<rparr>))))"

section \<open>Admission\<close>

datatype adm_outcome = AdmAllow | AdmDeny | AdmUnsupported

record admission_result =
  ad_outcome :: adm_outcome
  ad_policies :: "string list"

text \<open>\<open>allowed.get(creator, allowed.get("*"))\<close>.\<close>

definition policy_names :: "admission_policy \<Rightarrow> string \<Rightarrow> string list option" where
  "policy_names p creator =
     (let allowed = dict_of (adm_allowed_service_accounts p) []
      in case dget allowed creator of Some ns \<Rightarrow> Some ns | None \<Rightarrow> dget allowed ''*'')"

definition policy_denies :: "admission_policy \<Rightarrow> string \<Rightarrow> string \<Rightarrow> bool" where
  "policy_denies p creator sa =
     (case policy_names p creator of
        None \<Rightarrow> False
      | Some names \<Rightarrow> ''*'' \<notin> set names \<and> sa \<notin> set names)"

fun admission_loop :: "admission_policy list \<Rightarrow> string \<Rightarrow> string \<Rightarrow> admission_result option" where
  "admission_loop [] creator sa = None"
| "admission_loop (p # ps) creator sa =
     (if policy_denies p creator sa then Some \<lparr>ad_outcome = AdmDeny, ad_policies = [adm_name p]\<rparr>
      else admission_loop ps creator sa)"

definition admission_decision :: "env \<Rightarrow> string \<Rightarrow> string \<Rightarrow> string \<Rightarrow> admission_result" where
  "admission_decision env creator namespace sa =
     (let relevant = filter (\<lambda>p. adm_namespace p = namespace) (e_admission env);
          unsupported = map adm_name (filter (\<lambda>p. \<not> adm_supported p) relevant)
      in if unsupported \<noteq> [] then \<lparr>ad_outcome = AdmUnsupported, ad_policies = sort unsupported\<rparr>
         else (case admission_loop relevant creator sa of
                 Some d \<Rightarrow> d
               | None \<Rightarrow> \<lparr>ad_outcome = AdmAllow, ad_policies = sort (map adm_name relevant)\<rparr>))"

section \<open>Reconciliation\<close>

definition model_pod_uid :: "string \<Rightarrow> string \<Rightarrow> int \<Rightarrow> string" where
  "model_pod_uid namespace sa interval =
     MODEL_POD_PREFIX @ namespace @ '':'' @ sa @ '':i'' @ str_of_int interval"

definition model_controller_uid :: "string \<Rightarrow> string \<Rightarrow> int \<Rightarrow> string" where
  "model_controller_uid namespace sa interval =
     MODEL_DEPLOY_PREFIX @ namespace @ '':'' @ sa @ '':i'' @ str_of_int interval"

definition numbered :: "string \<Rightarrow> int \<Rightarrow> string" where
  "numbered base k = base @ ''-p'' @ str_of_int k"

lemma numbered_inject [simp]: "numbered b k = numbered b l \<longleftrightarrow> k = l"
  by (simp add: numbered_def)

text \<open>
  \<open>while f"{cuid}-p{k}" in env.pods: k += 1\<close>. Only finitely many names are taken and the names are
  pairwise distinct, so the search ends.
\<close>

lemma inj_numbered: "inj (numbered base)"
  by (simp add: inj_def)

function free_index :: "string \<Rightarrow> string list \<Rightarrow> int \<Rightarrow> int" where
  "free_index cuid taken k =
     (if numbered cuid k \<in> set taken then free_index cuid taken (k + 1) else k)"
  by pat_completeness auto
termination
  by (relation "measure (\<lambda>(cuid, taken, k). card {j. k \<le> j \<and> numbered cuid j \<in> set taken})")
    (simp_all add: taken_decreases inj_numbered)

declare free_index.simps [simp del]

definition owns_pod :: "env \<Rightarrow> string \<Rightarrow> bool" where
  "owns_pod env cuid = list_ex (\<lambda>p. pod_controller_uid p = Some cuid) (dvals (e_pods env))"

definition counter_of :: "env \<Rightarrow> string \<Rightarrow> int" where
  "counter_of env cuid = (case dget (e_controller_pod_counter env) cuid of None \<Rightarrow> 0 | Some k \<Rightarrow> k)"

text \<open>The replacement pod number \<open>k\<close> of a controller, and the creation of the next one.\<close>

definition replacement_pod :: "string \<Rightarrow> controller \<Rightarrow> int \<Rightarrow> pod" where
  "replacement_pod cuid c k = \<lparr>
     pod_namespace = ctrl_namespace c, pod_name = numbered (ctrl_name c) k,
     pod_uid = numbered cuid k, pod_service_account = ctrl_service_account c,
     pod_token_audiences = ctrl_token_audiences c, pod_controller_uid = Some cuid\<rparr>"

definition next_index :: "env \<Rightarrow> string \<Rightarrow> int" where
  "next_index env cuid = free_index cuid (dkeys (e_pods env)) (counter_of env cuid + 1)"

definition add_replacement :: "env \<Rightarrow> string \<Rightarrow> controller \<Rightarrow> env" where
  "add_replacement env cuid c =
     (let k = next_index env cuid; pod = replacement_pod cuid c k
      in env\<lparr>e_controller_pod_counter := dset cuid k (e_controller_pod_counter env),
             e_pods := dset (pod_uid pod) pod (e_pods env)\<rparr>)"

fun reconcile_list :: "string list \<Rightarrow> env \<Rightarrow> env \<times> pod list" where
  "reconcile_list [] env = (env, [])"
| "reconcile_list (cuid # cuids) env =
     (case dget (e_controllers env) cuid of
        None \<Rightarrow> reconcile_list cuids env
      | Some c \<Rightarrow>
          if owns_pod env cuid then reconcile_list cuids env
          else (let (env', created) = reconcile_list cuids (add_replacement env cuid c)
                in (env', replacement_pod cuid c (next_index env cuid) # created)))"

definition reconcile_controllers :: "env \<Rightarrow> env \<times> pod list" where
  "reconcile_controllers env = reconcile_list (sort (dkeys (e_controllers env))) env"

abbreviation reconcile :: "env \<Rightarrow> env" where
  "reconcile env \<equiv> fst (reconcile_controllers env)"

section \<open>Defender actions\<close>

datatype action_note =
    NoBinding "string option" string
  | NoPod string
  | NoController string
  | NothingMatched string
  | NoAccount string string
  | NoService string
  | Propagates string int int int

definition del_pods :: "(pod \<Rightarrow> bool) \<Rightarrow> env \<Rightarrow> env" where
  "del_pods P env =
     env\<lparr>e_pods := fold ddel (map pod_uid (filter P (dvals (e_pods env)))) (e_pods env)\<rparr>"

definition del_controller_cascade :: "string \<Rightarrow> env \<Rightarrow> env" where
  "del_controller_cascade uid env =
     del_pods (\<lambda>p. pod_controller_uid p = Some uid)
       (env\<lparr>e_controllers := ddel uid (e_controllers env)\<rparr>)"

definition rotate :: "env \<Rightarrow> downstream_service \<Rightarrow> env \<times> action_note list" where
  "rotate env svc =
     (let key = (svc_source_namespace svc, svc_source_secret svc);
          sec = dget (e_secrets env) key;
          new_version = max (svc_accepted_version svc) (case sec of None \<Rightarrow> 0 | Some s \<Rightarrow> sec_version s) + 1;
          secrets' = (case sec of None \<Rightarrow> e_secrets env
                      | Some s \<Rightarrow> dset key (s\<lparr>sec_version := new_version\<rparr>) (e_secrets env));
          until = e_time env + svc_rotation_propagation_seconds svc;
          delayed = svc_rotation_propagation_seconds svc > 0;
          grace' = (if delayed then sorted_set ((svc_accepted_version svc, until) # svc_grace svc)
                    else svc_grace svc);
          svc' = svc\<lparr>svc_accepted_version := new_version, svc_grace := grace'\<rparr>
      in (env\<lparr>e_secrets := secrets', e_services := dset (svc_name svc) svc' (e_services env)\<rparr>,
          if delayed then [Propagates (svc_name svc) (svc_rotation_propagation_seconds svc)
                             (svc_accepted_version svc) until] else []))"

text \<open>\<open>int(action.param("seconds"))\<close>.\<close>

definition seconds_param :: "defender_action \<Rightarrow> int parsed" where
  "seconds_param a = rbind (act_param a ''seconds'')
     (\<lambda>s. case py_int s of Some n \<Rightarrow> Inr n | None \<Rightarrow> Inl (ValueErr s))"

definition delete_pods_except :: "env \<Rightarrow> defender_action \<Rightarrow> string \<Rightarrow> string \<Rightarrow> string list \<Rightarrow> env \<times> action_note list" where
  "delete_pods_except env a ns sa keep =
     (let victim = (\<lambda>p. pod_namespace p = ns \<and> pod_service_account p = sa \<and> pod_uid p \<notin> set keep)
      in (del_pods victim env,
          if filter victim (dvals (e_pods env)) = [] then [NothingMatched (act_label a)] else []))"

definition delete_controllers_except :: "env \<Rightarrow> defender_action \<Rightarrow> string \<Rightarrow> string \<Rightarrow> string list \<Rightarrow> env \<times> action_note list" where
  "delete_controllers_except env a ns sa keep =
     (let victims = map ctrl_uid (filter (\<lambda>c. ctrl_namespace c = ns \<and> ctrl_service_account c = sa \<and>
                                     ctrl_uid c \<notin> set keep) (dvals (e_controllers env)))
      in (fold del_controller_cascade victims env,
          if victims = [] then [NothingMatched (act_label a)] else []))"

definition apply_defender_action :: "env \<Rightarrow> defender_action \<Rightarrow> (env \<times> action_note list) parsed" where
  "apply_defender_action env a =
     (case act_kind a of
        RemoveBinding \<Rightarrow>
          rbind (act_param a ''name'') (\<lambda>n.
          let key = (act_opt a ''namespace'', n)
          in Inr (env\<lparr>e_bindings := ddel key (e_bindings env)\<rparr>,
                  if dmem key (e_bindings env) then [] else [NoBinding (fst key) n]))
      | DeletePod \<Rightarrow>
          rbind (act_param a ''uid'') (\<lambda>u.
          Inr (env\<lparr>e_pods := ddel u (e_pods env)\<rparr>, if dmem u (e_pods env) then [] else [NoPod u]))
      | DeleteController \<Rightarrow>
          rbind (act_param a ''uid'') (\<lambda>u.
          Inr (del_controller_cascade u env, if dmem u (e_controllers env) then [] else [NoController u]))
      | DeletePodsExcept \<Rightarrow>
          rbind (act_param a ''namespace'') (\<lambda>ns.
          rbind (act_param a ''service_account'') (\<lambda>sa.
          rbind (act_param a ''keep_uids'') (\<lambda>ks.
          Inr (delete_pods_except env a ns sa (keep_list ks)))))
      | DeleteControllersExcept \<Rightarrow>
          rbind (act_param a ''namespace'') (\<lambda>ns.
          rbind (act_param a ''service_account'') (\<lambda>sa.
          rbind (act_param a ''keep_uids'') (\<lambda>ks.
          Inr (delete_controllers_except env a ns sa (keep_list ks)))))
      | DeleteServiceAccount \<Rightarrow>
          rbind (act_param a ''namespace'') (\<lambda>ns.
          rbind (act_param a ''name'') (\<lambda>n.
          Inr (env\<lparr>e_service_accounts := ddel (ns, n) (e_service_accounts env)\<rparr>,
               if dmem (ns, n) (e_service_accounts env) then [] else [NoAccount ns n])))
      | RotateDownstreamCredential \<Rightarrow>
          rbind (act_param a ''service'') (\<lambda>s.
          (case dget (e_services env) s of
             None \<Rightarrow> Inr (env, [NoService s])
           | Some svc \<Rightarrow> Inr (rotate env svc)))
      | Wait \<Rightarrow>
          rbind (seconds_param a) (\<lambda>n. Inr (env\<lparr>e_time := e_time env + n\<rparr>, [])))"

section \<open>Legitimate operations\<close>

datatype legit_reason =
    LegitPodGone string
  | LegitAccountGone string string
  | LegitNoSecret string string
  | LegitUnauthorized string string string
  | LegitAuthorized "string list"
  | LegitNoService string
  | LegitNoCredential legit_reason
  | LegitVersionRejected int string int
  | LegitVersionAccepted int string

definition legit_can_read :: "env \<Rightarrow> string \<Rightarrow> string \<Rightarrow> string \<Rightarrow> bool \<times> legit_reason" where
  "legit_can_read env uid namespace sec =
     (case dget (e_pods env) uid of
        None \<Rightarrow> (False, LegitPodGone uid)
      | Some p \<Rightarrow>
          if \<not> dmem (pod_namespace p, pod_service_account p) (e_service_accounts env)
          then (False, LegitAccountGone (pod_namespace p) (pod_service_account p))
          else if \<not> dmem (namespace, sec) (e_secrets env) then (False, LegitNoSecret namespace sec)
          else (let via = authorizing_bindings env (sa_username (pod_namespace p) (pod_service_account p))
                            ''get'' ''secrets'' namespace (Some sec)
                in if via = [] then (False, LegitUnauthorized (pod_service_account p) namespace sec)
                   else (True, LegitAuthorized via)))"

definition legit_can_use_service :: "env \<Rightarrow> string \<Rightarrow> string \<Rightarrow> bool \<times> legit_reason" where
  "legit_can_use_service env uid service =
     (case dget (e_services env) service of
        None \<Rightarrow> (False, LegitNoService service)
      | Some svc \<Rightarrow>
          (case legit_can_read env uid (svc_source_namespace svc) (svc_source_secret svc) of
             (False, why) \<Rightarrow> (False, LegitNoCredential why)
           | (True, why) \<Rightarrow>
               (case dget (e_secrets env) (svc_source_namespace svc, svc_source_secret svc) of
                  None \<Rightarrow> (False, LegitNoSecret (svc_source_namespace svc) (svc_source_secret svc))
                | Some sec \<Rightarrow>
                    if sec_version sec \<noteq> svc_accepted_version svc
                    then (False, LegitVersionRejected (sec_version sec) service (svc_accepted_version svc))
                    else (True, LegitVersionAccepted (sec_version sec) service))))"

definition secrets_feeding :: "env \<Rightarrow> string \<Rightarrow> string \<Rightarrow> downstream_service list" where
  "secrets_feeding env namespace name =
     filter (\<lambda>s. (svc_source_namespace s, svc_source_secret s) = (namespace, name))
       (map snd (sort_key fst (e_services env)))"

end
