(* ===== verification/Parse_Correct.thy ===== *)
theory Parse_Correct
  imports Parse
begin

text \<open>
  What the parser establishes. \<open>inventory_ok\<close>, \<open>action_ok\<close> and \<open>input_ok\<close> say what the engine and
  the planner may rely on; each is proved of every document the parser accepts. The last section
  is the round trip of defender actions through their JSON form.
\<close>

section \<open>Well-formed inputs\<close>

definition inventory_ok :: "inventory \<Rightarrow> bool" where
  "inventory_ok i \<longleftrightarrow>
     distinct (map sa_uid (inv_service_accounts i)) \<and>
     distinct (map (\<lambda>s. (sa_namespace s, sa_name s)) (inv_service_accounts i)) \<and>
     distinct (map pod_uid (inv_pods i)) \<and>
     distinct (map (\<lambda>p. (pod_namespace p, pod_name p)) (inv_pods i)) \<and>
     distinct (map ctrl_uid (inv_controllers i)) \<and>
     distinct (map (\<lambda>r. (role_namespace r, role_name r)) (inv_roles i)) \<and>
     distinct (map (\<lambda>b. (rb_namespace b, rb_name b)) (inv_bindings i)) \<and>
     distinct (map (\<lambda>s. (sec_namespace s, sec_name s)) (inv_secrets i)) \<and>
     distinct (map svc_name (inv_services i)) \<and>
     (\<forall>p \<in> set (inv_pods i). \<not> reserved_uid (pod_uid p)) \<and>
     (\<forall>c \<in> set (inv_controllers i). \<not> reserved_uid (ctrl_uid c)) \<and>
     (\<forall>p \<in> set (inv_pods i). \<forall>c. pod_controller_uid p = Some c \<longrightarrow> c \<in> ctrl_uid ` set (inv_controllers i)) \<and>
     (\<forall>s \<in> set (inv_secrets i). 1 \<le> sec_version s) \<and>
     (\<forall>s \<in> set (inv_services i).
        1 \<le> svc_accepted_version s \<and> 0 \<le> svc_rotation_propagation_seconds s \<and> svc_grace s = []) \<and>
     (\<forall>b \<in> set (inv_bindings i). rb_role_kind b = KindRole \<longrightarrow> rb_namespace b \<noteq> None)"

text \<open>
  The parameter tuple of an action, by kind: sorted by key, every required parameter there, the
  ones read as lists or numbers readable.
\<close>

definition keep_ok :: "string list \<Rightarrow> bool" where
  "keep_ok ks \<longleftrightarrow> sorted ks \<and> distinct ks \<and> length ks \<le> MAX_COLLECTION \<and>
     (\<forall>k \<in> set ks. good_string k \<and> CHR '','' \<notin> set k)"

definition except_params :: "string \<Rightarrow> string \<Rightarrow> string list \<Rightarrow> (string \<times> string) list" where
  "except_params ns sa ks =
     [(''keep_uids'', join '','' ks), (''namespace'', ns), (''service_account'', sa)]"

definition action_ok :: "defender_action \<Rightarrow> bool" where
  "action_ok a \<longleftrightarrow>
     (case act_kind a of
        RemoveBinding \<Rightarrow>
          \<exists>n. good_string n \<and> (act_params a = [(''name'', n)] \<or>
               (\<exists>ns. good_string ns \<and> act_params a = [(''name'', n), (''namespace'', ns)]))
      | DeletePod \<Rightarrow> \<exists>u. good_string u \<and> \<not> reserved_uid u \<and> act_params a = [(''uid'', u)]
      | DeleteController \<Rightarrow> \<exists>u. good_string u \<and> \<not> reserved_uid u \<and> act_params a = [(''uid'', u)]
      | DeleteServiceAccount \<Rightarrow>
          \<exists>n ns. good_string n \<and> good_string ns \<and> act_params a = [(''name'', n), (''namespace'', ns)]
      | RotateDownstreamCredential \<Rightarrow> \<exists>s. good_string s \<and> act_params a = [(''service'', s)]
      | Wait \<Rightarrow> \<exists>n \<ge> 1. act_params a = [(''seconds'', str_of_int n)]
      | _ \<Rightarrow> \<exists>ns sa ks. good_string ns \<and> good_string sa \<and> keep_ok ks \<and>
               act_params a = except_params ns sa ks)"

fun seed_ok :: "string set \<Rightarrow> seed \<Rightarrow> bool" where
  "seed_ok ids (SeedPossessesCredential c) = (c \<in> ids)"
| "seed_ok ids (SeedControlsPod u) = (\<not> reserved_uid u)"
| "seed_ok ids (SeedControlsController u) = (\<not> reserved_uid u)"
| "seed_ok ids (SeedHistoricalPod u _ _) = (\<not> reserved_uid u)"
| "seed_ok ids (SeedKnowsSecret _ _ v) = (\<exists>n \<ge> 1. py_int v = Some n)"

definition profile_ok :: "profile \<Rightarrow> bool" where
  "profile_ok p \<longleftrightarrow> prof_api_audiences p \<noteq> [] \<and> 1 \<le> prof_projected_token_ttl_seconds p"

definition input_ok :: "analysis_input \<Rightarrow> bool" where
  "input_ok inp \<longleftrightarrow>
     profile_ok (inp_profile inp) \<and>
     inventory_ok (inp_inventory inp) \<and>
     distinct (map cred_id (inp_credentials inp)) \<and>
     (\<forall>f \<in> set (inp_initial_facts inp). seed_ok (cred_id ` set (inp_credentials inp)) (if_seed f)) \<and>
     (\<forall>a \<in> set (inp_remediation inp). action_ok a) \<and>
     inp_objectives inp \<noteq> [] \<and> distinct (map obj_id (inp_objectives inp)) \<and>
     distinct (map leg_id (inp_legitimate_operations inp)) \<and>
     1 \<le> max_derivations (inp_bounds inp) \<and>
     0 \<le> inp_analysis_time inp \<and>
     (\<forall>h. inp_history_start inp = Some h \<longrightarrow> h \<le> inp_analysis_time inp)"

section \<open>The inventory\<close>

lemma traverse_unit_all:
  "traverse f xs = Inr us \<Longrightarrow> x \<in> set xs \<Longrightarrow> \<exists>u. f x = Inr u"
  by (induction xs arbitrary: us) (auto simp: rbind_Inr)

lemma not_reserved_Inr [simp]: "not_reserved u w = Inr x \<longleftrightarrow> \<not> reserved_uid u"
  by (simp add: not_reserved_def)

lemma parse_items_all:
  assumes "parse_items raw key w f = Inr ys" and "\<And>x y. f x = Inr y \<Longrightarrow> P y"
  shows "\<forall>y \<in> set ys. P y"
proof -
  from assms(1) obtain xs where "traverse f xs = Inr ys"
    by (auto simp: parse_items_def rbind_Inr)
  from traverse_all[OF this, of P] assms(2) show ?thesis by blast
qed

lemma parse_secret_version: "parse_secret x = Inr s \<Longrightarrow> 1 \<le> sec_version s"
  by (auto simp: parse_secret_def rbind_Inr int_req_Inr)

lemma parse_service_values:
  "parse_service x = Inr s \<Longrightarrow>
     1 \<le> svc_accepted_version s \<and> 0 \<le> svc_rotation_propagation_seconds s \<and> svc_grace s = []"
  by (auto simp: parse_service_def rbind_Inr int_req_Inr int_opt_Inr)

lemma parse_binding_scope:
  "parse_binding x = Inr b \<Longrightarrow> rb_role_kind b = KindRole \<Longrightarrow> rb_namespace b \<noteq> None"
  by (auto simp: parse_binding_def rbind_Inr)

text \<open>Sorting changes no collection as a set and keeps distinct keys distinct.\<close>

lemma distinct_map_sort_key [simp]: "distinct (map f (sort_key g xs)) \<longleftrightarrow> distinct (map f xs)"
  by (metis mset_eq_imp_distinct_iff mset_map mset_sort)

lemma sort_key_Nil [simp]: "sort_key f xs = [] \<longleftrightarrow> xs = []"
  by (metis set_empty set_sort)

lemma check_inventory_ok:
  assumes "check_inventory i = Inr u"
    and "\<forall>s \<in> set (inv_secrets i). 1 \<le> sec_version s"
    and "\<forall>s \<in> set (inv_services i).
           1 \<le> svc_accepted_version s \<and> 0 \<le> svc_rotation_propagation_seconds s \<and> svc_grace s = []"
    and "\<forall>b \<in> set (inv_bindings i). rb_role_kind b = KindRole \<longrightarrow> rb_namespace b \<noteq> None"
  shows "inventory_ok i"
proof -
  from assms(1) obtain us vs where
    res: "traverse (\<lambda>u. not_reserved u ''inventory'')
            (map pod_uid (inv_pods i) @ map ctrl_uid (inv_controllers i)) = Inr us"
    and ref: "traverse (\<lambda>p. case pod_controller_uid p of
                            None \<Rightarrow> Inr ()
                          | Some c \<Rightarrow> guard (c \<in> set (map ctrl_uid (inv_controllers i)))
                                        (UnknownControllerRef (pod_uid p) c)) (inv_pods i) = Inr vs"
    by (auto simp: check_inventory_def rbind_Inr)
  have "\<not> reserved_uid x" if "x \<in> set (map pod_uid (inv_pods i) @ map ctrl_uid (inv_controllers i))" for x
    using traverse_unit_all[OF res that] by simp
  then have r: "\<forall>p \<in> set (inv_pods i). \<not> reserved_uid (pod_uid p)"
    "\<forall>c \<in> set (inv_controllers i). \<not> reserved_uid (ctrl_uid c)"
    by auto
  have c: "\<forall>p \<in> set (inv_pods i). \<forall>c. pod_controller_uid p = Some c \<longrightarrow> c \<in> ctrl_uid ` set (inv_controllers i)"
    using traverse_unit_all[OF ref] by fastforce
  show ?thesis
    using assms r c by (simp add: check_inventory_def rbind_Inr unique_Inr inventory_ok_def)
qed

lemma sort_inventory_ok: "inventory_ok i \<Longrightarrow> inventory_ok (sort_inventory i)"
  by (simp add: inventory_ok_def sort_inventory_def)

text \<open>An inventory that is accepted: what was read, checked and sorted.\<close>

lemma parse_inventory_parts:
  assumes "parse_inventory m = Inr i"
  obtains i0 where "i = sort_inventory i0" "inventory_ok i0"
    "parse_items m ''service_accounts'' ''inventory'' parse_service_account = Inr (inv_service_accounts i0)"
    "parse_items m ''pods'' ''inventory.pods'' parse_pod = Inr (inv_pods i0)"
    "parse_items m ''controllers'' ''inventory.controllers'' parse_controller = Inr (inv_controllers i0)"
    "parse_items m ''roles'' ''inventory.roles'' parse_role = Inr (inv_roles i0)"
    "parse_items m ''bindings'' ''inventory.bindings'' parse_binding = Inr (inv_bindings i0)"
    "parse_items m ''secrets'' ''inventory.secrets'' parse_secret = Inr (inv_secrets i0)"
    "parse_items m ''services'' ''inventory.services'' parse_service = Inr (inv_services i0)"
    "parse_items m ''admission_policies'' ''inventory.admission_policies'' parse_policy = Inr (inv_admission_policies i0)"
proof -
  from assms obtain sas ps cs rs bnds secs svcs pols us where items:
    "parse_items m ''service_accounts'' ''inventory'' parse_service_account = Inr sas"
    "parse_items m ''pods'' ''inventory.pods'' parse_pod = Inr ps"
    "parse_items m ''controllers'' ''inventory.controllers'' parse_controller = Inr cs"
    "parse_items m ''roles'' ''inventory.roles'' parse_role = Inr rs"
    "parse_items m ''bindings'' ''inventory.bindings'' parse_binding = Inr bnds"
    "parse_items m ''secrets'' ''inventory.secrets'' parse_secret = Inr secs"
    "parse_items m ''services'' ''inventory.services'' parse_service = Inr svcs"
    "parse_items m ''admission_policies'' ''inventory.admission_policies'' parse_policy = Inr pols"
    and ci: "check_inventory \<lparr>inv_service_accounts = sas, inv_pods = ps, inv_controllers = cs,
              inv_roles = rs, inv_bindings = bnds, inv_secrets = secs,
              inv_services = svcs, inv_admission_policies = pols\<rparr> = Inr us"
    and i: "i = sort_inventory \<lparr>inv_service_accounts = sas, inv_pods = ps, inv_controllers = cs,
              inv_roles = rs, inv_bindings = bnds, inv_secrets = secs,
              inv_services = svcs, inv_admission_policies = pols\<rparr>" (is "_ = sort_inventory ?i")
    by (simp add: parse_inventory_def rbind_Inr Let_def) blast
  have "\<forall>s \<in> set secs. 1 \<le> sec_version s"
    by (rule parse_items_all[OF items(6)]) (rule parse_secret_version)
  moreover have "\<forall>s \<in> set svcs.
      1 \<le> svc_accepted_version s \<and> 0 \<le> svc_rotation_propagation_seconds s \<and> svc_grace s = []"
    by (rule parse_items_all[OF items(7)]) (rule parse_service_values)
  moreover have "\<forall>b \<in> set bnds. rb_role_kind b = KindRole \<longrightarrow> rb_namespace b \<noteq> None"
    by (rule parse_items_all[OF items(5)]) (blast dest: parse_binding_scope)
  ultimately have "inventory_ok ?i"
    by (intro check_inventory_ok[OF ci]) simp_all
  then show thesis by (rule that[OF i]) (simp_all add: items)
qed

theorem parse_inventory_ok:
  assumes "parse_inventory raw = Inr iv"
  shows "inventory_ok iv"
  by (rule parse_inventory_parts[OF assms]) (simp add: sort_inventory_ok)

section \<open>Defender actions\<close>

lemma sorted_set_keep:
  assumes "strs_of v w = Inr ks" and "\<not> list_ex (\<lambda>k. CHR '','' \<in> set k) (sorted_set ks)"
  shows "keep_ok (sorted_set ks)"
proof -
  have "length (sorted_set ks) \<le> length ks"
    by (simp add: sorted_set_def length_remdups_leq)
  with assms show ?thesis
    by (auto simp: keep_ok_def strs_Inr list_ex_iff)
qed

lemma parse_keep_Inr:
  "parse_keep w m = Inr extras \<Longrightarrow> \<exists>ks. keep_ok ks \<and> extras = [(''keep_uids'', join '','' ks)]"
  by (auto simp: parse_keep_def rbind_Inr Let_def intro: sorted_set_keep)

lemma key_order [simp]:
  "(''name'', a) \<le> (''namespace'', b)" "\<not> (''namespace'', b) \<le> (''name'', a)"
  "(''keep_uids'', a) \<le> (''namespace'', b)" "\<not> (''namespace'', b) \<le> (''keep_uids'', a)"
  "(''namespace'', a) \<le> (''service_account'', b)" "\<not> (''service_account'', b) \<le> (''namespace'', a)"
  "(''keep_uids'', a) \<le> (''service_account'', b)" "\<not> (''service_account'', b) \<le> (''keep_uids'', a)"
  by (simp_all add: less_eq_prod_def less_char_def)

theorem parse_action_ok:
  assumes "parse_action raw w = Inr a"
  shows "action_ok a"
proof -
  from assms obtain m kind params extras where
      ps: "traverse (\<lambda>key. rbind (req m key w) (\<lambda>v. Inr (key, v))) (required_params kind) = Inr params"
    and extras: "parse_extra_params w kind m = Inr extras"
    and res: "kind = DeletePod \<or> kind = DeleteController \<Longrightarrow>
                \<exists>u. lookup_param params ''uid'' = Some u \<and> \<not> reserved_uid u"
    and a: "a = \<lparr>act_kind = kind, act_params = sort (params @ extras)\<rparr>"
    by (fastforce simp: parse_action_def rbind_Inr Let_def split: if_splits option.splits)
  show ?thesis
  proof (cases kind)
    case RemoveBinding
    with ps extras show ?thesis
      by (auto simp: a action_ok_def rbind_Inr req_Inr str_opt_Inr parse_extra_params_def)
  next
    case DeletePodsExcept
    then obtain ks where "keep_ok ks" "extras = [(''keep_uids'', join '','' ks)]"
      using extras by (auto simp: parse_extra_params_def dest!: parse_keep_Inr)
    with ps DeletePodsExcept show ?thesis
      by (auto simp: a action_ok_def rbind_Inr req_Inr except_params_def) blast
  next
    case DeleteControllersExcept
    then obtain ks where "keep_ok ks" "extras = [(''keep_uids'', join '','' ks)]"
      using extras by (auto simp: parse_extra_params_def dest!: parse_keep_Inr)
    with ps DeleteControllersExcept show ?thesis
      by (auto simp: a action_ok_def rbind_Inr req_Inr except_params_def) blast
  qed (use ps extras res in \<open>auto simp: a action_ok_def rbind_Inr req_Inr int_req_Inr parse_extra_params_def\<close>)
qed

text \<open>The actions of a document, one by one.\<close>

lemma parse_actions_from_ok: "parse_actions_from i xs w = Inr as \<Longrightarrow> \<forall>a \<in> set as. action_ok a"
  by (induction xs arbitrary: i as) (auto simp: rbind_Inr dest: parse_action_ok)

lemma parse_actions_ok: "parse_actions raw w = Inr as \<Longrightarrow> \<forall>a \<in> set as. action_ok a"
  by (auto simp: parse_actions_def rbind_Inr dest: parse_actions_from_ok)

subsection \<open>Round trip through JSON\<close>

lemma param_json_simps [simp]:
  "param_json (''name'', v) = Inr (''name'', JStr v)"
  "param_json (''namespace'', v) = Inr (''namespace'', JStr v)"
  "param_json (''uid'', v) = Inr (''uid'', JStr v)"
  "param_json (''service'', v) = Inr (''service'', JStr v)"
  "param_json (''service_account'', v) = Inr (''service_account'', JStr v)"
  "param_json (''seconds'', str_of_int n) = Inr (''seconds'', JInt n)"
  "param_json (''keep_uids'', v) = Inr (''keep_uids'', JList (map JStr (keep_list v)))"
  by (simp_all add: param_json_def)

lemma keep_ok_facts:
  assumes "keep_ok ks"
  shows "keep_list (join '','' ks) = ks" "sorted_set ks = ks"
    "strs_of (JList (map JStr ks)) w = Inr ks" "\<not> list_ex (\<lambda>k. CHR '','' \<in> set k) ks"
  using assms
  by (auto simp: keep_ok_def good_string_def strs_Inr sorted_set_def distinct_remdups_id
      sorted_sort_id list_ex_iff intro: keep_list_join)

lemmas parse_action_simps =
  parse_action_def act_to_json_def req_def jget_def parse_extra_params_def int_req_def
  parse_keep_def str_opt.simps Let_def guard_def not_reserved_def action_kind_of_def

theorem action_json_roundtrip:
  assumes "action_ok a"
  shows "\<exists>j. act_to_json a = Inr j \<and> parse_action j w = Inr a"
proof (cases a)
  case (fields k ps)
  show ?thesis
  proof (cases k)
    case RemoveBinding
    with assms fields show ?thesis
      by (auto simp: action_ok_def parse_action_simps good_string_def MAX_STRING_def)
  next
    case DeletePodsExcept
    with assms fields show ?thesis
      by (auto simp: action_ok_def except_params_def parse_action_simps keep_ok_facts good_string_def MAX_STRING_def)
  next
    case DeleteControllersExcept
    with assms fields show ?thesis
      by (auto simp: action_ok_def except_params_def parse_action_simps keep_ok_facts good_string_def MAX_STRING_def)
  qed (use assms fields in \<open>auto simp: action_ok_def parse_action_simps good_string_def MAX_STRING_def\<close>)
qed

section \<open>The whole input\<close>

lemma parse_profile_ok: "parse_profile m = Inr p \<Longrightarrow> profile_ok p"
  by (auto simp: parse_profile_def rbind_Inr int_req_Inr profile_ok_def)

lemma parse_bounds_ok: "parse_bounds v = Inr b \<Longrightarrow> 1 \<le> max_derivations b"
  by (auto simp: parse_bounds_def rbind_Inr int_opt_Inr or_default_def)

lemma check_seed_ok: "check_seed ids s = Inr u \<Longrightarrow> seed_ok ids s"
  by (cases s) (auto split: option.splits)

lemma parse_fact_ok: "parse_fact ids x = Inr f \<Longrightarrow> seed_ok ids (if_seed f)"
  by (auto simp: parse_fact_def rbind_Inr dest: check_seed_ok)

lemma parse_facts_ok:
  "parse_items raw key w (parse_fact ids) = Inr fs \<Longrightarrow> \<forall>f \<in> set fs. seed_ok ids (if_seed f)"
  by (rule parse_items_all) (auto dest: parse_fact_ok)

theorem parse_analysis_input_ok:
  assumes "parse_analysis_input sha256 doc = Inr inp"
  shows "input_ok inp"
proof -
  note dests = parse_profile_ok parse_bounds_ok parse_facts_ok parse_inventory_ok parse_actions_ok
  show ?thesis
    using assms unfolding parse_analysis_input_def rbind_Inr
    by (elim exE conjE)
       (auto simp: input_ok_def unique_Inr int_req_Inr dest!: dests split: option.splits)
qed

lemma parse_analysis_input_fits:
  assumes "parse_analysis_input sha256 doc = Inr inp"
  shows "int (length (inp_remediation inp)) + 1 \<le> max_intervals (inp_bounds inp)"
  using assms unfolding parse_analysis_input_def rbind_Inr guard_simps sum.inject
  by clarify (simp only: analysis_input.simps not_less)

end
