(* ===== verification/Semantics_Correct.thy ===== *)
theory Semantics_Correct
  imports Semantics Parse_Correct
begin

text \<open>
  Correctness of the supported semantics: the environment invariant and its preservation, what
  each rule of \<open>docs/semantics/supported.md\<close> says of the definitions (S-TOK, S-RBAC, S-ADM, S-WL,
  S-SEC), and what the defender actions do to the environment.
\<close>

section \<open>The environment invariant\<close>

text \<open>Dictionaries without duplicate keys, and every object stored under its own key.\<close>

definition keyed :: "('v \<Rightarrow> 'k) \<Rightarrow> ('k, 'v) dict \<Rightarrow> bool" where
  "keyed key d \<longleftrightarrow> dict_ok d \<and> (\<forall>(k, v) \<in> set d. key v = k)"

lemma keyed_Nil [simp]: "keyed key []"
  by (simp add: keyed_def)

lemma keyed_dict_ok [dest]: "keyed key d \<Longrightarrow> dict_ok d"
  by (simp add: keyed_def)

lemma keyed_dget: "keyed key d \<Longrightarrow> dget d k = Some v \<Longrightarrow> key v = k"
  by (auto simp: keyed_def dest: map_of_SomeD)

lemma keyed_dset: "keyed key d \<Longrightarrow> key v = k \<Longrightarrow> keyed key (dset k v d)"
  by (auto simp: keyed_def set_dset)

lemma keyed_ddel: "keyed key d \<Longrightarrow> keyed key (ddel k d)"
  by (auto simp: keyed_def set_ddel)

lemma keyed_fold_ddel: "keyed key d \<Longrightarrow> keyed key (fold ddel ks d)"
  by (induction ks arbitrary: d) (simp_all add: keyed_ddel)

lemma keyed_dict_of: "keyed key d \<Longrightarrow> keyed key (dict_of (map (\<lambda>x. (key x, x)) xs) d)"
  by (induction xs arbitrary: d) (simp_all add: keyed_dset)

lemma keyed_dvals: "keyed key d \<Longrightarrow> v \<in> set (dvals d) \<longleftrightarrow> dget d (key v) = Some v"
  by (force simp: keyed_def dest: map_of_SomeD intro: in_set_dget)

lemma dget_fold_ddel: "dget (fold ddel ks d) k = (if k \<in> set ks then None else dget d k)"
  by (induction ks arbitrary: d) auto

lemma dget_dict_of_keyed:
  assumes "distinct (map key xs)"
  shows "dget (dict_of (map (\<lambda>x. (key x, x)) xs) []) k = Some v \<longleftrightarrow> v \<in> set xs \<and> key v = k"
proof -
  have "dict_of (map (\<lambda>x. (key x, x)) xs) [] = map (\<lambda>x. (key x, x)) xs"
    using dict_of_fresh[of "map (\<lambda>x. (key x, x)) xs" "[]"] assms by (simp add: comp_def)
  moreover have "distinct (map fst (map (\<lambda>x. (key x, x)) xs))"
    using assms by (simp add: comp_def)
  ultimately show ?thesis
    by (auto simp: map_of_eq_Some_iff)
qed

abbreviation sa_key :: "service_account \<Rightarrow> string \<times> string" where
  "sa_key s \<equiv> (sa_namespace s, sa_name s)"

abbreviation role_key :: "role \<Rightarrow> string option \<times> string" where
  "role_key r \<equiv> (role_namespace r, role_name r)"

abbreviation bnd_key :: "role_binding \<Rightarrow> string option \<times> string" where
  "bnd_key b \<equiv> (rb_namespace b, rb_name b)"

abbreviation sec_key :: "secret \<Rightarrow> string \<times> string" where
  "sec_key s \<equiv> (sec_namespace s, sec_name s)"

definition env_ok :: "env \<Rightarrow> bool" where
  "env_ok env \<longleftrightarrow>
     keyed sa_key (e_service_accounts env) \<and> keyed pod_uid (e_pods env) \<and>
     keyed ctrl_uid (e_controllers env) \<and> keyed role_key (e_roles env) \<and>
     keyed bnd_key (e_bindings env) \<and> keyed sec_key (e_secrets env) \<and>
     keyed svc_name (e_services env) \<and> dict_ok (e_controller_pod_counter env)"

lemma from_inventory_ok: "env_ok (from_inventory i t)"
  by (simp add: env_ok_def from_inventory_def keyed_dict_of)

lemma from_inventory_lookup:
  assumes "inventory_ok i"
  shows
    "dget (e_service_accounts (from_inventory i t)) ka = Some sa \<longleftrightarrow> sa \<in> set (inv_service_accounts i) \<and> sa_key sa = ka"
    "dget (e_pods (from_inventory i t)) kp = Some p \<longleftrightarrow> p \<in> set (inv_pods i) \<and> pod_uid p = kp"
    "dget (e_controllers (from_inventory i t)) kc = Some c \<longleftrightarrow> c \<in> set (inv_controllers i) \<and> ctrl_uid c = kc"
    "dget (e_roles (from_inventory i t)) kr = Some r \<longleftrightarrow> r \<in> set (inv_roles i) \<and> role_key r = kr"
    "dget (e_bindings (from_inventory i t)) kb = Some b \<longleftrightarrow> b \<in> set (inv_bindings i) \<and> bnd_key b = kb"
    "dget (e_secrets (from_inventory i t)) ks = Some s \<longleftrightarrow> s \<in> set (inv_secrets i) \<and> sec_key s = ks"
    "dget (e_services (from_inventory i t)) kv = Some v \<longleftrightarrow> v \<in> set (inv_services i) \<and> svc_name v = kv"
  using assms by (simp_all add: inventory_ok_def from_inventory_def dget_dict_of_keyed)

section \<open>RBAC\<close>

lemma authorizing_bindings_iff:
  "k \<in> set (authorizing_bindings env u v r ns n) \<longleftrightarrow>
     (\<exists>b \<in> set (dvals (e_bindings env)). binding_grants env b u v r ns n \<and> rb_key b = k)"
  by (auto simp: authorizing_bindings_def sorted_bindings_def)

lemma authorized_iff:
  "authorizing_bindings env u v r ns n \<noteq> [] \<longleftrightarrow>
     (\<exists>b \<in> set (dvals (e_bindings env)). binding_grants env b u v r ns n)"
  by (auto simp: authorizing_bindings_def sorted_bindings_def filter_empty_conv)

text \<open>
  S-RBAC-2, 4 and 5 of a single binding: it is in scope, names the user, its role exists and has
  a rule for the request.
\<close>

lemma binding_grants_iff:
  "binding_grants env b u v r ns n \<longleftrightarrow>
     (rb_namespace b = None \<or> rb_namespace b = Some ns) \<and>
     subject_matches b u \<and>
     (\<exists>ro. dget (e_roles env) (if rb_role_kind b = KindRole then rb_namespace b else None, rb_role_name b) = Some ro
       \<and> (\<exists>rule \<in> set (role_rules ro). rule_matches rule v r n))"
  by (auto simp: binding_grants_def list_ex_iff split: option.splits)

text \<open>The grant depends on the binding and the roles only.\<close>

lemma binding_grants_cong:
  "e_roles env = e_roles env' \<Longrightarrow> binding_grants env b u v r ns n = binding_grants env' b u v r ns n"
  by (simp add: binding_grants_def)

lemma authorizing_bindings_cong:
  "e_roles env = e_roles env' \<Longrightarrow> e_bindings env = e_bindings env' \<Longrightarrow>
     authorizing_bindings env = authorizing_bindings env'"
  by (intro ext) (simp add: authorizing_bindings_def sorted_bindings_def binding_grants_def)

text \<open>Authorization only shrinks when bindings are removed (S-RBAC-1: purely additive).\<close>

lemma authorizing_bindings_mono:
  assumes "set (e_bindings env) \<subseteq> set (e_bindings env')" and "e_roles env = e_roles env'"
  shows "set (authorizing_bindings env u v r ns n) \<subseteq> set (authorizing_bindings env' u v r ns n)"
proof
  fix k assume "k \<in> set (authorizing_bindings env u v r ns n)"
  then obtain b where "b \<in> set (dvals (e_bindings env))" "binding_grants env b u v r ns n" "rb_key b = k"
    by (auto simp: authorizing_bindings_iff)
  moreover from this(1) assms(1) have "b \<in> set (dvals (e_bindings env'))" by auto
  ultimately show "k \<in> set (authorizing_bindings env' u v r ns n)"
    unfolding authorizing_bindings_iff binding_grants_cong[OF assms(2)] by blast
qed

section \<open>Credentials\<close>

text \<open>S-TOK-1 to S-TOK-4: the four checks a token has to pass at a time.\<close>

definition token_valid :: "env \<Rightarrow> credential_spec \<Rightarrow> profile \<Rightarrow> int \<Rightarrow> bool" where
  "token_valid env c prof t \<longleftrightarrow>
     (\<forall>e. cred_expires_at c = Some e \<longrightarrow> t < e) \<and>
     cred_audience c \<in> set (prof_api_audiences prof) \<and>
     (\<exists>sa acct. parse_sa_username (cred_username c) = Some sa \<and>
        dget (e_service_accounts env) sa = Some acct \<and>
        (\<forall>u. cred_sa_uid c = Some u \<longrightarrow> sa_uid acct = u) \<and>
        (\<forall>u. cred_bound_pod_uid c = Some u \<longrightarrow>
           (\<exists>p. dget (e_pods env) u = Some p \<and> (pod_namespace p, pod_service_account p) = sa)))"

definition cred_supported :: "credential_spec \<Rightarrow> bool" where
  "cred_supported c \<longleftrightarrow> cred_kind c = ''sa_token'' \<and> parse_sa_username (cred_username c) \<noteq> None"

lemma us_supported_iff: "us_supported (credential_usable env c prof at) \<longleftrightarrow> cred_supported c"
  by (auto simp: credential_usable_def cred_supported_def Let_def split: option.splits)

lemma us_usable_iff:
  "us_usable (credential_usable env c prof at) \<longleftrightarrow>
     cred_supported c \<and> token_valid env c prof (case at of None \<Rightarrow> e_time env | Some t \<Rightarrow> t)"
  by (auto simp: credential_usable_def cred_supported_def token_valid_def Let_def
        expiry_reasons_def account_reasons_def bound_pod_reasons_def split: option.splits if_splits)

lemma us_usable_supported:
  "us_usable (credential_usable env c prof at) \<Longrightarrow> us_supported (credential_usable env c prof at)"
  by (simp add: us_usable_iff us_supported_iff)

text \<open>Adding pods never invalidates a token.\<close>

lemma token_valid_mono:
  assumes "token_valid env c prof t" and "map_of (e_pods env) \<subseteq>\<^sub>m map_of (e_pods env')"
    and "e_service_accounts env' = e_service_accounts env"
  shows "token_valid env' c prof t"
  using assms unfolding token_valid_def map_le_def by (metis domI)

section \<open>Admission\<close>

lemma admission_loop_Some:
  "admission_loop ps creator sa = Some d \<Longrightarrow>
     ad_outcome d = AdmDeny \<and> (\<exists>p \<in> set ps. policy_denies p creator sa)"
  by (induction ps) (auto split: if_splits)

lemma admission_loop_None:
  "admission_loop ps creator sa = None \<longleftrightarrow> (\<forall>p \<in> set ps. \<not> policy_denies p creator sa)"
  by (induction ps) auto

lemma admission_outcome:
  "ad_outcome (admission_decision env creator ns sa) =
     (if \<exists>p \<in> set (e_admission env). adm_namespace p = ns \<and> \<not> adm_supported p then AdmUnsupported
      else if \<exists>p \<in> set (e_admission env). adm_namespace p = ns \<and> policy_denies p creator sa then AdmDeny
      else AdmAllow)"
proof -
  let ?rel = "filter (\<lambda>p. adm_namespace p = ns) (e_admission env)"
  show ?thesis
  proof (cases "filter (\<lambda>p. \<not> adm_supported p) ?rel = []")
    case False
    then show ?thesis
      by (auto simp: admission_decision_def Let_def filter_empty_conv)
  next
    case True
    then have *: "\<not> (\<exists>p \<in> set (e_admission env). adm_namespace p = ns \<and> \<not> adm_supported p)"
      by (auto simp: filter_empty_conv)
    show ?thesis
    proof (cases "admission_loop ?rel creator sa")
      case None
      then have "\<not> (\<exists>p \<in> set (e_admission env). adm_namespace p = ns \<and> policy_denies p creator sa)"
        by (auto simp: admission_loop_None)
      with True * None show ?thesis
        by (simp add: admission_decision_def Let_def)
    next
      case (Some d)
      with True * show ?thesis
        using admission_loop_Some[OF Some]
        by (auto simp: admission_decision_def Let_def)
    qed
  qed
qed

lemma admission_decision_cong:
  "e_admission env = e_admission env' \<Longrightarrow> admission_decision env = admission_decision env'"
  by (intro ext) (simp add: admission_decision_def)

section \<open>Reconciliation\<close>

lemma free_index_free: "numbered cuid (free_index cuid taken k) \<notin> set taken"
proof (induction cuid taken k rule: free_index.induct)
  case (1 cuid taken k)
  then show ?case
    by (cases "numbered cuid k \<in> set taken") (simp_all add: free_index.simps[of cuid taken k])
qed

lemma free_index_ge: "k \<le> free_index cuid taken k"
proof (induction cuid taken k rule: free_index.induct)
  case (1 cuid taken k)
  then show ?case
    by (cases "numbered cuid k \<in> set taken") (simp_all add: free_index.simps[of cuid taken k])
qed

text \<open>The index chosen is the least free one: no free name is skipped.\<close>

lemma free_index_least: "k \<le> j \<Longrightarrow> j < free_index cuid taken k \<Longrightarrow> numbered cuid j \<in> set taken"
proof (induction cuid taken k rule: free_index.induct)
  case (1 cuid taken k)
  show ?case
  proof (cases "numbered cuid k \<in> set taken")
    case True
    with 1 show ?thesis
      by (cases "j = k") (simp_all add: free_index.simps[of cuid taken k])
  next
    case False
    with "1.prems" show ?thesis by (simp add: free_index.simps[of cuid taken k])
  qed
qed

lemma owns_pod_iff:
  "owns_pod env cuid \<longleftrightarrow> (\<exists>p \<in> set (dvals (e_pods env)). pod_controller_uid p = Some cuid)"
  by (auto simp: owns_pod_def list_ex_iff)

lemma add_replacement_pods:
  "e_pods (add_replacement env cuid c) =
     e_pods env @ [(numbered cuid (next_index env cuid), replacement_pod cuid c (next_index env cuid))]"
proof -
  have "dget (e_pods env) (numbered cuid (next_index env cuid)) = None"
    unfolding next_index_def dget_None by (rule free_index_free)
  then show ?thesis
    by (simp add: add_replacement_def Let_def replacement_pod_def dset_fresh)
qed

lemma add_replacement_frame [simp]:
  "e_time (add_replacement env cuid c) = e_time env"
  "e_service_accounts (add_replacement env cuid c) = e_service_accounts env"
  "e_controllers (add_replacement env cuid c) = e_controllers env"
  "e_roles (add_replacement env cuid c) = e_roles env"
  "e_bindings (add_replacement env cuid c) = e_bindings env"
  "e_secrets (add_replacement env cuid c) = e_secrets env"
  "e_services (add_replacement env cuid c) = e_services env"
  "e_admission (add_replacement env cuid c) = e_admission env"
  by (simp_all add: add_replacement_def Let_def)

lemma add_replacement_ok: "env_ok env \<Longrightarrow> env_ok (add_replacement env cuid c)"
  by (simp add: env_ok_def add_replacement_def Let_def keyed_dset)

text \<open>
  Running the reconciliation for a list of controllers: the pods that exist stay as they are, the
  new ones are the \<open>created\<close> list, each of a controller of the list, and everything else is kept.
\<close>

lemma reconcile_list_frame [simp]:
  "e_time (fst (reconcile_list cs env)) = e_time env"
  "e_service_accounts (fst (reconcile_list cs env)) = e_service_accounts env"
  "e_controllers (fst (reconcile_list cs env)) = e_controllers env"
  "e_roles (fst (reconcile_list cs env)) = e_roles env"
  "e_bindings (fst (reconcile_list cs env)) = e_bindings env"
  "e_secrets (fst (reconcile_list cs env)) = e_secrets env"
  "e_services (fst (reconcile_list cs env)) = e_services env"
  "e_admission (fst (reconcile_list cs env)) = e_admission env"
  by (induction cs env rule: reconcile_list.induct)
     (simp_all add: case_prod_beta Let_def split: option.splits)

lemma reconcile_list_pods:
  "e_pods (fst (reconcile_list cs env)) =
     e_pods env @ map (\<lambda>p. (pod_uid p, p)) (snd (reconcile_list cs env))"
proof (induction cs env rule: reconcile_list.induct)
  case (2 cuid cuids env)
  then show ?case
    by (cases "dget (e_controllers env) cuid")
       (simp_all add: case_prod_beta Let_def add_replacement_pods replacement_pod_def)
qed simp

lemma reconcile_list_ok: "env_ok env \<Longrightarrow> env_ok (fst (reconcile_list cs env))"
  by (induction cs env rule: reconcile_list.induct)
     (simp_all add: case_prod_beta Let_def add_replacement_ok split: option.splits)

lemma reconcile_list_skip:
  "dget (e_controllers env) c = None \<or> owns_pod env c \<Longrightarrow>
     reconcile_list (c # cs) env = reconcile_list cs env"
  by (auto split: option.splits)

lemma reconcile_list_add:
  "dget (e_controllers env) c = Some ct \<Longrightarrow> \<not> owns_pod env c \<Longrightarrow>
     reconcile_list (c # cs) env =
       (fst (reconcile_list cs (add_replacement env c ct)),
        replacement_pod c ct (next_index env c) # snd (reconcile_list cs (add_replacement env c ct)))"
  by (simp add: case_prod_beta Let_def)

lemma owns_pod_add_replacement:
  "owns_pod (add_replacement env c ct) u \<longleftrightarrow> u = c \<or> owns_pod env u"
  by (auto simp: owns_pod_iff add_replacement_pods replacement_pod_def)

lemma reconcile_list_created:
  "p \<in> set (snd (reconcile_list cs env)) \<Longrightarrow>
     \<exists>cuid c k. cuid \<in> set cs \<and> dget (e_controllers env) cuid = Some c \<and> \<not> owns_pod env cuid \<and>
       p = replacement_pod cuid c k"
proof (induction cs arbitrary: env)
  case (Cons cuid cuids)
  show ?case
  proof (cases "dget (e_controllers env) cuid = None \<or> owns_pod env cuid")
    case True
    with Cons.prems have "p \<in> set (snd (reconcile_list cuids env))"
      by (simp add: reconcile_list_skip del: reconcile_list.simps)
    from Cons.IH[OF this] show ?thesis by fastforce
  next
    case False
    then obtain c where c: "dget (e_controllers env) cuid = Some c" "\<not> owns_pod env cuid" by auto
    with Cons.prems have "p = replacement_pod cuid c (next_index env cuid) \<or>
        p \<in> set (snd (reconcile_list cuids (add_replacement env cuid c)))"
      by (simp add: reconcile_list_add del: reconcile_list.simps)
    then show ?thesis
    proof
      assume "p = replacement_pod cuid c (next_index env cuid)"
      with c show ?thesis by auto
    next
      assume "p \<in> set (snd (reconcile_list cuids (add_replacement env cuid c)))"
      from Cons.IH[OF this] show ?thesis by (auto simp: owns_pod_add_replacement)
    qed
  qed
qed simp

lemma owns_pod_reconcile_mono: "owns_pod env u \<Longrightarrow> owns_pod (fst (reconcile_list cs env)) u"
  by (auto simp: owns_pod_iff reconcile_list_pods)

lemma reconcile_list_complete:
  "cuid \<in> set cs \<Longrightarrow> dget (e_controllers env) cuid = Some ct \<Longrightarrow> owns_pod (fst (reconcile_list cs env)) cuid"
proof (induction cs arbitrary: env)
  case (Cons c cs)
  show ?case
  proof (cases "dget (e_controllers env) c = None \<or> owns_pod env c")
    case True
    with Cons show ?thesis
      by (cases "cuid = c") (auto simp: reconcile_list_skip owns_pod_reconcile_mono simp del: reconcile_list.simps)
  next
    case False
    then obtain ct' where "dget (e_controllers env) c = Some ct'" "\<not> owns_pod env c" by auto
    with Cons show ?thesis
      by (cases "cuid = c")
         (auto simp: reconcile_list_add owns_pod_add_replacement owns_pod_reconcile_mono simp del: reconcile_list.simps)
  qed
qed simp

lemma reconcile_list_idle:
  "(\<And>c ct. c \<in> set cs \<Longrightarrow> dget (e_controllers env) c = Some ct \<Longrightarrow> owns_pod env c) \<Longrightarrow>
     reconcile_list cs env = (env, [])"
proof (induction cs)
  case (Cons c cs)
  then have "dget (e_controllers env) c = None \<or> owns_pod env c"
    by (cases "dget (e_controllers env) c") auto
  with Cons show ?case by (simp add: reconcile_list_skip del: reconcile_list.simps)
qed simp

definition reconciled :: "env \<Rightarrow> bool" where
  "reconciled env \<longleftrightarrow> (\<forall>c ct. dget (e_controllers env) c = Some ct \<longrightarrow> owns_pod env c)"

lemma reconcile_reconciled: "reconciled (reconcile env)"
proof -
  have "owns_pod (fst (reconcile_list (sort (dkeys (e_controllers env))) env)) c"
    if "dget (e_controllers env) c = Some ct" for c ct
  proof (rule reconcile_list_complete[OF _ that])
    show "c \<in> set (sort (dkeys (e_controllers env)))"
      using dget_SomeD[OF that] by simp
  qed
  then show ?thesis
    by (simp add: reconciled_def reconcile_controllers_def)
qed

lemma reconcile_idle: "reconciled env \<Longrightarrow> reconcile_controllers env = (env, [])"
  unfolding reconcile_controllers_def reconciled_def by (rule reconcile_list_idle) blast

lemma reconcile_ok: "env_ok env \<Longrightarrow> env_ok (reconcile env)"
  by (simp add: reconcile_controllers_def reconcile_list_ok)

lemma reconcile_frame [simp]:
  "e_time (reconcile env) = e_time env"
  "e_service_accounts (reconcile env) = e_service_accounts env"
  "e_controllers (reconcile env) = e_controllers env"
  "e_roles (reconcile env) = e_roles env"
  "e_bindings (reconcile env) = e_bindings env"
  "e_secrets (reconcile env) = e_secrets env"
  "e_services (reconcile env) = e_services env"
  "e_admission (reconcile env) = e_admission env"
  by (simp_all add: reconcile_controllers_def)

lemma reconcile_pods:
  "e_pods (reconcile env) = e_pods env @ map (\<lambda>p. (pod_uid p, p)) (snd (reconcile_controllers env))"
  by (simp add: reconcile_controllers_def reconcile_list_pods)

lemma map_of_append_le: "map_of d \<subseteq>\<^sub>m map_of (d @ e)"
  by (auto simp: map_le_def map_add_def split: option.splits)

lemma reconcile_pods_le: "map_of (e_pods env) \<subseteq>\<^sub>m map_of (e_pods (reconcile env))"
  unfolding reconcile_pods by (rule map_of_append_le)

section \<open>Defender actions\<close>

lemma lookup_simps:
  "act_param a k = (case lookup_param (act_params a) k of Some v \<Rightarrow> Inr v
      | None \<Rightarrow> Inl (MissingParameter (action_kind_name (act_kind a)) k))"
  "act_opt a k = lookup_param (act_params a) k"
  by (simp_all add: act_param_def act_opt_def)

lemma del_pods_frame [simp]:
  "e_time (del_pods P env) = e_time env"
  "e_service_accounts (del_pods P env) = e_service_accounts env"
  "e_controllers (del_pods P env) = e_controllers env"
  "e_roles (del_pods P env) = e_roles env"
  "e_bindings (del_pods P env) = e_bindings env"
  "e_secrets (del_pods P env) = e_secrets env"
  "e_services (del_pods P env) = e_services env"
  "e_admission (del_pods P env) = e_admission env"
  "e_controller_pod_counter (del_pods P env) = e_controller_pod_counter env"
  by (simp_all add: del_pods_def)

lemma dget_del_pods:
  assumes "keyed pod_uid (e_pods env)"
  shows "dget (e_pods (del_pods P env)) u =
     (case dget (e_pods env) u of Some p \<Rightarrow> if P p then None else Some p | None \<Rightarrow> None)"
proof -
  have "u \<in> set (map pod_uid (filter P (dvals (e_pods env)))) \<longleftrightarrow>
      (\<exists>p. p \<in> set (dvals (e_pods env)) \<and> P p \<and> pod_uid p = u)"
    by auto
  also have "\<dots> \<longleftrightarrow> (\<exists>p. dget (e_pods env) u = Some p \<and> P p)"
    unfolding keyed_dvals[OF assms] using keyed_dget[OF assms] by blast
  finally show ?thesis
    by (simp add: del_pods_def dget_fold_ddel del: set_map split: option.splits)
qed

lemma del_pods_ok: "env_ok env \<Longrightarrow> env_ok (del_pods P env)"
  by (simp add: env_ok_def del_pods_def keyed_fold_ddel)

lemma cascade_ok: "env_ok env \<Longrightarrow> env_ok (del_controller_cascade u env)"
  unfolding del_controller_cascade_def by (rule del_pods_ok) (simp add: env_ok_def keyed_ddel)

lemma fold_cascade_ok: "env_ok env \<Longrightarrow> env_ok (fold del_controller_cascade us env)"
  by (induction us arbitrary: env) (simp_all add: cascade_ok)

lemma cascade_frame [simp]:
  "e_time (del_controller_cascade u env) = e_time env"
  "e_service_accounts (del_controller_cascade u env) = e_service_accounts env"
  "e_controllers (del_controller_cascade u env) = ddel u (e_controllers env)"
  "e_roles (del_controller_cascade u env) = e_roles env"
  "e_bindings (del_controller_cascade u env) = e_bindings env"
  "e_secrets (del_controller_cascade u env) = e_secrets env"
  "e_services (del_controller_cascade u env) = e_services env"
  "e_admission (del_controller_cascade u env) = e_admission env"
  "e_controller_pod_counter (del_controller_cascade u env) = e_controller_pod_counter env"
  by (simp_all add: del_controller_cascade_def)

lemma dget_cascade:
  assumes "keyed pod_uid (e_pods env)"
  shows "dget (e_pods (del_controller_cascade c env)) u =
     (case dget (e_pods env) u of
        Some p \<Rightarrow> if pod_controller_uid p = Some c then None else Some p | None \<Rightarrow> None)"
  using assms by (simp add: del_controller_cascade_def dget_del_pods)

lemma fold_cascade_frame [simp]:
  "e_time (fold del_controller_cascade us env) = e_time env"
  "e_service_accounts (fold del_controller_cascade us env) = e_service_accounts env"
  "e_controllers (fold del_controller_cascade us env) = fold ddel us (e_controllers env)"
  "e_roles (fold del_controller_cascade us env) = e_roles env"
  "e_bindings (fold del_controller_cascade us env) = e_bindings env"
  "e_secrets (fold del_controller_cascade us env) = e_secrets env"
  "e_services (fold del_controller_cascade us env) = e_services env"
  "e_admission (fold del_controller_cascade us env) = e_admission env"
  "e_controller_pod_counter (fold del_controller_cascade us env) = e_controller_pod_counter env"
  by (induction us arbitrary: env) simp_all

lemma dget_fold_cascade:
  assumes "env_ok env"
  shows "dget (e_pods (fold del_controller_cascade cs env)) u =
     (case dget (e_pods env) u of
        Some p \<Rightarrow> if pod_controller_uid p \<in> Some ` set cs then None else Some p | None \<Rightarrow> None)"
  using assms
proof (induction cs arbitrary: env)
  case Nil
  then show ?case by (simp split: option.splits)
next
  case (Cons c cs)
  have "keyed pod_uid (e_pods env)" using Cons.prems by (simp add: env_ok_def)
  then show ?case
    using Cons.IH[OF cascade_ok[OF Cons.prems, of c]]
    by (auto simp: dget_cascade split: option.splits)
qed

lemma rotate_ok: "env_ok env \<Longrightarrow> dget (e_services env) n = Some svc \<Longrightarrow> env_ok (fst (rotate env svc))"
  using keyed_dget[of sec_key "e_secrets env"]
  by (auto simp: env_ok_def rotate_def Let_def keyed_dset split: option.splits)

text \<open>
  The abstract effect of an action: what it denotes once its parameters are read. On the actions
  the parser accepts, applying an action never raises and performs its effect.
\<close>

datatype effect =
    EffRemoveBinding "string option \<times> string"
  | EffDeletePod string
  | EffDeleteController string
  | EffDeletePodsExcept string string "string list"
  | EffDeleteControllersExcept string string "string list"
  | EffDeleteAccount "string \<times> string"
  | EffRotate string
  | EffWait int

definition pod_selected :: "string \<Rightarrow> string \<Rightarrow> string list \<Rightarrow> pod \<Rightarrow> bool" where
  "pod_selected ns sa keep p \<longleftrightarrow>
     pod_namespace p = ns \<and> pod_service_account p = sa \<and> pod_uid p \<notin> set keep"

definition ctrl_selected :: "string \<Rightarrow> string \<Rightarrow> string list \<Rightarrow> controller \<Rightarrow> bool" where
  "ctrl_selected ns sa keep c \<longleftrightarrow>
     ctrl_namespace c = ns \<and> ctrl_service_account c = sa \<and> ctrl_uid c \<notin> set keep"

fun apply_effect :: "effect \<Rightarrow> env \<Rightarrow> env" where
  "apply_effect (EffRemoveBinding key) env = env\<lparr>e_bindings := ddel key (e_bindings env)\<rparr>"
| "apply_effect (EffDeletePod u) env = env\<lparr>e_pods := ddel u (e_pods env)\<rparr>"
| "apply_effect (EffDeleteController u) env = del_controller_cascade u env"
| "apply_effect (EffDeletePodsExcept ns sa keep) env = del_pods (pod_selected ns sa keep) env"
| "apply_effect (EffDeleteControllersExcept ns sa keep) env =
     fold del_controller_cascade
       (map ctrl_uid (filter (ctrl_selected ns sa keep) (dvals (e_controllers env)))) env"
| "apply_effect (EffDeleteAccount key) env = env\<lparr>e_service_accounts := ddel key (e_service_accounts env)\<rparr>"
| "apply_effect (EffRotate s) env =
     (case dget (e_services env) s of None \<Rightarrow> env | Some svc \<Rightarrow> fst (rotate env svc))"
| "apply_effect (EffWait n) env = env\<lparr>e_time := e_time env + n\<rparr>"

definition effect_of :: "defender_action \<Rightarrow> effect option" where
  "effect_of a =
     (let p = act_opt a in
      case act_kind a of
        RemoveBinding \<Rightarrow> map_option (\<lambda>n. EffRemoveBinding (p ''namespace'', n)) (p ''name'')
      | DeletePod \<Rightarrow> map_option EffDeletePod (p ''uid'')
      | DeleteController \<Rightarrow> map_option EffDeleteController (p ''uid'')
      | DeletePodsExcept \<Rightarrow>
          Option.bind (p ''namespace'') (\<lambda>ns. Option.bind (p ''service_account'') (\<lambda>sa.
          map_option (\<lambda>ks. EffDeletePodsExcept ns sa (keep_list ks)) (p ''keep_uids'')))
      | DeleteControllersExcept \<Rightarrow>
          Option.bind (p ''namespace'') (\<lambda>ns. Option.bind (p ''service_account'') (\<lambda>sa.
          map_option (\<lambda>ks. EffDeleteControllersExcept ns sa (keep_list ks)) (p ''keep_uids'')))
      | DeleteServiceAccount \<Rightarrow>
          Option.bind (p ''namespace'') (\<lambda>ns. map_option (\<lambda>n. EffDeleteAccount (ns, n)) (p ''name''))
      | RotateDownstreamCredential \<Rightarrow> map_option EffRotate (p ''service'')
      | Wait \<Rightarrow> Option.bind (p ''seconds'') (\<lambda>s. map_option EffWait (py_int s)))"

lemma apply_defender_action_effect:
  assumes "effect_of a = Some e"
  shows "\<exists>ns. apply_defender_action env a = Inr (apply_effect e env, ns)"
proof (cases "act_kind a")
  case RotateDownstreamCredential
  with assms obtain s where "act_opt a ''service'' = Some s" "e = EffRotate s"
    by (auto simp: effect_of_def Let_def)
  with RotateDownstreamCredential show ?thesis
    by (cases "dget (e_services env) s"; cases "rotate env (the (dget (e_services env) s))")
       (simp_all add: apply_defender_action_def lookup_simps)
qed (use assms in \<open>auto simp: effect_of_def Let_def apply_defender_action_def lookup_simps
       delete_pods_except_def delete_controllers_except_def seconds_param_def bind_eq_Some_conv
       pod_selected_def[abs_def] ctrl_selected_def[abs_def]\<close>)

lemma action_ok_effect: "action_ok a \<Longrightarrow> \<exists>e. effect_of a = Some e"
  by (cases "act_kind a")
     (auto simp: action_ok_def effect_of_def Let_def act_opt_def except_params_def)

lemma effect_wait_pos: "action_ok a \<Longrightarrow> effect_of a = Some (EffWait n) \<Longrightarrow> 1 \<le> n"
  by (cases "act_kind a")
     (auto simp: action_ok_def effect_of_def Let_def act_opt_def except_params_def split: bind_splits)

lemma apply_effect_ok: "env_ok env \<Longrightarrow> env_ok (apply_effect e env)"
proof (cases e)
  case (EffRotate s)
  assume "env_ok env"
  with EffRotate rotate_ok[OF this, of s] show ?thesis by (simp split: option.splits)
next
  case (EffDeleteControllersExcept ns sa keep)
  then show "env_ok env \<Longrightarrow> ?thesis" by (simp add: fold_cascade_ok del: cascade_frame)
qed (simp_all add: cascade_ok del_pods_ok, simp_all add: env_ok_def keyed_ddel)

lemma apply_defender_action_ok:
  assumes "env_ok env" and "action_ok a"
  shows "\<exists>e ns. effect_of a = Some e \<and> apply_defender_action env a = Inr (apply_effect e env, ns) \<and>
    env_ok (apply_effect e env)"
  using action_ok_effect[OF assms(2)] apply_defender_action_effect apply_effect_ok[OF assms(1)] by blast

text \<open>What no defender action touches.\<close>

lemma apply_effect_frame [simp]:
  "e_roles (apply_effect e env) = e_roles env"
  "e_admission (apply_effect e env) = e_admission env"
  by (cases e; simp add: rotate_def Let_def split: option.splits)+

end
