(* ===== verification/Engine.thy ===== *)
theory Engine
  imports Semantics_Correct
begin

text \<open>
  The capability engine, \<open>packages/afterlock/engine.py\<close>: the facts and their derivations, the
  saturation of one interval (\<open>_Run.closure\<close>), and the run of a view over a remediation sequence
  (\<open>run_view\<close>). The mutable state of a run (attacker tables, environment, counters) is one record
  that every operation returns; an exception carries the state it leaves behind, because
  \<open>run_view\<close> reads the tables after \<open>BoundsExceeded\<close>. A lookup that Python would answer with
  \<open>KeyError\<close>, and \<open>int\<close> of an unreadable version, are exceptions of the model as well.
\<close>

section \<open>Facts and derivations\<close>

datatype fact =
    Possesses string
  | ControlsPod string
  | ControlsController string
  | KnowsSecret string string string
  | PossessesDownstream string string
  | CanReadSecret string string
  | CanUseDownstream string

text \<open>The tuple of strings the source uses; facts are sorted as these tuples.\<close>

fun fact_tuple :: "fact \<Rightarrow> string list" where
  "fact_tuple (Possesses c) = [''possesses'', c]"
| "fact_tuple (ControlsPod u) = [''controls_pod'', u]"
| "fact_tuple (ControlsController u) = [''controls_controller'', u]"
| "fact_tuple (KnowsSecret ns n v) = [''knows_secret'', ns, n, v]"
| "fact_tuple (PossessesDownstream s v) = [''possesses_downstream'', s, v]"
| "fact_tuple (CanReadSecret ns n) = [''can_read_secret'', ns, n]"
| "fact_tuple (CanUseDownstream s) = [''can_use_downstream'', s]"

lemma fact_tuple_inject [simp]: "fact_tuple f = fact_tuple g \<longleftrightarrow> f = g"
  by (cases f; cases g) auto

instantiation fact :: linorder
begin

definition less_eq_fact :: "fact \<Rightarrow> fact \<Rightarrow> bool" where
  "less_eq_fact f g \<longleftrightarrow> fact_tuple f \<le> fact_tuple g"

definition less_fact :: "fact \<Rightarrow> fact \<Rightarrow> bool" where
  "less_fact f g \<longleftrightarrow> fact_tuple f < fact_tuple g"

instance
proof
  fix x y z :: fact
  show "x < y \<longleftrightarrow> x \<le> y \<and> \<not> y \<le> x"
    by (simp add: less_eq_fact_def less_fact_def less_le_not_le)
  show "x \<le> x" by (simp add: less_eq_fact_def)
  show "x \<le> y \<Longrightarrow> y \<le> z \<Longrightarrow> x \<le> z" by (simp add: less_eq_fact_def)
  show "x \<le> y \<Longrightarrow> y \<le> x \<Longrightarrow> x = y"
    unfolding less_eq_fact_def using fact_tuple_inject antisym by blast
  show "x \<le> y \<or> y \<le> x" by (simp add: less_eq_fact_def linear)
qed

end

text \<open>\<open>PERSISTENT_KINDS\<close>: everything but the two goal kinds.\<close>

fun persistent :: "fact \<Rightarrow> bool" where
  "persistent (CanReadSecret _ _) = False"
| "persistent (CanUseDownstream _) = False"
| "persistent _ = True"

datatype rule =
    R_EVIDENCE | R_CONTROLLER_POD | R_OBTAIN_PROJECTED_TOKEN | R_CREATE_POD
  | R_CREATE_CONTROLLER | R_EXEC_POD | R_READ_SECRET | R_DOWNSTREAM_CREDENTIAL | R_USE_DOWNSTREAM

datatype condition =
    CheckCredentialUsable string int "reason list"
  | CheckAuthorized string string string string "string option" "string list"
  | CheckAdmissionAllows string string string "string list"
  | CheckServiceAccountExists string string "string option"
  | CheckPodExists string
  | CheckPodOwnedByController string string
  | CheckSecretVersion string string int
  | CheckServiceSources string string string
  | CheckServiceAccepts string int "int option"

record derivation =
  der_fact :: fact
  der_rule :: rule
  der_interval :: int
  der_premises :: "fact list"
  der_conditions :: "condition list"
  der_status :: epistemic
  der_evidence :: "string list"
  der_note :: string

definition INITIAL_INTERVAL :: int where "INITIAL_INTERVAL = -2"
definition HISTORY_INTERVAL :: int where "HISTORY_INTERVAL = -1"

datatype view = EvidenceView | PossibleView
datatype mode = ModeFull | ModeSnapshot | ModeNoLifecycle | ModeFinalState

datatype unknown =
    UnsupportedCredential string "reason list"
  | UnsupportedAdmission string string string "string list" string

section \<open>The state of a run\<close>

record est =
  x_facts :: "(fact, derivation) dict"
  x_creds :: "(string, credential_spec) dict"
  x_eph :: "(fact, derivation) dict"
  x_env :: env
  x_count :: int
  x_unknowns :: "(string, unknown) dict"
  x_changed :: bool

record run =
  r_inp :: analysis_input
  r_view :: view
  r_mode :: mode
  r_in_history :: bool

datatype exn = BoundsExceeded | KeyError string | ValueError string | ModelErr model_error

type_synonym flow = "(exn \<times> est) + est"

definition tick :: "run \<Rightarrow> est \<Rightarrow> flow" where
  "tick r st =
     (let st' = st\<lparr>x_count := x_count st + 1\<rparr>
      in if x_count st' > max_derivations (inp_bounds (r_inp r)) then Inl (BoundsExceeded, st') else Inr st')"

definition mark_unknown :: "string \<Rightarrow> unknown \<Rightarrow> est \<Rightarrow> est" where
  "mark_unknown key u st = st\<lparr>x_unknowns := setdefault key u (x_unknowns st)\<rparr>"

text \<open>\<open>_use_time\<close>: when a use of the credential is evaluated (S-TOK-1).\<close>

definition use_time :: "run \<Rightarrow> env \<Rightarrow> credential_spec \<Rightarrow> int" where
  "use_time r env c =
     (case cred_expires_at c of
        None \<Rightarrow> e_time env
      | Some e \<Rightarrow>
          if \<not> r_in_history r \<or> e > e_time env then e_time env
          else (let last_valid = e - 1 in
                case inp_history_start (r_inp r) of
                  Some start \<Rightarrow> if last_valid < start then start else last_valid
                | None \<Rightarrow> last_valid))"

text \<open>
  \<open>_usable\<close>: the state with a possible new unknown, and the condition when the credential may be
  used. \<open>cred_use\<close> is the verdict on its own.
\<close>

definition cred_use :: "run \<Rightarrow> env \<Rightarrow> credential_spec \<Rightarrow> condition option" where
  "cred_use r env c =
     (let at = use_time r env c; u = credential_usable env c (inp_profile (r_inp r)) (Some at)
      in if \<not> us_supported u then None
         else if us_usable u \<or> r_mode r = ModeNoLifecycle
         then Some (CheckCredentialUsable (cred_id c) at (us_reasons u)) else None)"

definition note_unsupported :: "run \<Rightarrow> credential_spec \<Rightarrow> est \<Rightarrow> est" where
  "note_unsupported r c st =
     (let u = credential_usable (x_env st) c (inp_profile (r_inp r)) (Some (use_time r (x_env st) c))
      in if us_supported u then st
         else mark_unknown (''cred:'' @ cred_id c) (UnsupportedCredential (cred_id c) (us_reasons u)) st)"

section \<open>Adding facts\<close>

definition put_fact :: "derivation \<Rightarrow> est \<Rightarrow> est" where
  "put_fact d st =
     (if persistent (der_fact d) then st\<lparr>x_facts := dset (der_fact d) d (x_facts st), x_changed := True\<rparr>
      else st\<lparr>x_eph := dset (der_fact d) d (x_eph st), x_changed := True\<rparr>)"

definition known :: "fact \<Rightarrow> est \<Rightarrow> bool" where
  "known f st = (if persistent f then dmem f (x_facts st) else dmem f (x_eph st))"

text \<open>\<open>changed |= self._add(att, eph, d)\<close>.\<close>

definition add :: "run \<Rightarrow> derivation \<Rightarrow> est \<Rightarrow> flow" where
  "add r d st = (if known (der_fact d) st then Inr st else rbind (tick r st) (\<lambda>s. Inr (put_fact d s)))"

definition inferred ::
  "fact \<Rightarrow> rule \<Rightarrow> int \<Rightarrow> fact list \<Rightarrow> condition list \<Rightarrow> string \<Rightarrow> derivation" where
  "inferred f ru i ps cs n = \<lparr>der_fact = f, der_rule = ru, der_interval = i, der_premises = ps,
     der_conditions = cs, der_status = Inferred, der_evidence = [], der_note = n\<rparr>"

section \<open>The rules of one pass\<close>

text \<open>Controlled controllers control their current pods.\<close>

definition controller_pod_body :: "run \<Rightarrow> int \<Rightarrow> string \<Rightarrow> string \<Rightarrow> est \<Rightarrow> flow" where
  "controller_pod_body r i c puid st =
     (case dget (e_pods (x_env st)) puid of
        None \<Rightarrow> Inl (KeyError puid, st)
      | Some p \<Rightarrow>
          if pod_controller_uid p = Some c
          then add r (inferred (ControlsPod puid) R_CONTROLLER_POD i [ControlsController c]
                        [CheckPodOwnedByController puid c] []) st
          else Inr st)"

definition facts_of :: "(fact \<Rightarrow> bool) \<Rightarrow> est \<Rightarrow> fact list" where
  "facts_of P st = sort (filter P (dkeys (x_facts st)))"

fun is_controls_controller :: "fact \<Rightarrow> bool" where
  "is_controls_controller (ControlsController _) = True" | "is_controls_controller _ = False"

fun is_controls_pod :: "fact \<Rightarrow> bool" where
  "is_controls_pod (ControlsPod _) = True" | "is_controls_pod _ = False"

fun is_possesses :: "fact \<Rightarrow> bool" where
  "is_possesses (Possesses _) = True" | "is_possesses _ = False"

fun is_knows :: "fact \<Rightarrow> bool" where
  "is_knows (KnowsSecret _ _ _) = True" | "is_knows _ = False"

fun is_downstream :: "fact \<Rightarrow> bool" where
  "is_downstream (PossessesDownstream _ _) = True" | "is_downstream _ = False"

fun controller_pods :: "run \<Rightarrow> int \<Rightarrow> fact \<Rightarrow> est \<Rightarrow> flow" where
  "controller_pods r i (ControlsController c) st =
     for_each (controller_pod_body r i c) (sort (dkeys (e_pods (x_env st)))) st"
| "controller_pods r i _ st = Inr st"

text \<open>A controlled pod that exists yields its projected tokens.\<close>

definition projected_id :: "string \<Rightarrow> string \<Rightarrow> string" where
  "projected_id uid aud = ''projected:'' @ uid @ '':'' @ aud"

definition projected_cred :: "pod \<Rightarrow> service_account \<Rightarrow> string \<Rightarrow> int \<Rightarrow> credential_spec" where
  "projected_cred p sa aud e = \<lparr>cred_id = projected_id (pod_uid p) aud, cred_kind = ''sa_token'',
     cred_username = sa_user sa, cred_sa_uid = Some (sa_uid sa),
     cred_bound_pod_uid = Some (pod_uid p), cred_audience = aud, cred_expires_at = Some e\<rparr>"

definition token_fresh :: "est \<Rightarrow> string \<Rightarrow> int \<Rightarrow> bool" where
  "token_fresh st cid e =
     (case dget (x_creds st) cid of
        Some c \<Rightarrow> (case cred_expires_at c of Some e' \<Rightarrow> e' \<ge> e | None \<Rightarrow> False)
      | None \<Rightarrow> False)"

definition token_derivation :: "int \<Rightarrow> fact \<Rightarrow> pod \<Rightarrow> service_account \<Rightarrow> string \<Rightarrow> int \<Rightarrow> derivation" where
  "token_derivation i f p sa aud e =
     inferred (Possesses (projected_id (pod_uid p) aud)) R_OBTAIN_PROJECTED_TOKEN i [f]
       [CheckPodExists (pod_uid p), CheckServiceAccountExists (sa_namespace sa) (sa_name sa) (Some (sa_uid sa))]
       (''token for audience '' @ aud @ '', expires '' @ str_of_int e)"

definition token_body :: "run \<Rightarrow> int \<Rightarrow> fact \<Rightarrow> pod \<Rightarrow> service_account \<Rightarrow> string \<Rightarrow> est \<Rightarrow> flow" where
  "token_body r i f p sa aud st =
     (let cid = projected_id (pod_uid p) aud;
          e = e_time (x_env st) + prof_projected_token_ttl_seconds (inp_profile (r_inp r))
      in if token_fresh st cid e then Inr st
         else rbind (tick r (st\<lparr>x_creds := dset cid (projected_cred p sa aud e) (x_creds st)\<rparr>))
                (\<lambda>s. Inr (put_fact (token_derivation i f p sa aud e) s)))"

definition token_audiences :: "run \<Rightarrow> pod \<Rightarrow> string list option" where
  "token_audiences r p =
     (if pod_token_audiences p \<noteq> [] then Some (pod_token_audiences p)
      else (case prof_api_audiences (inp_profile (r_inp r)) of [] \<Rightarrow> None | a # _ \<Rightarrow> Some [a]))"

fun pod_tokens :: "run \<Rightarrow> int \<Rightarrow> fact \<Rightarrow> est \<Rightarrow> flow" where
  "pod_tokens r i (ControlsPod u) st =
     (case dget (e_pods (x_env st)) u of
        None \<Rightarrow> Inr st
      | Some p \<Rightarrow>
          (case dget (e_service_accounts (x_env st)) (pod_namespace p, pod_service_account p) of
             None \<Rightarrow> Inr st
           | Some sa \<Rightarrow>
               (case token_audiences r p of
                  None \<Rightarrow> Inl (KeyError ''api_audiences'', st)
                | Some auds \<Rightarrow> for_each (token_body r i (ControlsPod u) p sa) auds st)))"
| "pod_tokens r i _ st = Inr st"

text \<open>Workloads the attacker may create, one per namespace and service account and kind.\<close>

datatype workload = WorkPod | WorkController

definition controls_live :: "est \<Rightarrow> string \<Rightarrow> string \<Rightarrow> workload \<Rightarrow> bool" where
  "controls_live st ns sa kind =
     list_ex (\<lambda>f. case f of
         ControlsPod u \<Rightarrow> kind = WorkPod \<and> starts_with u MODEL_POD_PREFIX \<and>
           (case dget (e_pods (x_env st)) u of
              None \<Rightarrow> False | Some p \<Rightarrow> pod_namespace p = ns \<and> pod_service_account p = sa)
       | ControlsController u \<Rightarrow> kind = WorkController \<and> starts_with u MODEL_DEPLOY_PREFIX \<and>
           (case dget (e_controllers (x_env st)) u of
              None \<Rightarrow> False | Some c \<Rightarrow> ctrl_namespace c = ns \<and> ctrl_service_account c = sa)
       | _ \<Rightarrow> False) (dkeys (x_facts st))"

fun workload_resource :: "workload \<Rightarrow> string" where
  "workload_resource WorkPod = ''pods''" | "workload_resource WorkController = ''deployments''"

fun workload_name :: "workload \<Rightarrow> string" where
  "workload_name WorkPod = ''pod''" | "workload_name WorkController = ''controller''"

definition model_pod :: "string \<Rightarrow> string \<Rightarrow> int \<Rightarrow> pod" where
  "model_pod ns sa i = \<lparr>pod_namespace = ns, pod_name = model_pod_uid ns sa i,
     pod_uid = model_pod_uid ns sa i, pod_service_account = sa, pod_token_audiences = [],
     pod_controller_uid = None\<rparr>"

definition model_controller :: "string \<Rightarrow> string \<Rightarrow> int \<Rightarrow> controller" where
  "model_controller ns sa i = \<lparr>ctrl_namespace = ns, ctrl_name = model_controller_uid ns sa i,
     ctrl_uid = model_controller_uid ns sa i, ctrl_service_account = sa, ctrl_token_audiences = []\<rparr>"

definition env_add_pod :: "pod \<Rightarrow> env \<Rightarrow> env" where
  "env_add_pod p env = env\<lparr>e_pods := dset (pod_uid p) p (e_pods env)\<rparr>"

definition env_add_controller :: "controller \<Rightarrow> env \<Rightarrow> env" where
  "env_add_controller c env = reconcile
     (env\<lparr>e_controllers := dset (ctrl_uid c) c (e_controllers env),
          e_controller_pod_counter := dset (ctrl_uid c) (-1) (e_controller_pod_counter env)\<rparr>)"

definition create_conditions ::
  "condition \<Rightarrow> string \<Rightarrow> string \<Rightarrow> string list \<Rightarrow> string \<Rightarrow> string list \<Rightarrow> workload \<Rightarrow> condition list" where
  "create_conditions uc user ns via sa pols kind =
     [uc, CheckAuthorized user ''create'' (workload_resource kind) ns None via,
      CheckAdmissionAllows user ns sa pols, CheckServiceAccountExists ns sa None]"

definition admission_key :: "string \<Rightarrow> string \<Rightarrow> string \<Rightarrow> workload \<Rightarrow> string" where
  "admission_key ns user sa kind =
     ''adm:'' @ ns @ '':'' @ user @ '':'' @ sa @ '':'' @ workload_name kind"

text \<open>The creation itself, once every guard has passed.\<close>

definition create_workload ::
  "run \<Rightarrow> int \<Rightarrow> fact \<Rightarrow> condition list \<Rightarrow> string \<Rightarrow> string \<Rightarrow> workload \<Rightarrow> est \<Rightarrow> flow" where
  "create_workload r i f conds ns sa kind st =
     (case kind of
        WorkPod \<Rightarrow>
          if dmem (model_pod_uid ns sa i) (e_pods (x_env st)) then Inr st
          else add r (inferred (ControlsPod (model_pod_uid ns sa i)) R_CREATE_POD i [f] conds [])
                 (st\<lparr>x_env := env_add_pod (model_pod ns sa i) (x_env st)\<rparr>)
      | WorkController \<Rightarrow>
          if dmem (model_controller_uid ns sa i) (e_controllers (x_env st)) then Inr st
          else add r (inferred (ControlsController (model_controller_uid ns sa i)) R_CREATE_CONTROLLER i [f] conds [])
                 (st\<lparr>x_env := env_add_controller (model_controller ns sa i) (x_env st)\<rparr>))"

definition create_body ::
  "run \<Rightarrow> int \<Rightarrow> fact \<Rightarrow> condition \<Rightarrow> string \<Rightarrow> string \<Rightarrow> string list \<Rightarrow> workload \<Rightarrow> string \<times> string \<Rightarrow> est \<Rightarrow> flow" where
  "create_body r i f uc user ns via kind key st =
     (case key of (sns, sname) \<Rightarrow>
       if sns \<noteq> ns then Inr st
       else if controls_live st ns sname kind then Inr st
       else (let adm = admission_decision (x_env st) user ns sname in
         case ad_outcome adm of
           AdmUnsupported \<Rightarrow>
             Inr (mark_unknown (admission_key ns user sname kind)
                    (UnsupportedAdmission ns user sname (ad_policies adm)
                       (''cannot evaluate whether '' @ user @ '' may create a '' @
                        butlast (workload_resource kind) @ '' running as '' @ sname)) st)
         | AdmDeny \<Rightarrow> Inr st
         | AdmAllow \<Rightarrow>
             create_workload r i f (create_conditions uc user ns via sname (ad_policies adm) kind)
               ns sname kind st))"

definition create_workloads ::
  "run \<Rightarrow> int \<Rightarrow> fact \<Rightarrow> condition \<Rightarrow> string \<Rightarrow> string \<Rightarrow> workload \<Rightarrow> est \<Rightarrow> flow" where
  "create_workloads r i f uc user ns kind st =
     (let via = authorizing_bindings (x_env st) user ''create'' (workload_resource kind) ns None
      in if via = [] then Inr st
         else for_each (create_body r i f uc user ns via kind)
                (sort (dkeys (e_service_accounts (x_env st)))) st)"

text \<open>Exec into a pod, and reading a secret.\<close>

definition object_premises :: "pod \<Rightarrow> fact list" where
  "object_premises p =
     (case pod_controller_uid p of
        Some c \<Rightarrow> if starts_with c MODEL_DEPLOY_PREFIX then [ControlsController c]
                  else if starts_with (pod_uid p) MODEL_POD_PREFIX then [ControlsPod (pod_uid p)] else []
      | None \<Rightarrow> if starts_with (pod_uid p) MODEL_POD_PREFIX then [ControlsPod (pod_uid p)] else [])"

definition exec_body :: "run \<Rightarrow> int \<Rightarrow> fact \<Rightarrow> condition \<Rightarrow> string \<Rightarrow> string \<Rightarrow> est \<Rightarrow> flow" where
  "exec_body r i f uc user puid st =
     (case dget (e_pods (x_env st)) puid of
        None \<Rightarrow> Inl (KeyError puid, st)
      | Some p \<Rightarrow>
          (let via = authorizing_bindings (x_env st) user ''create'' ''pods/exec'' (pod_namespace p) (Some (pod_name p))
           in if via = [] then Inr st
              else add r (inferred (ControlsPod puid) R_EXEC_POD i (f # object_premises p)
                     [uc, CheckAuthorized user ''create'' ''pods/exec'' (pod_namespace p) (Some (pod_name p)) via] []) st))"

definition reading_verb :: "env \<Rightarrow> string \<Rightarrow> secret \<Rightarrow> string option" where
  "reading_verb env user s =
     find (\<lambda>v. authorizing_bindings env user v ''secrets'' (sec_namespace s) (Some (sec_name s)) \<noteq> [])
       SECRET_READ_VERBS"

definition read_conditions :: "env \<Rightarrow> condition \<Rightarrow> string \<Rightarrow> string \<Rightarrow> secret \<Rightarrow> condition list" where
  "read_conditions env uc user verb s =
     [uc, CheckAuthorized user verb ''secrets'' (sec_namespace s) (Some (sec_name s))
            (authorizing_bindings env user verb ''secrets'' (sec_namespace s) (Some (sec_name s))),
      CheckSecretVersion (sec_namespace s) (sec_name s) (sec_version s)]"

definition read_body :: "run \<Rightarrow> int \<Rightarrow> fact \<Rightarrow> condition \<Rightarrow> string \<Rightarrow> string \<times> string \<Rightarrow> est \<Rightarrow> flow" where
  "read_body r i f uc user key st =
     (case dget (e_secrets (x_env st)) key of
        None \<Rightarrow> Inl (KeyError (snd key), st)
      | Some s \<Rightarrow>
          (case reading_verb (x_env st) user s of
             None \<Rightarrow> Inr st
           | Some verb \<Rightarrow>
               (let conds = read_conditions (x_env st) uc user verb s in
                rbind (add r (inferred (KnowsSecret (sec_namespace s) (sec_name s) (str_of_int (sec_version s)))
                         R_READ_SECRET i [f] conds []) st)
                  (add r (inferred (CanReadSecret (sec_namespace s) (sec_name s))
                         R_READ_SECRET i [f] conds [])))))"

text \<open>Everything one credential allows, when it may be used.\<close>

definition api_requests :: "run \<Rightarrow> int \<Rightarrow> fact \<Rightarrow> credential_spec \<Rightarrow> condition \<Rightarrow> est \<Rightarrow> flow" where
  "api_requests r i f c uc st =
     rbind (for_each (\<lambda>ns s. rbind (create_workloads r i f uc (cred_username c) ns WorkPod s)
                                (create_workloads r i f uc (cred_username c) ns WorkController))
              (namespaces (x_env st)) st) (\<lambda>st1.
     rbind (for_each (exec_body r i f uc (cred_username c)) (sort (dkeys (e_pods (x_env st1)))) st1) (\<lambda>st2.
     for_each (read_body r i f uc (cred_username c)) (sort (dkeys (e_secrets (x_env st2)))) st2))"

fun credential_requests :: "run \<Rightarrow> int \<Rightarrow> fact \<Rightarrow> est \<Rightarrow> flow" where
  "credential_requests r i (Possesses cid) st =
     (case dget (x_creds st) cid of
        None \<Rightarrow> Inl (KeyError cid, st)
      | Some c \<Rightarrow>
          (let st' = note_unsupported r c st in
           case cred_use r (x_env st) c of
             None \<Rightarrow> Inr st'
           | Some uc \<Rightarrow> api_requests r i (Possesses cid) c uc st'))"
| "credential_requests r i _ st = Inr st"

text \<open>Knowledge of a secret is possession of the downstream credential derived from it.\<close>

definition downstream_body :: "run \<Rightarrow> int \<Rightarrow> string \<Rightarrow> string \<Rightarrow> string \<Rightarrow> downstream_service \<Rightarrow> est \<Rightarrow> flow" where
  "downstream_body r i ns n v svc st =
     add r (inferred (PossessesDownstream (svc_name svc) v) R_DOWNSTREAM_CREDENTIAL i [KnowsSecret ns n v]
              [CheckServiceSources (svc_name svc) ns n] []) st"

fun downstream_credentials :: "run \<Rightarrow> int \<Rightarrow> fact \<Rightarrow> est \<Rightarrow> flow" where
  "downstream_credentials r i (KnowsSecret ns n v) st =
     for_each (downstream_body r i ns n v) (secrets_feeding (x_env st) ns n) st"
| "downstream_credentials r i _ st = Inr st"

fun downstream_uses :: "run \<Rightarrow> int \<Rightarrow> fact \<Rightarrow> est \<Rightarrow> flow" where
  "downstream_uses r i (PossessesDownstream s v) st =
     (case dget (e_services (x_env st)) s of
        None \<Rightarrow> Inr st
      | Some svc \<Rightarrow>
          (case py_int v of
             None \<Rightarrow> Inl (ValueError v, st)
           | Some n \<Rightarrow>
               if svc_accepts svc n (e_time (x_env st))
               then add r (inferred (CanUseDownstream (svc_name svc)) R_USE_DOWNSTREAM i [PossessesDownstream s v]
                      [CheckServiceAccepts (svc_name svc) n
                         (if n \<noteq> svc_accepted_version svc then Some (e_time (x_env st)) else None)] []) st
               else Inr st))"
| "downstream_uses r i _ st = Inr st"

section \<open>Saturation of an interval\<close>

text \<open>One iteration of the \<open>while True\<close> loop: the five groups of rules, each over a snapshot.\<close>

definition pass :: "run \<Rightarrow> int \<Rightarrow> est \<Rightarrow> flow" where
  "pass r i st0 =
     (let st = st0\<lparr>x_changed := False\<rparr> in
      rbind (for_each (controller_pods r i) (facts_of is_controls_controller st) st) (\<lambda>st.
      rbind (for_each (pod_tokens r i) (facts_of is_controls_pod st) st) (\<lambda>st.
      rbind (for_each (credential_requests r i) (facts_of is_possesses st) st) (\<lambda>st.
      rbind (for_each (downstream_credentials r i) (facts_of is_knows st) st) (\<lambda>st.
      for_each (downstream_uses r i) (facts_of is_downstream st) st)))))"

end
