(* ===== verification/Attacker.thy ===== *)
theory Attacker
  imports Engine
begin

text \<open>
  The attacker as a transition relation. \<open>derivable\<close> says which derivations a state supports,
  one rule per inference rule of the engine; \<open>att_step\<close> is one attacker transition: learning a
  derivable fact, obtaining a projected token, creating a workload. The passes of the engine are
  runs of this relation (\<open>pass_run\<close>), so an invariant of the engine is proved once per transition.
\<close>

section \<open>What a state supports\<close>

text \<open>
  The credential may be used. The condition recorded in a derivation is the one of the check; in
  the baseline without life cycle its reasons may be those of an earlier moment.
\<close>

definition may_use :: "run \<Rightarrow> env \<Rightarrow> credential_spec \<Rightarrow> condition \<Rightarrow> bool" where
  "may_use r env c uc \<longleftrightarrow> cred_use r env c \<noteq> None \<and>
     (r_mode r \<noteq> ModeNoLifecycle \<longrightarrow> cred_use r env c = Some uc)"

text \<open>The attacker holds a credential it may use.\<close>

definition holds_usable :: "run \<Rightarrow> est \<Rightarrow> string \<Rightarrow> credential_spec \<Rightarrow> condition \<Rightarrow> bool" where
  "holds_usable r st cid c uc \<longleftrightarrow>
     dmem (Possesses cid) (x_facts st) \<and> dget (x_creds st) cid = Some c \<and> may_use r (x_env st) c uc"

inductive derivable :: "run \<Rightarrow> int \<Rightarrow> est \<Rightarrow> derivation \<Rightarrow> bool" for r i st where
  controller_pod:
    "dmem (ControlsController c) (x_facts st) \<Longrightarrow> dget (e_pods (x_env st)) u = Some p \<Longrightarrow>
     pod_controller_uid p = Some c \<Longrightarrow>
     derivable r i st (inferred (ControlsPod u) R_CONTROLLER_POD i [ControlsController c]
                         [CheckPodOwnedByController u c] [])"
| exec_pod:
    "holds_usable r st cid c uc \<Longrightarrow> dget (e_pods (x_env st)) u = Some p \<Longrightarrow>
     via = authorizing_bindings (x_env st) (cred_username c) ''create'' ''pods/exec''
             (pod_namespace p) (Some (pod_name p)) \<Longrightarrow> via \<noteq> [] \<Longrightarrow>
     derivable r i st (inferred (ControlsPod u) R_EXEC_POD i (Possesses cid # object_premises p)
        [uc, CheckAuthorized (cred_username c) ''create'' ''pods/exec'' (pod_namespace p) (Some (pod_name p)) via] [])"
| read_knows:
    "holds_usable r st cid c uc \<Longrightarrow> dget (e_secrets (x_env st)) key = Some s \<Longrightarrow>
     reading_verb (x_env st) (cred_username c) s = Some v \<Longrightarrow>
     derivable r i st (inferred (KnowsSecret (sec_namespace s) (sec_name s) (str_of_int (sec_version s)))
        R_READ_SECRET i [Possesses cid] (read_conditions (x_env st) uc (cred_username c) v s) [])"
| read_can:
    "holds_usable r st cid c uc \<Longrightarrow> dget (e_secrets (x_env st)) key = Some s \<Longrightarrow>
     reading_verb (x_env st) (cred_username c) s = Some v \<Longrightarrow>
     derivable r i st (inferred (CanReadSecret (sec_namespace s) (sec_name s))
        R_READ_SECRET i [Possesses cid] (read_conditions (x_env st) uc (cred_username c) v s) [])"
| downstream:
    "dmem (KnowsSecret ns n v) (x_facts st) \<Longrightarrow> svc \<in> set (secrets_feeding (x_env st) ns n) \<Longrightarrow>
     derivable r i st (inferred (PossessesDownstream (svc_name svc) v) R_DOWNSTREAM_CREDENTIAL i
        [KnowsSecret ns n v] [CheckServiceSources (svc_name svc) ns n] [])"
| use_downstream:
    "dmem (PossessesDownstream s v) (x_facts st) \<Longrightarrow> dget (e_services (x_env st)) s = Some svc \<Longrightarrow>
     py_int v = Some n \<Longrightarrow> svc_accepts svc n (e_time (x_env st)) \<Longrightarrow>
     derivable r i st (inferred (CanUseDownstream (svc_name svc)) R_USE_DOWNSTREAM i [PossessesDownstream s v]
        [CheckServiceAccepts (svc_name svc) n
           (if n \<noteq> svc_accepted_version svc then Some (e_time (x_env st)) else None)] [])"

text \<open>\<open>_add\<close> without the bound on derivations.\<close>

definition learn :: "derivation \<Rightarrow> est \<Rightarrow> est" where
  "learn d st = (if known (der_fact d) st then st else put_fact d (st\<lparr>x_count := x_count st + 1\<rparr>))"

definition obtain_token :: "int \<Rightarrow> fact \<Rightarrow> pod \<Rightarrow> service_account \<Rightarrow> string \<Rightarrow> int \<Rightarrow> est \<Rightarrow> est" where
  "obtain_token i f p sa aud e st =
     put_fact (token_derivation i f p sa aud e)
       (st\<lparr>x_creds := dset (projected_id (pod_uid p) aud) (projected_cred p sa aud e) (x_creds st),
           x_count := x_count st + 1\<rparr>)"

definition may_create ::
  "run \<Rightarrow> est \<Rightarrow> string \<Rightarrow> credential_spec \<Rightarrow> condition \<Rightarrow> string \<Rightarrow> string \<Rightarrow> workload \<Rightarrow> bool" where
  "may_create r st cid c uc ns sa kind \<longleftrightarrow>
     holds_usable r st cid c uc \<and>
     authorizing_bindings (x_env st) (cred_username c) ''create'' (workload_resource kind) ns None \<noteq> [] \<and>
     dmem (ns, sa) (e_service_accounts (x_env st)) \<and>
     \<not> controls_live st ns sa kind \<and>
     ad_outcome (admission_decision (x_env st) (cred_username c) ns sa) = AdmAllow"

definition the_conditions :: "est \<Rightarrow> credential_spec \<Rightarrow> condition \<Rightarrow> string \<Rightarrow> string \<Rightarrow> workload \<Rightarrow> condition list" where
  "the_conditions st c uc ns sa kind =
     create_conditions uc (cred_username c) ns
       (authorizing_bindings (x_env st) (cred_username c) ''create'' (workload_resource kind) ns None)
       sa (ad_policies (admission_decision (x_env st) (cred_username c) ns sa)) kind"

inductive att_step :: "run \<Rightarrow> int \<Rightarrow> est \<Rightarrow> est \<Rightarrow> bool" for r i where
  learn: "derivable r i st d \<Longrightarrow> att_step r i st (learn d st)"
| token:
    "dmem (ControlsPod u) (x_facts st) \<Longrightarrow> dget (e_pods (x_env st)) u = Some p \<Longrightarrow>
     dget (e_service_accounts (x_env st)) (pod_namespace p, pod_service_account p) = Some sa \<Longrightarrow>
     token_audiences r p = Some auds \<Longrightarrow> aud \<in> set auds \<Longrightarrow>
     e = e_time (x_env st) + prof_projected_token_ttl_seconds (inp_profile (r_inp r)) \<Longrightarrow>
     \<not> token_fresh st (projected_id (pod_uid p) aud) e \<Longrightarrow>
     att_step r i st (obtain_token i (ControlsPod u) p sa aud e st)"
| create_pod:
    "may_create r st cid c uc ns sa WorkPod \<Longrightarrow> \<not> dmem (model_pod_uid ns sa i) (e_pods (x_env st)) \<Longrightarrow>
     att_step r i st (learn (inferred (ControlsPod (model_pod_uid ns sa i)) R_CREATE_POD i [Possesses cid]
                               (the_conditions st c uc ns sa WorkPod) [])
                        (st\<lparr>x_env := env_add_pod (model_pod ns sa i) (x_env st)\<rparr>))"
| create_controller:
    "may_create r st cid c uc ns sa WorkController \<Longrightarrow>
     \<not> dmem (model_controller_uid ns sa i) (e_controllers (x_env st)) \<Longrightarrow>
     att_step r i st (learn (inferred (ControlsController (model_controller_uid ns sa i)) R_CREATE_CONTROLLER i
                               [Possesses cid] (the_conditions st c uc ns sa WorkController) [])
                        (st\<lparr>x_env := env_add_controller (model_controller ns sa i) (x_env st)\<rparr>))"
| remark: "att_step r i st (mark_unknown k u st)"

text \<open>A transition that stays within the bound on derivations.\<close>

definition counted_step :: "run \<Rightarrow> int \<Rightarrow> est \<Rightarrow> est \<Rightarrow> bool" where
  "counted_step r i s t \<longleftrightarrow>
     att_step r i s t \<and> (x_count t = x_count s \<or> x_count t \<le> max_derivations (inp_bounds (r_inp r)))"

abbreviation att_run :: "run \<Rightarrow> int \<Rightarrow> est \<Rightarrow> est \<Rightarrow> bool" where
  "att_run r i \<equiv> (counted_step r i)\<^sup>*\<^sup>*"

section \<open>How the state grows\<close>

text \<open>Facts and objects are only added; the rest of the environment stays.\<close>

definition static_eq :: "env \<Rightarrow> env \<Rightarrow> bool" where
  "static_eq a b \<longleftrightarrow>
     e_time b = e_time a \<and> e_service_accounts b = e_service_accounts a \<and> e_roles b = e_roles a \<and>
     e_bindings b = e_bindings a \<and> e_secrets b = e_secrets a \<and> e_services b = e_services a \<and>
     e_admission b = e_admission a"

definition grows :: "est \<Rightarrow> est \<Rightarrow> bool" where
  "grows s t \<longleftrightarrow>
     (\<forall>f. dmem f (x_facts s) \<longrightarrow> dmem f (x_facts t)) \<and>
     (\<forall>f. dmem f (x_eph s) \<longrightarrow> dmem f (x_eph t)) \<and>
     (\<forall>c. dmem c (x_creds s) \<longrightarrow> dmem c (x_creds t)) \<and>
     map_of (e_pods (x_env s)) \<subseteq>\<^sub>m map_of (e_pods (x_env t)) \<and>
     map_of (e_controllers (x_env s)) \<subseteq>\<^sub>m map_of (e_controllers (x_env t)) \<and>
     static_eq (x_env s) (x_env t)"

lemma static_eq_refl [simp, intro]: "static_eq a a"
  by (simp add: static_eq_def)

lemma static_eq_trans [trans]: "static_eq a b \<Longrightarrow> static_eq b c \<Longrightarrow> static_eq a c"
  by (simp add: static_eq_def)

lemma static_eq_authorizing:
  "static_eq a b \<Longrightarrow> authorizing_bindings b = authorizing_bindings a"
  by (rule authorizing_bindings_cong) (simp_all add: static_eq_def)

lemma static_eq_admission: "static_eq a b \<Longrightarrow> admission_decision b = admission_decision a"
  by (rule admission_decision_cong) (simp add: static_eq_def)

lemma static_eq_reading: "static_eq a b \<Longrightarrow> reading_verb b u s = reading_verb a u s"
  by (simp add: reading_verb_def static_eq_authorizing)

lemma static_eq_feeding: "static_eq a b \<Longrightarrow> secrets_feeding b ns n = secrets_feeding a ns n"
  by (simp add: secrets_feeding_def static_eq_def)

lemma grows_refl [simp, intro]: "grows s s"
  by (simp add: grows_def)

lemma grows_trans [trans]: "grows s t \<Longrightarrow> grows t u \<Longrightarrow> grows s u"
  by (auto simp: grows_def static_eq_def intro: map_le_trans)

lemma put_fact_frame [simp]:
  "x_env (put_fact d st) = x_env st" "x_count (put_fact d st) = x_count st"
  "x_creds (put_fact d st) = x_creds st" "x_unknowns (put_fact d st) = x_unknowns st"
  "x_changed (put_fact d st)"
  by (simp_all add: put_fact_def)

lemma learn_frame [simp]:
  "x_env (learn d st) = x_env st" "x_creds (learn d st) = x_creds st"
  "x_unknowns (learn d st) = x_unknowns st"
  by (simp_all add: learn_def)

lemma learn_counts:
  "(x_count (learn d st) = x_count st \<and> x_changed (learn d st) = x_changed st) \<or>
   (x_count (learn d st) = x_count st + 1 \<and> x_changed (learn d st))"
  by (simp add: learn_def)

lemma mark_unknown_frame [simp]:
  "x_env (mark_unknown k u st) = x_env st" "x_creds (mark_unknown k u st) = x_creds st"
  "x_facts (mark_unknown k u st) = x_facts st" "x_eph (mark_unknown k u st) = x_eph st"
  "x_count (mark_unknown k u st) = x_count st" "x_changed (mark_unknown k u st) = x_changed st"
  by (simp_all add: mark_unknown_def)

lemma put_fact_grows: "grows st (put_fact d st)"
  by (auto simp: grows_def put_fact_def)

lemma learn_grows: "grows st (learn d st)"
  by (auto simp: grows_def put_fact_def learn_def)

lemma map_le_dset_fresh: "\<not> dmem k d \<Longrightarrow> map_of d \<subseteq>\<^sub>m map_of (dset k v d)"
  by (auto simp: map_le_def)

lemma env_add_pod_grows:
  "\<not> dmem (pod_uid p) (e_pods env) \<Longrightarrow>
     map_of (e_pods env) \<subseteq>\<^sub>m map_of (e_pods (env_add_pod p env)) \<and> static_eq env (env_add_pod p env) \<and>
     e_controllers (env_add_pod p env) = e_controllers env"
  by (simp add: env_add_pod_def static_eq_def map_le_dset_fresh)

lemma env_add_controller_grows:
  assumes "\<not> dmem (ctrl_uid c) (e_controllers env)"
  shows "map_of (e_pods env) \<subseteq>\<^sub>m map_of (e_pods (env_add_controller c env)) \<and>
     map_of (e_controllers env) \<subseteq>\<^sub>m map_of (e_controllers (env_add_controller c env)) \<and>
     static_eq env (env_add_controller c env)"
proof -
  have "map_of (e_pods env) \<subseteq>\<^sub>m map_of (e_pods (env_add_controller c env))"
    unfolding env_add_controller_def
    by (rule map_le_trans[OF _ reconcile_pods_le]) simp
  then show ?thesis
    using assms by (simp add: env_add_controller_def static_eq_def map_le_dset_fresh)
qed

lemma att_step_grows: "att_step r i s t \<Longrightarrow> grows s t"
proof (induction rule: att_step.induct)
  case (create_pod st cid c uc ns sa)
  then have "grows st (st\<lparr>x_env := env_add_pod (model_pod ns sa i) (x_env st)\<rparr>)"
    using env_add_pod_grows[where p = "model_pod ns sa i" and env = "x_env st"]
    by (simp add: grows_def model_pod_def)
  then show ?case using learn_grows grows_trans by blast
next
  case (create_controller st cid c uc ns sa)
  then have "grows st (st\<lparr>x_env := env_add_controller (model_controller ns sa i) (x_env st)\<rparr>)"
    using env_add_controller_grows[where c = "model_controller ns sa i" and env = "x_env st"]
    by (simp add: grows_def model_controller_def)
  then show ?case using learn_grows grows_trans by blast
next
  case (token u st p sa auds aud e)
  then show ?case by (auto simp: obtain_token_def grows_def put_fact_def)
next
  case (learn st d)
  show ?case by (rule learn_grows)
qed (simp add: grows_def)

lemma att_run_grows: "att_run r i s t \<Longrightarrow> grows s t"
  by (induction rule: rtranclp_induct) (auto simp: counted_step_def intro: grows_trans att_step_grows)

text \<open>Progress: a change is a counted derivation, within the bound.\<close>

definition progress :: "run \<Rightarrow> est \<Rightarrow> est \<Rightarrow> bool" where
  "progress r s t \<longleftrightarrow>
     x_count s \<le> x_count t \<and>
     (x_count t = x_count s \<or> x_count t \<le> max_derivations (inp_bounds (r_inp r))) \<and>
     (x_changed s \<longrightarrow> x_changed t) \<and>
     (x_changed t \<longrightarrow> x_changed s \<or> x_count s < x_count t) \<and>
     (x_count s < x_count t \<longrightarrow> x_changed t)"

lemma att_step_counts:
  "att_step r i s t \<Longrightarrow>
     (x_count t = x_count s \<and> x_changed t = x_changed s) \<or> (x_count t = x_count s + 1 \<and> x_changed t)"
proof (induction rule: att_step.induct)
  case (create_pod st cid c uc ns sa)
  then show ?case using learn_counts[where st = "st\<lparr>x_env := e\<rparr>" for e] by simp
next
  case (create_controller st cid c uc ns sa)
  then show ?case using learn_counts[where st = "st\<lparr>x_env := e\<rparr>" for e] by simp
qed (simp_all add: learn_counts obtain_token_def)

lemma counted_step_progress: "counted_step r i s t \<Longrightarrow> progress r s t"
  using att_step_counts[of r i s t] by (auto simp: counted_step_def progress_def)

lemma att_run_progress: "att_run r i s t \<Longrightarrow> progress r s t"
proof (induction rule: rtranclp_induct)
  case base
  then show ?case by (simp add: progress_def)
next
  case (step t u)
  then show ?case using counted_step_progress[OF step(2)] by (auto simp: progress_def)
qed

end
