(* ===== verification/Closure.thy ===== *)
theory Closure
  imports Attacker
begin

text \<open>
  The saturation of an interval. Every pass of the engine is a run of the attacker relation
  (\<open>pass_run\<close>); a pass that reports a change has counted at least one derivation within the
  bound, which is why \<open>while True\<close> ends (\<open>closure\<close> is a total function without fuel).
\<close>

section \<open>Stability of what a pass relies on\<close>

lemma us_usable_reasons:
  "us_usable (credential_usable env c prof at) \<Longrightarrow> us_reasons (credential_usable env c prof at) = [AllChecksPass]"
  by (auto simp: credential_usable_def Let_def split: option.splits if_splits)

lemma may_use_mono:
  assumes "may_use r a c uc" and "map_of (e_pods a) \<subseteq>\<^sub>m map_of (e_pods b)" and "static_eq a b"
  shows "may_use r b c uc"
proof -
  have t: "use_time r b c = use_time r a c"
    using assms(3) by (simp add: use_time_def static_eq_def Let_def split: option.split)
  have u: "us_usable (credential_usable b c prof (Some at))"
    if "us_usable (credential_usable a c prof (Some at))" for prof at
    using that token_valid_mono[OF _ assms(2)] assms(3)
    by (auto simp: us_usable_iff static_eq_def)
  show ?thesis
    using assms(1) u us_usable_reasons
    by (auto simp: may_use_def cred_use_def Let_def t us_supported_iff split: if_splits)
qed

lemma holds_usable_mono:
  assumes "holds_usable r s cid c uc" and "grows s t" and "x_creds t = x_creds s"
  shows "holds_usable r t cid c uc"
  using assms may_use_mono[of r "x_env s" c uc "x_env t"]
  by (auto simp: holds_usable_def grows_def)

lemma facts_of_mem: "f \<in> set (facts_of P st) \<longleftrightarrow> P f \<and> dmem f (x_facts st)"
  by (auto simp: facts_of_def)

lemma grows_fact: "grows s t \<Longrightarrow> dmem f (x_facts s) \<Longrightarrow> dmem f (x_facts t)"
  by (simp add: grows_def)

lemma grows_factD: "grows s t \<Longrightarrow> dget (x_facts s) f = Some d \<Longrightarrow> \<exists>d'. dget (x_facts t) f = Some d'"
  by (simp add: grows_def)

lemma grows_pod: "grows s t \<Longrightarrow> dget (e_pods (x_env s)) u = Some p \<Longrightarrow> dget (e_pods (x_env t)) u = Some p"
  by (auto simp: grows_def map_le_def dest!: bspec)

lemma grows_sas: "grows s t \<Longrightarrow> e_service_accounts (x_env t) = e_service_accounts (x_env s)"
  by (simp add: grows_def static_eq_def)

lemma grows_static: "grows s t \<Longrightarrow> static_eq (x_env s) (x_env t)"
  by (simp add: grows_def)

section \<open>Each body is a run\<close>

lemma add_Inr:
  "add r d s = Inr t \<Longrightarrow>
     t = learn d s \<and> (x_count t = x_count s \<or> x_count t \<le> max_derivations (inp_bounds (r_inp r)))"
  by (auto simp: add_def learn_def tick_def Let_def split: if_splits)

lemma add_run: "add r d s = Inr t \<Longrightarrow> derivable r i s d \<Longrightarrow> att_run r i s t"
  using add_Inr[of r d s t] att_step.learn[of r i s d]
  by (intro r_into_rtranclp) (auto simp: counted_step_def)

lemma add_creds: "add r d s = Inr t \<Longrightarrow> x_creds t = x_creds s"
  by (auto dest: add_Inr)

lemma remark_run: "att_run r i s (mark_unknown k u s)"
  by (intro r_into_rtranclp) (simp add: counted_step_def att_step.remark)

text \<open>A loop over a snapshot of the facts, and a loop that keeps the credentials.\<close>

lemma facts_loop_run:
  assumes "for_each f (facts_of P s) s = Inr t"
    and "\<And>x s t. P x \<Longrightarrow> dmem x (x_facts s) \<Longrightarrow> f x s = Inr t \<Longrightarrow> att_run r i s t"
  shows "att_run r i s t"
  by (rule for_each_rel[where R = "att_run r i" and G = "\<lambda>x s. P x \<and> dmem x (x_facts s)", OF _ _ _ _ assms(1)])
     (use assms(2) in \<open>auto simp: facts_of_mem dest!: att_run_grows intro: grows_factD\<close>)

definition quiet_run :: "run \<Rightarrow> int \<Rightarrow> est \<Rightarrow> est \<Rightarrow> bool" where
  "quiet_run r i s t \<longleftrightarrow> att_run r i s t \<and> x_creds t = x_creds s"

lemma quiet_run_refl [simp]: "quiet_run r i s s"
  by (simp add: quiet_run_def)

lemma quiet_run_trans: "quiet_run r i s t \<Longrightarrow> quiet_run r i t u \<Longrightarrow> quiet_run r i s u"
  by (auto simp: quiet_run_def)

lemma holds_usable_run: "quiet_run r i s t \<Longrightarrow> holds_usable r s cid c uc \<Longrightarrow> holds_usable r t cid c uc"
  by (auto simp: quiet_run_def intro: holds_usable_mono att_run_grows)

lemma usable_loop_run:
  assumes "for_each f xs s = Inr t" and "holds_usable r s cid c uc"
    and "\<And>x s t. x \<in> set xs \<Longrightarrow> holds_usable r s cid c uc \<Longrightarrow> f x s = Inr t \<Longrightarrow> quiet_run r i s t"
  shows "quiet_run r i s t"
  by (rule for_each_rel[where R = "quiet_run r i" and G = "\<lambda>_ s. holds_usable r s cid c uc", OF _ _ _ _ assms(1)])
     (use assms(2,3) in \<open>auto intro: quiet_run_trans holds_usable_run\<close>)

lemma controller_pods_run:
  assumes "controller_pods r i f s = Inr t" and "dmem f (x_facts s)"
  shows "att_run r i s t"
proof (cases f)
  case (ControlsController c)
  have body: "att_run r i s t" if "dmem (ControlsController c) (x_facts s)" "controller_pod_body r i c u s = Inr t" for s t u
    using that by (auto simp: controller_pod_body_def split: option.splits if_splits
        intro: add_run derivable.controller_pod)
  show ?thesis
    by (rule for_each_rel[where R = "att_run r i" and G = "\<lambda>_ s. dmem (ControlsController c) (x_facts s)"])
       (use assms ControlsController body in \<open>auto dest: att_run_grows grows_fact\<close>)
qed (use assms in auto)

lemma token_body_run:
  assumes "token_body r i (ControlsPod u) p sa aud s = Inr t"
    and "dmem (ControlsPod u) (x_facts s)" "dget (e_pods (x_env s)) u = Some p"
    and "dget (e_service_accounts (x_env s)) (pod_namespace p, pod_service_account p) = Some sa"
    and "token_audiences r p = Some auds" "aud \<in> set auds"
  shows "att_run r i s t"
proof -
  let ?e = "e_time (x_env s) + prof_projected_token_ttl_seconds (inp_profile (r_inp r))"
  show ?thesis
  proof (cases "token_fresh s (projected_id (pod_uid p) aud) ?e")
    case True
    with assms(1) show ?thesis by (simp add: token_body_def Let_def)
  next
    case False
    with assms(1) have "t = obtain_token i (ControlsPod u) p sa aud ?e s"
      and "x_count t \<le> max_derivations (inp_bounds (r_inp r))"
      by (auto simp: token_body_def obtain_token_def tick_def Let_def split: if_splits)
    with att_step.token[OF assms(2-6) refl False, of i] show ?thesis
      by (intro r_into_rtranclp) (simp add: counted_step_def)
  qed
qed

lemma pod_tokens_run:
  assumes "pod_tokens r i f s = Inr t" and "dmem f (x_facts s)"
  shows "att_run r i s t"
proof (cases f)
  case (ControlsPod u)
  show ?thesis
  proof (cases "dget (e_pods (x_env s)) u")
    case (Some p)
    show ?thesis
    proof (cases "dget (e_service_accounts (x_env s)) (pod_namespace p, pod_service_account p)")
      case (Some sa)
      note psa = \<open>dget (e_pods (x_env s)) u = Some p\<close> Some
      from assms(1) ControlsPod psa obtain auds where
          auds: "token_audiences r p = Some auds"
        and run: "for_each (token_body r i (ControlsPod u) p sa) auds s = Inr t"
        by (auto split: option.splits)
      let ?G = "\<lambda>aud s. dmem (ControlsPod u) (x_facts s) \<and> dget (e_pods (x_env s)) u = Some p \<and>
        dget (e_service_accounts (x_env s)) (pod_namespace p, pod_service_account p) = Some sa"
      show ?thesis
      proof (rule for_each_rel[where R = "att_run r i" and G = ?G, OF _ _ _ _ run])
        show "?G aud t" if "aud \<in> set auds" "att_run r i s t" "?G aud s" for aud s t
          using att_run_grows[OF that(2)] that(3) by (simp add: grows_fact grows_pod grows_sas)
        show "att_run r i s t" if "aud \<in> set auds" "?G aud s" "token_body r i (ControlsPod u) p sa aud s = Inr t" for aud s t
          using token_body_run[OF that(3)] that auds by blast
        show "?G aud s" for aud using psa assms(2) ControlsPod by simp
      qed auto
    qed (use assms ControlsPod \<open>dget (e_pods (x_env s)) u = Some p\<close> in auto)
  qed (use assms ControlsPod in auto)
qed (use assms in auto)

lemma create_workload_run:
  assumes "create_workload r i (Possesses cid) (the_conditions s c uc ns sa kind) ns sa kind s = Inr t"
    and "may_create r s cid c uc ns sa kind"
  shows "quiet_run r i s t"
proof (cases kind)
  case WorkPod
  show ?thesis
  proof (cases "dmem (model_pod_uid ns sa i) (e_pods (x_env s))")
    case False
    with assms(1) WorkPod att_step.create_pod[OF assms(2)[unfolded WorkPod], of i] show ?thesis
      by (auto simp: create_workload_def quiet_run_def counted_step_def intro!: r_into_rtranclp dest!: add_Inr)
  qed (use assms(1) WorkPod in \<open>auto simp: create_workload_def quiet_run_def\<close>)
next
  case WorkController
  show ?thesis
  proof (cases "dmem (model_controller_uid ns sa i) (e_controllers (x_env s))")
    case False
    with assms(1) WorkController att_step.create_controller[OF assms(2)[unfolded WorkController], of i] show ?thesis
      by (auto simp: create_workload_def quiet_run_def counted_step_def intro!: r_into_rtranclp dest!: add_Inr)
  qed (use assms(1) WorkController in \<open>auto simp: create_workload_def quiet_run_def\<close>)
qed

lemma create_body_run:
  assumes "create_body r i (Possesses cid) uc (cred_username c) ns
             (authorizing_bindings (x_env s) (cred_username c) ''create'' (workload_resource kind) ns None)
             kind key s = Inr t"
    and "authorizing_bindings (x_env s) (cred_username c) ''create'' (workload_resource kind) ns None \<noteq> []"
    and "holds_usable r s cid c uc" and "dmem key (e_service_accounts (x_env s))"
  shows "quiet_run r i s t"
proof -
  obtain sns sname where key: "key = (sns, sname)" by (cases key)
  show ?thesis
  proof (cases "sns = ns \<and> \<not> controls_live s ns sname kind \<and>
      ad_outcome (admission_decision (x_env s) (cred_username c) ns sname) = AdmAllow")
    case True
    with assms key have "may_create r s cid c uc ns sname kind"
      by (simp add: may_create_def)
    moreover have "create_workload r i (Possesses cid) (the_conditions s c uc ns sname kind) ns sname kind s = Inr t"
      using assms(1) key True by (simp add: create_body_def the_conditions_def Let_def)
    ultimately show ?thesis by (rule create_workload_run[rotated])
  next
    case False
    with assms(1) key show ?thesis
      by (auto simp: create_body_def Let_def quiet_run_def remark_run split: if_splits adm_outcome.splits)
  qed
qed

lemma create_workloads_run:
  assumes "create_workloads r i (Possesses cid) uc (cred_username c) ns kind s = Inr t"
    and "holds_usable r s cid c uc"
  shows "quiet_run r i s t"
proof -
  let ?via = "\<lambda>s. authorizing_bindings (x_env s) (cred_username c) ''create'' (workload_resource kind) ns None"
  let ?ks = "sort (dkeys (e_service_accounts (x_env s)))"
  let ?G = "\<lambda>(k :: string \<times> string) t. holds_usable r t cid c uc \<and> static_eq (x_env s) (x_env t)"
  show ?thesis
  proof (cases "?via s = []")
    case False
    with assms(1) have run: "for_each (create_body r i (Possesses cid) uc (cred_username c) ns (?via s) kind) ?ks s = Inr t"
      by (simp add: create_workloads_def Let_def)
    show ?thesis
    proof (rule for_each_rel[where R = "quiet_run r i" and G = ?G, OF _ _ _ _ run])
      show "quiet_run r i a b" if "k \<in> set ?ks" "?G k a"
        "create_body r i (Possesses cid) uc (cred_username c) ns (?via s) kind k a = Inr b" for k a b
      proof (rule create_body_run)
        from that(2) have eq: "static_eq (x_env s) (x_env a)" by simp
        show "create_body r i (Possesses cid) uc (cred_username c) ns (?via a) kind k a = Inr b"
          using that(3) by (simp add: static_eq_authorizing[OF eq])
        show "?via a \<noteq> []" using False by (simp add: static_eq_authorizing[OF eq])
        show "holds_usable r a cid c uc" using that(2) by simp
        show "dmem k (e_service_accounts (x_env a))" using that(1) eq by (auto simp: static_eq_def)
      qed
      show "?G k b" if "k \<in> set ?ks" "quiet_run r i a b" "?G k a" for k a b
        using that holds_usable_run[of r i a b cid c uc]
        by (auto simp: quiet_run_def dest!: att_run_grows grows_static intro: static_eq_trans)
      show "?G k s" for k using assms(2) by simp
    qed (auto intro: quiet_run_trans)
  next
    case True
    with assms show ?thesis by (simp add: create_workloads_def)
  qed
qed

lemma exec_body_run:
  assumes "exec_body r i (Possesses cid) uc (cred_username c) u s = Inr t" and "holds_usable r s cid c uc"
  shows "quiet_run r i s t"
proof (cases "dget (e_pods (x_env s)) u")
  case (Some p)
  note d = derivable.exec_pod[OF assms(2) Some refl, of i]
  from assms(1) Some d show ?thesis
    by (auto simp: exec_body_def quiet_run_def Let_def add_creds split: if_splits intro: add_run)
qed (use assms in \<open>simp add: exec_body_def\<close>)

lemma read_body_run:
  assumes "read_body r i (Possesses cid) uc (cred_username c) key s = Inr t" and "holds_usable r s cid c uc"
  shows "quiet_run r i s t"
proof (cases "dget (e_secrets (x_env s)) key")
  case (Some sec)
  show ?thesis
  proof (cases "reading_verb (x_env s) (cred_username c) sec")
    case None
    with Some assms show ?thesis by (simp add: read_body_def)
  next
    case verb: (Some v)
    let ?cs = "read_conditions (x_env s) uc (cred_username c) v sec"
    from assms(1) Some verb obtain m where
        knows: "add r (inferred (KnowsSecret (sec_namespace sec) (sec_name sec) (str_of_int (sec_version sec)))
                  R_READ_SECRET i [Possesses cid] ?cs []) s = Inr m"
      and can: "add r (inferred (CanReadSecret (sec_namespace sec) (sec_name sec))
                  R_READ_SECRET i [Possesses cid] ?cs []) m = Inr t"
      by (auto simp: read_body_def Let_def rbind_Inr)
    have sm: "quiet_run r i s m"
      using add_run[OF knows derivable.read_knows[OF assms(2) Some verb]] add_creds[OF knows]
      by (simp add: quiet_run_def)
    have env: "x_env m = x_env s" using add_Inr[OF knows] by simp
    have "derivable r i m (inferred (CanReadSecret (sec_namespace sec) (sec_name sec))
        R_READ_SECRET i [Possesses cid] ?cs [])"
      using derivable.read_can[OF holds_usable_run[OF sm assms(2)], of key sec v i] Some verb
      by (simp add: env)
    with sm show ?thesis
      using add_run[OF can] add_creds[OF can] quiet_run_trans by (auto simp: quiet_run_def)
  qed
qed (use assms in \<open>simp add: read_body_def\<close>)

lemma api_requests_run:
  assumes "api_requests r i (Possesses cid) c uc s = Inr t" and "holds_usable r s cid c uc"
  shows "quiet_run r i s t"
proof -
  let ?f = "\<lambda>ns s. rbind (create_workloads r i (Possesses cid) uc (cred_username c) ns WorkPod s)
                  (create_workloads r i (Possesses cid) uc (cred_username c) ns WorkController)"
  from assms(1) obtain a b where
      1: "for_each ?f (namespaces (x_env s)) s = Inr a"
    and 2: "for_each (exec_body r i (Possesses cid) uc (cred_username c)) (sort (dkeys (e_pods (x_env a)))) a = Inr b"
    and 3: "for_each (read_body r i (Possesses cid) uc (cred_username c)) (sort (dkeys (e_secrets (x_env b)))) b = Inr t"
    by (auto simp: api_requests_def rbind_Inr)
  have sa: "quiet_run r i s a"
  proof (rule usable_loop_run[OF 1 assms(2)])
    fix ns x y assume h: "holds_usable r x cid c uc" and "?f ns x = Inr y"
    then obtain m where
        m: "create_workloads r i (Possesses cid) uc (cred_username c) ns WorkPod x = Inr m"
      and y: "create_workloads r i (Possesses cid) uc (cred_username c) ns WorkController m = Inr y"
      by (auto simp: rbind_Inr)
    have xm: "quiet_run r i x m" by (rule create_workloads_run[OF m h])
    then show "quiet_run r i x y"
      using create_workloads_run[OF y holds_usable_run[OF xm h]] by (rule quiet_run_trans)
  qed
  have ha: "holds_usable r a cid c uc" by (rule holds_usable_run[OF sa assms(2)])
  have ab: "quiet_run r i a b"
    by (rule usable_loop_run[OF 2 ha]) (rule exec_body_run)
  have "quiet_run r i b t"
    by (rule usable_loop_run[OF 3 holds_usable_run[OF ab ha]]) (rule read_body_run)
  with sa ab show ?thesis by (blast intro: quiet_run_trans)
qed

lemma note_unsupported_frame [simp]:
  "x_env (note_unsupported r c s) = x_env s" "x_creds (note_unsupported r c s) = x_creds s"
  "x_facts (note_unsupported r c s) = x_facts s" "x_eph (note_unsupported r c s) = x_eph s"
  "x_count (note_unsupported r c s) = x_count s" "x_changed (note_unsupported r c s) = x_changed s"
  by (simp_all add: note_unsupported_def Let_def)

lemma note_unsupported_run: "att_run r i s (note_unsupported r c s)"
  by (simp add: note_unsupported_def Let_def remark_run)

lemma credential_requests_run:
  assumes "credential_requests r i f s = Inr t" and "dmem f (x_facts s)"
  shows "att_run r i s t"
proof (cases f)
  case (Possesses cid)
  with assms(1) obtain c where c: "dget (x_creds s) cid = Some c"
    by (auto split: option.splits)
  let ?s = "note_unsupported r c s"
  show ?thesis
  proof (cases "cred_use r (x_env s) c")
    case None
    with assms(1) Possesses c have "t = ?s" by simp
    then show ?thesis by (simp only: note_unsupported_run)
  next
    case (Some uc)
    with assms(1) Possesses c have "api_requests r i (Possesses cid) c uc ?s = Inr t"
      by simp
    moreover have "holds_usable r ?s cid c uc"
      using assms(2) Possesses c Some by (simp add: holds_usable_def may_use_def)
    ultimately have "att_run r i ?s t"
      using api_requests_run by (auto simp: quiet_run_def)
    with note_unsupported_run[of r i s c] show ?thesis by (rule rtranclp_trans)
  qed
qed (use assms in auto)

lemma downstream_credentials_run:
  assumes "downstream_credentials r i f s = Inr t" and "dmem f (x_facts s)"
  shows "att_run r i s t"
proof (cases f)
  case (KnowsSecret ns n v)
  let ?G = "\<lambda>svc t. dmem (KnowsSecret ns n v) (x_facts t) \<and> svc \<in> set (secrets_feeding (x_env t) ns n)"
  show ?thesis
  proof (rule for_each_rel[where R = "att_run r i" and G = ?G])
    show "for_each (downstream_body r i ns n v) (secrets_feeding (x_env s) ns n) s = Inr t"
      using assms(1) KnowsSecret by simp
    show "?G svc y" if "att_run r i x y" "?G svc x" for svc x y
      using att_run_grows[OF that(1)] that(2) grows_factD grows_static static_eq_feeding by fastforce
    show "att_run r i x y" if "?G svc x" "downstream_body r i ns n v svc x = Inr y" for svc x y
      using that by (auto simp: downstream_body_def intro: add_run derivable.downstream)
    show "?G svc s" if "svc \<in> set (secrets_feeding (x_env s) ns n)" for svc
      using that assms(2) KnowsSecret by simp
  qed auto
qed (use assms in auto)

lemma downstream_uses_run:
  assumes "downstream_uses r i f s = Inr t" and "dmem f (x_facts s)"
  shows "att_run r i s t"
proof (cases f)
  case (PossessesDownstream name v)
  show ?thesis
  proof (cases "dget (e_services (x_env s)) name")
    case (Some svc)
    show ?thesis
    proof (cases "py_int v")
      case None
      with assms Some PossessesDownstream show ?thesis by simp
    next
      case n: (Some n)
      show ?thesis
      proof (cases "svc_accepts svc n (e_time (x_env s))")
        case True
        with assms Some n PossessesDownstream show ?thesis
          by (simp del: if_split) (erule add_run, rule derivable.use_downstream, auto)
      qed (use assms Some n PossessesDownstream in simp)
    qed
  qed (use assms PossessesDownstream in simp)
qed (use assms in auto)

section \<open>Passes and the closure\<close>

abbreviation clean :: "est \<Rightarrow> est" where
  "clean s \<equiv> s\<lparr>x_changed := False\<rparr>"

theorem pass_run:
  assumes "pass r i s = Inr t"
  shows "att_run r i (clean s) t"
proof -
  from assms obtain a b c d where
      "for_each (controller_pods r i) (facts_of is_controls_controller (clean s)) (clean s) = Inr a"
      "for_each (pod_tokens r i) (facts_of is_controls_pod a) a = Inr b"
      "for_each (credential_requests r i) (facts_of is_possesses b) b = Inr c"
      "for_each (downstream_credentials r i) (facts_of is_knows c) c = Inr d"
      "for_each (downstream_uses r i) (facts_of is_downstream d) d = Inr t"
    by (auto simp: pass_def Let_def rbind_Inr)
  then have "att_run r i (clean s) a" "att_run r i a b" "att_run r i b c" "att_run r i c d" "att_run r i d t"
    by (auto elim!: facts_loop_run intro: controller_pods_run pod_tokens_run credential_requests_run
        downstream_credentials_run downstream_uses_run)
  then show ?thesis by (meson rtranclp_trans)
qed

text \<open>
  \<open>closure\<close>: passes until one changes nothing. A pass that changes something increases the count,
  which the bound on derivations limits.
\<close>

lemma pass_counts:
  assumes "pass r i s = Inr t" and "x_changed t"
  shows "x_count s < x_count t \<and> x_count t \<le> max_derivations (inp_bounds (r_inp r))"
  using att_run_progress[OF pass_run[OF assms(1)]] assms(2) by (auto simp: progress_def)

function closure_loop :: "run \<Rightarrow> int \<Rightarrow> est \<Rightarrow> flow" where
  "closure_loop r i s =
     (case pass r i s of
        Inl e \<Rightarrow> Inl e
      | Inr t \<Rightarrow> if x_changed t then closure_loop r i t else Inr t)"
  by pat_completeness auto
termination
proof (relation "measure (\<lambda>(r, i, s). nat (max_derivations (inp_bounds (r_inp r)) + 1 - x_count s))")
  fix r i s t
  assume "pass r i s = Inr t" "x_changed t"
  from pass_counts[OF this]
  show "((r, i, t), r, i, s) \<in> measure (\<lambda>(r, i, s). nat (max_derivations (inp_bounds (r_inp r)) + 1 - x_count s))"
    by simp
qed simp

declare closure_loop.simps [simp del]

definition closure :: "run \<Rightarrow> int \<Rightarrow> est \<Rightarrow> flow" where
  "closure r i s = closure_loop r i (s\<lparr>x_eph := []\<rparr>)"

end
