(* ===== verification/Invariant.thy ===== *)
theory Invariant
  imports Closure
begin

text \<open>
  The invariant of the engine's tables, kept by every attacker transition, and what it gives: the
  engine raises nothing but \<open>BoundsExceeded\<close>, because every lookup it makes finds its key and every
  version it parses is a number.
\<close>

section \<open>The invariant\<close>

text \<open>What a fact needs in the tables: a credential for a possession, a readable version.\<close>

fun fact_backed :: "(string, credential_spec) dict \<Rightarrow> fact \<Rightarrow> bool" where
  "fact_backed cs (Possesses cid) = dmem cid cs"
| "fact_backed cs (KnowsSecret ns n v) = (py_int v \<noteq> None)"
| "fact_backed cs (PossessesDownstream s v) = (py_int v \<noteq> None)"
| "fact_backed cs _ = True"

definition est_ok :: "est \<Rightarrow> bool" where
  "est_ok s \<longleftrightarrow> env_ok (x_env s) \<and> keyed der_fact (x_facts s) \<and> keyed der_fact (x_eph s) \<and>
     keyed cred_id (x_creds s) \<and>
     (\<forall>f. dmem f (x_facts s) \<longrightarrow> persistent f \<and> fact_backed (x_creds s) f) \<and>
     (\<forall>f. dmem f (x_eph s) \<longrightarrow> \<not> persistent f)"

lemma fact_backed_mono: "fact_backed cs f \<Longrightarrow> (\<And>c. dmem c cs \<Longrightarrow> dmem c cs') \<Longrightarrow> fact_backed cs' f"
  by (cases f) auto

lemma est_ok_parts:
  assumes "est_ok s"
  shows "env_ok (x_env s)" "keyed der_fact (x_facts s)" "keyed der_fact (x_eph s)" "keyed cred_id (x_creds s)"
    "dmem f (x_facts s) \<Longrightarrow> persistent f" "dmem f (x_facts s) \<Longrightarrow> fact_backed (x_creds s) f"
    "dmem f (x_eph s) \<Longrightarrow> \<not> persistent f"
  using assms by (auto simp: est_ok_def)

lemma inferred_simps [simp]:
  "der_fact (inferred f ru i ps cs n) = f" "der_premises (inferred f ru i ps cs n) = ps"
  "der_rule (inferred f ru i ps cs n) = ru" "der_interval (inferred f ru i ps cs n) = i"
  "der_conditions (inferred f ru i ps cs n) = cs" "der_status (inferred f ru i ps cs n) = Inferred"
  "der_evidence (inferred f ru i ps cs n) = []" "der_note (inferred f ru i ps cs n) = n"
  by (simp_all add: inferred_def)

lemma put_fact_ok: "est_ok s \<Longrightarrow> fact_backed (x_creds s) (der_fact d) \<Longrightarrow> est_ok (put_fact d s)"
  by (auto simp: est_ok_def put_fact_def keyed_dset)

lemma learn_ok: "est_ok s \<Longrightarrow> fact_backed (x_creds s) (der_fact d) \<Longrightarrow> est_ok (learn d s)"
  by (auto simp: learn_def est_ok_def put_fact_def keyed_dset)

lemma est_ok_env: "est_ok s \<Longrightarrow> env_ok env \<Longrightarrow> est_ok (s\<lparr>x_env := env\<rparr>)"
  by (simp add: est_ok_def)

lemma est_ok_clean [simp]: "est_ok (clean s) = est_ok s"
  by (simp add: est_ok_def)

lemma est_ok_mark_unknown [simp]: "est_ok (mark_unknown k u s) = est_ok s"
  by (simp add: est_ok_def)

lemma est_ok_note_unsupported [simp]: "est_ok (note_unsupported r c s) = est_ok s"
  by (simp add: est_ok_def)

lemma derivable_backed: "derivable r i s d \<Longrightarrow> est_ok s \<Longrightarrow> fact_backed (x_creds s) (der_fact d)"
proof (induction rule: derivable.induct)
  case (downstream ns n v svc)
  then show ?case using est_ok_parts(6)[of s "KnowsSecret ns n v"] by simp
qed (auto simp: py_int_str_of_int)

lemma env_add_pod_ok: "env_ok env \<Longrightarrow> env_ok (env_add_pod p env)"
  by (simp add: env_ok_def env_add_pod_def keyed_dset)

lemma env_add_controller_ok: "env_ok env \<Longrightarrow> env_ok (env_add_controller c env)"
  unfolding env_add_controller_def
  by (rule reconcile_ok) (simp add: env_ok_def keyed_dset)

lemma att_step_ok: "att_step r i s t \<Longrightarrow> est_ok s \<Longrightarrow> est_ok t"
proof (induction rule: att_step.induct)
  case (learn st d)
  then show ?case by (blast intro: learn_ok derivable_backed)
next
  case (token u st p sa auds aud e)
  then show ?case
    by (auto simp: obtain_token_def put_fact_def token_derivation_def est_ok_def keyed_dset projected_cred_def
        intro: fact_backed_mono[where cs = "x_creds st"])
next
  case (create_pod st cid c uc ns sa)
  then show ?case
    by (intro learn_ok est_ok_env env_add_pod_ok) (simp_all add: est_ok_parts(1))
next
  case (create_controller st cid c uc ns sa)
  then show ?case
    by (intro learn_ok est_ok_env env_add_controller_ok) (simp_all add: est_ok_parts(1))
qed simp

lemma att_run_ok: "att_run r i s t \<Longrightarrow> est_ok s \<Longrightarrow> est_ok t"
  by (induction rule: rtranclp_induct) (auto simp: counted_step_def intro: att_step_ok)

section \<open>Where a pass can stop\<close>

text \<open>
  A pass that raises has reached a state \<open>u\<close> of the attacker relation and the next derivation
  exceeded the bound: the facts are those of \<open>u\<close> and the count is one past the bound.
\<close>

definition stopped :: "run \<Rightarrow> est \<Rightarrow> est \<Rightarrow> bool" where
  "stopped r u t \<longleftrightarrow> x_facts t = x_facts u \<and> x_eph t = x_eph u \<and> x_unknowns t = x_unknowns u \<and>
     x_count t = x_count u + 1 \<and> x_count t > max_derivations (inp_bounds (r_inp r))"

definition stops :: "run \<Rightarrow> int \<Rightarrow> est \<Rightarrow> exn \<times> est \<Rightarrow> bool" where
  "stops r i s x \<longleftrightarrow> fst x = BoundsExceeded \<and> (\<exists>u. att_run r i s u \<and> stopped r u (snd x))"

lemma stops_after: "att_run r i s u \<Longrightarrow> stops r i u x \<Longrightarrow> stops r i s x"
  unfolding stops_def by (meson rtranclp_trans)

lemma add_stops:
  "add r d s = Inl x \<Longrightarrow> x_facts u = x_facts s \<Longrightarrow> x_eph u = x_eph s \<Longrightarrow> x_unknowns u = x_unknowns s \<Longrightarrow>
     x_count u = x_count s \<Longrightarrow> stops r i u x"
  by (auto simp: add_def tick_def Let_def stops_def stopped_def split: if_splits intro: exI[of _ u])

lemma facts_loop_stops:
  assumes "for_each f (facts_of P s) s = Inl e" and "est_ok s"
    and run: "\<And>x s t. P x \<Longrightarrow> dmem x (x_facts s) \<Longrightarrow> f x s = Inr t \<Longrightarrow> att_run r i s t"
    and stop: "\<And>x s. P x \<Longrightarrow> dmem x (x_facts s) \<Longrightarrow> est_ok s \<Longrightarrow> f x s = Inl e \<Longrightarrow> stops r i s e"
  shows "stops r i s e"
proof -
  obtain x u where "att_run r i s u" "P x \<and> dmem x (x_facts u)" "f x u = Inl e"
    by (rule for_each_Inl[where R = "att_run r i" and G = "\<lambda>x s. P x \<and> dmem x (x_facts s)", OF _ _ _ _ assms(1)])
       (use run in \<open>auto simp: facts_of_mem dest!: att_run_grows intro: grows_factD\<close>)
  with stop[of x u] assms(2) show ?thesis
    by (blast intro: stops_after att_run_ok)
qed

lemma usable_loop_stops:
  assumes "for_each f xs s = Inl e" and "holds_usable r s cid c uc" and "est_ok s"
    and run: "\<And>x s t. x \<in> set xs \<Longrightarrow> holds_usable r s cid c uc \<Longrightarrow> f x s = Inr t \<Longrightarrow> quiet_run r i s t"
    and stop: "\<And>x u. x \<in> set xs \<Longrightarrow> holds_usable r u cid c uc \<Longrightarrow> est_ok u \<Longrightarrow> grows s u \<Longrightarrow>
      f x u = Inl e \<Longrightarrow> stops r i u e"
  shows "stops r i s e"
proof -
  obtain x u where "x \<in> set xs" "quiet_run r i s u" "holds_usable r u cid c uc" "f x u = Inl e"
    by (rule for_each_Inl[where R = "quiet_run r i" and G = "\<lambda>_ s. holds_usable r s cid c uc", OF _ _ _ _ assms(1)])
       (use assms(2) run in \<open>auto intro: quiet_run_trans holds_usable_run\<close>)
  with stop[of x u] assms(3) show ?thesis
    by (auto simp: quiet_run_def intro: stops_after att_run_ok att_run_grows)
qed

lemma controller_pods_stops:
  assumes "controller_pods r i f s = Inl e" and "dmem f (x_facts s)"
  shows "stops r i s e"
proof (cases f)
  case (ControlsController c)
  let ?us = "sort (dkeys (e_pods (x_env s)))"
  let ?G = "\<lambda>u t. dmem (ControlsController c) (x_facts t) \<and> dmem u (e_pods (x_env t))"
  from assms(1) ControlsController have run: "for_each (controller_pod_body r i c) ?us s = Inl e" by simp
  obtain u w where "att_run r i s w" "?G u w" "controller_pod_body r i c u w = Inl e"
  proof (rule for_each_Inl[where R = "att_run r i" and G = ?G, OF _ _ _ _ run])
    show "att_run r i a b" if "?G u a" "controller_pod_body r i c u a = Inr b" for u a b
      using that by (auto simp: controller_pod_body_def split: option.splits if_splits
          intro: add_run derivable.controller_pod)
    show "?G u b" if "att_run r i a b" "?G u a" for u a b
      using att_run_grows[OF that(1)] that(2) grows_pod[of a b u] by (auto intro: grows_factD)
  qed (use assms ControlsController in auto)
  then have "stops r i w e"
    by (auto simp: controller_pod_body_def split: option.splits if_splits intro: add_stops)
  with \<open>att_run r i s w\<close> show ?thesis by (rule stops_after)
qed (use assms in auto)

lemma token_body_stops:
  assumes "token_body r i f p sa aud s = Inl e"
  shows "stops r i s e"
  using assms
  by (auto simp: token_body_def tick_def Let_def stops_def stopped_def split: if_splits intro: exI[of _ s])

lemma pod_tokens_stops:
  assumes "pod_tokens r i f s = Inl e" and "dmem f (x_facts s)" and "prof_api_audiences (inp_profile (r_inp r)) \<noteq> []"
  shows "stops r i s e"
proof (cases f)
  case (ControlsPod u)
  with assms(1) obtain p sa where
      p: "dget (e_pods (x_env s)) u = Some p"
    and sa: "dget (e_service_accounts (x_env s)) (pod_namespace p, pod_service_account p) = Some sa"
    by (auto split: option.splits)
  have "\<exists>auds. token_audiences r p = Some auds"
    using assms(3) by (cases "prof_api_audiences (inp_profile (r_inp r))") (auto simp: token_audiences_def)
  then obtain auds where auds: "token_audiences r p = Some auds" by blast
  from assms(1) ControlsPod p sa auds have run: "for_each (token_body r i (ControlsPod u) p sa) auds s = Inl e"
    by simp
  let ?G = "\<lambda>aud s. dmem (ControlsPod u) (x_facts s) \<and> dget (e_pods (x_env s)) u = Some p \<and>
    dget (e_service_accounts (x_env s)) (pod_namespace p, pod_service_account p) = Some sa"
  obtain aud w where "att_run r i s w" "token_body r i (ControlsPod u) p sa aud w = Inl e"
  proof (rule for_each_Inl[where R = "att_run r i" and G = ?G, OF _ _ _ _ run])
    show "?G aud t" if "att_run r i s t" "?G aud s" for aud s t
      using att_run_grows[OF that(1)] that(2) by (simp add: grows_fact grows_pod grows_sas)
    show "att_run r i a b" if "aud \<in> set auds" "?G aud a" "token_body r i (ControlsPod u) p sa aud a = Inr b" for aud a b
      using token_body_run[OF that(3)] that auds by blast
    show "?G aud s" for aud using p sa assms(2) ControlsPod by simp
  qed auto
  then show ?thesis using token_body_stops stops_after by blast
qed (use assms in auto)

lemma create_body_stops:
  assumes "create_body r i f uc user ns via kind key s = Inl e"
  shows "stops r i s e"
  using assms
  by (auto simp: create_body_def create_workload_def Let_def split: if_splits adm_outcome.splits workload.splits prod.splits
      intro: add_stops)

lemma create_workloads_stops:
  assumes "create_workloads r i (Possesses cid) uc (cred_username c) ns kind s = Inl e"
    and "holds_usable r s cid c uc"
  shows "stops r i s e"
proof -
  let ?via = "\<lambda>s. authorizing_bindings (x_env s) (cred_username c) ''create'' (workload_resource kind) ns None"
  let ?ks = "sort (dkeys (e_service_accounts (x_env s)))"
  let ?G = "\<lambda>(k :: string \<times> string) t. holds_usable r t cid c uc \<and> static_eq (x_env s) (x_env t)"
  from assms(1) have ne: "?via s \<noteq> []" by (auto simp: create_workloads_def)
  with assms(1) have run: "for_each (create_body r i (Possesses cid) uc (cred_username c) ns (?via s) kind) ?ks s = Inl e"
    by (simp add: create_workloads_def Let_def)
  obtain k w where "quiet_run r i s w" "create_body r i (Possesses cid) uc (cred_username c) ns (?via s) kind k w = Inl e"
  proof (rule for_each_Inl[where R = "quiet_run r i" and G = ?G, OF _ _ _ _ run])
    show "quiet_run r i a b" if "k \<in> set ?ks" "?G k a"
      "create_body r i (Possesses cid) uc (cred_username c) ns (?via s) kind k a = Inr b" for k a b
    proof (rule create_body_run)
      from that(2) have eq: "static_eq (x_env s) (x_env a)" by simp
      show "create_body r i (Possesses cid) uc (cred_username c) ns (?via a) kind k a = Inr b"
        using that(3) by (simp add: static_eq_authorizing[OF eq])
      show "?via a \<noteq> []" using ne by (simp add: static_eq_authorizing[OF eq])
      show "holds_usable r a cid c uc" using that(2) by simp
      show "dmem k (e_service_accounts (x_env a))" using that(1) eq by (auto simp: static_eq_def)
    qed
    show "?G k b" if "k \<in> set ?ks" "quiet_run r i a b" "?G k a" for k a b
      using that holds_usable_run[of r i a b cid c uc]
      by (auto simp: quiet_run_def dest!: att_run_grows grows_static intro: static_eq_trans)
    show "?G k s" for k using assms(2) by simp
  qed (auto intro: quiet_run_trans)
  then show ?thesis unfolding quiet_run_def by (blast intro: create_body_stops stops_after)
qed

lemma exec_body_stops:
  assumes "exec_body r i f uc user u s = Inl e" and "dmem u (e_pods (x_env s))"
  shows "stops r i s e"
  using assms by (auto simp: exec_body_def Let_def split: if_splits intro: add_stops)

lemma read_body_stops:
  assumes "read_body r i (Possesses cid) uc (cred_username c) key s = Inl e"
    and "holds_usable r s cid c uc" and "dmem key (e_secrets (x_env s))"
  shows "stops r i s e"
proof -
  from assms(3) obtain sec where sec: "dget (e_secrets (x_env s)) key = Some sec" by auto
  with assms(1) obtain v where v: "reading_verb (x_env s) (cred_username c) sec = Some v"
    by (auto simp: read_body_def split: option.splits)
  let ?d = "inferred (KnowsSecret (sec_namespace sec) (sec_name sec) (str_of_int (sec_version sec)))
     R_READ_SECRET i [Possesses cid] (read_conditions (x_env s) uc (cred_username c) v sec) []"
  let ?d2 = "inferred (CanReadSecret (sec_namespace sec) (sec_name sec))
     R_READ_SECRET i [Possesses cid] (read_conditions (x_env s) uc (cred_username c) v sec) []"
  from assms(1) sec v consider "add r ?d s = Inl e" | m where "add r ?d s = Inr m" "add r ?d2 m = Inl e"
    by (auto simp: read_body_def Let_def rbind_Inl)
  then show ?thesis
  proof cases
    case 1
    then show ?thesis by (rule add_stops) simp_all
  next
    case 2
    then show ?thesis
      using add_run[OF 2(1) derivable.read_knows[OF assms(2) sec v]] add_stops[OF 2(2), of m]
      by (blast intro: stops_after)
  qed
qed

lemma api_requests_stops:
  assumes "api_requests r i (Possesses cid) c uc s = Inl e" and "holds_usable r s cid c uc" and "est_ok s"
  shows "stops r i s e"
proof -
  let ?cw = "\<lambda>ns k s. create_workloads r i (Possesses cid) uc (cred_username c) ns k s"
  let ?f = "\<lambda>ns s. rbind (?cw ns WorkPod s) (?cw ns WorkController)"
  let ?ex = "\<lambda>s. for_each (exec_body r i (Possesses cid) uc (cred_username c)) (sort (dkeys (e_pods (x_env s)))) s"
  let ?rd = "\<lambda>s. for_each (read_body r i (Possesses cid) uc (cred_username c)) (sort (dkeys (e_secrets (x_env s)))) s"
  have frun: "quiet_run r i x y" if "holds_usable r x cid c uc" "?f ns x = Inr y" for ns x y
  proof -
    from that(2) obtain m where m: "?cw ns WorkPod x = Inr m" and y: "?cw ns WorkController m = Inr y"
      by (auto simp: rbind_Inr)
    have xm: "quiet_run r i x m" by (rule create_workloads_run[OF m that(1)])
    then show ?thesis
      using create_workloads_run[OF y holds_usable_run[OF xm that(1)]] by (rule quiet_run_trans)
  qed
  have fstop: "stops r i x e" if "holds_usable r x cid c uc" "?f ns x = Inl e" for ns x
  proof -
    from that(2) consider "?cw ns WorkPod x = Inl e" | m where "?cw ns WorkPod x = Inr m" "?cw ns WorkController m = Inl e"
      by (auto simp: rbind_Inl)
    then show ?thesis
    proof cases
      case 1
      then show ?thesis by (rule create_workloads_stops) (rule that(1))
    next
      case 2
      have xm: "quiet_run r i x m" by (rule create_workloads_run[OF 2(1) that(1)])
      have "stops r i m e" by (rule create_workloads_stops[OF 2(2) holds_usable_run[OF xm that(1)]])
      with xm show ?thesis by (auto simp: quiet_run_def intro: stops_after)
    qed
  qed
  have exstop: "stops r i x e" if "?ex x = Inl e" "holds_usable r x cid c uc" "est_ok x" for x
    by (rule usable_loop_stops[OF that exec_body_run])
       (auto intro: exec_body_stops dest!: grows_pod)
  have rdstop: "stops r i x e" if "?rd x = Inl e" "holds_usable r x cid c uc" "est_ok x" for x
    by (rule usable_loop_stops[OF that read_body_run])
       (auto intro!: read_body_stops dest!: grows_static simp: static_eq_def)
  consider "for_each ?f (namespaces (x_env s)) s = Inl e"
    | a where "for_each ?f (namespaces (x_env s)) s = Inr a" "?ex a = Inl e"
    | a b where "for_each ?f (namespaces (x_env s)) s = Inr a" "?ex a = Inr b" "?rd b = Inl e"
    using assms(1) by (auto simp: api_requests_def rbind_Inl)
  then show ?thesis
  proof cases
    case 1
    then show ?thesis by (rule usable_loop_stops[OF _ assms(2,3)]) (auto intro: frun fstop)
  next
    case 2
    have sa: "quiet_run r i s a" by (rule usable_loop_run[OF 2(1) assms(2)]) (rule frun)
    then have "stops r i a e"
      using exstop[OF 2(2) holds_usable_run[OF sa assms(2)]] assms(3) by (auto simp: quiet_run_def intro: att_run_ok)
    with sa show ?thesis by (auto simp: quiet_run_def intro: stops_after)
  next
    case 3
    have sa: "quiet_run r i s a" by (rule usable_loop_run[OF 3(1) assms(2)]) (rule frun)
    have ab: "quiet_run r i a b"
      by (rule usable_loop_run[OF 3(2) holds_usable_run[OF sa assms(2)]]) (rule exec_body_run)
    note sb = quiet_run_trans[OF sa ab]
    then have "stops r i b e"
      using rdstop[OF 3(3) holds_usable_run[OF sb assms(2)]] assms(3) by (auto simp: quiet_run_def intro: att_run_ok)
    with sb show ?thesis by (auto simp: quiet_run_def intro: stops_after)
  qed
qed

lemma credential_requests_stops:
  assumes "credential_requests r i f s = Inl e" and "dmem f (x_facts s)" and "est_ok s"
  shows "stops r i s e"
proof (cases f)
  case (Possesses cid)
  obtain c where c: "dget (x_creds s) cid = Some c"
    using est_ok_parts(6)[OF assms(3,2)] Possesses by auto
  let ?s = "note_unsupported r c s"
  from assms(1) Possesses c obtain uc where uc: "cred_use r (x_env s) c = Some uc"
    and run: "api_requests r i (Possesses cid) c uc ?s = Inl e"
    by (auto simp: Let_def split: option.splits)
  have "holds_usable r ?s cid c uc"
    using assms(2) Possesses c uc by (simp add: holds_usable_def may_use_def)
  with run assms(3) have "stops r i ?s e" by (auto intro: api_requests_stops)
  with note_unsupported_run show ?thesis by (rule stops_after)
qed (use assms in auto)

lemma downstream_credentials_stops:
  assumes "downstream_credentials r i f s = Inl e" and "dmem f (x_facts s)"
  shows "stops r i s e"
proof (cases f)
  case (KnowsSecret ns n v)
  let ?G = "\<lambda>svc t. dmem (KnowsSecret ns n v) (x_facts t) \<and> svc \<in> set (secrets_feeding (x_env t) ns n)"
  obtain svc w where "att_run r i s w" "downstream_body r i ns n v svc w = Inl e"
  proof (rule for_each_Inl[where R = "att_run r i" and G = ?G])
    show "for_each (downstream_body r i ns n v) (secrets_feeding (x_env s) ns n) s = Inl e"
      using assms(1) KnowsSecret by simp
    show "?G svc y" if "att_run r i x y" "?G svc x" for svc x y
      using att_run_grows[OF that(1)] that(2) grows_factD grows_static static_eq_feeding by fastforce
    show "att_run r i x y" if "?G svc x" "downstream_body r i ns n v svc x = Inr y" for svc x y
      using that by (auto simp: downstream_body_def intro: add_run derivable.downstream)
    show "?G svc s" if "svc \<in> set (secrets_feeding (x_env s) ns n)" for svc
      using that assms(2) KnowsSecret by simp
  qed auto
  then show ?thesis unfolding downstream_body_def by (blast intro: add_stops stops_after)
qed (use assms in auto)

lemma downstream_uses_stops:
  assumes "downstream_uses r i f s = Inl e" and "dmem f (x_facts s)" and "est_ok s"
  shows "stops r i s e"
proof (cases f)
  case (PossessesDownstream name v)
  obtain n where n: "py_int v = Some n"
    using est_ok_parts(6)[OF assms(3,2)] PossessesDownstream by auto
  from assms(1) PossessesDownstream n obtain d where "add r d s = Inl e"
    by (auto split: option.splits if_splits)
  then show ?thesis by (rule add_stops) simp_all
qed (use assms in auto)

lemma loop_then_stops:
  assumes "rbind (for_each f (facts_of P s) s) k = Inl e" and "est_ok s"
    and run: "\<And>x s t. P x \<Longrightarrow> dmem x (x_facts s) \<Longrightarrow> f x s = Inr t \<Longrightarrow> att_run r i s t"
    and stop: "\<And>x s. P x \<Longrightarrow> dmem x (x_facts s) \<Longrightarrow> est_ok s \<Longrightarrow> f x s = Inl e \<Longrightarrow> stops r i s e"
    and cont: "\<And>t. k t = Inl e \<Longrightarrow> est_ok t \<Longrightarrow> stops r i t e"
  shows "stops r i s e"
proof (cases "for_each f (facts_of P s) s")
  case (Inl e')
  with assms(1) show ?thesis by (auto intro: facts_loop_stops[OF _ assms(2) run stop])
next
  case (Inr t)
  have st: "att_run r i s t" by (rule facts_loop_run[OF Inr run])
  moreover have "stops r i t e" using assms(1) Inr att_run_ok[OF st assms(2)] by (auto intro: cont)
  ultimately show ?thesis by (rule stops_after)
qed

theorem pass_stops:
  assumes "pass r i s = Inl e" and "est_ok s" and "prof_api_audiences (inp_profile (r_inp r)) \<noteq> []"
  shows "stops r i (clean s) e"
  using assms(1) unfolding pass_def Let_def
proof (elim loop_then_stops)
  show "est_ok (clean s)" using assms(2) by simp
qed (use assms(3) in \<open>auto intro: controller_pods_run pod_tokens_run credential_requests_run
       downstream_credentials_run controller_pods_stops pod_tokens_stops credential_requests_stops
       downstream_credentials_stops facts_loop_stops[OF _ _ downstream_uses_run downstream_uses_stops]\<close>)

section \<open>The saturation raises nothing else\<close>

text \<open>
  The runs of a whole saturation: passes reset the flag \<open>x_changed\<close>, so a run of the loop relates
  states up to it.
\<close>

inductive sat_run :: "run \<Rightarrow> int \<Rightarrow> est \<Rightarrow> est \<Rightarrow> bool" for r i where
  sat_refl: "sat_run r i s s"
| sat_pass: "att_run r i (clean s) t \<Longrightarrow> sat_run r i t u \<Longrightarrow> sat_run r i s u"

lemma closure_loop_run: "closure_loop r i s = Inr t \<Longrightarrow> sat_run r i s t"
proof (induction r i s rule: closure_loop.induct)
  case (1 r i s)
  show ?case
  proof (cases "pass r i s")
    case (Inr u)
    with "1.prems" show ?thesis
      using "1.IH"[OF Inr] pass_run[OF Inr] sat_refl
      by (cases "x_changed u") (auto simp: closure_loop.simps[of r i s] intro: sat_pass)
  qed (use "1.prems" in \<open>simp add: closure_loop.simps\<close>)
qed

text \<open>What every transition keeps holds after the saturation, when the flag does not matter to it.\<close>

lemma sat_run_keeps:
  assumes "sat_run r i s t" and "P s"
    and "\<And>s. P s \<Longrightarrow> P (clean s)" and "\<And>s t. att_step r i s t \<Longrightarrow> P s \<Longrightarrow> P t"
  shows "P t"
  using assms(1,2)
proof (induction rule: sat_run.induct)
  case (sat_pass s t u)
  have "P t" if "att_run r i a t" "P a" for a t
    using that by (induction rule: rtranclp_induct) (auto simp: counted_step_def intro: assms(4))
  with sat_pass show ?case using assms(3) by blast
qed

lemma sat_run_ok: "sat_run r i s t \<Longrightarrow> est_ok s \<Longrightarrow> est_ok t"
  by (rule sat_run_keeps[of r i s t est_ok]) (auto intro: att_step_ok)

lemma grows_clean [simp]: "grows s (clean t) = grows s t"
  by (simp add: grows_def)

lemma sat_run_grows: "sat_run r i s t \<Longrightarrow> grows s t"
  by (rule sat_run_keeps[of r i s t "grows s"]) (auto intro: grows_trans att_step_grows)

text \<open>Every exception of the saturation is \<open>BoundsExceeded\<close>, raised by a derivation past the bound.\<close>

definition sat_stops :: "run \<Rightarrow> int \<Rightarrow> est \<Rightarrow> exn \<times> est \<Rightarrow> bool" where
  "sat_stops r i s x \<longleftrightarrow> fst x = BoundsExceeded \<and> (\<exists>u. sat_run r i s u \<and> stopped r u (snd x))"

lemma closure_loop_stops:
  "closure_loop r i s = Inl e \<Longrightarrow> est_ok s \<Longrightarrow> prof_api_audiences (inp_profile (r_inp r)) \<noteq> [] \<Longrightarrow>
     sat_stops r i s e"
proof (induction r i s rule: closure_loop.induct)
  case (1 r i s)
  show ?case
  proof (cases "pass r i s")
    case (Inl e')
    with 1 have "stops r i (clean s) e" by (auto simp: closure_loop.simps[of r i s] intro: pass_stops)
    then show ?thesis by (auto simp: stops_def sat_stops_def intro: sat_pass sat_refl)
  next
    case (Inr u)
    with "1.prems" have ch: "x_changed u" and "closure_loop r i u = Inl e"
      by (auto simp: closure_loop.simps[of r i s] split: if_splits)
    moreover have "est_ok u" using att_run_ok[OF pass_run[OF Inr]] "1.prems"(2) by simp
    ultimately have "sat_stops r i u e" using "1.IH"[OF Inr ch] "1.prems"(3) by simp
    then show ?thesis using pass_run[OF Inr] by (auto simp: sat_stops_def intro: sat_pass)
  qed
qed

abbreviation no_eph :: "est \<Rightarrow> est" where
  "no_eph s \<equiv> s\<lparr>x_eph := []\<rparr>"

lemma est_ok_no_eph: "est_ok s \<Longrightarrow> est_ok (no_eph s)"
  by (simp add: est_ok_def)

theorem closure_run: "closure r i s = Inr t \<Longrightarrow> sat_run r i (no_eph s) t"
  unfolding closure_def by (rule closure_loop_run)

theorem closure_stops:
  "closure r i s = Inl e \<Longrightarrow> est_ok s \<Longrightarrow> prof_api_audiences (inp_profile (r_inp r)) \<noteq> [] \<Longrightarrow>
     sat_stops r i (no_eph s) e"
  unfolding closure_def by (rule closure_loop_stops) (simp_all add: est_ok_no_eph)

end
