(* ===== verification/Saturation.thy ===== *)
theory Saturation
  imports Invariant
begin

text \<open>
  The saturation is exhaustive: when \<open>closure\<close> returns, no attacker transition of the interval
  derives anything more. The engine tests a flag per pass; here the flag is turned into the
  statement about the transitions themselves.
\<close>

section \<open>States that differ in remarks only\<close>

definition same :: "est \<Rightarrow> est \<Rightarrow> bool" where
  "same s t \<longleftrightarrow> x_facts t = x_facts s \<and> x_creds t = x_creds s \<and> x_eph t = x_eph s \<and>
     x_env t = x_env s \<and> x_count t = x_count s"

lemma same_refl [simp, intro]: "same s s"
  by (simp add: same_def)

lemma same_trans [trans]: "same s t \<Longrightarrow> same t u \<Longrightarrow> same s u"
  by (simp add: same_def)

lemma same_clean [simp]: "same (clean s) t = same s t" "same s (clean t) = same s t"
  by (auto simp: same_def)

lemma same_known: "same s t \<Longrightarrow> known f t = known f s"
  by (simp add: same_def known_def)

lemma same_controls_live: "same s t \<Longrightarrow> controls_live t = controls_live s"
proof -
  assume "same s t"
  then have "x_env t = x_env s" "x_facts t = x_facts s" by (simp_all add: same_def)
  then show ?thesis by (intro ext) (simp only: controls_live_def)
qed

text \<open>
  The workload an interval would create is in the environment whenever the attacker is recorded to
  control it. Without that a creation could go unnoticed by the flag.
\<close>

definition accounted :: "int \<Rightarrow> est \<Rightarrow> bool" where
  "accounted i s \<longleftrightarrow> (\<forall>ns sa.
     (dmem (ControlsPod (model_pod_uid ns sa i)) (x_facts s) \<longrightarrow> dmem (model_pod_uid ns sa i) (e_pods (x_env s))) \<and>
     (dmem (ControlsController (model_controller_uid ns sa i)) (x_facts s) \<longrightarrow>
        dmem (model_controller_uid ns sa i) (e_controllers (x_env s))))"

lemma accounted_clean [simp]: "accounted i (clean s) = accounted i s"
  by (simp add: accounted_def)

lemma dmem_le: "map_of a \<subseteq>\<^sub>m map_of b \<Longrightarrow> dmem k a \<Longrightarrow> dmem k b"
  by (auto simp: map_le_def dom_def)

lemma known_learn: "dmem f (x_facts (learn d s)) \<longleftrightarrow> dmem f (x_facts s) \<or> (f = der_fact d \<and> persistent f)"
  by (auto simp: learn_def put_fact_def known_def)

lemma accounted_learn:
  assumes "accounted i s" and "\<And>ns sa. der_fact d = ControlsPod (model_pod_uid ns sa i) \<Longrightarrow>
      dmem (model_pod_uid ns sa i) (e_pods (x_env s))"
    and "\<And>ns sa. der_fact d = ControlsController (model_controller_uid ns sa i) \<Longrightarrow>
      dmem (model_controller_uid ns sa i) (e_controllers (x_env s))"
  shows "accounted i (learn d s)"
  using assms unfolding accounted_def known_learn learn_frame by metis

lemma derivable_control:
  "derivable r i s d \<Longrightarrow> der_fact d = ControlsPod u \<Longrightarrow> dmem u (e_pods (x_env s))"
  "derivable r i s d \<Longrightarrow> der_fact d \<noteq> ControlsController v"
  by (auto elim: derivable.cases)

lemma accounted_step: "att_step r i s t \<Longrightarrow> accounted i s \<Longrightarrow> accounted i t"
proof (induction rule: att_step.induct)
  case (learn st d)
  then show ?case
    by (intro accounted_learn) (auto dest: derivable_control)
next
  case (token u st p sa auds aud e)
  then show ?case
    by (auto simp: accounted_def obtain_token_def put_fact_def token_derivation_def)
next
  case (create_pod st cid c uc ns sa)
  let ?s = "st\<lparr>x_env := env_add_pod (model_pod ns sa i) (x_env st)\<rparr>"
  have "grows st ?s"
    using create_pod env_add_pod_grows[where p = "model_pod ns sa i" and env = "x_env st"]
    by (simp add: grows_def model_pod_def)
  then have "accounted i ?s"
    using create_pod.prems by (auto simp: accounted_def env_add_pod_def)
  then show ?case
    by (rule accounted_learn) (auto simp: env_add_pod_def model_pod_def)
next
  case (create_controller st cid c uc ns sa)
  let ?s = "st\<lparr>x_env := env_add_controller (model_controller ns sa i) (x_env st)\<rparr>"
  have g: "map_of (e_pods (x_env st)) \<subseteq>\<^sub>m map_of (e_pods (x_env ?s))"
      "map_of (e_controllers (x_env st)) \<subseteq>\<^sub>m map_of (e_controllers (x_env ?s))"
    using env_add_controller_grows[where c = "model_controller ns sa i" and env = "x_env st"] create_controller(2)
    by (simp_all add: model_controller_def)
  have fx: "x_facts ?s = x_facts st" by simp
  have "accounted i ?s"
    using create_controller.prems dmem_le[OF g(1)] dmem_le[OF g(2)] unfolding accounted_def fx by blast
  then show ?case
    by (rule accounted_learn) (auto simp: env_add_controller_def model_controller_def)
qed (simp add: accounted_def)

lemma accounted_run: "att_run r i s t \<Longrightarrow> accounted i s \<Longrightarrow> accounted i t"
  by (induction rule: rtranclp_induct) (auto simp: counted_step_def intro: accounted_step)

text \<open>A transition that counts nothing changes nothing.\<close>

lemma uncounted_step:
  assumes "att_step r i s t" and "x_count t = x_count s" and "accounted i s"
  shows "same s t"
  using assms
proof (induction rule: att_step.induct)
  case (learn st d)
  then show ?case by (simp add: learn_def split: if_splits)
next
  case (create_pod st cid c uc ns sa)
  then have "\<not> dmem (ControlsPod (model_pod_uid ns sa i)) (x_facts st)"
    unfolding accounted_def by blast
  with create_pod show ?case by (simp add: learn_def known_def)
next
  case (create_controller st cid c uc ns sa)
  then have "\<not> dmem (ControlsController (model_controller_uid ns sa i)) (x_facts st)"
    unfolding accounted_def by blast
  with create_controller show ?case by (simp add: learn_def known_def)
qed (simp_all add: obtain_token_def same_def)

lemma uncounted_run:
  assumes "att_run r i s t" and "x_count t = x_count s" and "accounted i s"
  shows "same s t"
  using assms(1,2)
proof (induction rule: rtranclp_induct)
  case (step t u)
  have "x_count s \<le> x_count t" "x_count t \<le> x_count u"
    using att_run_progress[OF step(1)] counted_step_progress[OF step(2)] by (simp_all add: progress_def)
  with step have "same s t" and "x_count u = x_count t" by simp_all
  moreover have "same t u"
    using step(2) \<open>x_count u = x_count t\<close> accounted_run[OF step(1) assms(3)]
    by (auto simp: counted_step_def intro: uncounted_step)
  ultimately show ?case by (blast intro: same_trans)
qed simp

section \<open>Saturated states\<close>

text \<open>No transition of the interval counts a derivation.\<close>

definition saturated :: "run \<Rightarrow> int \<Rightarrow> est \<Rightarrow> bool" where
  "saturated r i s \<longleftrightarrow> (\<forall>t. att_step r i s t \<longrightarrow> x_count t = x_count s)"

text \<open>An iteration of a loop that counted nothing, in a state like the one the loop started from.\<close>

lemma quiet_iteration:
  assumes run: "for_each f xs s = Inr t" and count: "x_count t = x_count s" and acc: "accounted i s"
    and stable: "\<And>x s t. x \<in> set xs \<Longrightarrow> att_run r i s t \<Longrightarrow> x_creds t = x_creds s \<or> free \<Longrightarrow> G x s \<Longrightarrow> G x t"
    and step: "\<And>x s t. x \<in> set xs \<Longrightarrow> G x s \<Longrightarrow> f x s = Inr t \<Longrightarrow>
      att_run r i s t \<and> (x_creds t = x_creds s \<or> free)"
    and start: "\<And>x. x \<in> set xs \<Longrightarrow> G x s"
    and x: "x \<in> set xs"
  obtains a b where "same s a" "G x a" "f x a = Inr b" "x_count b = x_count a" "accounted i a"
proof -
  let ?R = "\<lambda>s t. att_run r i s t \<and> (x_creds t = x_creds s \<or> free)"
  have loop: "?R p q" if "for_each f ys p = Inr q" "set ys \<subseteq> set xs" "\<And>y. y \<in> set ys \<Longrightarrow> G y p" for ys p q
  proof (rule for_each_rel[where R = ?R and G = G, OF _ _ _ _ that(1)])
    show "G y b" if "y \<in> set ys" "?R a b" "G y a" for y a b
      using that stable[of y a b] \<open>set ys \<subseteq> set xs\<close> by blast
    show "?R a b" if "y \<in> set ys" "G y a" "f y a = Inr b" for y a b
      using that step[of y a b] \<open>set ys \<subseteq> set xs\<close> by blast
  qed (use that(3) in \<open>auto intro: rtranclp_trans\<close>)
  from x obtain ys zs where xs: "xs = ys @ x # zs" by (auto simp: in_set_conv_decomp)
  from run obtain a b where a: "for_each f ys s = Inr a" and b: "f x a = Inr b" and z: "for_each f zs b = Inr t"
    by (auto simp: xs for_each_append rbind_Inr)
  have sa: "?R s a" by (rule loop[OF a]) (use start xs in auto)
  have G: "G y a" if "y \<in> set xs" for y using stable[OF that] sa start[OF that] by blast
  have ab: "?R a b" using step[OF x G[OF x] b] .
  have bt: "?R b t" by (rule loop[OF z]) (use stable ab G xs in auto)
  have "x_count s \<le> x_count a" "x_count a \<le> x_count b" "x_count b \<le> x_count t"
    using sa ab bt att_run_progress by (auto simp: progress_def)
  with count have "x_count a = x_count s" "x_count b = x_count a" by simp_all
  moreover from this have "same s a" using uncounted_run[of r i s a] sa acc by simp
  moreover have "accounted i a" using sa acc accounted_run by blast
  ultimately show thesis using that G[OF x] b by blast
qed

lemmas quiet_any = quiet_iteration[where free = True, simplified]
lemmas quiet_same_creds = quiet_iteration[where free = False, simplified]

lemma quiet_facts_loop:
  assumes "for_each f (facts_of P s) s = Inr t" and "x_count t = x_count s" and "accounted i s"
    and "\<And>x s t. P x \<Longrightarrow> dmem x (x_facts s) \<Longrightarrow> f x s = Inr t \<Longrightarrow> att_run r i s t"
    and "P x" and "dmem x (x_facts s)"
  obtains a b where "same s a" "f x a = Inr b" "x_count b = x_count a" "accounted i a"
proof (rule quiet_any[where r = r and i = i and G = "\<lambda>x s. P x \<and> dmem x (x_facts s)", OF assms(1-3)])
  show "x \<in> set (facts_of P s)" using assms(5,6) by (simp add: facts_of_mem)
  show "P y \<and> dmem y (x_facts b)" if "att_run r i a b" "P y \<and> dmem y (x_facts a)" for y a b
    using that by (auto dest!: att_run_grows intro: grows_factD)
qed (use that assms(4) in \<open>auto simp: facts_of_mem\<close>)

lemma quiet_usable_loop:
  assumes "for_each f xs s = Inr t" and "x_count t = x_count s" and "accounted i s"
    and "holds_usable r s cid c uc" and "x \<in> set xs"
    and step: "\<And>x s t. x \<in> set xs \<Longrightarrow> holds_usable r s cid c uc \<Longrightarrow> f x s = Inr t \<Longrightarrow> quiet_run r i s t"
  obtains a b where "same s a" "holds_usable r a cid c uc" "f x a = Inr b" "x_count b = x_count a" "accounted i a"
proof (rule quiet_same_creds[where r = r and i = i and G = "\<lambda>_ s. holds_usable r s cid c uc", OF assms(1-3)])
  show "holds_usable r b cid c uc" if "att_run r i a b" "x_creds b = x_creds a" "holds_usable r a cid c uc" for a b
    using that holds_usable_run by (auto simp: quiet_run_def)
  show "att_run r i a b \<and> x_creds b = x_creds a" if "y \<in> set xs" "holds_usable r a cid c uc" "f y a = Inr b" for y a b
    using step[OF that] by (simp add: quiet_run_def)
  show "x \<in> set xs" by (rule assms(5))
qed (use assms(4) that in blast)+

lemma add_quiet: "add r d s = Inr t \<Longrightarrow> x_count t = x_count s \<Longrightarrow> known (der_fact d) s"
  by (auto simp: add_def tick_def Let_def split: if_splits)

section \<open>What a quiet pass has established\<close>

lemma controller_pods_quiet:
  assumes "controller_pods r i (ControlsController c) s = Inr t" "x_count t = x_count s" "accounted i s"
    and "dmem (ControlsController c) (x_facts s)"
    and "dget (e_pods (x_env s)) u = Some p" "pod_controller_uid p = Some c"
  shows "known (ControlsPod u) s"
proof -
  have body: "att_run r i a b" if "dmem (ControlsController c) (x_facts a)" "controller_pod_body r i c v a = Inr b" for v a b
    using that by (auto simp: controller_pod_body_def split: option.splits if_splits
        intro: add_run derivable.controller_pod)
  obtain a b where "same s a" "controller_pod_body r i c u a = Inr b" "x_count b = x_count a"
  proof (rule quiet_any[where r = r and i = i and G = "\<lambda>_ s. dmem (ControlsController c) (x_facts s)", OF _ assms(2,3)])
    show "for_each (controller_pod_body r i c) (sort (dkeys (e_pods (x_env s)))) s = Inr t"
      using assms(1) by simp
  qed (use assms body in \<open>auto dest!: att_run_grows intro: grows_factD\<close>)
  with assms(5,6) have "known (ControlsPod u) a"
    by (auto simp: controller_pod_body_def same_def dest: add_quiet)
  with \<open>same s a\<close> show ?thesis by (simp add: same_known)
qed

lemma pod_tokens_quiet:
  assumes "pod_tokens r i (ControlsPod u) s = Inr t" "x_count t = x_count s" "accounted i s"
    and "dmem (ControlsPod u) (x_facts s)"
    and p: "dget (e_pods (x_env s)) u = Some p"
    and sa: "dget (e_service_accounts (x_env s)) (pod_namespace p, pod_service_account p) = Some sa"
    and auds: "token_audiences r p = Some auds" "aud \<in> set auds"
    and e: "e = e_time (x_env s) + prof_projected_token_ttl_seconds (inp_profile (r_inp r))"
  shows "token_fresh s (projected_id (pod_uid p) aud) e"
proof -
  let ?G = "\<lambda>(aud :: string) s. dmem (ControlsPod u) (x_facts s) \<and> dget (e_pods (x_env s)) u = Some p \<and>
    dget (e_service_accounts (x_env s)) (pod_namespace p, pod_service_account p) = Some sa"
  obtain a b where "same s a" "token_body r i (ControlsPod u) p sa aud a = Inr b" "x_count b = x_count a"
  proof (rule quiet_any[where r = r and i = i and G = ?G, OF _ assms(2,3)])
    show "for_each (token_body r i (ControlsPod u) p sa) auds s = Inr t"
      using assms(1) p sa auds(1) by simp
    show "?G aud t" if "att_run r i s t" "?G aud s" for aud s t
      using att_run_grows[OF that(1)] that(2) by (simp add: grows_fact grows_pod grows_sas)
    show "att_run r i a b" if "aud \<in> set auds" "?G aud a" "token_body r i (ControlsPod u) p sa aud a = Inr b" for aud a b
      using token_body_run[OF that(3)] that auds by blast
  qed (use assms in auto)
  then show ?thesis
    by (auto simp: token_body_def Let_def tick_def same_def token_fresh_def e split: if_splits)
qed

lemma exec_body_quiet:
  assumes "exec_body r i f uc user u s = Inr t" "x_count t = x_count s"
    and "dget (e_pods (x_env s)) u = Some p"
    and "authorizing_bindings (x_env s) user ''create'' ''pods/exec'' (pod_namespace p) (Some (pod_name p)) \<noteq> []"
  shows "known (ControlsPod u) s"
  using assms by (auto simp: exec_body_def Let_def dest: add_quiet)

lemma read_body_quiet:
  assumes "read_body r i f uc user key s = Inr t" "x_count t = x_count s"
    and "dget (e_secrets (x_env s)) key = Some sec" "reading_verb (x_env s) user sec = Some v"
  shows "known (KnowsSecret (sec_namespace sec) (sec_name sec) (str_of_int (sec_version sec))) s"
    and "known (CanReadSecret (sec_namespace sec) (sec_name sec)) s"
proof -
  let ?cs = "read_conditions (x_env s) uc user v sec"
  from assms obtain m where
      1: "add r (inferred (KnowsSecret (sec_namespace sec) (sec_name sec) (str_of_int (sec_version sec)))
             R_READ_SECRET i [f] ?cs []) s = Inr m"
    and 2: "add r (inferred (CanReadSecret (sec_namespace sec) (sec_name sec)) R_READ_SECRET i [f] ?cs []) m = Inr t"
    by (auto simp: read_body_def Let_def rbind_Inr)
  have mono: "x_count x \<le> x_count y" if "add r d x = Inr y" for d x y
    using that by (auto simp: add_def tick_def Let_def split: if_splits)
  have c: "x_count m = x_count s" "x_count t = x_count m"
    using mono[OF 1] mono[OF 2] assms(2) by simp_all
  from add_quiet[OF 1 c(1)]
  show k: "known (KnowsSecret (sec_namespace sec) (sec_name sec) (str_of_int (sec_version sec))) s" by simp
  then have "m = s" using 1 by (simp add: add_def)
  with add_quiet[OF 2 c(2)] show "known (CanReadSecret (sec_namespace sec) (sec_name sec)) s" by simp
qed

lemma create_workloads_quiet:
  assumes "create_workloads r i (Possesses cid) uc (cred_username c) ns kind s = Inr t" "x_count t = x_count s"
    and "accounted i s" "may_create r s cid c uc' ns sa kind" "holds_usable r s cid c uc"
  shows "case kind of WorkPod \<Rightarrow> dmem (model_pod_uid ns sa i) (e_pods (x_env s))
           | WorkController \<Rightarrow> dmem (model_controller_uid ns sa i) (e_controllers (x_env s))"
proof -
  let ?via = "\<lambda>s. authorizing_bindings (x_env s) (cred_username c) ''create'' (workload_resource kind) ns None"
  let ?ks = "sort (dkeys (e_service_accounts (x_env s)))"
  let ?G = "\<lambda>(k :: string \<times> string) t. holds_usable r t cid c uc \<and> static_eq (x_env s) (x_env t)"
  have ne: "?via s \<noteq> []" and key: "(ns, sa) \<in> set ?ks"
    using assms(4) by (auto simp: may_create_def)
  obtain a b where sa: "same s a" and acc: "accounted i a"
    and run: "create_body r i (Possesses cid) uc (cred_username c) ns (?via s) kind (ns, sa) a = Inr b"
    and cnt: "x_count b = x_count a"
  proof (rule quiet_same_creds[where r = r and i = i and G = ?G, OF _ assms(2,3)])
    show "for_each (create_body r i (Possesses cid) uc (cred_username c) ns (?via s) kind) ?ks s = Inr t"
      using assms(1) ne by (simp add: create_workloads_def Let_def)
    show "att_run r i a b \<and> x_creds b = x_creds a" if "k \<in> set ?ks" "?G k a"
      "create_body r i (Possesses cid) uc (cred_username c) ns (?via s) kind k a = Inr b" for k a b
    proof -
      from that(2) have eq: "static_eq (x_env s) (x_env a)" by simp
      have "quiet_run r i a b"
      proof (rule create_body_run)
        show "create_body r i (Possesses cid) uc (cred_username c) ns (?via a) kind k a = Inr b"
          using that(3) by (simp add: static_eq_authorizing[OF eq])
        show "?via a \<noteq> []" using ne by (simp add: static_eq_authorizing[OF eq])
        show "holds_usable r a cid c uc" using that(2) by simp
        show "dmem k (e_service_accounts (x_env a))" using that(1) eq by (auto simp: static_eq_def)
      qed
      then show ?thesis by (simp add: quiet_run_def)
    qed
    show "?G k b" if "k \<in> set ?ks" "att_run r i a b" "x_creds b = x_creds a" "?G k a" for k a b
      using that holds_usable_run[of r i a b cid c uc]
      by (auto simp: quiet_run_def dest!: att_run_grows grows_static intro: static_eq_trans)
  qed (use key assms(5) in auto)
  from assms(4) sa have "\<not> controls_live a ns sa kind"
    and "ad_outcome (admission_decision (x_env a) (cred_username c) ns sa) = AdmAllow"
    using same_controls_live[OF sa] by (simp_all add: may_create_def same_def)
  with run have w: "create_workload r i (Possesses cid)
      (create_conditions uc (cred_username c) ns (?via s) sa (ad_policies (admission_decision (x_env a) (cred_username c) ns sa)) kind)
      ns sa kind a = Inr b"
    by (simp add: create_body_def Let_def)
  show ?thesis
  proof (cases kind)
    case WorkPod
    from w WorkPod cnt have "dmem (model_pod_uid ns sa i) (e_pods (x_env a)) \<or> known (ControlsPod (model_pod_uid ns sa i)) a"
      by (auto simp: create_workload_def known_def dest!: add_quiet split: if_splits)
    then show ?thesis using acc sa WorkPod by (auto simp: known_def accounted_def same_def)
  next
    case WorkController
    from w WorkController cnt have "dmem (model_controller_uid ns sa i) (e_controllers (x_env a)) \<or>
        known (ControlsController (model_controller_uid ns sa i)) a"
      by (auto simp: create_workload_def known_def dest!: add_quiet split: if_splits)
    then show ?thesis using acc sa WorkController by (auto simp: known_def accounted_def same_def)
  qed
qed

lemma namespaces_account: "dmem (ns, sa) (e_service_accounts env) \<Longrightarrow> ns \<in> set (namespaces env)"
proof -
  assume "dmem (ns, sa) (e_service_accounts env)"
  then have "(ns, sa) \<in> set (dkeys (e_service_accounts env))" by auto
  then have "fst (ns, sa) \<in> fst ` set (dkeys (e_service_accounts env))" by (rule imageI)
  then have "ns \<in> set (map fst (dkeys (e_service_accounts env)))" by (simp only: set_map fst_conv)
  then show ?thesis by (simp add: namespaces_def)
qed

lemma holds_usable_same: "same s t \<Longrightarrow> holds_usable r t = holds_usable r s"
  by (intro ext) (simp add: holds_usable_def same_def)

lemma may_create_same: "same s t \<Longrightarrow> may_create r t cid c uc ns sa kind = may_create r s cid c uc ns sa kind"
  using same_controls_live[of s t] by (simp add: may_create_def holds_usable_def same_def)

text \<open>What a usable credential allows is done, whatever the recorded condition.\<close>

lemma api_requests_quiet:
  assumes run: "api_requests r i (Possesses cid) c uc s = Inr t" "x_count t = x_count s" "accounted i s"
    and h: "holds_usable r s cid c uc"
  shows "may_create r s cid c uc' ns sa WorkPod \<Longrightarrow> dmem (model_pod_uid ns sa i) (e_pods (x_env s))"
    and "may_create r s cid c uc' ns sa WorkController \<Longrightarrow>
           dmem (model_controller_uid ns sa i) (e_controllers (x_env s))"
    and "dget (e_pods (x_env s)) u = Some p \<Longrightarrow>
           authorizing_bindings (x_env s) (cred_username c) ''create'' ''pods/exec'' (pod_namespace p) (Some (pod_name p)) \<noteq> [] \<Longrightarrow>
           known (ControlsPod u) s"
    and "dget (e_secrets (x_env s)) key = Some sec \<Longrightarrow> reading_verb (x_env s) (cred_username c) sec = Some v \<Longrightarrow>
           known (KnowsSecret (sec_namespace sec) (sec_name sec) (str_of_int (sec_version sec))) s \<and>
           known (CanReadSecret (sec_namespace sec) (sec_name sec)) s"
proof -
  let ?cw = "\<lambda>ns k s. create_workloads r i (Possesses cid) uc (cred_username c) ns k s"
  let ?f = "\<lambda>ns s. rbind (?cw ns WorkPod s) (?cw ns WorkController)"
  let ?G = "\<lambda>_ s. holds_usable r s cid c uc"
  from run(1) obtain a b where
      1: "for_each ?f (namespaces (x_env s)) s = Inr a"
    and 2: "for_each (exec_body r i (Possesses cid) uc (cred_username c)) (sort (dkeys (e_pods (x_env a)))) a = Inr b"
    and 3: "for_each (read_body r i (Possesses cid) uc (cred_username c)) (sort (dkeys (e_secrets (x_env b)))) b = Inr t"
    by (auto simp: api_requests_def rbind_Inr)
  have frun: "quiet_run r i x m \<and> quiet_run r i m y"
    if "holds_usable r x cid c uc" "?cw ns WorkPod x = Inr m" "?cw ns WorkController m = Inr y" for ns x y m
    using create_workloads_run[OF that(2,1)] create_workloads_run[OF that(3) holds_usable_run] that(1) by blast
  have f: "quiet_run r i x y" if "holds_usable r x cid c uc" "?f ns x = Inr y" for ns x y
  proof -
    from that(2) obtain m where "?cw ns WorkPod x = Inr m" "?cw ns WorkController m = Inr y" by (auto simp: rbind_Inr)
    from frun[OF that(1) this] show ?thesis by (blast intro: quiet_run_trans)
  qed
  have keep: "holds_usable r y cid c uc" if "att_run r i x y" "x_creds y = x_creds x" "holds_usable r x cid c uc" for x y
    using that holds_usable_run by (auto simp: quiet_run_def)
  have sa: "quiet_run r i s a" by (rule usable_loop_run[OF 1 h]) (rule f)
  have ab: "quiet_run r i a b" by (rule usable_loop_run[OF 2 holds_usable_run[OF sa h]]) (rule exec_body_run)
  note sb = quiet_run_trans[OF sa ab]
  have bt: "quiet_run r i b t" by (rule usable_loop_run[OF 3 holds_usable_run[OF sb h]]) (rule read_body_run)
  have "x_count s \<le> x_count a" "x_count a \<le> x_count b" "x_count b \<le> x_count t"
    using sa ab bt by (auto simp: quiet_run_def progress_def dest!: att_run_progress)
  with run(2) have c: "x_count a = x_count s" "x_count b = x_count a" "x_count t = x_count b" by simp_all
  have s1: "same s a" using sa c(1) run(3) by (auto simp: quiet_run_def intro: uncounted_run)
  have acc: "accounted i a" using sa run(3) by (auto simp: quiet_run_def intro: accounted_run)
  have s2: "same a b" using ab c(2) acc by (auto simp: quiet_run_def intro: uncounted_run)
  have acc2: "accounted i b" using ab acc by (auto simp: quiet_run_def intro: accounted_run)
  have creates: "case kind of WorkPod \<Rightarrow> dmem (model_pod_uid ns sa i) (e_pods (x_env s))
           | WorkController \<Rightarrow> dmem (model_controller_uid ns sa i) (e_controllers (x_env s))"
    if mc: "may_create r s cid c uc' ns sa kind" for kind
  proof -
    have mem: "ns \<in> set (namespaces (x_env s))" using mc by (auto simp: may_create_def intro: namespaces_account)
    obtain x y where x: "same s x" "holds_usable r x cid c uc" "?f ns x = Inr y" "x_count y = x_count x" "accounted i x"
      by (rule quiet_usable_loop[OF 1 c(1) run(3) h mem f])
    from x(3) obtain m where m: "?cw ns WorkPod x = Inr m" "?cw ns WorkController m = Inr y" by (auto simp: rbind_Inr)
    note q = frun[OF x(2) m]
    have "x_count x \<le> x_count m" "x_count m \<le> x_count y"
      using q by (auto simp: quiet_run_def progress_def dest!: att_run_progress)
    with x(4) have cm: "x_count m = x_count x" "x_count y = x_count m" by simp_all
    have xm: "same x m" using q cm(1) x(5) by (auto simp: quiet_run_def intro: uncounted_run)
    have accm: "accounted i m" using q x(5) by (auto simp: quiet_run_def intro: accounted_run)
    have sm: "same s m" using x(1) xm by (rule same_trans)
    show ?thesis
    proof (cases kind)
      case WorkPod
      with create_workloads_quiet[OF m(1) cm(1) x(5), of uc' sa] x(1,2) mc show ?thesis
        by (simp add: may_create_same[OF x(1)] same_def)
    next
      case WorkController
      with create_workloads_quiet[OF m(2) cm(2) accm, of uc' sa] holds_usable_same[OF xm] x(2) sm mc show ?thesis
        by (simp add: may_create_same[OF sm] same_def)
    qed
  qed
  show "may_create r s cid c uc' ns sa WorkPod \<Longrightarrow> dmem (model_pod_uid ns sa i) (e_pods (x_env s))"
    using creates[of WorkPod] by simp
  show "may_create r s cid c uc' ns sa WorkController \<Longrightarrow>
           dmem (model_controller_uid ns sa i) (e_controllers (x_env s))"
    using creates[of WorkController] by simp
  show "known (ControlsPod u) s" if "dget (e_pods (x_env s)) u = Some p"
    "authorizing_bindings (x_env s) (cred_username c) ''create'' ''pods/exec'' (pod_namespace p) (Some (pod_name p)) \<noteq> []"
  proof -
    have mem: "u \<in> set (sort (dkeys (e_pods (x_env a))))" using that(1) s1 by (simp add: same_def)
    obtain x y where x: "same a x" "exec_body r i (Possesses cid) uc (cred_username c) u x = Inr y" "x_count y = x_count x"
      by (rule quiet_usable_loop[OF 2 c(2) acc holds_usable_run[OF sa h] mem exec_body_run])
    have sx: "same s x" using s1 x(1) by (rule same_trans)
    show ?thesis
      using exec_body_quiet[OF x(2,3), of p] that sx same_known[OF sx] by (simp add: same_def)
  qed
  show "known (KnowsSecret (sec_namespace sec) (sec_name sec) (str_of_int (sec_version sec))) s \<and>
        known (CanReadSecret (sec_namespace sec) (sec_name sec)) s"
    if "dget (e_secrets (x_env s)) key = Some sec" "reading_verb (x_env s) (cred_username c) sec = Some v"
  proof -
    have mem: "key \<in> set (sort (dkeys (e_secrets (x_env b))))" using that(1) s1 s2 by (simp add: same_def)
    obtain x y where x: "same b x" "read_body r i (Possesses cid) uc (cred_username c) key x = Inr y" "x_count y = x_count x"
      by (rule quiet_usable_loop[OF 3 c(3) acc2 holds_usable_run[OF sb h] mem read_body_run])
    have sx: "same s x" using same_trans[OF same_trans[OF s1 s2] x(1)] .
    show ?thesis
      using read_body_quiet[OF x(2,3), of sec v] that sx same_known[OF sx] by (simp add: same_def)
  qed
qed

section \<open>A quiet pass saturates\<close>

lemma derived_known:
  assumes "derivable r i s d"
    and ctrl: "\<And>c u p. dmem (ControlsController c) (x_facts s) \<Longrightarrow> dget (e_pods (x_env s)) u = Some p \<Longrightarrow>
      pod_controller_uid p = Some c \<Longrightarrow> known (ControlsPod u) s"
    and exec: "\<And>cid c uc u p. holds_usable r s cid c uc \<Longrightarrow> dget (e_pods (x_env s)) u = Some p \<Longrightarrow>
      authorizing_bindings (x_env s) (cred_username c) ''create'' ''pods/exec'' (pod_namespace p) (Some (pod_name p)) \<noteq> [] \<Longrightarrow>
      known (ControlsPod u) s"
    and reads: "\<And>cid c uc key sec v. holds_usable r s cid c uc \<Longrightarrow> dget (e_secrets (x_env s)) key = Some sec \<Longrightarrow>
      reading_verb (x_env s) (cred_username c) sec = Some v \<Longrightarrow>
      known (KnowsSecret (sec_namespace sec) (sec_name sec) (str_of_int (sec_version sec))) s \<and>
      known (CanReadSecret (sec_namespace sec) (sec_name sec)) s"
    and down: "\<And>ns n v svc. dmem (KnowsSecret ns n v) (x_facts s) \<Longrightarrow> svc \<in> set (secrets_feeding (x_env s) ns n) \<Longrightarrow>
      known (PossessesDownstream (svc_name svc) v) s"
    and "use": "\<And>name v svc n. dmem (PossessesDownstream name v) (x_facts s) \<Longrightarrow> dget (e_services (x_env s)) name = Some svc \<Longrightarrow>
      py_int v = Some n \<Longrightarrow> svc_accepts svc n (e_time (x_env s)) \<Longrightarrow> known (CanUseDownstream (svc_name svc)) s"
  shows "known (der_fact d) s"
  using assms(1)
proof (cases rule: derivable.cases)
  case (controller_pod c u p)
  then show ?thesis using ctrl by simp
next
  case (exec_pod cid c uc u p via)
  then show ?thesis using exec by simp
next
  case (read_knows cid c uc key s v)
  then show ?thesis using reads by simp
next
  case (read_can cid c uc key s v)
  then show ?thesis using reads by simp
next
  case (downstream ns n v svc)
  then show ?thesis using down by simp
next
  case (use_downstream name v svc n)
  then show ?thesis using "use" by simp
qed

lemma downstream_credentials_quiet:
  assumes "downstream_credentials r i (KnowsSecret ns n v) s = Inr t" "x_count t = x_count s" "accounted i s"
    and "dmem (KnowsSecret ns n v) (x_facts u)" "svc \<in> set (secrets_feeding (x_env u) ns n)" and "same s u"
  shows "known (PossessesDownstream (svc_name svc) v) u"
proof -
  let ?G = "\<lambda>svc t. dmem (KnowsSecret ns n v) (x_facts t) \<and> svc \<in> set (secrets_feeding (x_env t) ns n)"
  have su: "x_facts u = x_facts s" "x_env u = x_env s" using assms(6) by (simp_all add: same_def)
  obtain a b where ab: "same s a" "downstream_body r i ns n v svc a = Inr b" "x_count b = x_count a"
  proof (rule quiet_any[where r = r and i = i and G = ?G and x = svc, OF _ assms(2,3)])
    show "for_each (downstream_body r i ns n v) (secrets_feeding (x_env s) ns n) s = Inr t"
      using assms(1) by simp
    show "?G svc y" if "att_run r i x y" "?G svc x" for svc x y
      using att_run_grows[OF that(1)] that(2) grows_factD grows_static static_eq_feeding by fastforce
    show "att_run r i x y" if "?G svc x" "downstream_body r i ns n v svc x = Inr y" for svc x y
      using that by (auto simp: downstream_body_def intro: add_run derivable.downstream)
    show "?G svc s" if "svc \<in> set (secrets_feeding (x_env s) ns n)" for svc
      using that assms(4) su by simp
    show "svc \<in> set (secrets_feeding (x_env s) ns n)" using assms(5) su by simp
  qed
  from add_quiet[OF ab(2)[unfolded downstream_body_def] ab(3)] have "known (PossessesDownstream (svc_name svc) v) a" by simp
  with ab(1) assms(6) show ?thesis by (simp add: same_known)
qed

text \<open>The credential pass, seen from a credential the attacker may use.\<close>

lemma credential_requests_quiet:
  assumes "credential_requests r i (Possesses cid) s = Inr t" "x_count t = x_count s" "accounted i s"
    and h: "holds_usable r s cid c uc'"
  obtains uc a where "same s a" "holds_usable r a cid c uc" "accounted i a"
    "api_requests r i (Possesses cid) c uc a = Inr t" "x_count t = x_count a"
proof -
  from h obtain uc where uc: "cred_use r (x_env s) c = Some uc" and c: "dget (x_creds s) cid = Some c"
    by (auto simp: holds_usable_def may_use_def)
  let ?a = "note_unsupported r c s"
  show thesis
  proof (rule that)
    show "same s ?a" by (simp add: same_def)
    show "holds_usable r ?a cid c uc" using h uc by (simp add: holds_usable_def may_use_def)
    show "accounted i ?a" using assms(3) by (simp add: accounted_def)
    show "api_requests r i (Possesses cid) c uc ?a = Inr t" using assms(1) c uc by simp
    show "x_count t = x_count ?a" using assms(2) by simp
  qed
qed

theorem pass_saturated:
  assumes pass: "pass r i s = Inr t" and unchanged: "\<not> x_changed t" and acc: "accounted i s"
  shows "saturated r i t"
proof -
  let ?s = "clean s"
  from pass obtain a b c d where
      1: "for_each (controller_pods r i) (facts_of is_controls_controller ?s) ?s = Inr a" and
      2: "for_each (pod_tokens r i) (facts_of is_controls_pod a) a = Inr b" and
      3: "for_each (credential_requests r i) (facts_of is_possesses b) b = Inr c" and
      4: "for_each (downstream_credentials r i) (facts_of is_knows c) c = Inr d" and
      5: "for_each (downstream_uses r i) (facts_of is_downstream d) d = Inr t"
    by (auto simp: pass_def Let_def rbind_Inr)
  have runs: "att_run r i ?s a" "att_run r i a b" "att_run r i b c" "att_run r i c d" "att_run r i d t"
    using 1 2 3 4 5 by (auto elim!: facts_loop_run intro: controller_pods_run pod_tokens_run credential_requests_run
        downstream_credentials_run downstream_uses_run)
  have "x_count t = x_count ?s"
    using att_run_progress[OF pass_run[OF pass]] unchanged by (auto simp: progress_def)
  with runs have cnt: "x_count a = x_count ?s" "x_count b = x_count a" "x_count c = x_count b"
      "x_count d = x_count c" "x_count t = x_count d"
    by (auto simp: progress_def dest!: att_run_progress)
  have accs: "accounted i a" "accounted i b" "accounted i c" "accounted i d"
    using runs acc accounted_run by (metis accounted_clean)+
  have sames: "same ?s a" "same a b" "same b c" "same c d" "same d t"
    using uncounted_run[OF runs(1) cnt(1)] uncounted_run[OF runs(2) cnt(2)] uncounted_run[OF runs(3) cnt(3)]
      uncounted_run[OF runs(4) cnt(4)] uncounted_run[OF runs(5) cnt(5)] accs acc by simp_all
  have st: "same ?s t" "same a t" "same b t" "same c t" "same d t"
    using sames by (simp_all add: same_def)
  have facts: "x_facts ?s = x_facts t" "x_facts a = x_facts t" "x_facts b = x_facts t"
      "x_facts c = x_facts t" "x_facts d = x_facts t"
    using st by (auto simp: same_def)
  have ctrl: "known (ControlsPod u) t"
    if h: "dmem (ControlsController cc) (x_facts t)" "dget (e_pods (x_env t)) u = Some p" "pod_controller_uid p = Some cc" for cc u p
  proof -
    obtain x y where x: "same ?s x" "controller_pods r i (ControlsController cc) x = Inr y" "x_count y = x_count x" "accounted i x"
      by (rule quiet_facts_loop[where x = "ControlsController cc", OF 1 cnt(1) _ controller_pods_run])
         (use acc h(1) facts(1) in auto)
    have "same x t" using x(1) st(1) by (simp add: same_def)
    then show ?thesis
      using controller_pods_quiet[OF x(2-4)] h by (auto simp: same_def known_def)
  qed
  have toks: "token_fresh t (projected_id (pod_uid p) aud) e"
    if h: "dmem (ControlsPod u) (x_facts t)" "dget (e_pods (x_env t)) u = Some p"
      "dget (e_service_accounts (x_env t)) (pod_namespace p, pod_service_account p) = Some sa"
      "token_audiences r p = Some auds" "aud \<in> set auds"
      "e = e_time (x_env t) + prof_projected_token_ttl_seconds (inp_profile (r_inp r))" for u p sa auds aud e
  proof -
    obtain x y where x: "same a x" "pod_tokens r i (ControlsPod u) x = Inr y" "x_count y = x_count x" "accounted i x"
      by (rule quiet_facts_loop[where x = "ControlsPod u", OF 2 cnt(2) accs(1) pod_tokens_run])
         (use h(1) facts(2) in auto)
    have "same x t" using x(1) st(2) by (simp add: same_def)
    then show ?thesis
      using pod_tokens_quiet[OF x(2-4)] h by (auto simp: same_def token_fresh_def)
  qed
  have api: "\<exists>x y uc. same x t \<and> api_requests r i (Possesses cid) cr uc x = Inr y \<and> x_count y = x_count x \<and>
      accounted i x \<and> holds_usable r x cid cr uc"
    if h: "holds_usable r t cid cr uc'" for cid cr uc'
  proof -
    obtain x y where x: "same b x" "credential_requests r i (Possesses cid) x = Inr y" "x_count y = x_count x" "accounted i x"
      by (rule quiet_facts_loop[where x = "Possesses cid", OF 3 cnt(3) accs(2) credential_requests_run])
         (use h facts(3) in \<open>auto simp: holds_usable_def\<close>)
    have "same x t" using x(1) st(3) by (simp add: same_def)
    with h have hx: "holds_usable r x cid cr uc'" by (simp add: holds_usable_same[of x t])
    obtain uc a where a: "same x a" "holds_usable r a cid cr uc" "accounted i a"
      "api_requests r i (Possesses cid) cr uc a = Inr y" "x_count y = x_count a"
      by (rule credential_requests_quiet[OF x(2-4) hx])
    have "same a t" using a(1) \<open>same x t\<close> by (simp add: same_def)
    then show ?thesis using a by blast
  qed
  have learns: "known (der_fact de) t" if "derivable r i t de" for de
    using that
  proof (rule derived_known)
    show "known (ControlsPod u) t" if "holds_usable r t cid cr uc'" "dget (e_pods (x_env t)) u = Some p"
      "authorizing_bindings (x_env t) (cred_username cr) ''create'' ''pods/exec'' (pod_namespace p) (Some (pod_name p)) \<noteq> []"
      for cid cr uc' u p
    proof -
      from api[OF that(1)] obtain x y uc where x: "same x t" "api_requests r i (Possesses cid) cr uc x = Inr y"
        "x_count y = x_count x" "accounted i x" "holds_usable r x cid cr uc" by blast
      show ?thesis using api_requests_quiet(3)[OF x(2-5)] that x(1) by (simp add: same_def known_def)
    qed
    show "known (KnowsSecret (sec_namespace sec) (sec_name sec) (str_of_int (sec_version sec))) t \<and>
        known (CanReadSecret (sec_namespace sec) (sec_name sec)) t"
      if "holds_usable r t cid cr uc'" "dget (e_secrets (x_env t)) key = Some sec"
        "reading_verb (x_env t) (cred_username cr) sec = Some v" for cid cr uc' key sec v
    proof -
      from api[OF that(1)] obtain x y uc where x: "same x t" "api_requests r i (Possesses cid) cr uc x = Inr y"
        "x_count y = x_count x" "accounted i x" "holds_usable r x cid cr uc" by blast
      show ?thesis using api_requests_quiet(4)[OF x(2-5)] that x(1) by (simp add: same_def known_def)
    qed
    show "known (PossessesDownstream (svc_name svc) v) t"
      if h: "dmem (KnowsSecret ns n v) (x_facts t)" "svc \<in> set (secrets_feeding (x_env t) ns n)" for ns n v svc
    proof -
      obtain x y where x: "same c x" "downstream_credentials r i (KnowsSecret ns n v) x = Inr y" "x_count y = x_count x" "accounted i x"
        by (rule quiet_facts_loop[where x = "KnowsSecret ns n v", OF 4 cnt(4) accs(3) downstream_credentials_run])
           (use h(1) facts(4) in auto)
      have xt: "same x t" using x(1) st(4) by (simp add: same_def)
      with x h show ?thesis by (auto intro: downstream_credentials_quiet)
    qed
    show "known (CanUseDownstream (svc_name svc)) t"
      if h: "dmem (PossessesDownstream name v) (x_facts t)" "dget (e_services (x_env t)) name = Some svc"
        "py_int v = Some n" "svc_accepts svc n (e_time (x_env t))" for name v svc n
    proof -
      obtain x y where x: "same d x" "downstream_uses r i (PossessesDownstream name v) x = Inr y" "x_count y = x_count x"
        by (rule quiet_facts_loop[where x = "PossessesDownstream name v", OF 5 cnt(5) accs(4) downstream_uses_run])
           (use h(1) facts(5) in auto)
      have "same x t" using x(1) st(5) by (simp add: same_def)
      with x(2,3) h show ?thesis by (auto simp: same_def known_def dest!: add_quiet)
    qed
  qed (rule ctrl)
  show ?thesis unfolding saturated_def
  proof (intro allI impI)
    fix u assume "att_step r i t u"
    then show "x_count u = x_count t"
    proof (cases rule: att_step.cases)
      case (learn de)
      then show ?thesis using learns by (simp add: learn_def)
    next
      case (token v p sa auds aud e)
      then show ?thesis using toks by blast
    next
      case (create_pod cid cr uc ns sa)
      from api[of cid cr uc] create_pod(2) obtain x y uc' where x: "same x t" "api_requests r i (Possesses cid) cr uc' x = Inr y"
        "x_count y = x_count x" "accounted i x" "holds_usable r x cid cr uc'" by (auto simp: may_create_def)
      from create_pod(2) x(1) have "may_create r x cid cr uc ns sa WorkPod" by (metis may_create_same)
      with api_requests_quiet(1)[OF x(2-5)] x(1) create_pod(3) show ?thesis by (simp add: same_def)
    next
      case (create_controller cid cr uc ns sa)
      from api[of cid cr uc] create_controller(2) obtain x y uc' where x: "same x t" "api_requests r i (Possesses cid) cr uc' x = Inr y"
        "x_count y = x_count x" "accounted i x" "holds_usable r x cid cr uc'" by (auto simp: may_create_def)
      from create_controller(2) x(1) have "may_create r x cid cr uc ns sa WorkController" by (metis may_create_same)
      with api_requests_quiet(2)[OF x(2-5)] x(1) create_controller(3) show ?thesis by (simp add: same_def)
    next
      case remark
      then show ?thesis by simp
    qed
  qed
qed

lemma closure_loop_saturated: "closure_loop r i s = Inr t \<Longrightarrow> accounted i s \<Longrightarrow> saturated r i t"
proof (induction r i s rule: closure_loop.induct)
  case (1 r i s)
  show ?case
  proof (cases "pass r i s")
    case (Inr u)
    show ?thesis
    proof (cases "x_changed u")
      case True
      have "accounted i u" using accounted_run[OF pass_run[OF Inr]] "1.prems"(2) by simp
      with 1 True Inr show ?thesis by (simp add: closure_loop.simps[of r i s])
    next
      case False
      with Inr "1.prems" pass_saturated[OF Inr False] show ?thesis by (simp add: closure_loop.simps[of r i s])
    qed
  qed (use "1.prems" in \<open>simp add: closure_loop.simps[of r i s]\<close>)
qed

theorem closure_saturated: "closure r i s = Inr t \<Longrightarrow> accounted i s \<Longrightarrow> saturated r i t"
  unfolding closure_def by (erule closure_loop_saturated) (simp add: accounted_def)

end
