(* ===== verification/Names.thy ===== *)
theory Names
  imports Engine
begin

text \<open>
  The identifiers the engine makes up: UIDs of modelled workloads, of replacement pods and ids of
  projected credentials. They are joined with colons, so they determine their parts when the parts
  have none (as Kubernetes names and UIDs do); the parser does not check that.
\<close>

section \<open>Parts\<close>

definition plain :: "string \<Rightarrow> bool" where
  "plain s \<longleftrightarrow> CHR '':'' \<notin> set s"

abbreviation parts :: "string \<Rightarrow> string list" where
  "parts s \<equiv> split_on (CHR '':'') s"

lemma plain_str_of_nat: "plain (str_of_nat n)"
  using str_of_nat_digits[of "CHR '':''" n] by (auto simp: plain_def is_digit_def)

lemma plain_str_of_int [simp]: "plain (str_of_int k)"
  using plain_str_of_nat by (auto simp: str_of_int_def plain_def)

lemma plain_append [simp]: "plain (s @ t) \<longleftrightarrow> plain s \<and> plain t"
  by (auto simp: plain_def)

lemma plain_Cons [simp]: "plain (c # s) \<longleftrightarrow> c \<noteq> CHR '':'' \<and> plain s"
  by (auto simp: plain_def)

lemma plain_Nil [simp]: "plain []"
  by (simp add: plain_def)

lemma parts_plain: "plain s \<Longrightarrow> parts s = [s]"
  by (simp add: plain_def split_on_no_sep)

lemma parts_colon: "plain s \<Longrightarrow> parts (s @ CHR '':'' # t) = s # parts t"
  by (simp add: plain_def split_on_append_sep)

lemma parts_model_pod:
  "plain ns \<Longrightarrow> plain sa \<Longrightarrow> parts (model_pod_uid ns sa i @ s) = ''model-pod'' # ns # sa # parts (''i'' @ str_of_int i @ s)"
  using parts_colon[of "''model-pod''"] parts_colon[of ns] parts_colon[of sa]
  by (simp add: model_pod_uid_def MODEL_POD_PREFIX_def)

lemma parts_model_controller:
  "plain ns \<Longrightarrow> plain sa \<Longrightarrow> parts (model_controller_uid ns sa i @ s) = ''model-deploy'' # ns # sa # parts (''i'' @ str_of_int i @ s)"
  using parts_colon[of "''model-deploy''"] parts_colon[of ns] parts_colon[of sa]
  by (simp add: model_controller_uid_def MODEL_DEPLOY_PREFIX_def)

lemma model_pod_uid_inject:
  assumes "model_pod_uid ns sa i = model_pod_uid ns' sa' i'" and "plain ns" "plain sa" "plain ns'" "plain sa'"
  shows "ns = ns' \<and> sa = sa' \<and> i = i'"
proof -
  have "parts (model_pod_uid ns sa i @ []) = parts (model_pod_uid ns' sa' i' @ [])" using assms(1) by simp
  with assms show ?thesis
    unfolding parts_model_pod[OF assms(2,3)] parts_model_pod[OF assms(4,5)] by (simp add: parts_plain)
qed

lemma model_controller_uid_inject:
  assumes "model_controller_uid ns sa i = model_controller_uid ns' sa' i'" and "plain ns" "plain sa" "plain ns'" "plain sa'"
  shows "ns = ns' \<and> sa = sa' \<and> i = i'"
proof -
  have "parts (model_controller_uid ns sa i @ []) = parts (model_controller_uid ns' sa' i' @ [])" using assms(1) by simp
  with assms show ?thesis
    unfolding parts_model_controller[OF assms(2,3)] parts_model_controller[OF assms(4,5)] by (simp add: parts_plain)
qed

text \<open>The pod a modelled controller starts with.\<close>

abbreviation first_pod :: "string \<Rightarrow> string" where
  "first_pod u \<equiv> numbered u 0"

lemma first_pod_not_model_pod: "first_pod (model_controller_uid ns sa i) \<noteq> model_pod_uid ns' sa' i'"
  by (simp add: numbered_def model_controller_uid_def model_pod_uid_def MODEL_DEPLOY_PREFIX_def MODEL_POD_PREFIX_def)

lemma numbered_base [simp]: "numbered b k = numbered b' k \<longleftrightarrow> b = b'"
  by (simp add: numbered_def)

section \<open>Projected credentials\<close>

text \<open>The pod UID an id \<open>projected:<uid>:<audience>\<close> belongs to, for UIDs that end themselves.\<close>

definition owner_uid :: "string \<Rightarrow> string" where
  "owner_uid cid =
     (case parts cid of
        _ # x # rest \<Rightarrow>
          if x = ''model-pod'' \<or> x = ''model-deploy'' then join '':'' (x # take 3 rest) else x
      | _ \<Rightarrow> [])"

definition delimited :: "string \<Rightarrow> bool" where
  "delimited u \<longleftrightarrow>
     (plain u \<and> u \<noteq> ''model-pod'' \<and> u \<noteq> ''model-deploy'') \<or>
     (\<exists>x a b c. u = join '':'' [x, a, b, c] \<and> (x = ''model-pod'' \<or> x = ''model-deploy'') \<and>
        plain a \<and> plain b \<and> plain c)"

lemma parts_projected: "parts (projected_id u aud) = ''projected'' # parts (u @ CHR '':'' # aud)"
  using parts_colon[of "''projected''"] by (simp add: projected_id_def)

lemma owner_uid_projected:
  assumes "delimited u"
  shows "owner_uid (projected_id u aud) = u"
proof (cases "plain u \<and> u \<noteq> ''model-pod'' \<and> u \<noteq> ''model-deploy''")
  case True
  then show ?thesis by (simp add: owner_uid_def parts_projected parts_colon)
next
  case False
  with assms obtain x a b c where x: "x = ''model-pod'' \<or> x = ''model-deploy''" and u: "u = join '':'' [x, a, b, c]"
    and abc: "plain a" "plain b" "plain c"
    unfolding delimited_def by blast
  from x have "plain x" by auto
  with abc u have "parts (u @ CHR '':'' # aud) = x # a # b # c # parts aud"
    by (simp add: parts_colon)
  with x u show ?thesis by (auto simp: owner_uid_def parts_projected)
qed

lemma projected_id_inject:
  assumes "projected_id u a = projected_id u' a'" and "delimited u" "delimited u'"
  shows "u = u' \<and> a = a'"
proof -
  have "u = u'" using assms by (metis owner_uid_projected)
  with assms(1) show ?thesis by (simp add: projected_id_def)
qed

lemma delimited_model_pod [simp]: "plain ns \<Longrightarrow> plain sa \<Longrightarrow> delimited (model_pod_uid ns sa i)"
  unfolding delimited_def
  by (rule disjI2, rule exI[of _ "''model-pod''"], rule exI[of _ ns], rule exI[of _ sa], rule exI[of _ "''i'' @ str_of_int i"])
     (simp add: model_pod_uid_def MODEL_POD_PREFIX_def)

lemma delimited_first_pod [simp]: "plain ns \<Longrightarrow> plain sa \<Longrightarrow> delimited (numbered (model_controller_uid ns sa i) k)"
  unfolding delimited_def
  by (rule disjI2, rule exI[of _ "''model-deploy''"], rule exI[of _ ns], rule exI[of _ sa],
      rule exI[of _ "''i'' @ str_of_int i @ ''-p'' @ str_of_int k"])
     (simp add: model_controller_uid_def MODEL_DEPLOY_PREFIX_def numbered_def)

section \<open>A controller created in a reconciled environment\<close>

lemma owns_pod_cong: "e_pods a = e_pods b \<Longrightarrow> owns_pod a = owns_pod b"
  by (intro ext) (simp add: owns_pod_def)

lemma reconcile_list_one:
  assumes "\<And>u ct. u \<noteq> cuid \<Longrightarrow> dget (e_controllers env) u = Some ct \<Longrightarrow> owns_pod env u"
    and "dget (e_controllers env) cuid = Some c" and "\<not> owns_pod env cuid" and "cuid \<in> set cs"
  shows "fst (reconcile_list cs env) = add_replacement env cuid c"
  using assms(4)
proof (induction cs)
  case (Cons u us)
  show ?case
  proof (cases "u = cuid")
    case True
    have "reconcile_list us (add_replacement env cuid c) = (add_replacement env cuid c, [])"
    proof (rule reconcile_list_idle)
      fix v ct assume "dget (e_controllers (add_replacement env cuid c)) v = Some ct"
      then show "owns_pod (add_replacement env cuid c) v"
        using assms(1)[of v ct] by (auto simp: owns_pod_add_replacement)
    qed
    with True assms(2,3) show ?thesis by (simp add: reconcile_list_add del: reconcile_list.simps)
  next
    case False
    then have "dget (e_controllers env) u = None \<or> owns_pod env u"
      using assms(1)[of u] by (cases "dget (e_controllers env) u") auto
    with False Cons show ?thesis by (simp add: reconcile_list_skip del: reconcile_list.simps)
  qed
qed simp

lemma env_add_controller_pods:
  assumes "reconciled env" and "\<not> dmem (ctrl_uid c) (e_controllers env)" and "\<not> owns_pod env (ctrl_uid c)"
    and "\<not> dmem (first_pod (ctrl_uid c)) (e_pods env)"
  shows "e_pods (env_add_controller c env) = e_pods env @ [(first_pod (ctrl_uid c), replacement_pod (ctrl_uid c) c 0)]"
    and "e_controllers (env_add_controller c env) = dset (ctrl_uid c) c (e_controllers env)"
    and "reconciled (env_add_controller c env)"
proof -
  let ?u = "ctrl_uid c"
  let ?env = "env\<lparr>e_controllers := dset ?u c (e_controllers env),
    e_controller_pod_counter := dset ?u (-1) (e_controller_pod_counter env)\<rparr>"
  have owns: "owns_pod ?env = owns_pod env" by (rule owns_pod_cong) simp
  have "fst (reconcile_list (sort (dkeys (e_controllers ?env))) ?env) = add_replacement ?env ?u c"
    using assms(1,3) by (intro reconcile_list_one) (auto simp: owns reconciled_def)
  then have r: "env_add_controller c env = add_replacement ?env ?u c"
    by (simp add: env_add_controller_def reconcile_controllers_def)
  have "free_index ?u (dkeys (e_pods env)) 0 = 0"
    using assms(4) by (subst free_index.simps) (simp add: dget_None[symmetric])
  then have "next_index ?env ?u = 0" by (simp add: next_index_def counter_of_def)
  then show "e_pods (env_add_controller c env) = e_pods env @ [(first_pod ?u, replacement_pod ?u c 0)]"
    by (simp add: r add_replacement_pods)
  show "e_controllers (env_add_controller c env) = dset ?u c (e_controllers env)"
    by (simp add: r)
  show "reconciled (env_add_controller c env)"
    unfolding env_add_controller_def by (rule reconcile_reconciled)
qed

end
