(* ===== verification/Join.thy ===== *)
theory Join
  imports Saturation Names
begin

text \<open>
  The saturation of an interval is the join of all attacker interleavings: whatever order the
  attacker acts in, and wherever it stops, everything it has learned is in the saturated tables
  (the claim in the header of \<open>engine.py\<close>). What it needs of the start of the interval is the
  invariant \<open>tidy\<close>: names that determine what they name, a reconciled environment, and no trace
  of the workloads the interval is going to create.
\<close>

section \<open>The invariant of an interval\<close>

definition token_expiry :: "run \<Rightarrow> est \<Rightarrow> int" where
  "token_expiry r s = e_time (x_env s) + prof_projected_token_ttl_seconds (inp_profile (r_inp r))"

text \<open>A credential filed under the id of a live pod's token is a token of that pod.\<close>

definition tokens_ok :: "run \<Rightarrow> est \<Rightarrow> bool" where
  "tokens_ok r s \<longleftrightarrow> (\<forall>u p sa auds aud c.
     dget (e_pods (x_env s)) u = Some p \<longrightarrow>
     dget (e_service_accounts (x_env s)) (pod_namespace p, pod_service_account p) = Some sa \<longrightarrow>
     token_audiences r p = Some auds \<longrightarrow> aud \<in> set auds \<longrightarrow>
     dget (x_creds s) (projected_id u aud) = Some c \<longrightarrow>
     (\<exists>e. c = projected_cred p sa aud e))"

definition pod_slot :: "int \<Rightarrow> est \<Rightarrow> string \<Rightarrow> string \<Rightarrow> bool" where
  "pod_slot i s ns sa \<longleftrightarrow>
     (case dget (e_pods (x_env s)) (model_pod_uid ns sa i) of
        None \<Rightarrow> \<forall>aud. \<not> dmem (projected_id (model_pod_uid ns sa i) aud) (x_creds s)
      | Some p \<Rightarrow> p = model_pod ns sa i \<and> dmem (ControlsPod (model_pod_uid ns sa i)) (x_facts s))"

definition controller_slot :: "int \<Rightarrow> est \<Rightarrow> string \<Rightarrow> string \<Rightarrow> bool" where
  "controller_slot i s ns sa \<longleftrightarrow>
     (let u = model_controller_uid ns sa i in
      case dget (e_controllers (x_env s)) u of
        None \<Rightarrow> \<not> dmem (first_pod u) (e_pods (x_env s)) \<and> \<not> owns_pod (x_env s) u \<and>
          (\<forall>aud. \<not> dmem (projected_id (first_pod u) aud) (x_creds s))
      | Some c \<Rightarrow> c = model_controller ns sa i \<and> dmem (ControlsController u) (x_facts s) \<and>
          dget (e_pods (x_env s)) (first_pod u) = Some (replacement_pod u c 0))"

text \<open>Every live workload and every credential of the attacker is recorded as the attacker's.\<close>

definition owned :: "est \<Rightarrow> bool" where
  "owned s \<longleftrightarrow>
     (\<forall>u. dmem u (e_pods (x_env s)) \<and> starts_with u MODEL_POD_PREFIX \<longrightarrow> dmem (ControlsPod u) (x_facts s)) \<and>
     (\<forall>u. dmem u (e_controllers (x_env s)) \<and> starts_with u MODEL_DEPLOY_PREFIX \<longrightarrow>
        dmem (ControlsController u) (x_facts s)) \<and>
     (\<forall>cid. dmem cid (x_creds s) \<longrightarrow> dmem (Possesses cid) (x_facts s))"

definition accounts_plain :: "env \<Rightarrow> bool" where
  "accounts_plain env \<longleftrightarrow> (\<forall>ns sa. dmem (ns, sa) (e_service_accounts env) \<longrightarrow> plain ns \<and> plain sa)"

definition tidy :: "run \<Rightarrow> int \<Rightarrow> est \<Rightarrow> bool" where
  "tidy r i s \<longleftrightarrow> env_ok (x_env s) \<and> reconciled (x_env s) \<and> accounts_plain (x_env s) \<and>
     (\<forall>u. dmem u (e_pods (x_env s)) \<longrightarrow> delimited u) \<and>
     (\<forall>ns sa. dmem (ns, sa) (e_service_accounts (x_env s)) \<longrightarrow> pod_slot i s ns sa \<and> controller_slot i s ns sa) \<and>
     tokens_ok r s \<and> owned s"

lemma tidyD:
  assumes "tidy r i s"
  shows "env_ok (x_env s)" "reconciled (x_env s)" "accounts_plain (x_env s)" "tokens_ok r s" "owned s"
    "dmem u (e_pods (x_env s)) \<Longrightarrow> delimited u"
    "dmem (ns, sa) (e_service_accounts (x_env s)) \<Longrightarrow> pod_slot i s ns sa"
    "dmem (ns, sa) (e_service_accounts (x_env s)) \<Longrightarrow> controller_slot i s ns sa"
    "dmem (ns, sa) (e_service_accounts (x_env s)) \<Longrightarrow> plain ns \<and> plain sa"
  using assms by (auto simp: tidy_def accounts_plain_def)

text \<open>Only the facts grow: the invariant stays.\<close>

lemma tidy_more_facts:
  assumes "tidy r i s" and "x_env t = x_env s" "x_creds t = x_creds s"
    and "\<And>f. dmem f (x_facts s) \<Longrightarrow> dmem f (x_facts t)"
  shows "tidy r i t"
proof -
  have "pod_slot i t ns sa" if "pod_slot i s ns sa" for ns sa
    using that assms(2-4) unfolding pod_slot_def by (cases "dget (e_pods (x_env s)) (model_pod_uid ns sa i)") auto
  moreover have "controller_slot i t ns sa" if "controller_slot i s ns sa" for ns sa
    using that assms(2-4) unfolding controller_slot_def Let_def
    by (cases "dget (e_controllers (x_env s)) (model_controller_uid ns sa i)") auto
  moreover have "owned t" using tidyD(5)[OF assms(1)] assms(2-4) unfolding owned_def by auto
  moreover have "tokens_ok r t" using tidyD(4)[OF assms(1)] assms(2,3) by (simp add: tokens_ok_def)
  ultimately show ?thesis using assms(1,2) unfolding tidy_def by auto
qed

lemma tidy_token:
  assumes "tidy r i s" and p: "dget (e_pods (x_env s)) u = Some p"
    and sa: "dget (e_service_accounts (x_env s)) (pod_namespace p, pod_service_account p) = Some sa"
    and cr: "x_creds t = dset (projected_id (pod_uid p) aud) (projected_cred p sa aud e) (x_creds s)"
    and env: "x_env t = x_env s" and facts: "\<And>f. dmem f (x_facts s) \<Longrightarrow> dmem f (x_facts t)"
    and poss: "dmem (Possesses (projected_id (pod_uid p) aud)) (x_facts t)"
  shows "tidy r i t"
proof -
  have u: "pod_uid p = u" using tidyD(1)[OF assms(1)] p by (auto simp: env_ok_def dest: keyed_dget)
  have du: "delimited u" using tidyD(6)[OF assms(1)] p by auto
  have other: "projected_id v aud' \<noteq> projected_id (pod_uid p) aud" if "delimited v" "v \<noteq> u" for v aud'
    using projected_id_inject[of v aud' "pod_uid p" aud] that du u by auto
  have slots: "pod_slot i t ns n \<and> controller_slot i t ns n"
    if acc: "dmem (ns, n) (e_service_accounts (x_env s))" for ns n
  proof -
    have pl: "plain ns" "plain n" using tidyD(9)[OF assms(1) acc] by simp_all
    have "pod_slot i s ns n" "controller_slot i s ns n" using tidyD(7,8)[OF assms(1) acc] .
    moreover have "model_pod_uid ns n i \<noteq> u" if "dget (e_pods (x_env s)) (model_pod_uid ns n i) = None"
      using that p by auto
    moreover have "first_pod (model_controller_uid ns n i) \<noteq> u"
      if "\<not> dmem (first_pod (model_controller_uid ns n i)) (e_pods (x_env s))"
      using that p by auto
    ultimately show ?thesis
      using pl facts other[OF delimited_model_pod[OF pl]] other[OF delimited_first_pod[OF pl]]
      unfolding pod_slot_def controller_slot_def Let_def env cr
      by (auto split: option.splits)
  qed
  have tok: "tokens_ok r t"
    unfolding tokens_ok_def env
  proof (intro allI impI)
    fix v q sb auds aud' c
    assume q: "dget (e_pods (x_env s)) v = Some q"
      "dget (e_service_accounts (x_env s)) (pod_namespace q, pod_service_account q) = Some sb"
      "token_audiences r q = Some auds" "aud' \<in> set auds"
      and c: "dget (x_creds t) (projected_id v aud') = Some c"
    show "\<exists>e. c = projected_cred q sb aud' e"
    proof (cases "projected_id v aud' = projected_id (pod_uid p) aud")
      case True
      with tidyD(6)[OF assms(1), of v] q(1) du u have "v = u" "aud' = aud"
        by (auto dest!: projected_id_inject)
      with c cr p q sa u show ?thesis by auto
    next
      case False
      with c cr have "dget (x_creds s) (projected_id v aud') = Some c" by simp
      with tidyD(4)[OF assms(1)] q show ?thesis unfolding tokens_ok_def by blast
    qed
  qed
  have "owned t" using tidyD(5)[OF assms(1)] facts env cr poss unfolding owned_def by (auto split: if_splits)
  with assms(1) slots tok env show ?thesis unfolding tidy_def by auto
qed

lemma owns_pod_dget:
  assumes "keyed pod_uid (e_pods env)"
  shows "owns_pod env c \<longleftrightarrow> (\<exists>u p. dget (e_pods env) u = Some p \<and> pod_controller_uid p = Some c)"
  unfolding owns_pod_iff keyed_dvals[OF assms] Bex_def
  using keyed_dget[OF assms] by blast

lemma owns_pod_new:
  assumes "keyed pod_uid (e_pods a)" "keyed pod_uid (e_pods b)"
    and upd: "dget (e_pods b) = (dget (e_pods a))(u \<mapsto> p)" and new: "dget (e_pods a) u = None"
  shows "owns_pod b c \<longleftrightarrow> pod_controller_uid p = Some c \<or> owns_pod a c"
proof
  assume "owns_pod b c"
  then show "pod_controller_uid p = Some c \<or> owns_pod a c"
    unfolding owns_pod_dget[OF assms(1)] owns_pod_dget[OF assms(2)] upd by (auto split: if_splits)
next
  assume "pod_controller_uid p = Some c \<or> owns_pod a c"
  then obtain v q where "dget (e_pods b) v = Some q" "pod_controller_uid q = Some c"
  proof
    assume "owns_pod a c"
    then obtain v q where "dget (e_pods a) v = Some q" "pod_controller_uid q = Some c"
      unfolding owns_pod_dget[OF assms(1)] by blast
    with new that[of v q] show thesis by (cases "v = u") (auto simp: upd)
  qed (use that[of u p] in \<open>simp add: upd\<close>)
  then show "owns_pod b c" unfolding owns_pod_dget[OF assms(2)] by blast
qed

text \<open>A pod of the interval is created.\<close>

lemma tidy_create_pod:
  assumes "tidy r i s" and acc: "dmem (ns, sa) (e_service_accounts (x_env s))"
    and new: "dget (e_pods (x_env s)) (model_pod_uid ns sa i) = None"
    and env: "x_env t = env_add_pod (model_pod ns sa i) (x_env s)" and cr: "x_creds t = x_creds s"
    and facts: "\<And>f. dmem f (x_facts s) \<Longrightarrow> dmem f (x_facts t)" "dmem (ControlsPod (model_pod_uid ns sa i)) (x_facts t)"
  shows "tidy r i t"
proof -
  let ?u = "model_pod_uid ns sa i"
  have pl: "plain ns" "plain sa" using tidyD(9)[OF assms(1) acc] by simp_all
  have pods: "dget (e_pods (x_env t)) = (dget (e_pods (x_env s)))(?u \<mapsto> model_pod ns sa i)"
    by (auto simp: env env_add_pod_def model_pod_def)
  have rest: "e_controllers (x_env t) = e_controllers (x_env s)" "e_service_accounts (x_env t) = e_service_accounts (x_env s)"
    by (simp_all add: env env_add_pod_def)
  have ok: "env_ok (x_env t)" using tidyD(1)[OF assms(1)] by (simp add: env env_add_pod_ok)
  have ks: "keyed pod_uid (e_pods (x_env s))" "keyed pod_uid (e_pods (x_env t))"
    using tidyD(1)[OF assms(1)] ok by (simp_all add: env_ok_def)
  have owns: "owns_pod (x_env t) c = owns_pod (x_env s) c" for c
    using owns_pod_new[OF ks pods new, of c] by (simp add: model_pod_def)
  have fresh: "\<not> dmem (projected_id ?u aud) (x_creds s)" for aud
    using tidyD(7)[OF assms(1) acc] new by (simp add: pod_slot_def)
  have slots: "pod_slot i t ns' n \<and> controller_slot i t ns' n"
    if a: "dmem (ns', n) (e_service_accounts (x_env s))" for ns' n
  proof -
    have pl': "plain ns'" "plain n" using tidyD(9)[OF assms(1) a] by simp_all
    note old = tidyD(7)[OF assms(1) a] tidyD(8)[OF assms(1) a]
    have "pod_slot i t ns' n"
    proof (cases "model_pod_uid ns' n i = ?u")
      case True
      with model_pod_uid_inject[OF True pl' pl] facts(2) show ?thesis by (simp add: pod_slot_def pods)
    next
      case False
      with old(1) facts(1) show ?thesis
        unfolding pod_slot_def pods cr by (auto split: option.splits)
    qed
    moreover have "controller_slot i t ns' n"
      using old(2) facts(1) first_pod_not_model_pod[of ns' n i ns sa i]
      unfolding controller_slot_def Let_def pods rest cr owns by (auto split: option.splits)
    ultimately show ?thesis ..
  qed
  have tok: "tokens_ok r t"
    unfolding tokens_ok_def pods rest cr
    using tidyD(4)[OF assms(1)] fresh unfolding tokens_ok_def by (auto split: if_splits)
  have "owned t"
    using tidyD(5)[OF assms(1)] facts unfolding owned_def rest pods cr by auto
  moreover have "reconciled (x_env t)"
    using tidyD(2)[OF assms(1)] by (simp add: reconciled_def owns rest)
  moreover have "delimited v" if "dmem v (e_pods (x_env t))" for v
    using that tidyD(6)[OF assms(1), of v] pl by (auto simp: pods split: if_splits)
  ultimately show ?thesis
    using ok tok slots tidyD(3)[OF assms(1)] unfolding tidy_def accounts_plain_def rest by blast
qed

text \<open>A controller of the interval is created, and with it its first pod.\<close>

lemma created_controller:
  assumes "tidy r i s" and acc: "dmem (ns, sa) (e_service_accounts (x_env s))"
    and new: "dget (e_controllers (x_env s)) (model_controller_uid ns sa i) = None"
  shows "e_pods (env_add_controller (model_controller ns sa i) (x_env s)) = e_pods (x_env s) @
      [(first_pod (model_controller_uid ns sa i), replacement_pod (model_controller_uid ns sa i) (model_controller ns sa i) 0)]"
    and "e_controllers (env_add_controller (model_controller ns sa i) (x_env s)) =
      dset (model_controller_uid ns sa i) (model_controller ns sa i) (e_controllers (x_env s))"
    and "reconciled (env_add_controller (model_controller ns sa i) (x_env s))"
    and "dget (e_pods (x_env s)) (first_pod (model_controller_uid ns sa i)) = None"
proof -
  let ?c = "model_controller ns sa i"
  have slot: "\<not> dmem (first_pod (ctrl_uid ?c)) (e_pods (x_env s))" "\<not> owns_pod (x_env s) (ctrl_uid ?c)"
    using tidyD(8)[OF assms(1) acc] new by (simp_all add: controller_slot_def Let_def model_controller_def)
  have "\<not> dmem (ctrl_uid ?c) (e_controllers (x_env s))" using new by (simp add: model_controller_def)
  from env_add_controller_pods[OF tidyD(2)[OF assms(1)] this slot(2,1)]
  show "e_pods (env_add_controller ?c (x_env s)) = e_pods (x_env s) @
      [(first_pod (model_controller_uid ns sa i), replacement_pod (model_controller_uid ns sa i) ?c 0)]"
    "e_controllers (env_add_controller ?c (x_env s)) = dset (model_controller_uid ns sa i) ?c (e_controllers (x_env s))"
    "reconciled (env_add_controller ?c (x_env s))"
    by (simp_all add: model_controller_def)
  show "dget (e_pods (x_env s)) (first_pod (model_controller_uid ns sa i)) = None"
    using slot(1) by (simp add: model_controller_def)
qed

lemma tidy_create_controller:
  assumes "tidy r i s" and acc: "dmem (ns, sa) (e_service_accounts (x_env s))"
    and new: "dget (e_controllers (x_env s)) (model_controller_uid ns sa i) = None"
    and env: "x_env t = env_add_controller (model_controller ns sa i) (x_env s)" and cr: "x_creds t = x_creds s"
    and facts: "\<And>f. dmem f (x_facts s) \<Longrightarrow> dmem f (x_facts t)"
      "dmem (ControlsController (model_controller_uid ns sa i)) (x_facts t)"
  shows "tidy r i t"
proof -
  let ?u = "model_controller_uid ns sa i" and ?c = "model_controller ns sa i"
  note created = created_controller[OF assms(1) acc new, folded env]
  have pl: "plain ns" "plain sa" using tidyD(9)[OF assms(1) acc] by simp_all
  have pods: "dget (e_pods (x_env t)) = (dget (e_pods (x_env s)))(first_pod ?u \<mapsto> replacement_pod ?u ?c 0)"
    using created(4) by (auto simp: created(1) map_add_def split: option.splits)
  have ctrls: "dget (e_controllers (x_env t)) = (dget (e_controllers (x_env s)))(?u \<mapsto> ?c)"
    by (auto simp: created(2))
  have rest: "e_service_accounts (x_env t) = e_service_accounts (x_env s)"
    by (simp add: env env_add_controller_def)
  have ok: "env_ok (x_env t)" using tidyD(1)[OF assms(1)] by (simp add: env env_add_controller_ok)
  have ks: "keyed pod_uid (e_pods (x_env s))" "keyed pod_uid (e_pods (x_env t))"
    using tidyD(1)[OF assms(1)] ok by (simp_all add: env_ok_def)
  have owns: "owns_pod (x_env t) c \<longleftrightarrow> c = ?u \<or> owns_pod (x_env s) c" for c
    using owns_pod_new[OF ks pods created(4), of c] by (auto simp: replacement_pod_def)
  have fresh: "\<not> dmem (projected_id (first_pod ?u) aud) (x_creds s)" for aud
    using tidyD(8)[OF assms(1) acc] new by (simp add: controller_slot_def Let_def)
  have slots: "pod_slot i t ns' n \<and> controller_slot i t ns' n"
    if a: "dmem (ns', n) (e_service_accounts (x_env s))" for ns' n
  proof -
    have pl': "plain ns'" "plain n" using tidyD(9)[OF assms(1) a] by simp_all
    note old = tidyD(7)[OF assms(1) a] tidyD(8)[OF assms(1) a]
    have "pod_slot i t ns' n"
      using old(1) facts(1) first_pod_not_model_pod[of ns sa i ns' n i, symmetric]
      unfolding pod_slot_def pods cr by (auto split: option.splits)
    moreover have "controller_slot i t ns' n"
    proof (cases "model_controller_uid ns' n i = ?u")
      case True
      with model_controller_uid_inject[OF True pl' pl] facts(2) show ?thesis
        by (simp add: controller_slot_def Let_def ctrls pods)
    next
      case False
      with old(2) facts(1) show ?thesis
        unfolding controller_slot_def Let_def ctrls pods cr owns by (auto split: option.splits)
    qed
    ultimately show ?thesis ..
  qed
  have tok: "tokens_ok r t"
    unfolding tokens_ok_def pods rest cr
    using tidyD(4)[OF assms(1)] fresh unfolding tokens_ok_def by (auto split: if_splits)
  have "owned t"
    using tidyD(5)[OF assms(1)] facts unfolding owned_def ctrls pods cr
    by (auto simp: numbered_def model_controller_uid_def MODEL_POD_PREFIX_def MODEL_DEPLOY_PREFIX_def split: if_splits)
  moreover have "reconciled (x_env t)" using created(3) .
  moreover have "delimited v" if "dmem v (e_pods (x_env t))" for v
    using that tidyD(6)[OF assms(1), of v] pl by (auto simp: pods split: if_splits)
  ultimately show ?thesis
    using ok tok slots tidyD(3)[OF assms(1)] unfolding tidy_def accounts_plain_def rest by blast
qed

lemma learn_facts:
  "(\<exists>y. dget (x_facts (learn d s)) f = Some y) \<longleftrightarrow>
     (\<exists>y. dget (x_facts s) f = Some y) \<or> (f = der_fact d \<and> persistent f)"
  using known_learn[of d s f] by simp

theorem tidy_step: "att_step r i s t \<Longrightarrow> tidy r i s \<Longrightarrow> tidy r i t"
proof (induction rule: att_step.induct)
  case (learn st d)
  show ?case by (rule tidy_more_facts[OF learn(2)]) (auto simp: learn_facts)
next
  case (token u st p sa auds aud e)
  show ?case
    by (rule tidy_token[OF token(8) token(2,3)])
       (auto simp: obtain_token_def put_fact_def token_derivation_def)
next
  case (create_pod st cid c uc ns sa)
  show ?case
    by (rule tidy_create_pod[OF create_pod(3)])
       (use create_pod(1,2) in \<open>auto simp: may_create_def learn_facts\<close>)
next
  case (create_controller st cid c uc ns sa)
  show ?case
    by (rule tidy_create_controller[OF create_controller(3)])
       (use create_controller(1,2) in \<open>auto simp: may_create_def learn_facts\<close>)
next
  case (remark st k u)
  show ?case by (rule tidy_more_facts[OF remark]) simp_all
qed

section \<open>Covering\<close>

text \<open>The same credential, valid at least as long.\<close>

definition outlives :: "credential_spec \<Rightarrow> credential_spec \<Rightarrow> bool" where
  "outlives c' c \<longleftrightarrow> (c' = c \<or> (\<exists>e e'. cred_expires_at c = Some e \<and> c' = c\<lparr>cred_expires_at := Some e'\<rparr> \<and> e \<le> e'))"

lemma outlives_refl [simp]: "outlives c c"
  by (simp add: outlives_def)

lemma outlives_trans: "outlives c'' c' \<Longrightarrow> outlives c' c \<Longrightarrow> outlives c'' c"
  unfolding outlives_def by (elim disjE exE conjE) (auto intro: order_trans)

lemma outlives_same:
  assumes "outlives c' c"
  shows "cred_id c' = cred_id c" "cred_kind c' = cred_kind c" "cred_username c' = cred_username c"
    "cred_sa_uid c' = cred_sa_uid c" "cred_bound_pod_uid c' = cred_bound_pod_uid c" "cred_audience c' = cred_audience c"
  using assms by (auto simp: outlives_def)

lemma use_time_outlives:
  assumes "cred_expires_at c = Some e" and "use_time r env c < e" and "e \<le> e'"
  shows "use_time r env (c\<lparr>cred_expires_at := Some e'\<rparr>) < e'"
  using assms by (cases "inp_history_start (r_inp r)") (auto simp: use_time_def Let_def split: if_splits)

text \<open>A credential that outlives a usable one is usable, also at the moment history checks it.\<close>

lemma may_use_outlives:
  assumes "may_use r env c uc" and "outlives c' c"
  obtains uc' where "may_use r env c' uc'"
proof -
  let ?p = "inp_profile (r_inp r)"
  have "us_usable (credential_usable env c' ?p (Some (use_time r env c')))"
    if u: "us_usable (credential_usable env c ?p (Some (use_time r env c)))"
  proof -
    have "token_valid env c' ?p (use_time r env c')"
      using u assms(2) use_time_outlives[of c _ r env]
      by (auto simp: us_usable_iff token_valid_def outlives_def)
    then show ?thesis using u outlives_same[OF assms(2)] by (simp add: us_usable_iff cred_supported_def)
  qed
  moreover have "us_supported (credential_usable env c' ?p at) = us_supported (credential_usable env c ?p at')" for at at'
    using outlives_same[OF assms(2)] by (simp add: us_supported_iff cred_supported_def)
  ultimately have "cred_use r env c' \<noteq> None"
    using assms(1) by (auto simp: may_use_def cred_use_def Let_def split: if_splits)
  then obtain uc' where "cred_use r env c' = Some uc'" by auto
  then show thesis using that[of uc'] by (simp add: may_use_def)
qed

definition covers :: "est \<Rightarrow> est \<Rightarrow> bool" where
  "covers t s \<longleftrightarrow>
     (\<forall>f. dmem f (x_facts s) \<longrightarrow> dmem f (x_facts t)) \<and>
     (\<forall>f. dmem f (x_eph s) \<longrightarrow> dmem f (x_eph t)) \<and>
     (\<forall>cid c. dget (x_creds s) cid = Some c \<longrightarrow> (\<exists>c'. dget (x_creds t) cid = Some c' \<and> outlives c' c)) \<and>
     map_of (e_pods (x_env s)) \<subseteq>\<^sub>m map_of (e_pods (x_env t)) \<and>
     map_of (e_controllers (x_env s)) \<subseteq>\<^sub>m map_of (e_controllers (x_env t)) \<and>
     static_eq (x_env s) (x_env t)"

lemma coversD:
  assumes "covers t s"
  shows "dmem f (x_facts s) \<Longrightarrow> dmem f (x_facts t)" "dmem f (x_eph s) \<Longrightarrow> dmem f (x_eph t)"
    "dget (x_creds s) cid = Some c \<Longrightarrow> \<exists>c'. dget (x_creds t) cid = Some c' \<and> outlives c' c"
    "dget (e_pods (x_env s)) u = Some p \<Longrightarrow> dget (e_pods (x_env t)) u = Some p"
    "dget (e_controllers (x_env s)) u = Some ct \<Longrightarrow> dget (e_controllers (x_env t)) u = Some ct"
    "static_eq (x_env s) (x_env t)"
    "map_of (e_pods (x_env s)) \<subseteq>\<^sub>m map_of (e_pods (x_env t))"
  using assms by (auto simp: covers_def map_le_def dom_def)

lemma covers_refl [simp]: "covers s s"
  by (simp add: covers_def)

lemma covers_trans: "covers u t \<Longrightarrow> covers t s \<Longrightarrow> covers u s"
  unfolding covers_def
  by (intro conjI) (blast intro: outlives_trans map_le_trans static_eq_trans)+

lemma holds_usable_covers:
  assumes "holds_usable r s cid c uc" and "covers t s"
  obtains c' uc' where "holds_usable r t cid c' uc'" "cred_username c' = cred_username c"
proof -
  obtain c' where c': "dget (x_creds t) cid = Some c'" "outlives c' c"
    using assms by (auto simp: holds_usable_def dest: coversD(3))
  have "may_use r (x_env t) c uc"
    using assms(1) may_use_mono[OF _ coversD(7,6)[OF assms(2)]] by (simp add: holds_usable_def)
  from may_use_outlives[OF this c'(2)] obtain uc' where "may_use r (x_env t) c' uc'" .
  with c' outlives_same(3)[OF c'(2)] coversD(1)[OF assms(2), of "Possesses cid"] assms(1) that[of c' uc'] show thesis
    by (auto simp: holds_usable_def)
qed

text \<open>What is derivable stays derivable, perhaps with another credential lifetime in its conditions.\<close>

lemma derivable_covers:
  assumes "derivable r i s d" and cov: "covers t s"
  obtains d' where "derivable r i t d'" "der_fact d' = der_fact d"
  using assms(1)
proof (cases rule: derivable.cases)
  case (controller_pod c u p)
  with that derivable.controller_pod[OF coversD(1)[OF cov controller_pod(2)] coversD(4)[OF cov controller_pod(3)]]
  show thesis by (metis inferred_simps(1))
next
  case (exec_pod cid c uc u p via)
  obtain c' uc' where c': "holds_usable r t cid c' uc'" "cred_username c' = cred_username c"
    by (rule holds_usable_covers[OF exec_pod(2) cov])
  have "authorizing_bindings (x_env t) (cred_username c') ''create'' ''pods/exec'' (pod_namespace p) (Some (pod_name p)) \<noteq> []"
    using exec_pod by (simp add: static_eq_authorizing[OF coversD(6)[OF cov]] c')
  from derivable.exec_pod[OF c'(1) coversD(4)[OF cov exec_pod(3)] refl this, of i] that exec_pod(1) show thesis
    by (metis inferred_simps(1))
next
  case (read_knows cid c uc key sec v)
  obtain c' uc' where c': "holds_usable r t cid c' uc'" "cred_username c' = cred_username c"
    by (rule holds_usable_covers[OF read_knows(2) cov])
  have "reading_verb (x_env t) (cred_username c') sec = Some v" "dget (e_secrets (x_env t)) key = Some sec"
    using read_knows coversD(6)[OF cov] by (simp_all add: static_eq_reading[OF coversD(6)[OF cov]] c' static_eq_def)
  from derivable.read_knows[OF c'(1) this(2,1), of i] that read_knows(1) show thesis by (metis inferred_simps(1))
next
  case (read_can cid c uc key sec v)
  obtain c' uc' where c': "holds_usable r t cid c' uc'" "cred_username c' = cred_username c"
    by (rule holds_usable_covers[OF read_can(2) cov])
  have "reading_verb (x_env t) (cred_username c') sec = Some v" "dget (e_secrets (x_env t)) key = Some sec"
    using read_can coversD(6)[OF cov] by (simp_all add: static_eq_reading[OF coversD(6)[OF cov]] c' static_eq_def)
  from derivable.read_can[OF c'(1) this(2,1), of i] that read_can(1) show thesis by (metis inferred_simps(1))
next
  case (downstream ns n v svc)
  have "svc \<in> set (secrets_feeding (x_env t) ns n)"
    using downstream(3) by (simp add: static_eq_feeding[OF coversD(6)[OF cov]])
  from derivable.downstream[OF coversD(1)[OF cov downstream(2)] this, of r i] that downstream(1) show thesis
    by (metis inferred_simps(1))
next
  case (use_downstream name v svc n)
  have "dget (e_services (x_env t)) name = Some svc" "svc_accepts svc n (e_time (x_env t))"
    using use_downstream coversD(6)[OF cov] by (simp_all add: static_eq_def)
  from derivable.use_downstream[OF coversD(1)[OF cov use_downstream(2)] this(1) use_downstream(4) this(2), of r i]
    that use_downstream(1) show thesis
    by (metis inferred_simps(1))
qed

lemma saturatedD: "saturated r i t \<Longrightarrow> att_step r i t u \<Longrightarrow> x_count u = x_count t"
  by (simp add: saturated_def)

lemma saturated_known:
  assumes "saturated r i t" and "derivable r i t d"
  shows "known (der_fact d) t"
  using saturatedD[OF assms(1) att_step.learn[OF assms(2)]] by (simp add: learn_def split: if_splits)

lemma saturated_token:
  assumes "saturated r i t" and "dmem (ControlsPod u) (x_facts t)" and "dget (e_pods (x_env t)) u = Some p"
    and "dget (e_service_accounts (x_env t)) (pod_namespace p, pod_service_account p) = Some sa"
    and "token_audiences r p = Some auds" and "aud \<in> set auds"
  shows "token_fresh t (projected_id (pod_uid p) aud) (token_expiry r t)"
proof (rule ccontr)
  assume "\<not> token_fresh t (projected_id (pod_uid p) aud) (token_expiry r t)"
  from saturatedD[OF assms(1) att_step.token[OF assms(2-6) token_expiry_def this]] show False
    by (simp add: obtain_token_def)
qed

lemma saturated_create_pod:
  assumes "saturated r i t" and "accounted i t" and "may_create r t cid c uc ns sa WorkPod"
  shows "dmem (model_pod_uid ns sa i) (e_pods (x_env t))"
proof (rule ccontr)
  assume new: "\<not> dmem (model_pod_uid ns sa i) (e_pods (x_env t))"
  then have "\<not> dmem (ControlsPod (model_pod_uid ns sa i)) (x_facts t)"
    using assms(2) unfolding accounted_def by blast
  with saturatedD[OF assms(1) att_step.create_pod[OF assms(3) new]] show False
    by (simp add: learn_def known_def)
qed

lemma saturated_create_controller:
  assumes "saturated r i t" and "accounted i t" and "may_create r t cid c uc ns sa WorkController"
  shows "dmem (model_controller_uid ns sa i) (e_controllers (x_env t))"
proof (rule ccontr)
  assume new: "\<not> dmem (model_controller_uid ns sa i) (e_controllers (x_env t))"
  then have "\<not> dmem (ControlsController (model_controller_uid ns sa i)) (x_facts t)"
    using assms(2) unfolding accounted_def by blast
  with saturatedD[OF assms(1) att_step.create_controller[OF assms(3) new]] show False
    by (simp add: learn_def known_def)
qed

lemma may_create_covers:
  assumes "may_create r s cid c uc ns sa kind" and cov: "covers t s" and "\<not> controls_live t ns sa kind"
  obtains c' uc' where "may_create r t cid c' uc' ns sa kind"
proof -
  obtain c' uc' where c': "holds_usable r t cid c' uc'" "cred_username c' = cred_username c"
    using assms(1) by (auto simp: may_create_def elim: holds_usable_covers[OF _ cov])
  have "may_create r t cid c' uc' ns sa kind"
    using assms(1,3) c' coversD(6)[OF cov]
    by (simp add: may_create_def static_eq_authorizing[OF coversD(6)[OF cov]]
        static_eq_admission[OF coversD(6)[OF cov]]) (simp add: static_eq_def)
  then show thesis by (rule that)
qed

section \<open>What the states of an interval have in common\<close>

definition new_objects :: "int \<Rightarrow> est \<Rightarrow> est \<Rightarrow> bool" where
  "new_objects i s0 s \<longleftrightarrow>
     (\<forall>u p. dget (e_pods (x_env s)) u = Some p \<and> starts_with u MODEL_POD_PREFIX \<longrightarrow>
        dget (e_pods (x_env s0)) u = Some p \<or> (\<exists>ns sa. u = model_pod_uid ns sa i \<and> p = model_pod ns sa i)) \<and>
     (\<forall>u c. dget (e_controllers (x_env s)) u = Some c \<longrightarrow>
        dget (e_controllers (x_env s0)) u = Some c \<or>
        (\<exists>ns sa. u = model_controller_uid ns sa i \<and> c = model_controller ns sa i))"

lemma new_objects_refl [simp]: "new_objects i s s"
  by (simp add: new_objects_def)

lemma new_objects_env: "new_objects i s0 s \<Longrightarrow> x_env t = x_env s \<Longrightarrow> new_objects i s0 t"
  by (simp add: new_objects_def)

lemma new_objects_step:
  assumes "att_step r i s t" and "tidy r i s" and "new_objects i s0 s"
  shows "new_objects i s0 t"
  using assms(1)
proof (cases rule: att_step.cases)
  case (create_pod cid c uc ns sa)
  have "dget (e_pods (x_env t)) = (dget (e_pods (x_env s)))(model_pod_uid ns sa i \<mapsto> model_pod ns sa i)"
    "e_controllers (x_env t) = e_controllers (x_env s)"
    by (auto simp: create_pod(1) env_add_pod_def model_pod_def)
  then show ?thesis using assms(3) unfolding new_objects_def by auto
next
  case (create_controller cid c uc ns sa)
  have "dmem (ns, sa) (e_service_accounts (x_env s))" "dget (e_controllers (x_env s)) (model_controller_uid ns sa i) = None"
    using create_controller by (auto simp: may_create_def)
  note created = created_controller[OF assms(2) this]
  have pods: "dget (e_pods (x_env t)) = (dget (e_pods (x_env s)))(first_pod (model_controller_uid ns sa i) \<mapsto>
      replacement_pod (model_controller_uid ns sa i) (model_controller ns sa i) 0)"
    using created(1,4) by (auto simp: create_controller(1) map_add_def split: option.splits)
  moreover have "dget (e_controllers (x_env t)) =
      (dget (e_controllers (x_env s)))(model_controller_uid ns sa i \<mapsto> model_controller ns sa i)"
    using created(2) by (auto simp: create_controller(1))
  moreover have "\<not> starts_with (first_pod (model_controller_uid ns sa i)) MODEL_POD_PREFIX"
    by (simp add: numbered_def model_controller_uid_def MODEL_DEPLOY_PREFIX_def MODEL_POD_PREFIX_def)
  ultimately show ?thesis using assms(3) unfolding new_objects_def by (auto split: if_splits)
qed (use assms(3) in \<open>auto intro: new_objects_env simp: obtain_token_def\<close>)

text \<open>A step never loses anything: a renewed token outlives the one it replaces.\<close>

lemma covers_grows: "grows s t \<Longrightarrow> x_creds t = x_creds s \<Longrightarrow> covers t s"
  by (auto simp: covers_def grows_def)

lemma step_covers:
  assumes "att_step r i s t" and "tidy r i s"
  shows "covers t s"
  using assms(1)
proof (cases rule: att_step.cases)
  case (token u p sa auds aud e)
  have u: "pod_uid p = u" using tidyD(1)[OF assms(2)] token(3) by (auto simp: env_ok_def dest: keyed_dget)
  have "outlives (projected_cred p sa aud e) c" if "dget (x_creds s) (projected_id (pod_uid p) aud) = Some c" for c
  proof -
    from tidyD(4)[OF assms(2)] token u that obtain e0 where "c = projected_cred p sa aud e0"
      unfolding tokens_ok_def by blast
    with token(8) that show ?thesis
      by (auto simp: token_fresh_def outlives_def projected_cred_def)
  qed
  with att_step_grows[OF assms(1)] show ?thesis
    by (auto simp: covers_def grows_def token(1) obtain_token_def)
qed (use att_step_grows[OF assms(1)] in \<open>auto intro: covers_grows\<close>)

definition in_interval :: "run \<Rightarrow> int \<Rightarrow> est \<Rightarrow> est \<Rightarrow> bool" where
  "in_interval r i s0 s \<longleftrightarrow> tidy r i s \<and> accounted i s \<and> new_objects i s0 s \<and> covers s s0"

lemma in_interval_start: "tidy r i s \<Longrightarrow> accounted i s \<Longrightarrow> in_interval r i s s"
  by (simp add: in_interval_def)

lemma in_interval_step: "att_step r i s t \<Longrightarrow> in_interval r i s0 s \<Longrightarrow> in_interval r i s0 t"
  unfolding in_interval_def
  by (blast intro: tidy_step accounted_step new_objects_step step_covers covers_trans)

lemma tidy_clean: "tidy r i s \<Longrightarrow> tidy r i (clean s)"
  by (erule tidy_more_facts) simp_all

lemma in_interval_clean: "in_interval r i s0 s \<Longrightarrow> in_interval r i s0 (clean s)"
  by (simp add: in_interval_def new_objects_def covers_def tidy_clean)

lemma in_interval_sat_run: "sat_run r i s t \<Longrightarrow> in_interval r i s0 s \<Longrightarrow> in_interval r i s0 t"
  by (rule sat_run_keeps[of r i s t "in_interval r i s0"]) (auto intro: in_interval_step in_interval_clean)

section \<open>The saturated state covers every interleaving\<close>

lemma controls_live_pod:
  "controls_live s ns sa WorkPod \<longleftrightarrow>
     (\<exists>u p. dmem (ControlsPod u) (x_facts s) \<and> starts_with u MODEL_POD_PREFIX \<and>
        dget (e_pods (x_env s)) u = Some p \<and> pod_namespace p = ns \<and> pod_service_account p = sa)"
    (is "?l \<longleftrightarrow> ?r")
proof
  assume ?l
  then obtain f where f: "f \<in> set (dkeys (x_facts s))" and body: "case f of
         ControlsPod u \<Rightarrow> WorkPod = WorkPod \<and> starts_with u MODEL_POD_PREFIX \<and>
           (case dget (e_pods (x_env s)) u of
              None \<Rightarrow> False | Some p \<Rightarrow> pod_namespace p = ns \<and> pod_service_account p = sa)
       | ControlsController u \<Rightarrow> WorkPod = WorkController \<and> starts_with u MODEL_DEPLOY_PREFIX \<and>
           (case dget (e_controllers (x_env s)) u of
              None \<Rightarrow> False | Some c \<Rightarrow> ctrl_namespace c = ns \<and> ctrl_service_account c = sa)
       | _ \<Rightarrow> False"
    unfolding controls_live_def list_ex_iff by blast
  from body obtain u where "f = ControlsPod u" by (cases f) auto
  with f body show ?r by (auto split: option.splits)
next
  assume ?r
  then obtain u p where "dmem (ControlsPod u) (x_facts s)" "starts_with u MODEL_POD_PREFIX"
      "dget (e_pods (x_env s)) u = Some p" "pod_namespace p = ns" "pod_service_account p = sa" by blast
  then show ?l
    unfolding controls_live_def list_ex_iff by (intro bexI[of _ "ControlsPod u"]) auto
qed

lemma controls_live_controller:
  "controls_live s ns sa WorkController \<longleftrightarrow>
     (\<exists>u c. dmem (ControlsController u) (x_facts s) \<and> starts_with u MODEL_DEPLOY_PREFIX \<and>
        dget (e_controllers (x_env s)) u = Some c \<and> ctrl_namespace c = ns \<and> ctrl_service_account c = sa)"
    (is "?l \<longleftrightarrow> ?r")
proof
  assume ?l
  then obtain f where f: "f \<in> set (dkeys (x_facts s))" and body: "case f of
         ControlsPod u \<Rightarrow> WorkController = WorkPod \<and> starts_with u MODEL_POD_PREFIX \<and>
           (case dget (e_pods (x_env s)) u of
              None \<Rightarrow> False | Some p \<Rightarrow> pod_namespace p = ns \<and> pod_service_account p = sa)
       | ControlsController u \<Rightarrow> WorkController = WorkController \<and> starts_with u MODEL_DEPLOY_PREFIX \<and>
           (case dget (e_controllers (x_env s)) u of
              None \<Rightarrow> False | Some c \<Rightarrow> ctrl_namespace c = ns \<and> ctrl_service_account c = sa)
       | _ \<Rightarrow> False"
    unfolding controls_live_def list_ex_iff by blast
  from body obtain u where "f = ControlsController u" by (cases f) auto
  with f body show ?r by (auto split: option.splits)
next
  assume ?r
  then obtain u c where "dmem (ControlsController u) (x_facts s)" "starts_with u MODEL_DEPLOY_PREFIX"
      "dget (e_controllers (x_env s)) u = Some c" "ctrl_namespace c = ns" "ctrl_service_account c = sa" by blast
  then show ?l
    unfolding controls_live_def list_ex_iff by (intro bexI[of _ "ControlsController u"]) auto
qed

text \<open>A workload that is live in the saturated state and was not live before is the one of this interval.\<close>

lemma live_pod:
  assumes live: "controls_live t ns sa WorkPod" and not_live: "\<not> controls_live s ns sa WorkPod"
    and s: "in_interval r i s0 s" and t: "in_interval r i s0 t"
  shows "dmem (model_pod_uid ns sa i) (e_pods (x_env t))"
proof -
  from live obtain u p where u: "dmem (ControlsPod u) (x_facts t)" "starts_with u MODEL_POD_PREFIX"
      "dget (e_pods (x_env t)) u = Some p" "pod_namespace p = ns" "pod_service_account p = sa"
    unfolding controls_live_pod by blast
  have "dget (e_pods (x_env s0)) u \<noteq> Some p"
  proof
    assume "dget (e_pods (x_env s0)) u = Some p"
    then have "dget (e_pods (x_env s)) u = Some p" using s by (auto simp: in_interval_def dest: coversD(4))
    moreover from this u(2) s have "dmem (ControlsPod u) (x_facts s)"
      unfolding in_interval_def using tidyD(5) owned_def by blast
    ultimately have "controls_live s ns sa WorkPod"
      using u unfolding controls_live_pod by blast
    with not_live show False ..
  qed
  with u(2,3) t obtain ns' sa' where "u = model_pod_uid ns' sa' i" "p = model_pod ns' sa' i"
    unfolding in_interval_def new_objects_def by blast
  with u show ?thesis by (auto simp: model_pod_def)
qed

lemma live_controller:
  assumes live: "controls_live t ns sa WorkController" and not_live: "\<not> controls_live s ns sa WorkController"
    and s: "in_interval r i s0 s" and t: "in_interval r i s0 t"
  shows "dmem (model_controller_uid ns sa i) (e_controllers (x_env t))"
proof -
  from live obtain u c where u: "dmem (ControlsController u) (x_facts t)" "starts_with u MODEL_DEPLOY_PREFIX"
      "dget (e_controllers (x_env t)) u = Some c" "ctrl_namespace c = ns" "ctrl_service_account c = sa"
    unfolding controls_live_controller by blast
  have "dget (e_controllers (x_env s0)) u \<noteq> Some c"
  proof
    assume "dget (e_controllers (x_env s0)) u = Some c"
    then have "dget (e_controllers (x_env s)) u = Some c" using s by (auto simp: in_interval_def dest: coversD(5))
    moreover from this u(2) s have "dmem (ControlsController u) (x_facts s)"
      unfolding in_interval_def using tidyD(5) owned_def by blast
    ultimately have "controls_live s ns sa WorkController"
      using u unfolding controls_live_controller by blast
    with not_live show False ..
  qed
  with u(3) t obtain ns' sa' where "u = model_controller_uid ns' sa' i" "c = model_controller ns' sa' i"
    unfolding in_interval_def new_objects_def by blast
  with u show ?thesis by (auto simp: model_controller_def)
qed

lemma covers_learn:
  assumes "covers t s" and "known (der_fact d) t"
  shows "covers t (learn d s)"
  using assms by (auto simp: covers_def learn_def put_fact_def known_def split: if_splits)

lemma map_le_upd: "m \<subseteq>\<^sub>m n \<Longrightarrow> n u = Some p \<Longrightarrow> m(u \<mapsto> p) \<subseteq>\<^sub>m n"
  by (auto simp: map_le_def)

lemma covers_env:
  assumes "covers t s" and "dget (e_pods env) = (dget (e_pods (x_env s)))(u \<mapsto> p)"
    and "dget (e_controllers env) = (dget (e_controllers (x_env s)))(k \<mapsto> c)"
    and "static_eq (x_env s) env" and "dget (e_pods (x_env t)) u = Some p" and "dget (e_controllers (x_env t)) k = Some c"
  shows "covers t (s\<lparr>x_env := env\<rparr>)"
  using assms by (simp add: covers_def map_le_upd static_eq_def)

theorem step_covered:
  assumes step: "att_step r i s s'" and s: "in_interval r i s0 s" and t: "in_interval r i s0 t"
    and sat: "saturated r i t" and cov: "covers t s"
  shows "covers t s'"
  using step
proof (cases rule: att_step.cases)
  case (learn d)
  obtain d' where "derivable r i t d'" "der_fact d' = der_fact d"
    by (rule derivable_covers[OF learn(2) cov])
  with saturated_known[OF sat] cov show ?thesis by (metis learn(1) covers_learn)
next
  case (token u p sa auds aud e)
  note eq = coversD(6)[OF cov]
  have p: "dget (e_pods (x_env t)) u = Some p" using coversD(4)[OF cov token(3)] .
  have sa: "dget (e_service_accounts (x_env t)) (pod_namespace p, pod_service_account p) = Some sa"
    using token(4) eq by (simp add: static_eq_def)
  have u: "pod_uid p = u" using s token(3) by (auto simp: in_interval_def tidy_def env_ok_def dest: keyed_dget)
  have e: "token_expiry r t = e" using token(7) eq by (simp add: token_expiry_def static_eq_def)
  have "token_fresh t (projected_id (pod_uid p) aud) e"
    using saturated_token[OF sat coversD(1)[OF cov token(2)] p sa token(5,6)] by (simp add: e)
  then obtain c where c: "dget (x_creds t) (projected_id u aud) = Some c" and life: "\<exists>e'. cred_expires_at c = Some e' \<and> e \<le> e'"
    by (auto simp: token_fresh_def u split: option.splits)
  moreover obtain e0 where "c = projected_cred p sa aud e0"
    using t c p sa token(5,6) unfolding in_interval_def tidy_def tokens_ok_def by blast
  ultimately have "outlives c (projected_cred p sa aud e)"
    by (auto simp: outlives_def projected_cred_def)
  moreover have "dmem (Possesses (projected_id u aud)) (x_facts t)"
    using t c unfolding in_interval_def tidy_def owned_def by blast
  ultimately show ?thesis
    using cov c u by (auto simp: covers_def token(1) obtain_token_def put_fact_def token_derivation_def)
next
  case (create_pod cid c uc ns sa)
  let ?u = "model_pod_uid ns sa i"
  have acc: "dmem (ns, sa) (e_service_accounts (x_env t))"
    using create_pod(2) coversD(6)[OF cov] by (simp add: may_create_def static_eq_def)
  have "dmem ?u (e_pods (x_env t))"
  proof (cases "controls_live t ns sa WorkPod")
    case True
    then show ?thesis using live_pod[OF True _ s t] create_pod(2) by (simp add: may_create_def)
  next
    case False
    obtain c' uc' where "may_create r t cid c' uc' ns sa WorkPod"
      by (rule may_create_covers[OF create_pod(2) cov False])
    then show ?thesis using saturated_create_pod[OF sat] t by (simp add: in_interval_def)
  qed
  then have "dget (e_pods (x_env t)) ?u = Some (model_pod ns sa i)" "dmem (ControlsPod ?u) (x_facts t)"
    using tidyD(7)[of r i t ns sa] t acc by (auto simp: in_interval_def pod_slot_def)
  then show ?thesis
    using cov unfolding create_pod(1)
    by (intro covers_learn) (auto simp: covers_def env_add_pod_def model_pod_def map_le_def known_def static_eq_def)
next
  case (create_controller cid c uc ns sa)
  let ?u = "model_controller_uid ns sa i" and ?c = "model_controller ns sa i"
  have acc: "dmem (ns, sa) (e_service_accounts (x_env s))"
    using create_controller(2) by (simp add: may_create_def)
  then have acct: "dmem (ns, sa) (e_service_accounts (x_env t))"
    using coversD(6)[OF cov] by (simp add: static_eq_def)
  have "tidy r i s" using s by (simp add: in_interval_def)
  note created = created_controller[OF this acc, simplified, OF create_controller(3)[simplified]]
  have "dmem ?u (e_controllers (x_env t))"
  proof (cases "controls_live t ns sa WorkController")
    case True
    then show ?thesis using live_controller[OF True _ s t] create_controller(2) by (simp add: may_create_def)
  next
    case False
    obtain c' uc' where "may_create r t cid c' uc' ns sa WorkController"
      by (rule may_create_covers[OF create_controller(2) cov False])
    then show ?thesis using saturated_create_controller[OF sat] t by (simp add: in_interval_def)
  qed
  then have tc: "dget (e_controllers (x_env t)) ?u = Some ?c" "dmem (ControlsController ?u) (x_facts t)"
      "dget (e_pods (x_env t)) (first_pod ?u) = Some (replacement_pod ?u ?c 0)"
    using tidyD(8)[of r i t ns sa] t acct by (auto simp: in_interval_def controller_slot_def Let_def)
  have "covers t (s\<lparr>x_env := env_add_controller ?c (x_env s)\<rparr>)"
  proof (rule covers_env[OF cov, where env = "env_add_controller ?c (x_env s)"])
    show "dget (e_pods (env_add_controller ?c (x_env s))) =
        (dget (e_pods (x_env s)))(first_pod ?u \<mapsto> replacement_pod ?u ?c 0)"
      using created(4) by (auto simp: created(1) map_add_def split: option.splits)
    show "dget (e_controllers (env_add_controller ?c (x_env s))) = (dget (e_controllers (x_env s)))(?u \<mapsto> ?c)"
      by (auto simp: created(2))
    show "static_eq (x_env s) (env_add_controller ?c (x_env s))" by (simp add: env_add_controller_def static_eq_def)
  qed (use tc in auto)
  then show ?thesis
    unfolding create_controller(1) by (rule covers_learn) (use tc in \<open>simp add: known_def\<close>)
next
  case remark
  then show ?thesis using cov by (simp add: covers_def)
qed

theorem closure_covers_interleavings:
  assumes "closure r i s = Inr t" and "tidy r i (no_eph s)" and "accounted i s"
    and run: "(att_step r i)\<^sup>*\<^sup>* (no_eph s) u"
  shows "covers t u"
proof -
  have start: "in_interval r i (no_eph s) (no_eph s)"
    using assms(2,3) by (intro in_interval_start) (simp_all add: accounted_def)
  have t: "in_interval r i (no_eph s) t"
    by (rule in_interval_sat_run[OF closure_run[OF assms(1)] start])
  have sat: "saturated r i t" by (rule closure_saturated[OF assms(1,3)])
  from run have "in_interval r i (no_eph s) u \<and> covers t u"
  proof (induction rule: rtranclp_induct)
    case base
    show ?case using start t by (simp add: in_interval_def)
  next
    case (step u v)
    then show ?case using step_covered[OF step(2) _ t sat] in_interval_step by blast
  qed
  then show ?thesis ..
qed

end
