(* ===== verification/World.thy ===== *)
theory World
  imports Join
begin

text \<open>
  The invariant of a whole run, over intervals and defender actions: owner references stay valid,
  and whatever the attacker created and still exists is recorded as the attacker's. The provenance
  of an \<open>exec\<close> into such an object relies on it (\<open>_object_premises\<close>).
\<close>

section \<open>Owner references\<close>

definition refs_ok :: "env \<Rightarrow> bool" where
  "refs_ok env \<longleftrightarrow>
     (\<forall>u p c. dget (e_pods env) u = Some p \<longrightarrow> pod_controller_uid p = Some c \<longrightarrow> dmem c (e_controllers env))"

definition env_inv :: "env \<Rightarrow> bool" where
  "env_inv env \<longleftrightarrow> env_ok env \<and> refs_ok env \<and>
     (\<forall>c. dmem c (e_controllers env) \<longrightarrow> \<not> starts_with c MODEL_POD_PREFIX)"

lemma env_invD:
  assumes "env_inv env"
  shows "env_ok env" "refs_ok env" "keyed pod_uid (e_pods env)" "keyed ctrl_uid (e_controllers env)"
    "dmem c (e_controllers env) \<Longrightarrow> \<not> starts_with c MODEL_POD_PREFIX"
  using assms by (auto simp: env_inv_def env_ok_def)

lemma dget_le: "map_of a \<subseteq>\<^sub>m map_of b \<Longrightarrow> dget a k = Some v \<Longrightarrow> dget b k = Some v"
  by (auto simp: map_le_def dom_def)

text \<open>A smaller environment that keeps the references is as good.\<close>

lemma env_inv_shrink:
  assumes "env_inv env" and "env_ok env'"
    and "\<And>c. dmem c (e_controllers env') \<Longrightarrow> dmem c (e_controllers env)"
    and "\<And>u p c. dget (e_pods env') u = Some p \<Longrightarrow> pod_controller_uid p = Some c \<Longrightarrow>
      dget (e_pods env) u = Some p \<and> (dmem c (e_controllers env) \<longrightarrow> dmem c (e_controllers env'))"
  shows "env_inv env'"
  using assms unfolding env_inv_def refs_ok_def by blast

lemma str_of_int_hd: "str_of_int k \<noteq> CHR ''o'' # s"
proof
  assume "str_of_int k = CHR ''o'' # s"
  then have "CHR ''o'' \<in> set (str_of_int k)" by simp
  then show False
    using str_of_nat_digits[of "CHR ''o''"] by (auto simp: str_of_int_def is_digit_def split: if_splits)
qed

text \<open>No replacement pod gets the UID of a modelled one.\<close>

lemma numbered_not_model_pod:
  assumes "\<not> starts_with c MODEL_POD_PREFIX"
  shows "\<not> starts_with (numbered c k) MODEL_POD_PREFIX"
proof
  assume "starts_with (numbered c k) MODEL_POD_PREFIX"
  then obtain t where t: "c @ ''-p'' @ str_of_int k = ''model-pod:'' @ t"
    by (auto simp: starts_with_iff numbered_def MODEL_POD_PREFIX_def)
  show False
  proof (cases "length ''model-pod:'' \<le> length c")
    case True
    then have "take (length ''model-pod:'') c = ''model-pod:''"
      using arg_cong[OF t, of "take (length ''model-pod:'')"] by simp
    then have "c = ''model-pod:'' @ drop (length ''model-pod:'') c"
      by (metis append_take_drop_id)
    with assms show False by (metis MODEL_POD_PREFIX_def starts_with_append)
  next
    case False
    then have "length c < 10" by simp
    then have "length c = 0 \<or> length c = 1 \<or> length c = 2 \<or> length c = 3 \<or> length c = 4 \<or>
        length c = 5 \<or> length c = 6 \<or> length c = 7 \<or> length c = 8 \<or> length c = 9" by arith
    then show False
      using t str_of_int_hd[of k]
      by (elim disjE) (auto simp: length_Suc_conv numeral_eq_Suc)
  qed
qed

lemma env_inv_effect:
  assumes "env_inv env"
  shows "env_inv (apply_effect e env)"
proof -
  note ok = env_invD[OF assms]
  have ok': "env_ok (apply_effect e env)" by (rule apply_effect_ok[OF ok(1)])
  show ?thesis
  proof (rule env_inv_shrink[OF assms ok'])
    show "dmem c (e_controllers env)" if "dmem c (e_controllers (apply_effect e env))" for c
      using that by (cases e) (auto simp: dget_fold_ddel rotate_def Let_def split: option.splits if_splits)
    show "dget (e_pods env) u = Some p \<and>
        (dmem c (e_controllers env) \<longrightarrow> dmem c (e_controllers (apply_effect e env)))"
      if "dget (e_pods (apply_effect e env)) u = Some p" "pod_controller_uid p = Some c" for u p c
      using that ok
      by (cases e) (auto simp: dget_del_pods dget_cascade dget_fold_cascade dget_fold_ddel rotate_def Let_def
          simp del: set_map split: option.splits if_splits)
  qed
qed

lemma env_inv_add_pod:
  assumes "env_inv env" and "\<And>c. pod_controller_uid p = Some c \<Longrightarrow> dmem c (e_controllers env)"
  shows "env_inv (env_add_pod p env)"
  using assms env_add_pod_ok[of env p]
  by (auto simp: env_inv_def refs_ok_def env_add_pod_def split: if_splits)

text \<open>The pods a reconciliation adds are replacement pods of controllers that are there.\<close>

lemma reconcile_new_pod:
  assumes "dget (e_pods (reconcile env)) u = Some p" and "dget (e_pods env) u = None"
  obtains c ct k where "dget (e_controllers env) c = Some ct" "p = replacement_pod c ct k" "u = numbered c k"
proof -
  from assms have "(u, p) \<in> set (map (\<lambda>p. (pod_uid p, p)) (snd (reconcile_controllers env)))"
    by (auto simp: reconcile_pods map_add_def split: option.splits dest: map_of_SomeD)
  then have p: "p \<in> set (snd (reconcile_controllers env))" and u: "u = pod_uid p" by auto
  from reconcile_list_created[OF p[unfolded reconcile_controllers_def]] that u show thesis
    by (auto simp: replacement_pod_def)
qed

lemma env_inv_reconcile:
  assumes "env_inv env"
  shows "env_inv (reconcile env)"
  unfolding env_inv_def refs_ok_def
proof (intro conjI allI impI)
  show "env_ok (reconcile env)" by (rule reconcile_ok[OF env_invD(1)[OF assms]])
  show "dmem c (e_controllers (reconcile env))"
    if p: "dget (e_pods (reconcile env)) u = Some p" and c: "pod_controller_uid p = Some c" for u p c
  proof (cases "dget (e_pods env) u")
    case None
    obtain c' ct k where "dget (e_controllers env) c' = Some ct" "p = replacement_pod c' ct k"
      by (rule reconcile_new_pod[OF p None])
    with c show ?thesis by (simp add: replacement_pod_def)
  next
    case (Some q)
    with p dget_le[OF reconcile_pods_le Some] env_invD(2)[OF assms] c show ?thesis
      by (auto simp: refs_ok_def)
  qed
qed (use assms in \<open>simp add: env_inv_def\<close>)

lemma env_inv_add_controller:
  assumes "env_inv env" and "\<not> starts_with (ctrl_uid c) MODEL_POD_PREFIX"
  shows "env_inv (env_add_controller c env)"
  unfolding env_add_controller_def
  by (rule env_inv_reconcile) (use assms in \<open>auto simp: env_inv_def refs_ok_def env_ok_def keyed_dset\<close>)

lemma from_inventory_inv:
  assumes "inventory_ok i"
  shows "env_inv (from_inventory i t)"
proof -
  note look = from_inventory_lookup[OF assms]
  have "refs_ok (from_inventory i t)"
  proof -
    have "dmem c (e_controllers (from_inventory i t))"
      if h: "dget (e_pods (from_inventory i t)) u = Some p" "pod_controller_uid p = Some c" for u p c
    proof -
      have "p \<in> set (inv_pods i)" using h(1) look(2) by blast
      then obtain ct where "ct \<in> set (inv_controllers i)" "ctrl_uid ct = c"
        using assms h(2) by (fastforce simp: inventory_ok_def)
      then have "dget (e_controllers (from_inventory i t)) c = Some ct" using look(3) by blast
      then show ?thesis by simp
    qed
    then show ?thesis by (simp add: refs_ok_def)
  qed
  moreover have "\<not> starts_with c MODEL_POD_PREFIX" if "dmem c (e_controllers (from_inventory i t))" for c
  proof -
    from that obtain ct where "ct \<in> set (inv_controllers i)" "ctrl_uid ct = c"
      using look(3) by blast
    then show ?thesis using assms by (auto simp: inventory_ok_def reserved_uid_def)
  qed
  ultimately show ?thesis by (simp add: env_inv_def from_inventory_ok)
qed

section \<open>The attacker's objects\<close>

definition est_inv :: "est \<Rightarrow> bool" where
  "est_inv s \<longleftrightarrow> est_ok s \<and> env_inv (x_env s) \<and> owned s"

lemma est_invD: "est_inv s \<Longrightarrow> est_ok s" "est_inv s \<Longrightarrow> env_inv (x_env s)" "est_inv s \<Longrightarrow> owned s"
  by (simp_all add: est_inv_def)

lemma owned_simps:
  assumes "owned s"
  shows "dget (e_pods (x_env s)) u = Some p \<Longrightarrow> starts_with u MODEL_POD_PREFIX \<Longrightarrow> dmem (ControlsPod u) (x_facts s)"
    "dget (e_controllers (x_env s)) u = Some c \<Longrightarrow> starts_with u MODEL_DEPLOY_PREFIX \<Longrightarrow> dmem (ControlsController u) (x_facts s)"
    "dget (x_creds s) cid = Some cr \<Longrightarrow> dmem (Possesses cid) (x_facts s)"
  using assms unfolding owned_def by auto

text \<open>The environment may lose objects, and gain objects with other names.\<close>

lemma owned_env:
  assumes "owned s" and "x_creds t = x_creds s"
    and "\<And>f. dmem f (x_facts s) \<Longrightarrow> dmem f (x_facts t)"
    and "\<And>u. dmem u (e_pods (x_env t)) \<Longrightarrow> dmem u (e_pods (x_env s)) \<or> \<not> starts_with u MODEL_POD_PREFIX \<or>
      dmem (ControlsPod u) (x_facts t)"
    and "\<And>u. dmem u (e_controllers (x_env t)) \<Longrightarrow> dmem u (e_controllers (x_env s)) \<or>
      \<not> starts_with u MODEL_DEPLOY_PREFIX \<or> dmem (ControlsController u) (x_facts t)"
  shows "owned t"
  using assms unfolding owned_def by metis

lemma env_pods_reconcile:
  assumes "env_inv env" and "dmem u (e_pods (reconcile env))"
  shows "dmem u (e_pods env) \<or> \<not> starts_with u MODEL_POD_PREFIX"
proof (cases "dget (e_pods env) u")
  case None
  from assms(2) obtain p where p: "dget (e_pods (reconcile env)) u = Some p" by auto
  obtain c ct k where "dget (e_controllers env) c = Some ct" "u = numbered c k"
    by (rule reconcile_new_pod[OF p None])
  with numbered_not_model_pod env_invD(5)[OF assms(1), of c] show ?thesis by simp
qed simp

lemma effect_pods:
  assumes "env_ok env"
  shows "dget (e_pods (apply_effect e env)) u = Some p \<Longrightarrow> dget (e_pods env) u = Some p"
  using assms
  by (cases e) (auto simp: env_ok_def dget_del_pods dget_cascade dget_fold_cascade rotate_def Let_def
      split: option.splits if_splits)

lemma effect_controllers:
  "dget (e_controllers (apply_effect e env)) u = Some c \<Longrightarrow> dget (e_controllers env) u = Some c"
  by (cases e) (auto simp: dget_fold_ddel rotate_def Let_def split: option.splits if_splits)

lemma est_inv_defend:
  assumes "est_inv s"
  shows "est_inv (s\<lparr>x_env := reconcile (apply_effect e (x_env s))\<rparr>)"
proof -
  note inv = est_invD[OF assms]
  have e: "env_inv (apply_effect e (x_env s))" by (rule env_inv_effect[OF inv(2)])
  have "owned (s\<lparr>x_env := reconcile (apply_effect e (x_env s))\<rparr>)"
  proof (rule owned_env[OF inv(3)])
    fix u assume "dmem u (e_pods (x_env (s\<lparr>x_env := reconcile (apply_effect e (x_env s))\<rparr>)))"
    then have "dmem u (e_pods (apply_effect e (x_env s))) \<or> \<not> starts_with u MODEL_POD_PREFIX"
      using env_pods_reconcile[OF e, of u] by simp
    then show "dmem u (e_pods (x_env s)) \<or> \<not> starts_with u MODEL_POD_PREFIX \<or>
        dmem (ControlsPod u) (x_facts (s\<lparr>x_env := reconcile (apply_effect e (x_env s))\<rparr>))"
      using effect_pods[OF env_invD(1)[OF inv(2)], of e u] by auto
  qed (use effect_controllers[of e "x_env s"] in auto)
  with inv(1) env_inv_reconcile[OF e] show ?thesis
    by (simp add: est_inv_def est_ok_env env_invD(1))
qed

lemma est_inv_reconcile:
  assumes "est_inv s"
  shows "est_inv (s\<lparr>x_env := reconcile (x_env s)\<rparr>)"
  using est_inv_defend[OF assms, of "EffWait 0"] by simp

lemma model_controller_not_pod: "\<not> starts_with (model_controller_uid ns sa i) MODEL_POD_PREFIX"
  by (simp add: model_controller_uid_def MODEL_DEPLOY_PREFIX_def MODEL_POD_PREFIX_def)

lemma env_add_controller_objects:
  assumes "env_inv env" and "\<not> starts_with (ctrl_uid c) MODEL_POD_PREFIX"
  shows "dmem u (e_pods (env_add_controller c env)) \<Longrightarrow> dmem u (e_pods env) \<or> \<not> starts_with u MODEL_POD_PREFIX"
    and "e_controllers (env_add_controller c env) = dset (ctrl_uid c) c (e_controllers env)"
proof -
  let ?env = "env\<lparr>e_controllers := dset (ctrl_uid c) c (e_controllers env),
          e_controller_pod_counter := dset (ctrl_uid c) (-1) (e_controller_pod_counter env)\<rparr>"
  have e: "env_inv ?env"
    using assms by (auto simp: env_inv_def refs_ok_def env_ok_def keyed_dset)
  show "dmem u (e_pods (env_add_controller c env)) \<Longrightarrow> dmem u (e_pods env) \<or> \<not> starts_with u MODEL_POD_PREFIX"
    using env_pods_reconcile[OF e, of u] by (simp add: env_add_controller_def)
  show "e_controllers (env_add_controller c env) = dset (ctrl_uid c) c (e_controllers env)"
    by (simp add: env_add_controller_def)
qed

lemma att_step_inv: "att_step r i s t \<Longrightarrow> est_inv s \<Longrightarrow> est_inv t"
proof -
  assume step: "att_step r i s t" and inv: "est_inv s"
  note ok = att_step_ok[OF step est_invD(1)[OF inv]]
  note I = est_invD[OF inv]
  show "est_inv t"
    using step
  proof (cases rule: att_step.cases)
    case (learn d)
    have "owned t" by (rule owned_env[OF I(3)]) (auto simp: learn(1) learn_facts)
    with ok I(2) show ?thesis by (simp add: est_inv_def learn(1))
  next
    case (token u p sa auds aud e)
    have "owned t" using I(3)
      by (auto simp: owned_def token(1) obtain_token_def put_fact_def token_derivation_def split: if_splits)
    with ok I(2) show ?thesis by (simp add: est_inv_def token(1) obtain_token_def)
  next
    case (create_pod cid c uc ns sa)
    have "owned t" by (rule owned_env[OF I(3)])
      (auto simp: create_pod(1) learn_facts env_add_pod_def model_pod_def split: if_splits)
    moreover have "env_inv (env_add_pod (model_pod ns sa i) (x_env s))"
      by (rule env_inv_add_pod[OF I(2)]) (simp add: model_pod_def)
    ultimately show ?thesis using ok by (simp add: est_inv_def create_pod(1))
  next
    case (create_controller cid c uc ns sa)
    let ?c = "model_controller ns sa i"
    have c: "\<not> starts_with (ctrl_uid ?c) MODEL_POD_PREFIX" "ctrl_uid ?c = model_controller_uid ns sa i"
      using model_controller_not_pod[of ns sa i] by (simp_all add: model_controller_def)
    note objs = env_add_controller_objects[OF I(2) c(1)]
    have "owned t"
    proof (rule owned_env[OF I(3)])
      show "dmem u (e_pods (x_env s)) \<or> \<not> starts_with u MODEL_POD_PREFIX \<or> dmem (ControlsPod u) (x_facts t)"
        if "dmem u (e_pods (x_env t))" for u
        using that objs(1)[of u] by (auto simp: create_controller(1))
      show "dmem u (e_controllers (x_env s)) \<or> \<not> starts_with u MODEL_DEPLOY_PREFIX \<or> dmem (ControlsController u) (x_facts t)"
        if "dmem u (e_controllers (x_env t))" for u
        using that by (auto simp: create_controller(1) objs(2) c(2) learn_facts split: if_splits)
    qed (auto simp: create_controller(1) learn_facts)
    with ok env_inv_add_controller[OF I(2) c(1)] show ?thesis by (simp add: est_inv_def create_controller(1))
  next
    case (remark k u)
    have "owned t" by (rule owned_env[OF I(3)]) (auto simp: remark)
    with ok I(2) show ?thesis by (simp add: est_inv_def remark)
  qed
qed

end
