(* ===== verification/Run.thy ===== *)
theory Run
  imports Closure
begin

text \<open>
  A view of a remediation sequence: \<open>_Run.initial\<close>, \<open>run_view\<close>, \<open>ViewOutcome.witness\<close>,
  \<open>objective_goal\<close> and \<open>legit_status\<close> of \<open>packages/afterlock/engine.py\<close>. The tables of a run that
  ends in an exception are kept, because \<open>run_view\<close> answers with them after \<open>BoundsExceeded\<close>.
\<close>

section \<open>Initial state\<close>

fun seed_fact :: "seed \<Rightarrow> fact option" where
  "seed_fact (SeedPossessesCredential c) = Some (Possesses c)"
| "seed_fact (SeedControlsPod u) = Some (ControlsPod u)"
| "seed_fact (SeedControlsController u) = Some (ControlsController u)"
| "seed_fact (SeedKnowsSecret ns n v) = Some (KnowsSecret ns n v)"
| "seed_fact (SeedHistoricalPod _ _ _) = None"

fun is_possession :: "seed \<Rightarrow> bool" where
  "is_possession (SeedPossessesCredential _) = True" | "is_possession _ = False"

type_synonym historical = "(string \<times> string \<times> string) list"

text \<open>The facts a view or a baseline leaves aside.\<close>

definition skipped :: "run \<Rightarrow> initial_fact \<Rightarrow> bool" where
  "skipped r f \<longleftrightarrow>
     (r_view r = EvidenceView \<and> if_status f = Inferred) \<or>
     (r_mode r = ModeSnapshot \<and> \<not> (is_possession (if_seed f) \<and> if_status f = Assumed))"

definition evidence :: "fact \<Rightarrow> epistemic \<Rightarrow> string list \<Rightarrow> string \<Rightarrow> derivation" where
  "evidence f st ev n = \<lparr>der_fact = f, der_rule = R_EVIDENCE, der_interval = INITIAL_INTERVAL,
     der_premises = [], der_conditions = [], der_status = st, der_evidence = ev, der_note = n\<rparr>"

definition seed_evidence :: "initial_fact \<Rightarrow> fact \<Rightarrow> est \<Rightarrow> est" where
  "seed_evidence f x s =
     s\<lparr>x_facts := dset x (evidence x (if_status f) (if_evidence f) (if_note f)) (x_facts s)\<rparr>"

definition initial_body :: "run \<Rightarrow> initial_fact \<Rightarrow> est \<times> historical \<Rightarrow> model_error + est \<times> historical" where
  "initial_body r f st =
     (case st of (s, hist) \<Rightarrow>
       if skipped r f then Inr (s, hist)
       else (case if_seed f of
           SeedHistoricalPod u ns sa \<Rightarrow> Inr (s, hist @ [(u, ns, sa)])
         | SeedPossessesCredential cid \<Rightarrow>
             (case inp_credential (r_inp r) cid of
                Inl e \<Rightarrow> Inl e
              | Inr c \<Rightarrow> Inr (seed_evidence f (Possesses cid) (s\<lparr>x_creds := dset cid c (x_creds s)\<rparr>), hist))
         | SeedControlsPod u \<Rightarrow> Inr (seed_evidence f (ControlsPod u) s, hist)
         | SeedControlsController u \<Rightarrow> Inr (seed_evidence f (ControlsController u) s, hist)
         | SeedKnowsSecret ns n v \<Rightarrow> Inr (seed_evidence f (KnowsSecret ns n v) s, hist)))"

definition blank :: "env \<Rightarrow> est" where
  "blank env = \<lparr>x_facts = [], x_creds = [], x_eph = [], x_env = env, x_count = 0, x_unknowns = [],
     x_changed = False\<rparr>"

definition initial :: "run \<Rightarrow> model_error + est \<times> historical" where
  "initial r = for_each (initial_body r) (inp_initial_facts (r_inp r))
     (blank (from_inventory (inp_inventory (r_inp r)) (inp_analysis_time (r_inp r))), [])"

section \<open>Possible history\<close>

definition expired_seed :: "run \<Rightarrow> est \<Rightarrow> bool" where
  "expired_seed r s =
     list_ex (\<lambda>c. case cred_expires_at c of None \<Rightarrow> False | Some e \<Rightarrow> e \<le> inp_analysis_time (r_inp r))
       (dvals (x_creds s))"

definition historical_pod :: "string \<Rightarrow> string \<Rightarrow> string \<Rightarrow> pod" where
  "historical_pod u ns sa = \<lparr>pod_namespace = ns, pod_name = u, pod_uid = u, pod_service_account = sa,
     pod_token_audiences = [], pod_controller_uid = None\<rparr>"

definition add_historical :: "string \<times> string \<times> string \<Rightarrow> est \<Rightarrow> est" where
  "add_historical h s =
     (case h of (u, ns, sa) \<Rightarrow>
        s\<lparr>x_env := (if dmem u (e_pods (x_env s)) then x_env s else env_add_pod (historical_pod u ns sa) (x_env s)),
          x_facts := setdefault (ControlsPod u)
            (evidence (ControlsPod u) Observed [] ''historically controlled pod'') (x_facts s)\<rparr>)"

text \<open>
  The environment of this phase (\<open>henv\<close>) is a scratch copy: whatever happens, the run goes on with
  the environment it had.
\<close>

definition history_phase :: "run \<Rightarrow> historical \<Rightarrow> est \<Rightarrow> flow" where
  "history_phase r hist s =
     (if r_view r = PossibleView \<and> (hist \<noteq> [] \<or> expired_seed r s)
      then (case closure (r\<lparr>r_in_history := True\<rparr>) HISTORY_INTERVAL (fold add_historical hist s) of
              Inl (e, t) \<Rightarrow> Inl (e, t\<lparr>x_env := x_env s\<rparr>)
            | Inr t \<Rightarrow> Inr (t\<lparr>x_env := x_env s\<rparr>))
      else Inr s)"

section \<open>The intervals\<close>

record interval_record =
  ir_index :: int
  ir_time :: int
  ir_action :: "string option"
  ir_notes :: "action_note list"
  ir_goals :: "fact list"
  ir_reconciled :: "string list"

text \<open>The local variables of \<open>run_view\<close>: the tables, the intervals so far and the last goals.\<close>

record vrun =
  v_est :: est
  v_intervals :: "interval_record list"
  v_goals :: "(fact, derivation) dict"

type_synonym vflow = "(exn \<times> vrun) + vrun"

definition saturate :: "run \<Rightarrow> int \<Rightarrow> string option \<Rightarrow> action_note list \<Rightarrow> string list \<Rightarrow> vrun \<Rightarrow> vflow" where
  "saturate r i label notes created v =
     (case closure r i (v_est v) of
        Inl (e, s) \<Rightarrow> Inl (e, v\<lparr>v_est := s\<rparr>)
      | Inr s \<Rightarrow> Inr \<lparr>v_est = s,
          v_intervals = v_intervals v @ [\<lparr>ir_index = i, ir_time = e_time (x_env s), ir_action = label,
            ir_notes = notes, ir_goals = sort (dkeys (x_eph s)), ir_reconciled = created\<rparr>],
          v_goals = x_eph s\<rparr>)"

definition set_env :: "env \<Rightarrow> vrun \<Rightarrow> vrun" where
  "set_env env v = v\<lparr>v_est := (v_est v)\<lparr>x_env := env\<rparr>\<rparr>"

definition v_env :: "vrun \<Rightarrow> env" where
  "v_env v = x_env (v_est v)"

text \<open>One defender action, the reconciliation it triggers, and the interval after it.\<close>

definition interval_step :: "run \<Rightarrow> int \<Rightarrow> defender_action \<Rightarrow> vrun \<Rightarrow> vflow" where
  "interval_step r i a v =
     (case apply_defender_action (v_env v) a of
        Inl e \<Rightarrow> Inl (ModelErr e, v)
      | Inr (env, notes) \<Rightarrow>
          (case reconcile_controllers env of (env', created) \<Rightarrow>
             saturate r i (Some (act_label a)) notes (map pod_uid created) (set_env env' v)))"

fun main_loop :: "run \<Rightarrow> int \<Rightarrow> defender_action list \<Rightarrow> vrun \<Rightarrow> vflow" where
  "main_loop r i [] v = Inr v"
| "main_loop r i (a # as) v = rbind (interval_step r i a v) (main_loop r (i + 1) as)"

definition full_body :: "run \<Rightarrow> vrun \<Rightarrow> vflow" where
  "full_body r v =
     (case reconcile_controllers (v_env v) of (env', created) \<Rightarrow>
        rbind (saturate r 0 None [] (map pod_uid created) (set_env env' v))
          (main_loop r 1 (inp_remediation (r_inp r))))"

text \<open>The baselines evaluate only the final configuration.\<close>

fun apply_all :: "defender_action list \<Rightarrow> action_note list \<Rightarrow> vrun \<Rightarrow> (exn \<times> vrun) + (action_note list \<times> vrun)" where
  "apply_all [] ns v = Inr (ns, v)"
| "apply_all (a # as) ns v =
     (case apply_defender_action (v_env v) a of
        Inl e \<Rightarrow> Inl (ModelErr e, v)
      | Inr (env, ns') \<Rightarrow> apply_all as (ns @ ns') (set_env (reconcile env) v))"

definition baseline_label :: "defender_action list \<Rightarrow> string option" where
  "baseline_label as = (let l = join ''; '' (map act_label as) in if l = [] then None else Some l)"

definition baseline_body :: "run \<Rightarrow> vrun \<Rightarrow> vflow" where
  "baseline_body r v =
     rbind (apply_all (inp_remediation (r_inp r)) [] v)
       (\<lambda>(notes, v'). saturate r 0 (baseline_label (inp_remediation (r_inp r))) notes [] v')"

definition run_body :: "run \<Rightarrow> historical \<Rightarrow> vrun \<Rightarrow> vflow" where
  "run_body r hist v =
     (case history_phase r hist (v_est v) of
        Inl (e, s) \<Rightarrow> Inl (e, v\<lparr>v_est := s\<rparr>)
      | Inr s \<Rightarrow>
          if r_mode r = ModeFinalState \<or> r_mode r = ModeSnapshot
          then baseline_body r (v\<lparr>v_est := s\<rparr>) else full_body r (v\<lparr>v_est := s\<rparr>))"

section \<open>The outcome of a view\<close>

record view_outcome =
  vo_view :: view
  vo_goals_final :: "(fact, derivation) dict"
  vo_derivations :: "(fact, derivation) dict"
  vo_credentials :: "(string, credential_spec) dict"
  vo_intervals :: "interval_record list"
  vo_unknowns :: "unknown list"
  vo_bounds_exceeded :: bool
  vo_final_env :: env
  vo_derivation_count :: int

definition sorted_items :: "('k::linorder, 'v) dict \<Rightarrow> 'v list" where
  "sorted_items d = map (\<lambda>k. the (dget d k)) (sort (dkeys d))"

definition outcome :: "run \<Rightarrow> vrun \<Rightarrow> bool \<Rightarrow> view_outcome" where
  "outcome r v exceeded = \<lparr>vo_view = r_view r, vo_goals_final = v_goals v,
     vo_derivations = x_facts (v_est v), vo_credentials = x_creds (v_est v),
     vo_intervals = v_intervals v, vo_unknowns = sorted_items (x_unknowns (v_est v)),
     vo_bounds_exceeded = exceeded, vo_final_env = v_env v, vo_derivation_count = x_count (v_est v)\<rparr>"

definition the_run :: "analysis_input \<Rightarrow> view \<Rightarrow> mode \<Rightarrow> run" where
  "the_run inp vw md = \<lparr>r_inp = inp, r_view = vw, r_mode = md, r_in_history = False\<rparr>"

definition run_view :: "analysis_input \<Rightarrow> view \<Rightarrow> mode \<Rightarrow> exn + view_outcome" where
  "run_view inp vw md =
     (let r = the_run inp vw md in
      case initial r of
        Inl e \<Rightarrow> Inl (ModelErr e)
      | Inr (s, hist) \<Rightarrow>
          (case run_body r hist \<lparr>v_est = s, v_intervals = [], v_goals = []\<rparr> of
             Inr v \<Rightarrow> Inr (outcome r v False)
           | Inl (e, v) \<Rightarrow> if e = BoundsExceeded then Inr (outcome r v True) else Inl e))"

section \<open>Witnesses\<close>

text \<open>
  \<open>ViewOutcome.witness\<close>: the derivations behind a goal, premises first. The recursion follows the
  premises of facts not seen yet; fuel bounds its depth (\<open>None\<close>: used up) and \<open>witness\<close> gives it
  one step for every fact there is, which is enough (\<open>visit_enough\<close>).
\<close>

type_synonym visit = "fact list \<times> derivation list"

fun visit :: "nat \<Rightarrow> (fact, derivation) dict \<Rightarrow> (fact, derivation) dict \<Rightarrow> fact \<Rightarrow> visit \<Rightarrow> exn option + visit" where
  "visit 0 ds table f st = Inl None"
| "visit (Suc n) ds table f st =
     (case st of (seen, out) \<Rightarrow>
       if f \<in> set seen then Inr st
       else (case (case dget table f of Some d \<Rightarrow> Some d | None \<Rightarrow> dget ds f) of
           None \<Rightarrow> Inl (Some (KeyError (concat (fact_tuple f))))
         | Some d \<Rightarrow>
             rbind (for_each (visit n ds ds) (der_premises d) (f # seen, out))
               (\<lambda>(seen', out'). Inr (seen', out' @ [d]))))"

definition witness :: "view_outcome \<Rightarrow> fact \<Rightarrow> exn option + derivation list" where
  "witness vo goal =
     rbind (visit (length (vo_derivations vo) + 3) (vo_derivations vo) (vo_goals_final vo) goal ([], []))
       (\<lambda>(seen, out). Inr out)"

section \<open>Objectives and legitimate operations\<close>

fun objective_goal :: "goal_target \<Rightarrow> fact" where
  "objective_goal (NoSecretRead ns n) = CanReadSecret ns n"
| "objective_goal (NoDownstreamUse s) = CanUseDownstream s"

record legit_entry =
  le_id :: string
  le_kind :: string
  le_preserved :: bool
  le_detail :: legit_reason
  le_description :: string

fun legit_kind :: "legit_target \<Rightarrow> string" where
  "legit_kind (LegitReadSecret _ _) = ''read_secret''"
| "legit_kind (LegitUseDownstream _) = ''use_downstream''"

definition legit_one :: "env \<Rightarrow> legitimate_operation \<Rightarrow> legit_entry" where
  "legit_one env op =
     (case (case leg_target op of
              LegitReadSecret ns n \<Rightarrow> legit_can_read env (leg_pod_uid op) ns n
            | LegitUseDownstream s \<Rightarrow> legit_can_use_service env (leg_pod_uid op) s) of
        (ok, why) \<Rightarrow> \<lparr>le_id = leg_id op, le_kind = legit_kind (leg_target op), le_preserved = ok,
          le_detail = why, le_description = leg_description op\<rparr>)"

definition legit_status :: "analysis_input \<Rightarrow> env \<Rightarrow> legit_entry list" where
  "legit_status inp env = map (legit_one env) (inp_legitimate_operations inp)"

end
