(* ===== verification/Provenance.thy ===== *)
theory Provenance
  imports World Run
begin

text \<open>
  The provenance hyperedges: every premise of a recorded derivation is itself recorded, and when
  credential ids are unambiguous it was recorded earlier, so that \<open>ViewOutcome.witness\<close> returns the
  derivations of a goal with the premises first.
\<close>

section \<open>Premises are recorded\<close>

definition closed :: "est \<Rightarrow> bool" where
  "closed s \<longleftrightarrow> (\<forall>f d. dget (x_facts s) f = Some d \<or> dget (x_eph s) f = Some d \<longrightarrow>
     (\<forall>p \<in> set (der_premises d). dmem p (x_facts s)))"

lemma object_premises_recorded:
  assumes "est_inv s" and "dget (e_pods (x_env s)) u = Some p" and "q \<in> set (object_premises p)"
  shows "dmem q (x_facts s)"
proof -
  note I = est_invD[OF assms(1)]
  have u: "pod_uid p = u" using env_invD(3)[OF I(2)] assms(2) by (auto dest: keyed_dget)
  consider c where "pod_controller_uid p = Some c" "starts_with c MODEL_DEPLOY_PREFIX" "q = ControlsController c"
    | "starts_with u MODEL_POD_PREFIX" "q = ControlsPod u"
    using assms(3) u by (auto simp: object_premises_def split: option.splits if_splits)
  then show ?thesis
  proof cases
    case 1
    with env_invD(2)[OF I(2)] assms(2) have "dmem c (e_controllers (x_env s))"
      unfolding refs_ok_def by blast
    then obtain ct where "dget (e_controllers (x_env s)) c = Some ct" by auto
    with owned_simps(2)[OF I(3)] 1 show ?thesis by blast
  next
    case 2
    with owned_simps(1)[OF I(3) assms(2)] show ?thesis by simp
  qed
qed

lemma derivable_premises:
  assumes "derivable r i s d" and "est_inv s"
  shows "\<forall>p \<in> set (der_premises d). dmem p (x_facts s)"
  using assms(1)
proof (cases rule: derivable.cases)
  case (exec_pod cid c uc u p via)
  then show ?thesis
    using object_premises_recorded[OF assms(2) exec_pod(3)] by (auto simp: holds_usable_def)
qed (auto simp: holds_usable_def)

lemma closed_put:
  assumes "closed s" and "\<forall>p \<in> set (der_premises d). dmem p (x_facts s)"
  shows "closed (put_fact d s)"
  using assms unfolding closed_def put_fact_def by (auto split: if_splits)

lemma closed_frame:
  assumes "closed s" and "x_facts t = x_facts s" "x_eph t = x_eph s"
  shows "closed t"
  using assms by (simp add: closed_def)

lemma closed_learn:
  assumes "closed s" and "\<forall>p \<in> set (der_premises d). dmem p (x_facts s)"
  shows "closed (learn d s)"
  using assms closed_put[of "s\<lparr>x_count := x_count s + 1\<rparr>" d]
  by (simp add: learn_def closed_frame[of s])

lemma holds_usable_fact: "holds_usable r s cid c uc \<Longrightarrow> dmem (Possesses cid) (x_facts s)"
  by (simp add: holds_usable_def)

lemma att_step_closed: "att_step r i s t \<Longrightarrow> est_inv s \<Longrightarrow> closed s \<Longrightarrow> closed t"
proof (induction rule: att_step.induct)
  case (learn st d)
  show ?case by (rule closed_learn[OF learn(3) derivable_premises[OF learn(1,2)]])
next
  case (token u st p sa auds aud e)
  show ?case
    unfolding obtain_token_def
    by (rule closed_put[OF closed_frame[OF token(9)]]) (use token(1) in \<open>simp_all add: token_derivation_def\<close>)
next
  case (create_pod st cid c uc ns sa)
  show ?case
    by (rule closed_learn[OF closed_frame[OF create_pod(4)]])
       (use create_pod(1) in \<open>auto simp: may_create_def holds_usable_def\<close>)
next
  case (create_controller st cid c uc ns sa)
  show ?case
    by (rule closed_learn[OF closed_frame[OF create_controller(4)]])
       (use create_controller(1) in \<open>auto simp: may_create_def holds_usable_def\<close>)
next
  case (remark st k u)
  show ?case by (rule closed_frame[OF remark(2)]) simp_all
qed

section \<open>Premises come first\<close>

fun premises_first :: "fact set \<Rightarrow> derivation list \<Rightarrow> bool" where
  "premises_first S [] = True"
| "premises_first S (d # ds) \<longleftrightarrow> set (der_premises d) \<subseteq> S \<and> premises_first (insert (der_fact d) S) ds"

lemma premises_first_append [simp]:
  "premises_first S (xs @ ys) \<longleftrightarrow> premises_first S xs \<and> premises_first (S \<union> der_fact ` set xs) ys"
  by (induction xs arbitrary: S) (auto simp: Un_commute insert_commute)

lemma premises_first_update:
  assumes "premises_first S (dvals t)" and "dget t f = Some d" and "\<forall>(k, v) \<in> set t. der_fact v = k"
    and "der_premises d' = der_premises d" "der_fact d' = f"
  shows "premises_first S (dvals (dset f d' t))"
  using assms(1-3)
proof (induction t arbitrary: S)
  case (Cons e t)
  then show ?case using assms(4,5) by (cases e) (auto split: if_splits)
qed simp

text \<open>The token of a pod has the pod as its only premise, also when it is renewed.\<close>

definition token_premises :: "est \<Rightarrow> bool" where
  "token_premises s \<longleftrightarrow> (\<forall>u aud d. delimited u \<longrightarrow>
     dget (x_facts s) (Possesses (projected_id u aud)) = Some d \<longrightarrow> der_premises d = [ControlsPod u])"

definition chronological :: "est \<Rightarrow> bool" where
  "chronological s \<longleftrightarrow> premises_first {} (dvals (x_facts s)) \<and> token_premises s"

lemma facts_of_dvals: "keyed der_fact t \<Longrightarrow> der_fact ` set (dvals t) = set (dkeys t)"
  by (force simp: keyed_def image_iff)

lemma chronological_put_new:
  assumes "chronological s" and "est_ok s" and "\<not> known (der_fact d) s"
    and "\<forall>p \<in> set (der_premises d). dmem p (x_facts s)"
    and "\<And>u aud. delimited u \<Longrightarrow> der_fact d = Possesses (projected_id u aud) \<Longrightarrow> der_premises d = [ControlsPod u]"
  shows "chronological (put_fact d s)"
proof (cases "persistent (der_fact d)")
  case True
  with assms(3) have "dset (der_fact d) d (x_facts s) = x_facts s @ [(der_fact d, d)]"
    by (simp add: known_def dset_fresh)
  moreover have "set (der_premises d) \<subseteq> der_fact ` set (dvals (x_facts s))"
    unfolding facts_of_dvals[OF est_ok_parts(2)[OF assms(2)]] using assms(4) by (auto simp: mem_dkeys[folded set_map])
  ultimately show ?thesis
    using assms(1,5) assms(5)[OF _ sym] True by (auto simp: chronological_def put_fact_def token_premises_def map_add_def split: option.splits)
qed (use assms(1) in \<open>simp add: chronological_def put_fact_def token_premises_def\<close>)

lemma chronological_frame: "chronological s \<Longrightarrow> x_facts t = x_facts s \<Longrightarrow> chronological t"
  by (simp add: chronological_def token_premises_def)

lemma chronological_learn:
  assumes "chronological s" and "est_ok s" and "\<forall>p \<in> set (der_premises d). dmem p (x_facts s)"
    and "\<And>cid. der_fact d \<noteq> Possesses cid"
  shows "chronological (learn d s)"
proof (cases "known (der_fact d) s")
  case False
  let ?s = "s\<lparr>x_count := x_count s + 1\<rparr>"
  have "chronological (put_fact d ?s)"
    by (rule chronological_put_new) (use assms False in \<open>auto simp: chronological_frame[of s] est_ok_def known_def\<close>)
  with False show ?thesis by (simp add: learn_def)
qed (use assms in \<open>simp add: learn_def\<close>)

lemma derivable_not_possesses: "derivable r i s d \<Longrightarrow> der_fact d \<noteq> Possesses cid"
  by (auto elim: derivable.cases)

lemma att_step_chronological:
  assumes "att_step r i s t" and "est_inv s" and "\<forall>u. dmem u (e_pods (x_env s)) \<longrightarrow> delimited u" and "chronological s"
  shows "chronological t"
  using assms(1)
proof (cases rule: att_step.cases)
  case (learn d)
  show ?thesis unfolding learn(1)
    by (rule chronological_learn[OF assms(4)])
       (use est_invD(1)[OF assms(2)] derivable_premises[OF learn(2) assms(2)] derivable_not_possesses[OF learn(2)] in auto)
next
  case (token u p sa auds aud e)
  let ?cid = "projected_id (pod_uid p) aud" and ?d = "token_derivation i (ControlsPod u) p sa aud e"
  let ?s = "s\<lparr>x_creds := dset ?cid (projected_cred p sa aud e) (x_creds s), x_count := x_count s + 1\<rparr>"
  note I = est_invD[OF assms(2)]
  have u: "pod_uid p = u" using env_invD(3)[OF I(2)] token(3) by (auto dest: keyed_dget)
  have du: "delimited u" using assms(3) token(3) by auto
  have d: "der_fact ?d = Possesses ?cid" "der_premises ?d = [ControlsPod u]" by (simp_all add: token_derivation_def)
  have t: "t = put_fact ?d ?s" by (simp add: token(1) obtain_token_def)
  show ?thesis
  proof (cases "dget (x_facts s) (Possesses ?cid)")
    case None
    have "chronological (put_fact ?d ?s)"
    proof (rule chronological_put_new)
      show "chronological ?s" by (rule chronological_frame[OF assms(4)]) simp
      show "est_ok ?s" using I(1) by (auto simp: est_ok_def keyed_dset projected_cred_def intro: fact_backed_mono[where cs = "x_creds s"])
      show "der_premises ?d = [ControlsPod v]" if "delimited v" "der_fact ?d = Possesses (projected_id v aud')" for v aud'
        using that du u d projected_id_inject[of u aud v aud'] by auto
    qed (use None d token(2) in \<open>auto simp: known_def\<close>)
    then show ?thesis by (simp add: t)
  next
    case (Some old)
    have old: "der_premises old = [ControlsPod u]"
      using assms(4) du Some u unfolding chronological_def token_premises_def by blast
    have "premises_first {} (dvals (dset (Possesses ?cid) ?d (x_facts s)))"
      by (rule premises_first_update[OF _ Some])
         (use assms(4) est_ok_parts(2)[OF I(1)] old d in \<open>auto simp: chronological_def keyed_def\<close>)
    moreover have "token_premises t"
      unfolding token_premises_def
    proof (intro allI impI)
      fix v aud' d' assume v: "delimited v" and d': "dget (x_facts t) (Possesses (projected_id v aud')) = Some d'"
      show "der_premises d' = [ControlsPod v]"
      proof (cases "projected_id v aud' = ?cid")
        case True
        with projected_id_inject[of v aud' u aud] v du u have "v = u" by simp
        with d' d True show ?thesis by (simp add: t put_fact_def)
      next
        case False
        with d' d have "dget (x_facts s) (Possesses (projected_id v aud')) = Some d'" by (simp add: t put_fact_def)
        with v assms(4) show ?thesis unfolding chronological_def token_premises_def by blast
      qed
    qed
    ultimately show ?thesis by (simp add: chronological_def t put_fact_def d)
  qed
next
  case (create_pod cid c uc ns sa)
  show ?thesis unfolding create_pod(1)
    by (rule chronological_learn[OF chronological_frame[OF assms(4)]])
       (use est_invD(1)[OF assms(2)] env_invD(1)[OF est_invD(2)[OF assms(2)]] create_pod(2) in
          \<open>auto simp: may_create_def holds_usable_def intro!: est_ok_env env_add_pod_ok\<close>)
next
  case (create_controller cid c uc ns sa)
  show ?thesis unfolding create_controller(1)
    by (rule chronological_learn[OF chronological_frame[OF assms(4)]])
       (use est_invD(1)[OF assms(2)] env_invD(1)[OF est_invD(2)[OF assms(2)]] create_controller(2) in
          \<open>auto simp: may_create_def holds_usable_def intro!: est_ok_env env_add_controller_ok\<close>)
next
  case (remark k u)
  show ?thesis by (rule chronological_frame[OF assms(4)]) (simp add: remark)
qed

section \<open>The witness\<close>

lemma visit_succeeds:
  assumes closed: "\<And>f d p. dget ds f = Some d \<Longrightarrow> p \<in> set (der_premises d) \<Longrightarrow> dmem p ds"
  shows "dmem f ds \<Longrightarrow> card (set (dkeys ds) - set (fst st)) < n \<Longrightarrow>
    \<exists>st'. visit n ds ds f st = Inr st' \<and> set (fst st) \<subseteq> set (fst st')"
proof (induction n arbitrary: f st)
  case (Suc n)
  obtain seen out where st: "st = (seen, out)" by (cases st)
  show ?case
  proof (cases "f \<in> set seen")
    case False
    obtain d where d: "dget ds f = Some d" using Suc.prems(1) by auto
    have "f \<in> set (dkeys ds)" using d by (rule dget_SomeD)
    with False have "card (set (dkeys ds) - insert f (set seen)) < card (set (dkeys ds) - set seen)"
      by (intro psubset_card_mono) blast+
    with Suc.prems(2) st have lt: "card (set (dkeys ds) - insert f (set seen)) < n"
      by simp
    have loop: "\<exists>st'. for_each (visit n ds ds) ps a = Inr st' \<and> set (fst a) \<subseteq> set (fst st')"
      if "set ps \<subseteq> set (der_premises d)" "insert f (set seen) \<subseteq> set (fst a)" for ps a
      using that
    proof (induction ps arbitrary: a)
      case (Cons q ps)
      have "card (set (dkeys ds) - set (fst a)) \<le> card (set (dkeys ds) - insert f (set seen))"
        using Cons.prems(2) by (intro card_mono) auto
      with Suc.IH[of q a] lt closed[OF d, of q] Cons.prems(1) obtain b where
          b: "visit n ds ds q a = Inr b" "set (fst a) \<subseteq> set (fst b)" by auto
      have "set ps \<subseteq> set (der_premises d)" "insert f (set seen) \<subseteq> set (fst b)"
        using Cons.prems b(2) by auto
      from Cons.IH[OF this] obtain c where "for_each (visit n ds ds) ps b = Inr c" "set (fst b) \<subseteq> set (fst c)"
        by blast
      with b show ?case by (intro exI[of _ c]) auto
    qed simp
    from loop[of "der_premises d" "(f # seen, out)"] obtain st' where
        "for_each (visit n ds ds) (der_premises d) (f # seen, out) = Inr st'" "insert f (set seen) \<subseteq> set (fst st')"
      by auto
    with False d st show ?thesis by (cases st') auto
  qed (use st in simp)
qed simp

text \<open>
  What a visit adds: derivations of the table, each after its premises. Facts seen earlier and not
  yet listed are the ones on the way to \<open>f\<close>; they rank higher, so no premise is one of them.
\<close>

definition listed :: "visit \<Rightarrow> fact set" where
  "listed st = der_fact ` set (snd st)"

definition visited :: "visit \<Rightarrow> visit \<Rightarrow> bool" where
  "visited st st' \<longleftrightarrow> set (fst st) \<subseteq> set (fst st') \<and> set (fst st') \<subseteq> set (fst st) \<union> listed st' \<and> listed st \<subseteq> listed st' \<and>
     (premises_first {} (snd st) \<longrightarrow> premises_first {} (snd st'))"

lemma visited_refl [simp]: "visited st st"
  by (simp add: visited_def)

lemma visited_trans: "visited a b \<Longrightarrow> visited b c \<Longrightarrow> visited a c"
  unfolding visited_def by blast

definition settled :: "(fact \<Rightarrow> nat) \<Rightarrow> nat \<Rightarrow> visit \<Rightarrow> bool" where
  "settled rank k st \<longleftrightarrow> (\<forall>g \<in> set (fst st). rank g < k \<longrightarrow> g \<in> listed st)"

lemma settled_visited: "settled rank k st \<Longrightarrow> visited st st' \<Longrightarrow> settled rank k st'"
  unfolding settled_def visited_def by blast

lemma visit_correct:
  assumes ranked: "\<And>f d p. dget ds f = Some d \<Longrightarrow> p \<in> set (der_premises d) \<Longrightarrow> rank p < rank f"
    and keyed: "\<And>f d. dget ds f = Some d \<Longrightarrow> der_fact d = f"
    and tab: "\<And>f d. dget table f = Some d \<Longrightarrow> der_fact d = f \<and> (\<forall>p \<in> set (der_premises d). rank p < rank f)"
  shows "visit n ds table f st = Inr st' \<Longrightarrow> settled rank (Suc (rank f)) st \<Longrightarrow> visited st st' \<and> f \<in> listed st'"
  using tab
proof (induction n arbitrary: f table st st')
  case (Suc n)
  obtain seen out where st: "st = (seen, out)" by (cases st)
  show ?case
  proof (cases "f \<in> set seen")
    case True
    with Suc.prems st show ?thesis by (auto simp: settled_def)
  next
    case False
    with Suc.prems(1) st obtain d seen' out' where
        d: "(case dget table f of Some d \<Rightarrow> Some d | None \<Rightarrow> dget ds f) = Some d"
      and run: "for_each (visit n ds ds) (der_premises d) (f # seen, out) = Inr (seen', out')"
      and st': "st' = (seen', out' @ [d])"
      by (auto simp: rbind_Inr split: option.splits)
    have df: "der_fact d = f" and lower: "\<forall>p \<in> set (der_premises d). rank p < rank f"
      using d Suc.prems(3)[of f d] keyed[of f d] ranked[of f d] by (auto split: option.splits)
    have start: "settled rank (rank f) (f # seen, out)"
      using Suc.prems(2) st by (auto simp: settled_def listed_def)
    have loop: "visited a b \<and> set ps \<subseteq> listed b" if "for_each (visit n ds ds) ps a = Inr b"
      "set ps \<subseteq> set (der_premises d)" "settled rank (rank f) a" for ps a b
      using that
    proof (induction ps arbitrary: a)
      case (Cons q ps)
      from Cons.prems(1) obtain c where c: "visit n ds ds q a = Inr c" "for_each (visit n ds ds) ps c = Inr b"
        by (auto simp: rbind_Inr)
      have "settled rank (Suc (rank q)) a"
        using Cons.prems(2,3) lower by (fastforce simp: settled_def)
      with Suc.IH[OF c(1)] keyed ranked have q: "visited a c" "q \<in> listed c" by blast+
      with Cons.IH[OF c(2)] Cons.prems settled_visited[OF Cons.prems(3) q(1)] show ?case
        by (auto intro: visited_trans simp: visited_def)
    qed simp
    from loop[OF run subset_refl start] have "visited (f # seen, out) (seen', out')" "set (der_premises d) \<subseteq> listed (seen', out')"
      by simp_all
    then show ?thesis
      using st st' df by (auto simp: visited_def listed_def)
  qed
qed simp

end
