(* ===== verification/Run_Correct.thy ===== *)
theory Run_Correct
  imports Provenance
begin

text \<open>
  A view never fails on a parsed input: \<open>run_view\<close> raises nothing, and the tables it answers with
  are backed by their premises, also when the bound on derivations cut the run short. The witness
  of every goal is then found; with unambiguous names it lists premises first.
\<close>

section \<open>Names of an environment\<close>

definition well_named :: "string \<Rightarrow> bool" where
  "well_named c \<longleftrightarrow> plain c \<or> (\<exists>ns sa i. plain ns \<and> plain sa \<and> c = model_controller_uid ns sa i)"

definition plain_env :: "env \<Rightarrow> bool" where
  "plain_env env \<longleftrightarrow> accounts_plain env \<and> (\<forall>u. dmem u (e_pods env) \<longrightarrow> delimited u) \<and>
     (\<forall>c. dmem c (e_controllers env) \<longrightarrow> well_named c)"

lemma str_of_int_last: "is_digit (last (str_of_int k))"
  using str_of_nat_digits[OF last_in_set[OF str_of_nat_nonempty]] by (auto simp: str_of_int_def)

lemma numbered_last: "is_digit (last (numbered c k))"
  using str_of_int_last[of k] by (simp add: numbered_def)

lemma numbered_delimited:
  assumes "well_named c"
  shows "delimited (numbered c k)"
  using assms unfolding well_named_def
proof (elim disjE exE conjE)
  assume "plain c"
  then have "plain (numbered c k)" by (simp add: numbered_def)
  moreover have "numbered c k \<noteq> ''model-pod''" "numbered c k \<noteq> ''model-deploy''"
    using numbered_last[of c k] by (auto simp: is_digit_def)
  ultimately show ?thesis by (simp add: delimited_def)
qed simp

lemma plain_env_shrink:
  assumes "plain_env env"
    and "\<And>k. dmem k (e_service_accounts env') \<Longrightarrow> dmem k (e_service_accounts env)"
    and "\<And>u. dmem u (e_pods env') \<Longrightarrow> dmem u (e_pods env) \<or> delimited u"
    and "\<And>c. dmem c (e_controllers env') \<Longrightarrow> dmem c (e_controllers env) \<or> well_named c"
  shows "plain_env env'"
  using assms unfolding plain_env_def accounts_plain_def by meson

lemma effect_accounts: "dget (e_service_accounts (apply_effect e env)) k = Some a \<Longrightarrow> dget (e_service_accounts env) k = Some a"
  by (cases e) (auto simp: rotate_def Let_def split: option.splits if_splits)

lemma plain_env_effect: "env_ok env \<Longrightarrow> plain_env env \<Longrightarrow> plain_env (apply_effect e env)"
  by (erule plain_env_shrink) (auto dest: effect_accounts effect_pods effect_controllers)

lemma plain_env_reconcile:
  assumes "plain_env env"
  shows "plain_env (reconcile env)"
proof (rule plain_env_shrink[OF assms])
  fix u assume "dmem u (e_pods (reconcile env))"
  then obtain p where p: "dget (e_pods (reconcile env)) u = Some p" by auto
  show "dmem u (e_pods env) \<or> delimited u"
  proof (cases "dget (e_pods env) u")
    case None
    obtain c ct k where "dget (e_controllers env) c = Some ct" "u = numbered c k"
      by (rule reconcile_new_pod[OF p None])
    with assms numbered_delimited show ?thesis by (auto simp: plain_env_def)
  qed simp
qed simp_all

lemma plain_env_add_pod: "plain_env env \<Longrightarrow> delimited (pod_uid p) \<Longrightarrow> plain_env (env_add_pod p env)"
  by (erule plain_env_shrink) (auto simp: env_add_pod_def split: if_splits)

lemma plain_env_add_controller: "plain_env env \<Longrightarrow> well_named (ctrl_uid c) \<Longrightarrow> plain_env (env_add_controller c env)"
  unfolding env_add_controller_def
  by (rule plain_env_reconcile, erule plain_env_shrink) (auto split: if_splits)

lemma att_step_plain: "att_step r i s t \<Longrightarrow> plain_env (x_env s) \<Longrightarrow> plain_env (x_env t)"
proof (induction rule: att_step.induct)
  case (create_pod st cid c uc ns sa)
  then have "plain ns" "plain sa" by (auto simp: may_create_def plain_env_def accounts_plain_def)
  with create_pod(3) show ?case by (simp add: plain_env_add_pod model_pod_def)
next
  case (create_controller st cid c uc ns sa)
  then have "plain ns" "plain sa" by (auto simp: may_create_def plain_env_def accounts_plain_def)
  then have "well_named (ctrl_uid (model_controller ns sa i))" by (auto simp: well_named_def model_controller_def)
  with create_controller(3) show ?case by (simp add: plain_env_add_controller)
qed (simp_all add: obtain_token_def)

section \<open>The invariant of a run\<close>

text \<open>\<open>b\<close> says whether the names of the input are unambiguous.\<close>

definition sound :: "bool \<Rightarrow> est \<Rightarrow> bool" where
  "sound b s \<longleftrightarrow> est_inv s \<and> closed s \<and> (b \<longrightarrow> plain_env (x_env s) \<and> chronological s)"

lemma sound_step: "att_step r i s t \<Longrightarrow> sound b s \<Longrightarrow> sound b t"
  using att_step_inv[of r i s t] att_step_closed[of r i s t] att_step_plain[of r i s t] att_step_chronological[of r i s t]
  unfolding sound_def plain_env_def by blast

lemma sound_tables:
  assumes "sound b s" and "x_env t = x_env s" "x_facts t = x_facts s" "x_creds t = x_creds s"
    and "x_eph t = x_eph s \<or> x_eph t = []"
  shows "sound b t"
proof -
  have I: "est_ok s" "env_inv (x_env s)" "owned s" "closed s" "b \<Longrightarrow> plain_env (x_env s)" "b \<Longrightarrow> chronological s"
    using assms(1) by (simp_all add: sound_def est_inv_def)
  have "est_ok t" using I(1) assms(2-5) by (elim disjE) (simp_all add: est_ok_def)
  moreover have "owned t" using I(3) assms(2-4) by (simp add: owned_def)
  moreover have "closed t" using I(4) assms(3,5) by (elim disjE) (simp_all add: closed_def)
  moreover have "chronological t" if b by (rule chronological_frame[OF I(6)[OF that] assms(3)])
  ultimately show ?thesis using I(2,5) assms(2) by (simp add: sound_def est_inv_def)
qed

lemma sound_clean: "sound b s \<Longrightarrow> sound b (clean s)"
  by (erule sound_tables) simp_all

lemma sound_no_eph: "sound b s \<Longrightarrow> sound b (no_eph s)"
  by (erule sound_tables) simp_all

lemma sound_sat_run: "sat_run r i s t \<Longrightarrow> sound b s \<Longrightarrow> sound b t"
  by (rule sat_run_keeps[of r i s t "sound b"]) (auto intro: sound_step sound_clean)

lemma sound_closure: "closure r i s = Inr t \<Longrightarrow> sound b s \<Longrightarrow> sound b t"
  by (rule sound_sat_run[OF closure_run]) (auto intro: sound_no_eph)

lemma sound_env:
  assumes "sound b s" and "env_inv env" and "b \<longrightarrow> plain_env env"
    and "\<And>u. dmem u (e_pods env) \<Longrightarrow> dmem u (e_pods (x_env s)) \<or> \<not> starts_with u MODEL_POD_PREFIX"
    and "\<And>u. dmem u (e_controllers env) \<Longrightarrow> dmem u (e_controllers (x_env s))"
  shows "sound b (s\<lparr>x_env := env\<rparr>)"
proof -
  have "owned (s\<lparr>x_env := env\<rparr>)"
    by (rule owned_env[of s]) (use assms in \<open>auto simp: sound_def est_inv_def\<close>)
  then show ?thesis
    using assms(1-3) by (simp add: sound_def est_inv_def est_ok_env env_invD(1) closed_def chronological_def token_premises_def)
qed

lemma sound_defend:
  assumes "sound b s"
  shows "sound b (s\<lparr>x_env := reconcile (apply_effect e (x_env s))\<rparr>)"
proof -
  have inv: "est_inv s" "env_ok (x_env s)" using assms by (auto simp: sound_def est_inv_def env_inv_def)
  have "est_inv (s\<lparr>x_env := reconcile (apply_effect e (x_env s))\<rparr>)" by (rule est_inv_defend[OF inv(1)])
  moreover have "b \<longrightarrow> plain_env (reconcile (apply_effect e (x_env s)))"
    using assms inv(2) by (auto simp: sound_def intro: plain_env_reconcile plain_env_effect)
  ultimately show ?thesis
    using assms by (simp add: sound_def closed_def chronological_def token_premises_def)
qed

lemma sound_reconcile: "sound b s \<Longrightarrow> sound b (s\<lparr>x_env := reconcile (x_env s)\<rparr>)"
  using sound_defend[of b s "EffWait 0"] by simp

section \<open>Initial state and history\<close>

definition plain_uid :: "string \<Rightarrow> bool" where
  "plain_uid u \<longleftrightarrow> plain u \<and> u \<noteq> ''model-pod'' \<and> u \<noteq> ''model-deploy''"

definition PROJECTED_PREFIX :: string where "PROJECTED_PREFIX = ''projected:''"

text \<open>Names without colons, and no seeded credential under an id the engine gives to tokens.\<close>

definition plain_input :: "analysis_input \<Rightarrow> bool" where
  "plain_input inp \<longleftrightarrow>
     (\<forall>a \<in> set (inv_service_accounts (inp_inventory inp)). plain (sa_namespace a) \<and> plain (sa_name a)) \<and>
     (\<forall>p \<in> set (inv_pods (inp_inventory inp)). plain_uid (pod_uid p)) \<and>
     (\<forall>c \<in> set (inv_controllers (inp_inventory inp)). plain (ctrl_uid c)) \<and>
     (\<forall>f \<in> set (inp_initial_facts inp). case if_seed f of SeedHistoricalPod u _ _ \<Rightarrow> plain_uid u | _ \<Rightarrow> True) \<and>
     (\<forall>c \<in> set (inp_credentials inp). \<not> starts_with (cred_id c) PROJECTED_PREFIX)"

lemma plain_uid_delimited: "plain_uid u \<Longrightarrow> delimited u"
  by (simp add: plain_uid_def delimited_def)

lemma from_inventory_plain:
  assumes "inventory_ok (inp_inventory inp)" and "plain_input inp"
  shows "plain_env (from_inventory (inp_inventory inp) t)"
proof -
  note look = from_inventory_lookup[OF assms(1)]
  let ?e = "from_inventory (inp_inventory inp) t"
  have "plain ns \<and> plain sa" if "dmem (ns, sa) (e_service_accounts ?e)" for ns sa
  proof -
    from that obtain a where "a \<in> set (inv_service_accounts (inp_inventory inp))" "sa_key a = (ns, sa)"
      using look(1) by blast
    with assms(2) show ?thesis by (auto simp: plain_input_def)
  qed
  moreover have "delimited u" if "dmem u (e_pods ?e)" for u
  proof -
    from that obtain p where "p \<in> set (inv_pods (inp_inventory inp))" "pod_uid p = u" using look(2) by blast
    with assms(2) show ?thesis by (auto simp: plain_input_def intro: plain_uid_delimited)
  qed
  moreover have "well_named c" if "dmem c (e_controllers ?e)" for c
  proof -
    from that obtain ct where "ct \<in> set (inv_controllers (inp_inventory inp))" "ctrl_uid ct = c" using look(3) by blast
    with assms(2) show ?thesis by (auto simp: plain_input_def well_named_def)
  qed
  ultimately show ?thesis by (simp add: plain_env_def accounts_plain_def)
qed

text \<open>The tables of seeds: every derivation is evidence.\<close>

fun unreserved :: "fact \<Rightarrow> bool" where
  "unreserved (ControlsPod u) = (\<not> reserved_uid u)"
| "unreserved (ControlsController u) = (\<not> reserved_uid u)"
| "unreserved _ = True"

definition seeded :: "bool \<Rightarrow> env \<Rightarrow> est \<Rightarrow> bool" where
  "seeded b env s \<longleftrightarrow> est_ok s \<and> x_env s = env \<and> x_eph s = [] \<and> x_count s = 0 \<and> x_unknowns s = [] \<and>
     (\<forall>cid. dmem cid (x_creds s) \<longrightarrow> dmem (Possesses cid) (x_facts s)) \<and>
     (\<forall>f d. dget (x_facts s) f = Some d \<longrightarrow> der_premises d = [] \<and> der_rule d = R_EVIDENCE \<and> unreserved f) \<and>
     (b \<longrightarrow> (\<forall>cid. dmem (Possesses cid) (x_facts s) \<longrightarrow> \<not> starts_with cid PROJECTED_PREFIX))"

lemma premises_first_evidence: "(\<And>d. d \<in> set ds \<Longrightarrow> der_premises d = []) \<Longrightarrow> premises_first S ds"
  by (induction ds arbitrary: S) simp_all

lemma projected_prefix: "starts_with (projected_id u aud) PROJECTED_PREFIX"
  by (simp add: projected_id_def PROJECTED_PREFIX_def)

lemma seeded_sound:
  assumes "seeded b env s" and "env_inv env" and "b \<longrightarrow> plain_env env"
    and "\<And>u. dmem u (e_pods env) \<Longrightarrow> \<not> starts_with u MODEL_POD_PREFIX"
    and "\<And>u. dmem u (e_controllers env) \<Longrightarrow> \<not> starts_with u MODEL_DEPLOY_PREFIX"
  shows "sound b s"
proof -
  note S = assms(1)[unfolded seeded_def]
  have "owned s" using S assms(4,5) by (auto simp: owned_def)
  moreover have "closed s" using S by (fastforce simp: closed_def)
  moreover have "premises_first {} (dvals (x_facts s))"
  proof (rule premises_first_evidence)
    fix d assume "d \<in> set (dvals (x_facts s))"
    moreover have "keyed der_fact (x_facts s)" using S by (simp add: est_ok_def)
    ultimately have "dget (x_facts s) (der_fact d) = Some d" by (simp only: keyed_dvals)
    then show "der_premises d = []" using S by blast
  qed
  moreover have "token_premises s" if b
    using S that projected_prefix unfolding token_premises_def by fastforce
  ultimately show ?thesis using S assms(2,3) by (simp add: sound_def est_inv_def chronological_def)
qed

lemma evidence_simps [simp]:
  "der_fact (evidence f st ev n) = f" "der_premises (evidence f st ev n) = []" "der_rule (evidence f st ev n) = R_EVIDENCE"
  by (simp_all add: evidence_def)

lemma seeded_fact:
  assumes "seeded b env s" and "persistent x" and "fact_backed (x_creds s) x"
    and "\<And>cid. x \<noteq> Possesses cid" and "unreserved x"
  shows "seeded b env (seed_evidence f x s)"
  using assms
  by (auto simp: seeded_def seed_evidence_def est_ok_def keyed_dset split: if_splits)

lemma seeded_possession:
  assumes "seeded b env s" and "cred_id c = cid" and "b \<longrightarrow> \<not> starts_with cid PROJECTED_PREFIX"
  shows "seeded b env (seed_evidence f (Possesses cid) (s\<lparr>x_creds := dset cid c (x_creds s)\<rparr>))"
proof -
  have "fact_backed (dset cid c (x_creds s)) g" if "fact_backed (x_creds s) g" for g
    using that by (rule fact_backed_mono) auto
  with assms show ?thesis
    by (auto simp: seeded_def seed_evidence_def est_ok_def keyed_dset split: if_splits)
qed

definition hist_ok :: "bool \<Rightarrow> historical \<Rightarrow> bool" where
  "hist_ok b hist \<longleftrightarrow> (\<forall>(u, ns, sa) \<in> set hist. \<not> reserved_uid u \<and> (b \<longrightarrow> plain_uid u))"

lemma initial_body_ok:
  assumes "seed_ok (cred_id ` set (inp_credentials (r_inp r))) (if_seed f)"
    and "b \<longrightarrow> plain_input (r_inp r)" and "f \<in> set (inp_initial_facts (r_inp r))"
    and "seeded b env s" "hist_ok b hist"
  shows "\<exists>s' hist'. initial_body r f (s, hist) = Inr (s', hist') \<and> seeded b env s' \<and> hist_ok b hist'"
proof (cases "skipped r f")
  case False
  show ?thesis
  proof (cases "if_seed f")
    case (SeedPossessesCredential cid)
    from assms(1) SeedPossessesCredential obtain c where c: "inp_credential (r_inp r) cid = Inr c"
      unfolding inp_credential_def by (auto dest!: find_credential_total)
    from find_credential_Inr[OF c[unfolded inp_credential_def]]
    have "c \<in> set (inp_credentials (r_inp r))" "cred_id c = cid" by simp_all
    with assms(2) have "b \<longrightarrow> \<not> starts_with cid PROJECTED_PREFIX" by (auto simp: plain_input_def)
    from seeded_possession[OF assms(4) \<open>cred_id c = cid\<close> this] show ?thesis
      using False SeedPossessesCredential c assms(5) by (simp add: initial_body_def)
  next
    case (SeedHistoricalPod u ns sa)
    have "b \<longrightarrow> plain_uid u"
      using assms(2,3) SeedHistoricalPod by (auto simp: plain_input_def split: seed.splits)
    with False SeedHistoricalPod assms show ?thesis
      by (auto simp: initial_body_def hist_ok_def)
  next
    case (SeedKnowsSecret ns n v)
    with assms(1) obtain k where "py_int v = Some k" by auto
    with False SeedKnowsSecret assms(4,5) show ?thesis
      by (simp add: initial_body_def seeded_fact)
  qed (use False assms(1,4,5) in \<open>simp_all add: initial_body_def seeded_fact\<close>)
qed (use assms(4,5) in \<open>simp add: initial_body_def\<close>)

lemma blank_seeded: "env_ok env \<Longrightarrow> seeded b env (blank env)"
  by (simp add: seeded_def blank_def est_ok_def)

lemma initial_ok:
  assumes "input_ok (r_inp r)" and "b \<longrightarrow> plain_input (r_inp r)"
  obtains s hist where "initial r = Inr (s, hist)" "hist_ok b hist"
    "seeded b (from_inventory (inp_inventory (r_inp r)) (inp_analysis_time (r_inp r))) s"
proof -
  let ?env = "from_inventory (inp_inventory (r_inp r)) (inp_analysis_time (r_inp r))"
  have "\<exists>s hist. for_each (initial_body r) fs (s0, h0) = Inr (s, hist) \<and> seeded b ?env s \<and> hist_ok b hist"
    if "set fs \<subseteq> set (inp_initial_facts (r_inp r))" "seeded b ?env s0" "hist_ok b h0" for fs s0 h0
    using that
  proof (induction fs arbitrary: s0 h0)
    case (Cons f fs)
    have "seed_ok (cred_id ` set (inp_credentials (r_inp r))) (if_seed f)"
      using assms(1) Cons.prems(1) by (simp add: input_ok_def)
    from initial_body_ok[OF this assms(2) _ Cons.prems(2,3)] Cons.prems(1) obtain s' h' where
        "initial_body r f (s0, h0) = Inr (s', h')" "seeded b ?env s'" "hist_ok b h'" by auto
    with Cons.IH[of s' h'] Cons.prems(1) show ?case by simp
  qed simp
  from this[of "inp_initial_facts (r_inp r)" "blank ?env" "[]"] that show thesis
    by (auto simp: initial_def blank_seeded from_inventory_ok hist_ok_def)
qed

text \<open>Historical pods: more pods in the scratch environment, more evidence.\<close>

lemma sound_historical:
  assumes "sound b s" and "\<not> reserved_uid u" and "b \<longrightarrow> plain_uid u"
  shows "sound b (add_historical (u, ns, sa) s)"
proof -
  let ?t = "add_historical (u, ns, sa) s" and ?e = "evidence (ControlsPod u) Observed [] ''historically controlled pod''"
  let ?env = "if dmem u (e_pods (x_env s)) then x_env s else env_add_pod (historical_pod u ns sa) (x_env s)"
  have S: "est_ok s" "env_inv (x_env s)" "owned s" "closed s" and P: "b \<Longrightarrow> plain_env (x_env s)" "b \<Longrightarrow> chronological s"
    using assms(1) by (simp_all add: sound_def est_inv_def)
  have t: "x_env ?t = ?env" "x_creds ?t = x_creds s" "x_eph ?t = x_eph s"
      "x_facts ?t = setdefault (ControlsPod u) ?e (x_facts s)"
    by (simp_all add: add_historical_def)
  have env: "env_inv ?env" "b \<longrightarrow> plain_env ?env"
    using S(2) P(1) assms(3) env_inv_add_pod[of "x_env s" "historical_pod u ns sa"]
      plain_env_add_pod[of "x_env s" "historical_pod u ns sa"] plain_uid_delimited[of u]
    by (auto simp: historical_pod_def)
  have facts: "dmem f (x_facts ?t)" if "dmem f (x_facts s)" for f
    using that by (auto simp: t dget_setdefault)
  have "est_ok ?t"
    using S(1) env(1) unfolding est_ok_def t setdefault_def
    by (auto simp: env_inv_def keyed_dset split: if_splits)
  moreover have "owned ?t"
  proof (rule owned_env[of s])
    fix v assume "dmem v (e_pods (x_env ?t))"
    then show "dmem v (e_pods (x_env s)) \<or> \<not> starts_with v MODEL_POD_PREFIX \<or> dmem (ControlsPod v) (x_facts ?t)"
      using assms(2) by (auto simp: t env_add_pod_def historical_pod_def reserved_uid_def split: if_splits)
  next
    fix v assume "dmem v (e_controllers (x_env ?t))"
    then show "dmem v (e_controllers (x_env s)) \<or> \<not> starts_with v MODEL_DEPLOY_PREFIX \<or> dmem (ControlsController v) (x_facts ?t)"
      by (auto simp: t env_add_pod_def split: if_splits)
  qed (use S(3) facts t in auto)
  moreover have "closed ?t"
    unfolding closed_def
  proof (intro allI impI ballI)
    fix f d p assume fd: "dget (x_facts ?t) f = Some d \<or> dget (x_eph ?t) f = Some d" and p: "p \<in> set (der_premises d)"
    have "dget (x_facts s) f = Some d \<or> dget (x_eph s) f = Some d"
      using fd p by (auto simp: t dget_setdefault split: if_splits)
    with S(4) p have "dmem p (x_facts s)" unfolding closed_def by blast
    then show "dmem p (x_facts ?t)" by (rule facts)
  qed
  moreover have "chronological ?t" if b
  proof (cases "dmem (ControlsPod u) (x_facts s)")
    case True
    then have "x_facts ?t = x_facts s" by (simp add: t setdefault_def)
    then show ?thesis by (rule chronological_frame[OF P(2)[OF that]])
  next
    case False
    then have "x_facts ?t = x_facts s @ [(ControlsPod u, ?e)]" by (simp add: t setdefault_def dset_fresh)
    with P(2)[OF that] show ?thesis
      by (auto simp: chronological_def token_premises_def map_add_def split: option.splits)
  qed
  ultimately show ?thesis using env t by (simp add: sound_def est_inv_def)
qed

lemma sound_all_historical: "hist_ok b hist \<Longrightarrow> sound b s \<Longrightarrow> sound b (fold add_historical hist s)"
  by (induction hist arbitrary: s) (auto simp: hist_ok_def sound_historical)

section \<open>The intervals\<close>

text \<open>What the tables of an answer satisfy.\<close>

definition tables_ok :: "bool \<Rightarrow> (fact, derivation) dict \<Rightarrow> (fact, derivation) dict \<Rightarrow> bool" where
  "tables_ok b facts goals \<longleftrightarrow> keyed der_fact facts \<and> keyed der_fact goals \<and>
     (\<forall>f. dmem f facts \<longrightarrow> persistent f) \<and> (\<forall>f. dmem f goals \<longrightarrow> \<not> persistent f) \<and>
     (\<forall>f d. dget facts f = Some d \<or> dget goals f = Some d \<longrightarrow> (\<forall>p \<in> set (der_premises d). dmem p facts)) \<and>
     (b \<longrightarrow> premises_first {} (dvals facts))"

lemma sound_tables_ok:
  assumes "sound b s"
  shows "tables_ok b (x_facts s) (x_eph s)"
proof -
  have ok: "est_ok s" "closed s" and ch: "b \<Longrightarrow> chronological s" using assms by (simp_all add: sound_def est_inv_def)
  show ?thesis
    unfolding tables_ok_def
  proof (intro conjI impI)
    show "keyed der_fact (x_facts s)" "keyed der_fact (x_eph s)"
      "\<forall>f. dmem f (x_facts s) \<longrightarrow> persistent f" "\<forall>f. dmem f (x_eph s) \<longrightarrow> \<not> persistent f"
      using ok(1) unfolding est_ok_def by blast+
    show "\<forall>f d. dget (x_facts s) f = Some d \<or> dget (x_eph s) f = Some d \<longrightarrow>
        (\<forall>p \<in> set (der_premises d). dmem p (x_facts s))"
      using ok(2) by (simp only: closed_def)
    show "premises_first {} (dvals (x_facts s))" if b using ch[OF that] by (simp add: chronological_def)
  qed
qed

lemma tables_ok_grow:
  assumes "tables_ok b facts goals" and "sound b s" and "\<And>f. dmem f facts \<Longrightarrow> dmem f (x_facts s)"
  shows "tables_ok b (x_facts s) goals"
  using assms(1,3) sound_tables_ok[OF assms(2)] unfolding tables_ok_def by meson

definition vsound :: "bool \<Rightarrow> vrun \<Rightarrow> bool" where
  "vsound b v \<longleftrightarrow> sound b (v_est v) \<and> tables_ok b (x_facts (v_est v)) (v_goals v)"

fun answers :: "bool \<Rightarrow> vflow \<Rightarrow> bool" where
  "answers b (Inr v) = vsound b v"
| "answers b (Inl (e, v)) = (e = BoundsExceeded \<and> tables_ok b (x_facts (v_est v)) (v_goals v))"

lemma closure_facts: "closure r i s = Inr t \<Longrightarrow> dmem f (x_facts s) \<Longrightarrow> dmem f (x_facts t)"
  using sat_run_grows[OF closure_run] by (auto simp: grows_def)

lemma closure_error:
  assumes "closure r i s = Inl (e, t)" and "sound b s" and "tables_ok b (x_facts s) goals"
    and "prof_api_audiences (inp_profile (r_inp r)) \<noteq> []"
  shows "e = BoundsExceeded \<and> tables_ok b (x_facts t) goals"
proof -
  have "est_ok s" using assms(2) by (simp add: sound_def est_inv_def)
  from closure_stops[OF assms(1) this assms(4)] obtain u where
      e: "e = BoundsExceeded" and u: "sat_run r i (no_eph s) u" and t: "x_facts t = x_facts u"
    by (auto simp: sat_stops_def stopped_def)
  have "tables_ok b (x_facts u) goals"
    by (rule tables_ok_grow[OF assms(3) sound_sat_run[OF u sound_no_eph[OF assms(2)]]])
       (use sat_run_grows[OF u] in \<open>auto simp: grows_def\<close>)
  with e t show ?thesis by simp
qed

lemma saturate_answers:
  assumes "vsound b v" and "prof_api_audiences (inp_profile (r_inp r)) \<noteq> []"
  shows "answers b (saturate r i l ns cs v)"
proof (cases "closure r i (v_est v)")
  case (Inl x)
  obtain e t where x: "x = (e, t)" by (cases x)
  from closure_error[OF Inl[unfolded x] _ _ assms(2), of b "v_goals v"] assms(1) Inl x show ?thesis
    by (simp add: saturate_def vsound_def)
next
  case (Inr s)
  have "sound b s" by (rule sound_closure[OF Inr]) (use assms in \<open>simp add: vsound_def\<close>)
  with Inr show ?thesis by (simp add: saturate_def vsound_def sound_tables_ok)
qed

lemma vsound_set_env:
  assumes "vsound b v" and "sound b ((v_est v)\<lparr>x_env := env\<rparr>)"
  shows "vsound b (set_env env v)"
  using assms by (simp add: vsound_def set_env_def)

lemma interval_step_answers:
  assumes "vsound b v" and "action_ok a" and "prof_api_audiences (inp_profile (r_inp r)) \<noteq> []"
  shows "answers b (interval_step r i a v)"
proof -
  have "env_ok (v_env v)" using assms(1) by (simp add: vsound_def v_env_def sound_def est_inv_def env_inv_def)
  from apply_defender_action_ok[OF this assms(2)] obtain e ns where
      a: "apply_defender_action (v_env v) a = Inr (apply_effect e (v_env v), ns)" by blast
  have "vsound b (set_env (reconcile (apply_effect e (v_env v))) v)"
    using assms(1) by (intro vsound_set_env) (auto simp: vsound_def v_env_def intro: sound_defend)
  from saturate_answers[OF this assms(3)] a show ?thesis
    by (simp add: interval_step_def case_prod_beta)
qed

lemma main_loop_answers:
  "vsound b v \<Longrightarrow> \<forall>a \<in> set as. action_ok a \<Longrightarrow> prof_api_audiences (inp_profile (r_inp r)) \<noteq> [] \<Longrightarrow>
     answers b (main_loop r i as v)"
proof (induction as arbitrary: i v)
  case (Cons a as)
  have "answers b (interval_step r i a v)" by (rule interval_step_answers) (use Cons.prems in auto)
  with Cons show ?case by (cases "interval_step r i a v") auto
qed simp

lemma apply_all_ok:
  "vsound b v \<Longrightarrow> \<forall>a \<in> set as. action_ok a \<Longrightarrow> \<exists>ns' v'. apply_all as ns v = Inr (ns', v') \<and> vsound b v'"
proof (induction as arbitrary: ns v)
  case (Cons a as)
  have "env_ok (v_env v)" using Cons.prems(1) by (simp add: vsound_def v_env_def sound_def est_inv_def env_inv_def)
  from apply_defender_action_ok[OF this, of a] Cons.prems(2) obtain e ns1 where
      a: "apply_defender_action (v_env v) a = Inr (apply_effect e (v_env v), ns1)" by auto
  have "vsound b (set_env (reconcile (apply_effect e (v_env v))) v)"
    using Cons.prems(1) by (intro vsound_set_env) (auto simp: vsound_def v_env_def intro: sound_defend)
  from Cons.IH[OF this, of "ns @ ns1"] Cons.prems(2) a show ?case by simp
qed simp

lemma history_phase_answers:
  assumes "sound b s" and "hist_ok b hist" and "prof_api_audiences (inp_profile (r_inp r)) \<noteq> []" and "x_eph s = []"
  shows "case history_phase r hist s of
      Inr t \<Rightarrow> sound b t \<and> x_env t = x_env s | Inl (e, t) \<Rightarrow> e = BoundsExceeded \<and> tables_ok b (x_facts t) []"
proof (cases "r_view r = PossibleView \<and> (hist \<noteq> [] \<or> expired_seed r s)")
  case True
  let ?r = "r\<lparr>r_in_history := True\<rparr>" and ?s = "fold add_historical hist s"
  have h: "sound b ?s" by (rule sound_all_historical[OF assms(2,1)])
  show ?thesis
  proof (cases "closure ?r HISTORY_INTERVAL ?s")
    case (Inl x)
    obtain e t where x: "x = (e, t)" by (cases x)
    have "tables_ok b (x_facts ?s) []"
      using sound_tables_ok[OF h] by (auto simp: tables_ok_def)
    from closure_error[OF Inl[unfolded x] h this] assms(3) show ?thesis
      using True Inl x by (simp add: history_phase_def)
  next
    case (Inr t)
    have t: "sound b t" by (rule sound_closure[OF Inr h])
    have g: "grows (no_eph ?s) t" by (rule sat_run_grows[OF closure_run[OF Inr]])
    have hs: "dmem u (e_pods (x_env (fold add_historical hist s)))" if "dmem u (e_pods (x_env s))" for u hist s
      using that
    proof (induction hist arbitrary: s)
      case (Cons h hist)
      then show ?case by (cases h) (auto simp: add_historical_def env_add_pod_def)
    qed simp
    have hc: "e_controllers (x_env (fold add_historical hist s)) = e_controllers (x_env s)" for hist s
      by (induction hist arbitrary: s) (auto simp: add_historical_def env_add_pod_def split: prod.splits)
    have "sound b (t\<lparr>x_env := x_env s\<rparr>)"
    proof (rule sound_env[OF t])
      show "env_inv (x_env s)" "b \<longrightarrow> plain_env (x_env s)" using assms(1) by (simp_all add: sound_def est_inv_def)
      show "dmem u (e_pods (x_env t)) \<or> \<not> starts_with u MODEL_POD_PREFIX" if "dmem u (e_pods (x_env s))" for u
        using dmem_le[OF _ hs[OF that, of hist], of "e_pods (x_env t)"] g by (simp add: grows_def)
      show "dmem c (e_controllers (x_env t))" if "dmem c (e_controllers (x_env s))" for c
        using that hc[of hist s] g dmem_le[of "e_controllers (x_env ?s)" "e_controllers (x_env t)" c] by (simp add: grows_def)
    qed
    with True Inr show ?thesis by (simp add: history_phase_def)
  qed
next
  case False
  then have "history_phase r hist s = Inr s" unfolding history_phase_def by (rule if_not_P)
  with assms(1) show ?thesis by simp
qed

lemma run_body_answers:
  assumes "input_ok (r_inp r)" and "sound b s" and "hist_ok b hist" and "x_eph s = []"
  shows "answers b (run_body r hist \<lparr>v_est = s, v_intervals = [], v_goals = []\<rparr>)"
proof -
  let ?v = "\<lparr>v_est = s, v_intervals = [], v_goals = []\<rparr>"
  have auds: "prof_api_audiences (inp_profile (r_inp r)) \<noteq> []"
    and acts: "\<forall>a \<in> set (inp_remediation (r_inp r)). action_ok a"
    using assms(1) by (simp_all add: input_ok_def profile_ok_def)
  have empty: "tables_ok b (x_facts t) []" if "sound b t" for t
    using sound_tables_ok[OF that] by (auto simp: tables_ok_def)
  show ?thesis
  proof (cases "history_phase r hist s")
    case (Inl x)
    with history_phase_answers[OF assms(2,3) auds assms(4)] show ?thesis
      by (cases x) (simp add: run_body_def)
  next
    case (Inr t)
    let ?w = "?v\<lparr>v_est := t\<rparr>"
    have t: "sound b t" using history_phase_answers[OF assms(2,3) auds assms(4)] Inr by simp
    then have w: "vsound b ?w" using empty by (simp add: vsound_def)
    have full: "answers b (full_body r ?w)"
    proof -
      have "vsound b (set_env (reconcile (v_env ?w)) ?w)"
        using w by (intro vsound_set_env) (auto simp: vsound_def v_env_def intro: sound_reconcile)
      from saturate_answers[OF this auds] have
        "answers b (saturate r 0 None [] (map pod_uid (snd (reconcile_controllers (v_env ?w)))) (set_env (reconcile (v_env ?w)) ?w))" .
      then show ?thesis
        using main_loop_answers[OF _ acts auds]
        by (auto simp: full_body_def case_prod_beta rbind_def split: sum.splits)
    qed
    have base: "answers b (baseline_body r ?w)"
    proof -
      obtain ns' v' where a: "apply_all (inp_remediation (r_inp r)) [] ?w = Inr (ns', v')" and v': "vsound b v'"
        using apply_all_ok[OF w acts] by blast
      from saturate_answers[OF v' auds] a show ?thesis by (simp add: baseline_body_def)
    qed
    from Inr full base show ?thesis by (simp add: run_body_def)
  qed
qed

section \<open>The answer of a view\<close>

definition outcome_ok :: "bool \<Rightarrow> view_outcome \<Rightarrow> bool" where
  "outcome_ok b vo \<longleftrightarrow> tables_ok b (vo_derivations vo) (vo_goals_final vo)"

lemma initial_sound:
  assumes "input_ok inp" and "b \<longrightarrow> plain_input inp"
  obtains s hist where "initial (the_run inp vw md) = Inr (s, hist)" "hist_ok b hist"
    "seeded b (from_inventory (inp_inventory inp) (inp_analysis_time inp)) s" "sound b s"
proof -
  let ?r = "the_run inp vw md"
  have inp: "r_inp ?r = inp" by (simp add: the_run_def)
  obtain s hist where s: "initial ?r = Inr (s, hist)" and h: "hist_ok b hist"
    and seeded: "seeded b (from_inventory (inp_inventory inp) (inp_analysis_time inp)) s"
    by (rule initial_ok[of ?r b]) (use assms inp in auto)
  have inv: "inventory_ok (inp_inventory inp)" using assms(1) by (simp add: input_ok_def)
  note look = from_inventory_lookup[OF inv]
  have "sound b s"
  proof (rule seeded_sound[OF seeded from_inventory_inv[OF inv]])
    show "b \<longrightarrow> plain_env (from_inventory (inp_inventory inp) (inp_analysis_time inp))"
      using from_inventory_plain[OF inv] assms(2) by blast
    show "\<not> starts_with u MODEL_POD_PREFIX"
      if h: "dmem u (e_pods (from_inventory (inp_inventory inp) (inp_analysis_time inp)))" for u
    proof -
      from h obtain p where "p \<in> set (inv_pods (inp_inventory inp))" "pod_uid p = u" using look(2) by blast
      then show ?thesis using inv by (auto simp: inventory_ok_def reserved_uid_def)
    qed
    show "\<not> starts_with u MODEL_DEPLOY_PREFIX"
      if h: "dmem u (e_controllers (from_inventory (inp_inventory inp) (inp_analysis_time inp)))" for u
    proof -
      from h obtain c where "c \<in> set (inv_controllers (inp_inventory inp))" "ctrl_uid c = u" using look(3) by blast
      then show ?thesis using inv by (auto simp: inventory_ok_def reserved_uid_def)
    qed
  qed
  with s h seeded show ?thesis by (rule that)
qed

theorem run_view_answers:
  assumes "input_ok inp" and "b \<longrightarrow> plain_input inp"
  shows "\<exists>vo. run_view inp vw md = Inr vo \<and> outcome_ok b vo"
proof -
  let ?r = "the_run inp vw md"
  have inp: "r_inp ?r = inp" by (simp add: the_run_def)
  obtain s hist where s: "initial ?r = Inr (s, hist)" "hist_ok b hist" "sound b s"
    and "seeded b (from_inventory (inp_inventory inp) (inp_analysis_time inp)) s"
    by (rule initial_sound[OF assms])
  moreover from this have "x_eph s = []" by (simp add: seeded_def)
  ultimately have "answers b (run_body ?r hist \<lparr>v_est = s, v_intervals = [], v_goals = []\<rparr>)"
    using run_body_answers[of ?r b s hist] assms(1) inp by simp
  then show ?thesis
    using s by (auto simp: run_view_def Let_def outcome_ok_def outcome_def vsound_def split: sum.splits prod.splits)
qed

section \<open>Witnesses of goals\<close>

text \<open>The place of a fact in the table; what is not in it comes after everything.\<close>

definition place :: "('k, 'v) dict \<Rightarrow> 'k \<Rightarrow> nat" where
  "place t k = length (takeWhile (\<lambda>x. x \<noteq> k) (dkeys t))"

lemma takeWhile_shorter: "k \<in> set xs \<Longrightarrow> length (takeWhile (\<lambda>x. x \<noteq> k) xs) < length xs"
  by (induction xs) auto

lemma place_mem: "k \<in> set (dkeys t) \<Longrightarrow> place t k < length t"
  using takeWhile_shorter[of k "dkeys t"] by (simp only: place_def length_map)

lemma place_not_mem: "dget t k = None \<Longrightarrow> place t k = length t"
proof -
  assume "dget t k = None"
  then have "\<forall>x \<in> set (dkeys t). x \<noteq> k" using dget_None[of t k] by blast
  then have "takeWhile (\<lambda>x. x \<noteq> k) (dkeys t) = dkeys t" by (simp only: takeWhile_eq_all_conv)
  then show ?thesis by (simp only: place_def length_map)
qed

lemma place_split:
  assumes "k \<notin> set (dkeys ys)"
  shows "place (ys @ (k, v) # zs) k = length ys"
proof -
  have "takeWhile (\<lambda>x. x \<noteq> k) (dkeys ys @ k # dkeys zs) = dkeys ys"
    using assms by (subst takeWhile_append2) auto
  then show ?thesis by (simp add: place_def)
qed

lemma place_prefix: "k \<in> set (dkeys ys) \<Longrightarrow> place (ys @ zs) k < length ys"
proof -
  assume k: "k \<in> set (dkeys ys)"
  then have "takeWhile (\<lambda>x. x \<noteq> k) (dkeys ys @ dkeys zs) = takeWhile (\<lambda>x. x \<noteq> k) (dkeys ys)"
    by (intro takeWhile_append1[of k]) auto
  with place_mem[OF k] show ?thesis by (simp add: place_def)
qed

lemma premises_lower:
  assumes "keyed der_fact t" and "premises_first {} (dvals t)" and d: "dget t f = Some d"
    and "p \<in> set (der_premises d)"
  shows "place t p < place t f"
proof -
  from dget_in_set[OF d] obtain ys zs where t: "t = ys @ (f, d) # zs" by (auto simp: in_set_conv_decomp)
  from assms(1) have "dict_ok t" by auto
  then have f: "f \<notin> set (dkeys ys)" unfolding t by auto
  have ys: "keyed der_fact ys" using assms(1) unfolding keyed_def t by auto
  from assms(2,4) have "p \<in> der_fact ` set (dvals ys)" unfolding t by auto
  then have "p \<in> set (dkeys ys)" unfolding facts_of_dvals[OF ys] .
  from place_prefix[OF this] place_split[OF f] show ?thesis by (simp add: t)
qed

lemma premises_first_settled: "settled rank k ([], [])"
  by (simp add: settled_def)

theorem witness_found:
  assumes ok: "tables_ok b (vo_derivations vo) (vo_goals_final vo)"
    and goal: "dget (vo_goals_final vo) g = Some d"
  obtains steps where "witness vo g = Inr (steps @ [d])" "der_fact d = g"
    "b \<Longrightarrow> premises_first {} (steps @ [d])"
proof -
  let ?ds = "vo_derivations vo" and ?gs = "vo_goals_final vo" and ?n = "length (vo_derivations vo) + 2"
  note T = ok[unfolded tables_ok_def]
  have g: "der_fact d = g" using T goal by (auto dest: keyed_dget)
  have closed: "\<And>f d p. dget ?ds f = Some d \<Longrightarrow> p \<in> set (der_premises d) \<Longrightarrow> dmem p ?ds"
    using T by blast
  have prem: "\<forall>p \<in> set (der_premises d). dmem p ?ds" using T goal by blast
  have loop: "\<exists>st'. for_each (visit ?n ?ds ?ds) ps a = Inr st'" if "\<forall>p \<in> set ps. dmem p ?ds" for ps a
    using that
  proof (induction ps arbitrary: a)
    case (Cons q ps)
    have "card (set (dkeys ?ds) - set (fst a)) \<le> card (set (dkeys ?ds))" by (intro card_mono) auto
    also have "\<dots> \<le> length ?ds" using card_length[of "dkeys ?ds"] by simp
    finally have "card (set (dkeys ?ds) - set (fst a)) < ?n" by simp
    moreover have "dmem q ?ds" using Cons.prems by simp
    ultimately obtain a' where "visit ?n ?ds ?ds q a = Inr a'"
      using visit_succeeds[of ?ds q a ?n] closed by blast
    moreover obtain c where "for_each (visit ?n ?ds ?ds) ps a' = Inr c" using Cons.IH[of a'] Cons.prems by (auto simp del: visit.simps)
    ultimately show ?case by (simp del: visit.simps)
  qed (simp del: visit.simps)
  from loop[OF prem] obtain seen out where
      run: "for_each (visit ?n ?ds ?ds) (der_premises d) ([g], []) = Inr (seen, out)" by (metis surj_pair)
  have w: "witness vo g = Inr (out @ [d])"
    using run goal by (simp add: witness_def numeral_3_eq_3)
  have first: "premises_first {} (out @ [d])" if b
  proof -
    let ?rank = "place ?ds"
    have keyed: "keyed der_fact ?ds" and pf: "premises_first {} (dvals ?ds)" using T that by simp_all
    have ranked: "\<And>f d p. dget ?ds f = Some d \<Longrightarrow> p \<in> set (der_premises d) \<Longrightarrow> ?rank p < ?rank f"
      by (rule premises_lower[OF keyed pf])
    have none: "dget ?ds g = None" using T goal by (metis option.exhaust option.distinct(1))
    have tab: "der_fact e = f \<and> (\<forall>p \<in> set (der_premises e). ?rank p < ?rank f)" if e: "dget ?gs f = Some e" for f e
    proof -
      have "dget ?ds f = None" using T e by (metis option.exhaust option.distinct(1))
      then have "?rank f = length ?ds" by (rule place_not_mem)
      moreover have "?rank p < length ?ds" if "p \<in> set (der_premises e)" for p
      proof (rule place_mem)
        have "dmem p ?ds" using T e that by blast
        then obtain e' where "dget ?ds p = Some e'" by blast
        then show "p \<in> set (dkeys ?ds)" by (rule dget_SomeD)
      qed
      moreover have "der_fact e = f" using T e by (auto dest: keyed_dget)
      ultimately show ?thesis by simp
    qed
    have v: "visit (Suc ?n) ?ds ?gs g ([], []) = Inr (seen, out @ [d])" using run goal by simp
    from visit_correct[OF ranked keyed_dget[OF keyed] tab v premises_first_settled]
    show ?thesis by (simp add: visited_def)
  qed
  show thesis by (rule that[OF w g first])
qed

end
