(* ===== verification/Results.thy ===== *)
theory Results
  imports Run_Correct
begin

text \<open>
  The result bundle, \<open>packages/afterlock/results.py\<close>: objectives with their status and witness, the
  coverage that is missing, the conclusion, and the JSON document with its digest. The texts of
  reasons and notes are those of \<open>semantics.py\<close>. SHA-256 is a parameter.
\<close>

section \<open>Texts\<close>

fun reason_text :: "reason \<Rightarrow> string" where
  "reason_text (KindUnsupported k p) = ''credential kind '' @ repr_str k @ '' is not supported by profile '' @ p"
| "reason_text (ExpiredAt e now t) = ''expired at '' @ str_of_int e @ '' ('' @
     (if now then ''analysis time'' else ''hypothetical use at'') @ '' '' @ str_of_int t @ '')''"
| "reason_text (AudienceRejected a) = ''audience '' @ repr_str a @ '' is not accepted by the API server''"
| "reason_text (NotServiceAccount u) = ''username '' @ repr_str u @ '' is not a service account''"
| "reason_text (AccountGone ns n) = ''service account '' @ ns @ ''/'' @ n @ '' no longer exists''"
| "reason_text (AccountRecreated ns n) =
     ''service account '' @ ns @ ''/'' @ n @ '' was recreated with a different UID''"
| "reason_text (BoundPodGone u) = ''bound pod UID '' @ u @ '' no longer exists''"
| "reason_text (BoundPodOtherAccount u w) = ''bound pod UID '' @ u @ '' does not run as '' @ w"
| "reason_text AllChecksPass = ''unexpired, API audience, service account UID and bound object present''"

fun note_text :: "action_note \<Rightarrow> string" where
  "note_text (NoBinding ns n) = ''no-op: binding '' @ (case ns of None \<Rightarrow> ''<cluster>'' | Some s \<Rightarrow> s) @ ''/'' @ n @ '' not present''"
| "note_text (NoPod u) = ''no-op: pod UID '' @ u @ '' not present''"
| "note_text (NoController u) = ''no-op: controller UID '' @ u @ '' not present''"
| "note_text (NothingMatched l) = ''no-op: nothing matched '' @ l"
| "note_text (NoAccount ns n) = ''no-op: service account '' @ ns @ ''/'' @ n @ '' not present''"
| "note_text (NoService s) = ''no-op: service '' @ s @ '' not present''"
| "note_text (Propagates s d v u) = ''rotation of '' @ s @ '' propagates for '' @ str_of_int d @ ''s; version '' @
     str_of_int v @ '' accepted until '' @ str_of_int u"

fun legit_text :: "legit_reason \<Rightarrow> string" where
  "legit_text (LegitPodGone u) = ''pod UID '' @ u @ '' no longer exists''"
| "legit_text (LegitAccountGone ns n) = ''service account '' @ ns @ ''/'' @ n @ '' no longer exists''"
| "legit_text (LegitNoSecret ns n) = ''secret '' @ ns @ ''/'' @ n @ '' does not exist''"
| "legit_text (LegitUnauthorized sa ns n) = sa @ '' is no longer authorized to get secret '' @ ns @ ''/'' @ n"
| "legit_text (LegitAuthorized via) = ''authorized via '' @ join '', '' via"
| "legit_text (LegitNoService s) = ''service '' @ s @ '' does not exist''"
| "legit_text (LegitNoCredential why) = ''cannot obtain current credential: '' @ legit_text why"
| "legit_text (LegitVersionRejected v s w) = ''secret version '' @ str_of_int v @ '' is not accepted by '' @ s @
     '' (accepts '' @ str_of_int w @ '')''"
| "legit_text (LegitVersionAccepted v s) = ''reads current version '' @ str_of_int v @ '', accepted by '' @ s"

section \<open>Facts, conditions and derivations as JSON\<close>

definition strs_json :: "string list \<Rightarrow> json" where
  "strs_json xs = JList (map JStr xs)"

definition opt_str_json :: "string option \<Rightarrow> json" where
  "opt_str_json v = (case v of None \<Rightarrow> JNull | Some s \<Rightarrow> JStr s)"

definition fact_json :: "fact \<Rightarrow> json" where
  "fact_json f = strs_json (fact_tuple f)"

fun condition_json :: "condition \<Rightarrow> json" where
  "condition_json (CheckCredentialUsable cid t rs) = JObj [(''check'', JStr ''credential_usable''),
     (''credential'', JStr cid), (''time'', JInt t), (''detail'', JStr (join ''; '' (map reason_text rs)))]"
| "condition_json (CheckAuthorized u v r ns n via) = JObj [(''check'', JStr ''authorized''), (''username'', JStr u),
     (''verb'', JStr v), (''resource'', JStr r), (''namespace'', JStr ns), (''name'', opt_str_json n), (''via'', strs_json via)]"
| "condition_json (CheckAdmissionAllows c ns sa ps) = JObj [(''check'', JStr ''admission_allows''), (''creator'', JStr c),
     (''namespace'', JStr ns), (''service_account'', JStr sa), (''policies'', strs_json ps)]"
| "condition_json (CheckServiceAccountExists ns n u) = JObj ([(''check'', JStr ''service_account_exists''),
     (''namespace'', JStr ns), (''name'', JStr n)] @ (case u of None \<Rightarrow> [] | Some x \<Rightarrow> [(''uid'', JStr x)]))"
| "condition_json (CheckPodExists u) = JObj [(''check'', JStr ''pod_exists''), (''pod'', JStr u)]"
| "condition_json (CheckPodOwnedByController u c) = JObj [(''check'', JStr ''pod_owned_by_controller''), (''pod'', JStr u),
     (''controller'', JStr c)]"
| "condition_json (CheckSecretVersion ns n v) = JObj [(''check'', JStr ''secret_version''), (''namespace'', JStr ns),
     (''name'', JStr n), (''version'', JInt v)]"
| "condition_json (CheckServiceSources s ns n) = JObj [(''check'', JStr ''service_sources''), (''service'', JStr s),
     (''namespace'', JStr ns), (''secret'', JStr n)]"
| "condition_json (CheckServiceAccepts s v t) = JObj ([(''check'', JStr ''service_accepts''), (''service'', JStr s),
     (''version'', JInt v)] @ (case t of None \<Rightarrow> [] | Some x \<Rightarrow> [(''time'', JInt x),
       (''detail'', JStr ''previous version still accepted while rotation propagates (S-SEC-5)'')]))"

fun rule_name :: "rule \<Rightarrow> string" where
  "rule_name R_EVIDENCE = ''EVIDENCE''"
| "rule_name R_CONTROLLER_POD = ''R-CONTROLLER-POD''"
| "rule_name R_OBTAIN_PROJECTED_TOKEN = ''R-OBTAIN-PROJECTED-TOKEN''"
| "rule_name R_CREATE_POD = ''R-CREATE-POD''"
| "rule_name R_CREATE_CONTROLLER = ''R-CREATE-CONTROLLER''"
| "rule_name R_EXEC_POD = ''R-EXEC-POD''"
| "rule_name R_READ_SECRET = ''R-READ-SECRET''"
| "rule_name R_DOWNSTREAM_CREDENTIAL = ''R-DOWNSTREAM-CREDENTIAL''"
| "rule_name R_USE_DOWNSTREAM = ''R-USE-DOWNSTREAM''"

text \<open>\<open>Derivation.to_json\<close>.\<close>

definition derivation_json :: "derivation \<Rightarrow> json" where
  "derivation_json d = JObj ([(''fact'', fact_json (der_fact d)), (''rule'', JStr (rule_name (der_rule d))),
     (''interval'', JInt (der_interval d)), (''premises'', JList (map fact_json (der_premises d))),
     (''conditions'', JList (map condition_json (der_conditions d))),
     (''status'', JStr (epistemic_name (der_status d)))] @
     (if der_evidence d \<noteq> [] then [(''evidence'', strs_json (der_evidence d))] else []) @
     (if der_note d \<noteq> [] then [(''note'', JStr (der_note d))] else []))"

section \<open>Missing coverage\<close>

fun unknown_detail :: "unknown \<Rightarrow> string" where
  "unknown_detail (UnsupportedCredential c rs) = join ''; '' (map reason_text rs)"
| "unknown_detail (UnsupportedAdmission ns u sa ps d) = d"

fun unknown_items :: "unknown \<Rightarrow> (string \<times> json) list" where
  "unknown_items (UnsupportedCredential c rs) = [(''kind'', JStr ''unsupported_credential''), (''credential'', JStr c),
     (''detail'', JStr (join ''; '' (map reason_text rs)))]"
| "unknown_items (UnsupportedAdmission ns u sa ps d) = [(''kind'', JStr ''unsupported_admission''), (''namespace'', JStr ns),
     (''creator'', JStr u), (''service_account'', JStr sa), (''policies'', strs_json ps), (''detail'', JStr d)]"

text \<open>Two views often record the same unknown; the second is dropped.\<close>

definition unknown_key :: "unknown \<Rightarrow> (string \<times> string) list" where
  "unknown_key u = sort (map (\<lambda>(k, v). (k, py_str v)) (unknown_items u))"

fun dedup_unknowns :: "(string \<times> string) list list \<Rightarrow> unknown list \<Rightarrow> unknown list" where
  "dedup_unknowns seen [] = []"
| "dedup_unknowns seen (u # us) =
     (if unknown_key u \<in> set seen then dedup_unknowns seen us
      else u # dedup_unknowns (unknown_key u # seen) us)"

datatype missing =
    MissingGap coverage_gap
  | MissingUnknown unknown
  | MissingBounds view int

fun view_name :: "view \<Rightarrow> string" where
  "view_name EvidenceView = ''evidence_supported''"
| "view_name PossibleView = ''conservative_possible''"

fun mode_name :: "mode \<Rightarrow> string" where
  "mode_name ModeFull = ''full''"
| "mode_name ModeSnapshot = ''snapshot_only''"
| "mode_name ModeNoLifecycle = ''history_without_lifecycle''"
| "mode_name ModeFinalState = ''final_state_only''"

fun missing_reason :: "missing \<Rightarrow> string" where
  "missing_reason (MissingGap g) = ''coverage gap '' @ gap_id g @ '': '' @ gap_description g"
| "missing_reason (MissingUnknown u) = unknown_detail u"
| "missing_reason (MissingBounds v n) = ''analysis bounds exceeded in '' @ view_name v @ '' view; exploration incomplete''"

fun missing_json :: "missing \<Rightarrow> json" where
  "missing_json (MissingGap g) = JObj [(''kind'', JStr (gap_kind g)), (''id'', JStr (gap_id g)),
     (''detail'', JStr (gap_description g)), (''evidence'', strs_json (gap_evidence g))]"
| "missing_json (MissingUnknown u) = JObj (unknown_items u)"
| "missing_json (MissingBounds v n) = JObj [(''kind'', JStr ''bounds_exceeded''), (''view'', JStr (view_name v)),
     (''detail'', JStr (''derivation cap '' @ str_of_int n @ '' reached''))]"

definition missing_coverage :: "analysis_input \<Rightarrow> view_outcome \<Rightarrow> view_outcome \<Rightarrow> missing list" where
  "missing_coverage inp ev pv =
     map MissingGap (inp_coverage_gaps inp) @
     map MissingUnknown (dedup_unknowns [] (vo_unknowns ev @ vo_unknowns pv)) @
     map (\<lambda>v. MissingBounds (vo_view v) (max_derivations (inp_bounds inp)))
       (filter vo_bounds_exceeded [ev, pv])"

section \<open>Objectives and conclusion\<close>

datatype objective_status = Violated | PossiblyViolated | UnknownStatus | SatisfiedWithinScope

fun status_name :: "objective_status \<Rightarrow> string" where
  "status_name Violated = ''violated''"
| "status_name PossiblyViolated = ''possibly_violated''"
| "status_name UnknownStatus = ''unknown''"
| "status_name SatisfiedWithinScope = ''satisfied_within_scope''"

record witness_entry =
  we_id :: string
  we_objective :: string
  we_view :: view
  we_goal :: fact
  we_steps :: "derivation list"

record objective_entry =
  oe_objective :: objective
  oe_status :: objective_status
  oe_basis :: "string option"
  oe_reasons :: "string list"
  oe_witness :: "string option"

definition violated_entry ::
  "objective \<Rightarrow> objective_status \<Rightarrow> view_outcome \<Rightarrow> exn option + objective_entry \<times> witness_entry option" where
  "violated_entry obj st vo =
     (let goal = objective_goal (obj_target obj); wid = ''w-'' @ obj_id obj in
      rbind (witness vo goal) (\<lambda>steps.
        Inr (\<lparr>oe_objective = obj, oe_status = st, oe_basis = Some (view_name (vo_view vo)), oe_reasons = [],
              oe_witness = Some wid\<rparr>,
             Some \<lparr>we_id = wid, we_objective = obj_id obj, we_view = vo_view vo, we_goal = goal, we_steps = steps\<rparr>)))"

definition objective_entry ::
  "objective \<Rightarrow> view_outcome \<Rightarrow> view_outcome \<Rightarrow> string list \<Rightarrow> exn option + objective_entry \<times> witness_entry option" where
  "objective_entry obj ev pv reasons =
     (let goal = objective_goal (obj_target obj) in
      if dmem goal (vo_goals_final ev) then violated_entry obj Violated ev
      else if dmem goal (vo_goals_final pv) then violated_entry obj PossiblyViolated pv
      else if reasons \<noteq> [] then
        Inr (\<lparr>oe_objective = obj, oe_status = UnknownStatus, oe_basis = None, oe_reasons = reasons, oe_witness = None\<rparr>, None)
      else Inr (\<lparr>oe_objective = obj, oe_status = SatisfiedWithinScope, oe_basis = Some ''fixpoint_exhausted'',
                 oe_reasons = [], oe_witness = None\<rparr>, None))"

datatype conclusion = ResidualPath | UnknownConclusion | ContainedWithinScope

fun conclusion_name :: "conclusion \<Rightarrow> string" where
  "conclusion_name ResidualPath = ''residual_path''"
| "conclusion_name UnknownConclusion = ''unknown''"
| "conclusion_name ContainedWithinScope = ''contained_within_scope''"

definition conclude :: "objective_entry list \<Rightarrow> conclusion" where
  "conclude es =
     (let statuses = map oe_status es in
      if Violated \<in> set statuses \<or> PossiblyViolated \<in> set statuses then ResidualPath
      else if UnknownStatus \<in> set statuses then UnknownConclusion
      else ContainedWithinScope)"

section \<open>The bundle\<close>

record result_bundle =
  bun_input :: analysis_input
  bun_mode :: mode
  bun_remediation :: "json list"
  bun_conclusion :: conclusion
  bun_objectives :: "objective_entry list"
  bun_witnesses :: "witness_entry list"
  bun_legit :: "legit_entry list"
  bun_evidence_refs :: "string list"
  bun_missing :: "missing list"
  bun_exhausted :: bool
  bun_evidence_view :: view_outcome
  bun_possible_view :: view_outcome

definition exhausted :: "view_outcome \<Rightarrow> view_outcome \<Rightarrow> bool" where
  "exhausted ev pv \<longleftrightarrow> \<not> (vo_bounds_exceeded ev \<or> vo_bounds_exceeded pv)"

definition witness_refs :: "witness_entry list \<Rightarrow> string list" where
  "witness_refs ws = sorted_set (concat (map (\<lambda>w. concat (map der_evidence (we_steps w))) ws))"

definition lift_parse :: "'a parsed \<Rightarrow> exn option + 'a" where
  "lift_parse m = (case m of Inl e \<Rightarrow> Inl (Some (ModelErr e)) | Inr x \<Rightarrow> Inr x)"

definition lift_run :: "exn + 'a \<Rightarrow> exn option + 'a" where
  "lift_run m = (case m of Inl e \<Rightarrow> Inl (Some e) | Inr x \<Rightarrow> Inr x)"

definition analyze :: "analysis_input \<Rightarrow> mode \<Rightarrow> exn option + result_bundle" where
  "analyze inp md =
     rbind (lift_run (run_view inp EvidenceView md)) (\<lambda>ev.
     rbind (lift_run (run_view inp PossibleView md)) (\<lambda>pv.
     let missing = missing_coverage inp ev pv; reasons = map missing_reason missing in
     rbind (traverse (\<lambda>obj. objective_entry obj ev pv reasons) (inp_objectives inp)) (\<lambda>entries.
     rbind (lift_parse (traverse act_to_json (inp_remediation inp))) (\<lambda>rem.
     let es = map fst entries; ws = List.map_filter snd entries in
     Inr \<lparr>bun_input = inp, bun_mode = md, bun_remediation = rem, bun_conclusion = conclude es, bun_objectives = es,
          bun_witnesses = ws, bun_legit = legit_status inp (vo_final_env ev), bun_evidence_refs = witness_refs ws,
          bun_missing = missing, bun_exhausted = exhausted ev pv, bun_evidence_view = ev, bun_possible_view = pv\<rparr>))))"

section \<open>The document\<close>

definition RESULT_SCHEMA :: string where "RESULT_SCHEMA = ''afterlock.result/1''"
definition ENGINE_VERSION :: string where "ENGINE_VERSION = ''0.1.0''"

definition LIMITATIONS :: "string list" where
  "LIMITATIONS =
     [''Absence of evidence is not evidence of absence: the engine cannot establish that no credential was copied.'',
      ''Conclusions cover only the supported semantic profile, declared objectives, and stated assumptions.'',
      ''Previously disclosed information cannot be made unknown; only its usefulness can change.'',
      ''Control-plane propagation is assumed complete before the next defender step; real propagation needs lab confirmation.'',
      ''Host, node, or control-plane compromise is outside the model.'']"

fun target_kind :: "goal_target \<Rightarrow> string" where
  "target_kind (NoSecretRead _ _) = ''no_secret_read''"
| "target_kind (NoDownstreamUse _) = ''no_downstream_use''"

fun target_parts :: "goal_target \<Rightarrow> string list" where
  "target_parts (NoSecretRead ns n) = [ns, n]"
| "target_parts (NoDownstreamUse s) = [s]"

definition objective_json :: "objective_entry \<Rightarrow> json" where
  "objective_json e = (let obj = oe_objective e in
     JObj ([(''id'', JStr (obj_id obj)), (''kind'', JStr (target_kind (obj_target obj))),
       (''target'', strs_json (target_parts (obj_target obj))), (''description'', JStr (obj_description obj)),
       (''status'', JStr (status_name (oe_status e))), (''basis'', opt_str_json (oe_basis e))] @
       (if oe_status e = UnknownStatus then [(''reasons'', strs_json (oe_reasons e))] else []) @
       (case oe_witness e of None \<Rightarrow> [] | Some w \<Rightarrow> [(''witness'', JStr w)])))"

definition witness_json :: "witness_entry \<Rightarrow> json" where
  "witness_json w = JObj [(''id'', JStr (we_id w)), (''objective'', JStr (we_objective w)),
     (''view'', JStr (view_name (we_view w))), (''goal'', fact_json (we_goal w)),
     (''steps'', JList (map derivation_json (we_steps w)))]"

text \<open>\<open>_exposure\<close> looks at every interval but the last, \<open>_timeline\<close> at all of them.\<close>

fun is_capability :: "fact \<Rightarrow> bool" where
  "is_capability (CanReadSecret _ _) = True"
| "is_capability (CanUseDownstream _) = True"
| "is_capability _ = False"

definition exposure :: "view_outcome \<Rightarrow> json list" where
  "exposure vo =
     map (\<lambda>rec. JObj [(''interval'', JInt (ir_index rec)), (''after_action'', opt_str_json (ir_action rec)),
         (''time'', JInt (ir_time rec)),
         (''attacker_capabilities'', JList (map fact_json (filter is_capability (ir_goals rec))))])
       (filter (\<lambda>rec. filter is_capability (ir_goals rec) \<noteq> []) (butlast (vo_intervals vo)))"

definition timeline :: "view_outcome \<Rightarrow> json list" where
  "timeline vo =
     map (\<lambda>rec. JObj [(''interval'', JInt (ir_index rec)), (''time'', JInt (ir_time rec)),
         (''defender_action'', opt_str_json (ir_action rec)), (''notes'', strs_json (map note_text (ir_notes rec))),
         (''reconciled_pods'', strs_json (ir_reconciled rec)),
         (''attacker_capabilities'', JList (map fact_json (filter is_capability (ir_goals rec))))])
       (vo_intervals vo)"

definition legit_json :: "legit_entry \<Rightarrow> json" where
  "legit_json e = JObj [(''id'', JStr (le_id e)), (''kind'', JStr (le_kind e)), (''preserved'', JBool (le_preserved e)),
     (''detail'', JStr (legit_text (le_detail e))), (''description'', JStr (le_description e))]"

definition scope_text :: "bool \<Rightarrow> string" where
  "scope_text done_all =
     (if done_all then
        ''Finite projection explored to fixpoint for every interval of the remediation sequence '' @
        ''under the supported semantic profile; no statement is made about unsupported semantics, '' @
        ''undeclared objectives, or activity outside the evidence boundary.''
      else ''Exploration incomplete: bounds were exceeded. This is not a containment result.'')"

definition bundle_items :: "result_bundle \<Rightarrow> (string \<times> json) list" where
  "bundle_items b = (let inp = bun_input b; ev = bun_evidence_view b; pv = bun_possible_view b in
     [(''schema'', JStr RESULT_SCHEMA),
      (''engine'', JObj [(''name'', JStr ''afterlock''), (''version'', JStr ENGINE_VERSION), (''mode'', JStr (mode_name (bun_mode b)))]),
      (''case_id'', JStr (inp_case_id inp)), (''cluster_id'', JStr (inp_cluster_id inp)),
      (''input_digest'', JStr (inp_raw_digest inp)),
      (''semantic_profile'', JObj [(''id'', JStr (prof_id (inp_profile inp))),
         (''kubernetes_version'', JStr (prof_kubernetes_version (inp_profile inp)))]),
      (''analysis_time'', JInt (inp_analysis_time inp)), (''remediation'', JList (bun_remediation b)),
      (''conclusion'', JObj [(''model'', JStr (conclusion_name (bun_conclusion b))),
         (''validation'', JStr ''not_executed''), (''scope'', JStr (scope_text (bun_exhausted b)))]),
      (''objectives'', JList (map objective_json (bun_objectives b))),
      (''witnesses'', JList (map witness_json (bun_witnesses b))),
      (''exposure_during_containment'', JList (exposure ev)),
      (''legitimate_operations'', JList (map legit_json (bun_legit b))),
      (''timeline'', JList (timeline ev)), (''assumptions'', strs_json (inp_assumptions inp)),
      (''evidence_references'', strs_json (bun_evidence_refs b)),
      (''missing_coverage'', JList (map missing_json (bun_missing b))),
      (''analysis_bounds'', JObj [(''intervals'', JInt (int (length (inp_remediation inp)) + 1)),
         (''max_intervals'', JInt (max_intervals (inp_bounds inp))), (''max_derivations'', JInt (max_derivations (inp_bounds inp))),
         (''derivations_used'', JObj [(''evidence_supported'', JInt (vo_derivation_count ev)),
            (''conservative_possible'', JInt (vo_derivation_count pv))]),
         (''exhausted'', JBool (bun_exhausted b))]),
      (''limitations'', strs_json LIMITATIONS),
      (''note'', JStr ''result_digest identifies this content; it proves neither completeness nor truth.'')])"

definition bundle_json :: "(string \<Rightarrow> string) \<Rightarrow> result_bundle \<Rightarrow> json" where
  "bundle_json sha256 b =
     JObj (bundle_items b @ [(''result_digest'', JStr (digest sha256 (JObj (bundle_items b))))])"

section \<open>What the conclusion means\<close>

lemma lift_simps [simp]:
  "lift_run m = Inr x \<longleftrightarrow> m = Inr x" "lift_parse p = Inr y \<longleftrightarrow> p = Inr y"
  by (auto simp: lift_run_def lift_parse_def split: sum.splits)

text \<open>An objective's entry, by what the two views reach.\<close>

lemma objective_entry_status:
  assumes "objective_entry obj ev pv reasons = Inr (e, w)"
  shows "oe_objective e = obj"
    and "oe_status e =
      (let goal = objective_goal (obj_target obj) in
       if dmem goal (vo_goals_final ev) then Violated
       else if dmem goal (vo_goals_final pv) then PossiblyViolated
       else if reasons \<noteq> [] then UnknownStatus else SatisfiedWithinScope)"
  using assms by (auto simp: objective_entry_def violated_entry_def Let_def rbind_Inr split: if_splits)

lemma dedup_nonempty: "us \<noteq> [] \<Longrightarrow> dedup_unknowns [] us \<noteq> []"
  by (cases us) simp_all

lemma missing_coverage_empty:
  "missing_coverage inp ev pv = [] \<longleftrightarrow>
     inp_coverage_gaps inp = [] \<and> vo_unknowns ev = [] \<and> vo_unknowns pv = [] \<and>
     \<not> vo_bounds_exceeded ev \<and> \<not> vo_bounds_exceeded pv"
  using dedup_nonempty[of "vo_unknowns ev @ vo_unknowns pv"]
  by (auto simp: missing_coverage_def)

text \<open>How a bundle is made.\<close>

lemma analyze_parts:
  assumes "analyze inp md = Inr b"
  obtains ev pv entries where "run_view inp EvidenceView md = Inr ev" "run_view inp PossibleView md = Inr pv"
    "traverse (\<lambda>obj. objective_entry obj ev pv (map missing_reason (missing_coverage inp ev pv))) (inp_objectives inp) = Inr entries"
    "bun_objectives b = map fst entries" "bun_witnesses b = List.map_filter snd entries"
    "bun_conclusion b = conclude (map fst entries)" "bun_missing b = missing_coverage inp ev pv"
    "bun_evidence_view b = ev" "bun_possible_view b = pv" "bun_input b = inp" "bun_exhausted b = exhausted ev pv"
  using assms by (auto simp: analyze_def rbind_Inr Let_def)

lemma conclude_none:
  "conclude es = ContainedWithinScope \<longleftrightarrow> set (map oe_status es) \<subseteq> {SatisfiedWithinScope}"
proof -
  have only: "(s = SatisfiedWithinScope) = (s \<noteq> Violated \<and> s \<noteq> PossiblyViolated \<and> s \<noteq> UnknownStatus)" for s
    by (cases s) simp_all
  have "X \<subseteq> {SatisfiedWithinScope} \<longleftrightarrow> Violated \<notin> X \<and> PossiblyViolated \<notin> X \<and> UnknownStatus \<notin> X" for X
    unfolding subset_iff singleton_iff only by blast
  then show ?thesis unfolding conclude_def Let_def by simp
qed

lemma conclusion_contained:
  assumes "analyze inp md = Inr b" and "bun_conclusion b = ContainedWithinScope" and "inp_objectives inp \<noteq> []"
  shows "inp_coverage_gaps inp = [] \<and>
    (\<forall>vo \<in> {bun_evidence_view b, bun_possible_view b}. vo_unknowns vo = [] \<and> \<not> vo_bounds_exceeded vo \<and>
       (\<forall>obj \<in> set (inp_objectives inp). \<not> dmem (objective_goal (obj_target obj)) (vo_goals_final vo)))"
proof -
  obtain ev pv entries where views: "bun_evidence_view b = ev" "bun_possible_view b = pv"
    and tr: "traverse (\<lambda>obj. objective_entry obj ev pv (map missing_reason (missing_coverage inp ev pv))) (inp_objectives inp) = Inr entries"
    and concl: "bun_conclusion b = conclude (map fst entries)"
    by (rule analyze_parts[OF assms(1)]) blast
  let ?rs = "map missing_reason (missing_coverage inp ev pv)"
  have all: "list_all2 (\<lambda>obj e. objective_entry obj ev pv ?rs = Inr e) (inp_objectives inp) entries"
    using tr by (simp add: traverse_Inr)
  have each: "\<exists>e \<in> set entries. objective_entry obj ev pv ?rs = Inr e" if "obj \<in> set (inp_objectives inp)" for obj
    using all that by (rule list_all2_left)
  have st: "oe_status e = SatisfiedWithinScope" if "e \<in> set (map fst entries)" for e
  proof -
    have "oe_status e \<in> set (map oe_status (map fst entries))" unfolding set_map by (rule imageI) (use that in \<open>simp only: set_map\<close>)
    also have "\<dots> \<subseteq> {SatisfiedWithinScope}" using assms(2) unfolding concl conclude_none .
    finally show ?thesis by simp
  qed
  have safe: "?rs = [] \<and> \<not> dmem (objective_goal (obj_target obj)) (vo_goals_final ev) \<and>
      \<not> dmem (objective_goal (obj_target obj)) (vo_goals_final pv)" if obj: "obj \<in> set (inp_objectives inp)" for obj
  proof -
    from each[OF obj] obtain e w where e: "(e, w) \<in> set entries" "objective_entry obj ev pv ?rs = Inr (e, w)" by force
    then have "oe_status e = SatisfiedWithinScope" by (intro st) (simp only: set_map image_iff, force)
    then show ?thesis using objective_entry_status(2)[OF e(2)] by (auto simp: Let_def split: if_splits)
  qed
  from assms(3) obtain obj where "obj \<in> set (inp_objectives inp)" by (cases "inp_objectives inp") auto
  with safe have "missing_coverage inp ev pv = []" by simp
  with safe views show ?thesis by (auto simp: missing_coverage_empty)
qed

text \<open>Every witness of a bundle proves its goal.\<close>

lemma objective_entry_total:
  assumes "outcome_ok b ev" and "outcome_ok b pv"
  shows "\<exists>e. objective_entry obj ev pv reasons = Inr e"
proof -
  let ?g = "objective_goal (obj_target obj)"
  have v: "\<exists>e. violated_entry obj st vo = Inr e" if vo: "outcome_ok b vo" and g: "dmem ?g (vo_goals_final vo)" for st vo
  proof -
    from g obtain d where "dget (vo_goals_final vo) ?g = Some d" by auto
    from witness_found[OF vo[unfolded outcome_ok_def] this] obtain steps where "witness vo ?g = Inr (steps @ [d])" .
    then show ?thesis by (simp add: violated_entry_def Let_def)
  qed
  show ?thesis using v assms by (auto simp: objective_entry_def Let_def)
qed

lemma traverse_total: "(\<And>x. x \<in> set xs \<Longrightarrow> \<exists>y. f x = Inr y) \<Longrightarrow> \<exists>ys. traverse f xs = Inr ys"
  by (induction xs) fastforce+

lemma analyze_total:
  assumes "input_ok inp"
  shows "\<exists>b. analyze inp md = Inr b"
proof -
  from run_view_answers[OF assms, of False EvidenceView md] obtain ev where
      ev: "run_view inp EvidenceView md = Inr ev" "outcome_ok False ev" by blast
  from run_view_answers[OF assms, of False PossibleView md] obtain pv where
      pv: "run_view inp PossibleView md = Inr pv" "outcome_ok False pv" by blast
  let ?rs = "map missing_reason (missing_coverage inp ev pv)"
  obtain entries where entries: "traverse (\<lambda>obj. objective_entry obj ev pv ?rs) (inp_objectives inp) = Inr entries"
    using traverse_total[of "inp_objectives inp" "\<lambda>obj. objective_entry obj ev pv ?rs"]
      objective_entry_total[OF ev(2) pv(2)] by blast
  have "\<exists>j. act_to_json a = Inr j" if "a \<in> set (inp_remediation inp)" for a
    using that assms action_json_roundtrip unfolding input_ok_def by blast
  then obtain rem where "traverse act_to_json (inp_remediation inp) = Inr rem"
    using traverse_total[of "inp_remediation inp" act_to_json] by blast
  with ev(1) pv(1) entries show ?thesis
    by (simp add: analyze_def lift_run_def lift_parse_def Let_def)
qed

end
