(* ===== verification/Planner.thy ===== *)
theory Planner
  imports Results Complex_Main
begin

text \<open>
  The containment planner, \<open>packages/afterlock/planner.py\<close>: the candidate actions of a case, the
  naive baseline, and the uniform-cost search over sequences of distinct candidates, each evaluated
  by the full analysis. A cost is a Python float; here it is an exact rational, so rounding in the
  last place, which can only reorder sequences of almost equal cost, is not modelled.
\<close>

section \<open>Costs\<close>

definition DEFAULT_COSTS :: "(string, rat) dict" where
  "DEFAULT_COSTS =
     [(''remove_binding'', 1), (''delete_pod'', 1), (''delete_controller'', 1),
      (''delete_pods_except'', 2), (''delete_controllers_except'', 2),
      (''rotate_downstream_credential'', 3), (''delete_service_account'', 4), (''wait'', 0)]"

record planner_config =
  pc_max_length :: int
  pc_max_evaluations :: int
  pc_costs :: "(string, rat) dict option"

definition default_config :: planner_config where
  "default_config = \<lparr>pc_max_length = 4, pc_max_evaluations = 5000, pc_costs = None\<rparr>"

text \<open>
  \<open>float(costs.get(a.kind, DEFAULT_COSTS[a.kind]))\<close>; every kind has a default. A wait costs
  its length in addition.
\<close>

definition base_cost :: "(string, rat) dict \<Rightarrow> action_kind \<Rightarrow> rat" where
  "base_cost costs k =
     (case dget costs (action_kind_name k) of
        Some c \<Rightarrow> c
      | None \<Rightarrow> (case dget DEFAULT_COSTS (action_kind_name k) of Some c \<Rightarrow> c | None \<Rightarrow> 0))"

definition action_cost :: "defender_action \<Rightarrow> (string, rat) dict \<Rightarrow> rat parsed" where
  "action_cost a costs =
     (if act_kind a = Wait
      then rbind (seconds_param a) (\<lambda>n. Inr (base_cost costs (act_kind a) + of_int n / 900))
      else Inr (base_cost costs (act_kind a)))"

section \<open>Candidates\<close>

text \<open>The service accounts the attacker's evidence names, and those of the same namespaces.\<close>

definition seed_account ::
  "analysis_input \<Rightarrow> initial_fact \<Rightarrow> (string \<times> string) list \<Rightarrow> (string \<times> string) list parsed" where
  "seed_account inp f sas =
     (case if_seed f of
        SeedPossessesCredential cid \<Rightarrow>
          rbind (inp_credential inp cid) (\<lambda>c.
          Inr (case parse_sa_username (cred_username c) of None \<Rightarrow> sas | Some sa \<Rightarrow> sas @ [sa]))
      | SeedControlsPod u \<Rightarrow>
          Inr (case dget (dict_of (map (\<lambda>p. (pod_uid p, p)) (inv_pods (inp_inventory inp))) []) u of
                 None \<Rightarrow> sas
               | Some p \<Rightarrow> sas @ [(pod_namespace p, pod_service_account p)])
      | SeedHistoricalPod u ns sa \<Rightarrow> Inr (sas @ [(ns, sa)])
      | _ \<Rightarrow> Inr sas)"

definition attacker_service_accounts :: "analysis_input \<Rightarrow> (string \<times> string) list parsed" where
  "attacker_service_accounts inp =
     rbind (for_each (seed_account inp) (inp_initial_facts inp) []) (\<lambda>sas.
     let near = map (\<lambda>s. (sa_namespace s, sa_name s))
                  (filter (\<lambda>s. sa_namespace s \<in> fst ` set sas) (inv_service_accounts (inp_inventory inp)))
     in Inr (sorted_set (sas @ near)))"

definition remove_binding_entry :: "role_binding \<Rightarrow> json" where
  "remove_binding_entry b =
     JObj ([(''kind'', JStr ''remove_binding''), (''name'', JStr (rb_name b))] @
           (case rb_namespace b of None \<Rightarrow> [] | Some ns \<Rightarrow> [(''namespace'', JStr ns)]))"

definition binding_entries :: "analysis_input \<Rightarrow> (string \<times> string) list \<Rightarrow> json list" where
  "binding_entries inp sas =
     map remove_binding_entry
       (filter (\<lambda>b. list_ex (\<lambda>s. subj_kind s = SubjServiceAccount \<and>
                     (case subj_namespace s of None \<Rightarrow> False | Some ns \<Rightarrow> (ns, subj_name s) \<in> set sas))
                  (rb_subjects b))
          (inv_bindings (inp_inventory inp)))"

definition except_entry :: "string \<Rightarrow> string \<Rightarrow> string \<Rightarrow> string list \<Rightarrow> json" where
  "except_entry k ns sa keep =
     JObj [(''kind'', JStr k), (''namespace'', JStr ns), (''service_account'', JStr sa),
           (''keep_uids'', strs_json keep)]"

text \<open>The pods legitimate operations use and that run as the account, and their controllers.\<close>

definition legit_pods_of :: "analysis_input \<Rightarrow> string \<times> string \<Rightarrow> pod list" where
  "legit_pods_of inp sa =
     filter (\<lambda>p. pod_uid p \<in> leg_pod_uid ` set (inp_legitimate_operations inp) \<and>
                 (pod_namespace p, pod_service_account p) = sa)
       (inv_pods (inp_inventory inp))"

definition account_entries :: "analysis_input \<Rightarrow> string \<times> string \<Rightarrow> json list" where
  "account_entries inp acc =
     (case acc of (ns, sa) \<Rightarrow>
       [except_entry ''delete_pods_except'' ns sa (sort (map pod_uid (legit_pods_of inp acc))),
        except_entry ''delete_controllers_except'' ns sa
          (sorted_set (filter (\<lambda>u. u \<noteq> []) (List.map_filter pod_controller_uid (legit_pods_of inp acc)))),
        JObj [(''kind'', JStr ''delete_service_account''), (''namespace'', JStr ns), (''name'', JStr sa)]])"

definition service_entries :: "downstream_service \<Rightarrow> json list" where
  "service_entries s =
     JObj [(''kind'', JStr ''rotate_downstream_credential''), (''service'', JStr (svc_name s))] #
     (if svc_rotation_propagation_seconds s > 0
      then [JObj [(''kind'', JStr ''wait''), (''seconds'', JInt (svc_rotation_propagation_seconds s))]] else [])"

definition seeded_pods :: "analysis_input \<Rightarrow> string list" where
  "seeded_pods inp =
     List.map_filter (\<lambda>f. case if_seed f of SeedControlsPod u \<Rightarrow> Some u | _ \<Rightarrow> None) (inp_initial_facts inp)"

definition seeded_controllers :: "analysis_input \<Rightarrow> string list" where
  "seeded_controllers inp =
     List.map_filter (\<lambda>f. case if_seed f of SeedControlsController u \<Rightarrow> Some u | _ \<Rightarrow> None) (inp_initial_facts inp)"

definition candidate_entries :: "analysis_input \<Rightarrow> (string \<times> string) list \<Rightarrow> json list" where
  "candidate_entries inp sas =
     binding_entries inp sas @
     map (\<lambda>p. JObj [(''kind'', JStr ''delete_pod''), (''uid'', JStr (pod_uid p))])
       (filter (\<lambda>p. pod_uid p \<in> set (seeded_pods inp)) (inv_pods (inp_inventory inp))) @
     map (\<lambda>c. JObj [(''kind'', JStr ''delete_controller''), (''uid'', JStr (ctrl_uid c))])
       (filter (\<lambda>c. ctrl_uid c \<in> set (seeded_controllers inp)) (inv_controllers (inp_inventory inp))) @
     concat (map (account_entries inp) sas) @
     concat (map service_entries (inv_services (inp_inventory inp)))"

text \<open>\<open>sorted(set(...), key=label)\<close>; the order of a set's elements with equal labels is unspecified.\<close>

definition candidate_actions :: "analysis_input \<Rightarrow> defender_action list parsed" where
  "candidate_actions inp =
     rbind (attacker_service_accounts inp) (\<lambda>sas.
     rbind (parse_actions (JList (candidate_entries inp sas)) ''candidates'') (\<lambda>as.
     Inr (sort_key act_label (remdups as))))"

definition naive_plan :: "analysis_input \<Rightarrow> defender_action list parsed" where
  "naive_plan inp =
     rbind (attacker_service_accounts inp) (\<lambda>sas.
     parse_actions
       (JList (binding_entries inp sas @
               concat (map (\<lambda>(ns, sa). [except_entry ''delete_controllers_except'' ns sa [],
                                         except_entry ''delete_pods_except'' ns sa []]) sas)))
       ''naive'')"

section \<open>Summaries\<close>

text \<open>\<open>round(x, 6)\<close>, to the nearest and on a tie to the even neighbour.\<close>

definition round_even :: "rat \<Rightarrow> int" where
  "round_even x =
     (let f = \<lfloor>x\<rfloor>; r = x - of_int f
      in if r < 1 / 2 then f else if r > 1 / 2 then f + 1 else if even f then f else f + 1)"

definition round6 :: "rat \<Rightarrow> rat" where
  "round6 x = of_int (round_even (x * 1000000)) / 1000000"

record plan_summary =
  pl_actions :: "json list"
  pl_cost :: rat
  pl_conclusion :: conclusion
  pl_objectives :: "(string, objective_status) dict"
  pl_legit :: "(string, bool) dict"
  pl_exposure :: "int list"
  pl_digest :: string

definition exposed_intervals :: "view_outcome \<Rightarrow> int list" where
  "exposed_intervals vo =
     map ir_index (filter (\<lambda>r. filter is_capability (ir_goals r) \<noteq> []) (butlast (vo_intervals vo)))"

type_synonym 'a planned = "exn option + 'a"

definition summarize ::
  "(string \<Rightarrow> string) \<Rightarrow> defender_action list \<Rightarrow> result_bundle \<Rightarrow> (string, rat) dict \<Rightarrow> plan_summary planned" where
  "summarize sha256 as b costs =
     lift_parse (
     rbind (traverse act_to_json as) (\<lambda>js.
     rbind (traverse (\<lambda>a. action_cost a costs) as) (\<lambda>cs.
     Inr \<lparr>pl_actions = js, pl_cost = round6 (sum_list cs), pl_conclusion = bun_conclusion b,
          pl_objectives = dict_of (map (\<lambda>e. (obj_id (oe_objective e), oe_status e)) (bun_objectives b)) [],
          pl_legit = dict_of (map (\<lambda>e. (le_id e, le_preserved e)) (bun_legit b)) [],
          pl_exposure = exposed_intervals (bun_evidence_view b),
          pl_digest = digest sha256 (JObj (bundle_items b))\<rparr>)))"

definition valid_bundle :: "result_bundle \<Rightarrow> bool" where
  "valid_bundle b \<longleftrightarrow> bun_conclusion b = ContainedWithinScope \<and> list_all le_preserved (bun_legit b)"

section \<open>The search\<close>

text \<open>
  A node of the heap: the cost, the labels and the indices of its sequence. \<open>heapq\<close> pops the least
  element; the heap is the sorted list of its elements.
\<close>

type_synonym plan_node = "rat \<times> string list \<times> nat list"

definition heappush :: "plan_node \<Rightarrow> plan_node list \<Rightarrow> plan_node list" where
  "heappush n h = insort n h"

record plan_search =
  ps_evaluations :: int
  ps_best :: "plan_summary option"
  ps_disruptive :: "plan_summary option"
  ps_incomplete :: bool

definition push_child ::
  "(string, rat) dict \<Rightarrow> defender_action list \<Rightarrow> plan_node \<Rightarrow> nat \<Rightarrow> plan_node list \<Rightarrow> plan_node list parsed" where
  "push_child costs cands nd j heap =
     (case nd of (c, ls, idxs) \<Rightarrow>
      if j \<in> set idxs then Inr heap
      else rbind (action_cost (cands ! j) costs) (\<lambda>d.
           Inr (heappush (c + d, map (\<lambda>k. act_label (cands ! k)) (idxs @ [j]), idxs @ [j]) heap)))"

definition expand ::
  "planner_config \<Rightarrow> (string, rat) dict \<Rightarrow> defender_action list \<Rightarrow> plan_node \<Rightarrow> plan_node list \<Rightarrow> plan_node list parsed" where
  "expand cfg costs cands nd heap =
     (if int (length (snd (snd nd))) < pc_max_length cfg
      then for_each (push_child costs cands nd) [0..<length cands] heap
      else Inr heap)"

text \<open>The evaluation of a popped sequence; the flag says that the loop is left.\<close>

definition evaluate_node ::
  "(string \<Rightarrow> string) \<Rightarrow> analysis_input \<Rightarrow> planner_config \<Rightarrow> (string, rat) dict \<Rightarrow> defender_action list \<Rightarrow>
     nat list \<Rightarrow> plan_search \<Rightarrow> (bool \<times> plan_search) planned" where
  "evaluate_node sha256 inp cfg costs cands idxs s =
     (if idxs = [] then Inr (False, s)
      else if ps_evaluations s \<ge> pc_max_evaluations cfg then Inr (True, s\<lparr>ps_incomplete := True\<rparr>)
      else
        let as = map (\<lambda>i. cands ! i) idxs; s1 = s\<lparr>ps_evaluations := ps_evaluations s + 1\<rparr> in
        rbind (analyze (with_remediation inp as) ModeFull) (\<lambda>b.
        if valid_bundle b then
          rbind (summarize sha256 as b costs) (\<lambda>p. Inr (True, s1\<lparr>ps_best := Some p\<rparr>))
        else if ps_disruptive s1 = None \<and> bun_conclusion b = ContainedWithinScope then
          rbind (summarize sha256 as b costs) (\<lambda>p. Inr (False, s1\<lparr>ps_disruptive := Some p\<rparr>))
        else Inr (False, s1)))"

text \<open>
  Every popped node is replaced by at most one child per candidate, of a length one greater and
  below the maximum: the weights of the nodes on the heap sum up to less.
\<close>

fun node_weight :: "nat \<Rightarrow> nat \<Rightarrow> nat" where
  "node_weight n 0 = 1"
| "node_weight n (Suc d) = 1 + n * node_weight n d"

definition heap_weight :: "nat \<Rightarrow> int \<Rightarrow> plan_node list \<Rightarrow> nat" where
  "heap_weight n l heap = (\<Sum>(c, ls, idxs) \<leftarrow> heap. node_weight n (nat (l - int (length idxs))))"

lemma heap_weight_insort:
  "heap_weight n l (insort x heap) = heap_weight n l [x] + heap_weight n l heap"
  by (induction heap) (auto simp: heap_weight_def)

lemma heap_weight_single [simp]:
  "heap_weight n l [(c, ls, idxs)] = node_weight n (nat (l - int (length idxs)))"
  by (simp add: heap_weight_def)

lemma push_children_weight:
  assumes "for_each (push_child costs cands (c, ls, idxs)) js heap = Inr heap'"
  shows "heap_weight n l heap'
           \<le> heap_weight n l heap + length js * node_weight n (nat (l - int (Suc (length idxs))))"
  using assms
proof (induction js arbitrary: heap)
  case (Cons j js)
  then obtain h where h: "push_child costs cands (c, ls, idxs) j heap = Inr h"
    and rest: "for_each (push_child costs cands (c, ls, idxs)) js h = Inr heap'"
    by (auto simp: rbind_Inr)
  have "heap_weight n l h \<le> heap_weight n l heap + node_weight n (nat (l - int (Suc (length idxs))))"
    using h by (auto simp: push_child_def heappush_def rbind_Inr heap_weight_insort split: if_splits)
  with Cons.IH[OF rest] show ?case by simp
qed simp

lemma expand_decreases:
  assumes "expand cfg costs cands nd heap = Inr heap'"
  shows "heap_weight (length cands) (pc_max_length cfg) heap'
           < heap_weight (length cands) (pc_max_length cfg) (nd # heap)"
proof -
  obtain c ls idxs where nd: "nd = (c, ls, idxs)" by (cases nd)
  let ?l = "pc_max_length cfg" and ?n = "length cands"
  let ?w = "node_weight ?n (nat (?l - int (length idxs)))"
  have sum: "heap_weight ?n ?l (nd # heap) = ?w + heap_weight ?n ?l heap"
    by (simp add: heap_weight_def nd)
  have pos: "0 < node_weight n d" for n d by (cases d) simp_all
  show ?thesis
  proof (cases "int (length idxs) < ?l")
    case True
    then obtain d where d: "nat (?l - int (length idxs)) = Suc d" "nat (?l - int (Suc (length idxs))) = d"
      by (cases "nat (?l - int (length idxs))") auto
    from True assms have "for_each (push_child costs cands (c, ls, idxs)) [0..<?n] heap = Inr heap'"
      by (simp add: expand_def nd)
    from push_children_weight[OF this, of ?n ?l] show ?thesis
      unfolding sum d by simp
  next
    case False
    with assms pos show ?thesis unfolding sum by (simp add: expand_def nd)
  qed
qed

function best_first ::
  "(string \<Rightarrow> string) \<Rightarrow> analysis_input \<Rightarrow> planner_config \<Rightarrow> (string, rat) dict \<Rightarrow> defender_action list \<Rightarrow>
     plan_node list \<Rightarrow> plan_search \<Rightarrow> plan_search planned" where
  "best_first sha256 inp cfg costs cands [] s = Inr s"
| "best_first sha256 inp cfg costs cands (nd # heap) s =
     (case evaluate_node sha256 inp cfg costs cands (snd (snd nd)) s of
        Inl e \<Rightarrow> Inl e
      | Inr (stop, s') \<Rightarrow>
          if stop then Inr s'
          else (case expand cfg costs cands nd heap of
                  Inl e \<Rightarrow> Inl (Some (ModelErr e))
                | Inr heap' \<Rightarrow> best_first sha256 inp cfg costs cands heap' s'))"
  by pat_completeness auto
termination
  by (relation "measure (\<lambda>(sha256, inp, cfg, costs, cands, heap, s).
        heap_weight (length cands) (pc_max_length cfg) heap)")
    (simp_all add: expand_decreases)

section \<open>The plan\<close>

datatype plan_status = OptimalWithinBounds | IncompleteSearch | NoValidPlan

definition status_of :: "plan_search \<Rightarrow> plan_status" where
  "status_of s =
     (if ps_best s \<noteq> None then OptimalWithinBounds
      else if ps_incomplete s then IncompleteSearch else NoValidPlan)"

record plan_report =
  pr_case_id :: string
  pr_input_digest :: string
  pr_status :: plan_status
  pr_config :: planner_config
  pr_evaluations :: int
  pr_candidates :: "json list"
  pr_costs :: "(string, rat) dict"
  pr_best :: "plan_summary option"
  pr_security_only :: "plan_summary option"
  pr_proposed :: plan_summary
  pr_naive :: "plan_summary option"

definition all_costs :: "planner_config \<Rightarrow> (string, rat) dict" where
  "all_costs cfg = dict_of (case pc_costs cfg of None \<Rightarrow> [] | Some cs \<Rightarrow> cs) DEFAULT_COSTS"

definition no_search :: plan_search where
  "no_search = \<lparr>ps_evaluations = 0, ps_best = None, ps_disruptive = None, ps_incomplete = False\<rparr>"

definition naive_summary ::
  "(string \<Rightarrow> string) \<Rightarrow> analysis_input \<Rightarrow> (string, rat) dict \<Rightarrow> plan_summary option planned" where
  "naive_summary sha256 inp costs =
     rbind (lift_parse (naive_plan inp)) (\<lambda>as.
     if as = [] then Inr None
     else rbind (analyze (with_remediation inp as) ModeFull) (\<lambda>b.
          rbind (summarize sha256 as b costs) (\<lambda>p. Inr (Some p))))"

text \<open>\<open>None\<close> as the error is the planner's own \<open>ModelError\<close>: no candidate actions.\<close>

definition plan ::
  "(string \<Rightarrow> string) \<Rightarrow> analysis_input \<Rightarrow> planner_config \<Rightarrow> defender_action list option \<Rightarrow> plan_report planned" where
  "plan sha256 inp cfg candidates =
     (let costs = all_costs cfg in
      rbind (case candidates of Some cs \<Rightarrow> Inr cs | None \<Rightarrow> lift_parse (candidate_actions inp)) (\<lambda>cands.
      if cands = [] then Inl None
      else
        rbind (best_first sha256 inp cfg costs cands [(0, [], [])] no_search) (\<lambda>s.
        rbind (naive_summary sha256 inp costs) (\<lambda>naive.
        rbind (analyze inp ModeFull) (\<lambda>b.
        rbind (summarize sha256 (inp_remediation inp) b costs) (\<lambda>proposed.
        rbind (lift_parse (traverse act_to_json cands)) (\<lambda>js.
        Inr \<lparr>pr_case_id = inp_case_id inp, pr_input_digest = inp_raw_digest inp, pr_status = status_of s,
             pr_config = cfg, pr_evaluations = ps_evaluations s, pr_candidates = js, pr_costs = costs,
             pr_best = ps_best s, pr_security_only = ps_disruptive s, pr_proposed = proposed,
             pr_naive = naive\<rparr>)))))))"

end
