(* ===== verification/Planner_Correct.thy ===== *)
theory Planner_Correct
  imports Planner
begin

text \<open>
  The search of the planner: what it holds on the heap stands for every sequence it has not yet
  ruled out, it pops sequences in the order of their costs, so the first valid one is a cheapest,
  and running out of nodes means there is none. Then its bounds, and that it always answers.
\<close>

section \<open>Sequences and their costs\<close>

definition act_price :: "(string, rat) dict \<Rightarrow> defender_action \<Rightarrow> rat" where
  "act_price costs a = (case action_cost a costs of Inr d \<Rightarrow> d | Inl _ \<Rightarrow> 0)"

definition seq_cost :: "(string, rat) dict \<Rightarrow> defender_action list \<Rightarrow> nat list \<Rightarrow> rat" where
  "seq_cost costs cands js = (\<Sum>j \<leftarrow> js. act_price costs (cands ! j))"

definition priced :: "(string, rat) dict \<Rightarrow> defender_action list \<Rightarrow> bool" where
  "priced costs cands \<longleftrightarrow> (\<forall>a \<in> set cands. \<exists>d \<ge> 0. action_cost a costs = Inr d)"

definition short_seqs :: "nat \<Rightarrow> int \<Rightarrow> nat list set" where
  "short_seqs n l = {js. js \<noteq> [] \<and> distinct js \<and> set js \<subseteq> {..<n} \<and> int (length js) \<le> l}"

definition node_of :: "(string, rat) dict \<Rightarrow> defender_action list \<Rightarrow> nat list \<Rightarrow> plan_node" where
  "node_of costs cands js = (seq_cost costs cands js, map (\<lambda>k. act_label (cands ! k)) js, js)"

lemma node_of_inj [simp]: "node_of costs cands js = node_of costs cands js' \<longleftrightarrow> js = js'"
  by (auto simp: node_of_def)

lemma node_of_cost [simp]: "fst (node_of costs cands js) = seq_cost costs cands js"
  and node_of_seq [simp]: "snd (snd (node_of costs cands js)) = js"
  by (simp_all add: node_of_def)

lemma seq_cost_append [simp]: "seq_cost costs cands (js @ ks) = seq_cost costs cands js + seq_cost costs cands ks"
  by (simp add: seq_cost_def)

lemma priced_nonneg: "priced costs cands \<Longrightarrow> j < length cands \<Longrightarrow> 0 \<le> act_price costs (cands ! j)"
  unfolding priced_def act_price_def by (metis nth_mem sum.case(2))

lemma seq_cost_nonneg: "priced costs cands \<Longrightarrow> set js \<subseteq> {..<length cands} \<Longrightarrow> 0 \<le> seq_cost costs cands js"
  unfolding seq_cost_def by (rule sum_list_nonneg) (auto intro: priced_nonneg)

lemma seq_cost_take:
  assumes "priced costs cands" and "set js \<subseteq> {..<length cands}"
  shows "seq_cost costs cands (take k js) \<le> seq_cost costs cands js"
proof -
  have "seq_cost costs cands js = seq_cost costs cands (take k js) + seq_cost costs cands (drop k js)"
    by (metis append_take_drop_id seq_cost_append)
  moreover have "0 \<le> seq_cost costs cands (drop k js)"
    by (rule seq_cost_nonneg[OF assms(1)]) (use assms(2) set_drop_subset in \<open>fastforce\<close>)
  ultimately show ?thesis by simp
qed

section \<open>The heap\<close>

definition heap_ok :: "(string, rat) dict \<Rightarrow> defender_action list \<Rightarrow> int \<Rightarrow> plan_node list \<Rightarrow> bool" where
  "heap_ok costs cands l heap \<longleftrightarrow>
     sorted heap \<and> set heap \<subseteq> node_of costs cands ` insert [] (short_seqs (length cands) l)"

text \<open>Every sequence with the property is still to come: one of its prefixes is on the heap.\<close>

definition pending :: "(nat list \<Rightarrow> bool) \<Rightarrow> (string, rat) dict \<Rightarrow> defender_action list \<Rightarrow> int \<Rightarrow> plan_node list \<Rightarrow> bool" where
  "pending P costs cands l heap \<longleftrightarrow>
     (\<forall>js \<in> short_seqs (length cands) l. P js \<longrightarrow> (\<exists>k. node_of costs cands (take k js) \<in> set heap))"

lemma push_children:
  assumes "for_each (push_child costs cands (node_of costs cands is)) ks heap = Inr heap'"
    and "priced costs cands" and "set ks \<subseteq> {..<length cands}" and "sorted heap"
  shows "sorted heap' \<and>
    set heap' = set heap \<union> (\<lambda>j. node_of costs cands (is @ [j])) ` {j \<in> set ks. j \<notin> set is}"
  using assms
proof (induction ks arbitrary: heap)
  case (Cons j ks)
  then obtain h where h: "push_child costs cands (node_of costs cands is) j heap = Inr h"
    and rest: "for_each (push_child costs cands (node_of costs cands is)) ks h = Inr heap'"
    by (auto simp: rbind_Inr)
  have h': "h = (if j \<in> set is then heap else insort (node_of costs cands (is @ [j])) heap)"
    using h by (auto simp: push_child_def node_of_def heappush_def rbind_Inr seq_cost_def act_price_def split: if_splits)
  have "sorted h" using Cons.prems(4) by (simp add: h' sorted_insort)
  from Cons.IH[OF rest Cons.prems(2) _ this] Cons.prems(3) show ?case
    by (auto simp: h' set_insort_key)
qed simp

lemma expand_heap:
  assumes "expand cfg costs cands (node_of costs cands is) heap = Inr heap'"
    and "priced costs cands" and "sorted heap"
  shows "sorted heap' \<and>
    set heap' = set heap \<union> (\<lambda>j. node_of costs cands (is @ [j])) `
      {j. j < length cands \<and> j \<notin> set is \<and> int (length is) < pc_max_length cfg}"
proof (cases "int (length is) < pc_max_length cfg")
  case True
  then have "for_each (push_child costs cands (node_of costs cands is)) [0..<length cands] heap = Inr heap'"
    using assms(1) by (simp add: expand_def)
  moreover have "set [0..<length cands] \<subseteq> {..<length cands}" by auto
  ultimately have "sorted heap' \<and> set heap' = set heap \<union> (\<lambda>j. node_of costs cands (is @ [j])) `
      {j \<in> set [0..<length cands]. j \<notin> set is}"
    using push_children[OF _ assms(2) _ assms(3)] by blast
  with True show ?thesis by simp
qed (use assms in \<open>simp add: expand_def\<close>)

lemma expand_keeps:
  assumes ex: "expand cfg costs cands (node_of costs cands is) heap = Inr heap'"
    and pr: "priced costs cands"
    and ok: "heap_ok costs cands (pc_max_length cfg) (node_of costs cands is # heap)"
  shows "heap_ok costs cands (pc_max_length cfg) heap'"
proof -
  have s: "sorted heap" and "node_of costs cands is \<in> node_of costs cands ` insert [] (short_seqs (length cands) (pc_max_length cfg))"
    using ok by (simp_all add: heap_ok_def)
  then have seq: "is = [] \<or> is \<in> short_seqs (length cands) (pc_max_length cfg)" by auto
  have "is @ [j] \<in> short_seqs (length cands) (pc_max_length cfg)"
    if "j < length cands" "j \<notin> set is" "int (length is) < pc_max_length cfg" for j
    using seq that by (auto simp: short_seqs_def)
  with expand_heap[OF ex pr s] ok show ?thesis by (auto simp: heap_ok_def)
qed

lemma expand_pending:
  assumes ex: "expand cfg costs cands (node_of costs cands is) heap = Inr heap'"
    and pr: "priced costs cands" and s: "sorted heap"
    and pend: "pending P costs cands (pc_max_length cfg) (node_of costs cands is # heap)"
    and not: "\<not> P is"
  shows "pending P costs cands (pc_max_length cfg) heap'"
  unfolding pending_def
proof (intro ballI impI)
  fix js assume js: "js \<in> short_seqs (length cands) (pc_max_length cfg)" and P: "P js"
  note heap' = conjunct2[OF expand_heap[OF ex pr s]]
  from pend js P obtain k where k: "node_of costs cands (take k js) \<in> set (node_of costs cands is # heap)"
    unfolding pending_def by blast
  show "\<exists>k. node_of costs cands (take k js) \<in> set heap'"
  proof (cases "take k js = is")
    case True
    with not P have "take k js \<noteq> js" by metis
    then have len: "k < length js" by (metis linorder_not_less take_all)
    have "take (Suc k) js = is @ [js ! k]" using True len by (simp add: take_Suc_conv_app_nth)
    moreover have "js ! k \<notin> set is"
      using js len True by (auto simp: short_seqs_def in_set_conv_nth distinct_conv_nth)
    moreover have "js ! k < length cands" "int (length is) < pc_max_length cfg"
      using js len True subsetD[OF _ nth_mem[OF len], of "{..<length cands}"] by (auto simp: short_seqs_def)
    ultimately have "node_of costs cands (take (Suc k) js) \<in> set heap'" unfolding heap' by auto
    then show ?thesis by blast
  next
    case False
    with k have "node_of costs cands (take k js) \<in> set heap" by auto
    then show ?thesis unfolding heap' by blast
  qed
qed

text \<open>What is popped is no dearer than anything still to come.\<close>

lemma popped_is_cheapest:
  assumes "heap_ok costs cands l (node_of costs cands is # heap)" and "priced costs cands"
    and "pending P costs cands l (node_of costs cands is # heap)"
    and "js \<in> short_seqs (length cands) l" and "P js"
  shows "seq_cost costs cands is \<le> seq_cost costs cands js"
proof -
  from assms(3-5) obtain k where "node_of costs cands (take k js) \<in> set (node_of costs cands is # heap)"
    unfolding pending_def by blast
  with assms(1) have "node_of costs cands is \<le> node_of costs cands (take k js)"
    by (auto simp: heap_ok_def)
  then have "seq_cost costs cands is \<le> seq_cost costs cands (take k js)"
    by (auto simp: node_of_def less_eq_prod_def)
  also have "\<dots> \<le> seq_cost costs cands js"
    by (rule seq_cost_take[OF assms(2)]) (use assms(4) in \<open>simp add: short_seqs_def\<close>)
  finally show ?thesis .
qed

section \<open>The search\<close>

definition seq_result :: "analysis_input \<Rightarrow> defender_action list \<Rightarrow> nat list \<Rightarrow> (result_bundle \<Rightarrow> bool) \<Rightarrow> bool" where
  "seq_result inp cands js Q \<longleftrightarrow>
     (\<exists>b. analyze (with_remediation inp (map (\<lambda>i. cands ! i) js)) ModeFull = Inr b \<and> Q b)"

definition security_only :: "result_bundle \<Rightarrow> bool" where
  "security_only b \<longleftrightarrow> bun_conclusion b = ContainedWithinScope \<and> \<not> valid_bundle b"

text \<open>\<open>p\<close> summarises a sequence with the property, and no other has a lower cost.\<close>

definition cheapest ::
  "(string \<Rightarrow> string) \<Rightarrow> analysis_input \<Rightarrow> int \<Rightarrow> (string, rat) dict \<Rightarrow> defender_action list \<Rightarrow>
     (result_bundle \<Rightarrow> bool) \<Rightarrow> plan_summary \<Rightarrow> bool" where
  "cheapest sha256 inp l costs cands Q p \<longleftrightarrow>
     (\<exists>js \<in> short_seqs (length cands) l. \<exists>b.
        analyze (with_remediation inp (map (\<lambda>i. cands ! i) js)) ModeFull = Inr b \<and> Q b \<and>
        summarize sha256 (map (\<lambda>i. cands ! i) js) b costs = Inr p \<and>
        (\<forall>js' \<in> short_seqs (length cands) l. seq_result inp cands js' Q \<longrightarrow>
           seq_cost costs cands js \<le> seq_cost costs cands js'))"

text \<open>What is known after some of the sequences were evaluated.\<close>

definition search_inv ::
  "(string \<Rightarrow> string) \<Rightarrow> analysis_input \<Rightarrow> planner_config \<Rightarrow> (string, rat) dict \<Rightarrow> defender_action list \<Rightarrow>
     plan_node list \<Rightarrow> plan_search \<Rightarrow> bool" where
  "search_inv sha256 inp cfg costs cands heap s \<longleftrightarrow>
     (let l = pc_max_length cfg in
      heap_ok costs cands l heap \<and> ps_best s = None \<and> \<not> ps_incomplete s \<and>
      pending (\<lambda>js. seq_result inp cands js valid_bundle) costs cands l heap \<and>
      (case ps_disruptive s of
         None \<Rightarrow> pending (\<lambda>js. seq_result inp cands js security_only) costs cands l heap
       | Some p \<Rightarrow> cheapest sha256 inp l costs cands security_only p))"

definition search_post ::
  "(string \<Rightarrow> string) \<Rightarrow> analysis_input \<Rightarrow> planner_config \<Rightarrow> (string, rat) dict \<Rightarrow> defender_action list \<Rightarrow>
     plan_search \<Rightarrow> bool" where
  "search_post sha256 inp cfg costs cands s \<longleftrightarrow>
     (let l = pc_max_length cfg in
      (case ps_best s of
         Some p \<Rightarrow> cheapest sha256 inp l costs cands valid_bundle p
       | None \<Rightarrow> if ps_incomplete s then pc_max_evaluations cfg \<le> ps_evaluations s
                 else \<forall>js \<in> short_seqs (length cands) l. \<not> seq_result inp cands js valid_bundle) \<and>
      (case ps_disruptive s of
         Some p \<Rightarrow> cheapest sha256 inp l costs cands security_only p
       | None \<Rightarrow> ps_best s = None \<and> \<not> ps_incomplete s \<longrightarrow>
                 (\<forall>js \<in> short_seqs (length cands) l. \<not> seq_result inp cands js security_only)))"

lemma pending_empty: "pending P costs cands l [] \<longleftrightarrow> (\<forall>js \<in> short_seqs (length cands) l. \<not> P js)"
  by (simp add: pending_def)

lemma search_inv_done: "search_inv sha256 inp cfg costs cands [] s \<Longrightarrow> search_post sha256 inp cfg costs cands s"
  by (auto simp: search_inv_def search_post_def Let_def pending_empty split: option.splits)

lemma popped_cheapest:
  assumes "heap_ok costs cands l (node_of costs cands is # heap)" and "priced costs cands"
    and "pending (\<lambda>js. seq_result inp cands js Q) costs cands l (node_of costs cands is # heap)"
    and "is \<noteq> []" and "analyze (with_remediation inp (map (\<lambda>i. cands ! i) is)) ModeFull = Inr b" and "Q b"
    and "summarize sha256 (map (\<lambda>i. cands ! i) is) b costs = Inr p"
  shows "cheapest sha256 inp l costs cands Q p"
proof -
  have "node_of costs cands is \<in> node_of costs cands ` insert [] (short_seqs (length cands) l)"
    using assms(1) by (simp add: heap_ok_def)
  then have "is \<in> short_seqs (length cands) l" using assms(4) by auto
  moreover have "seq_cost costs cands is \<le> seq_cost costs cands js'"
    if "js' \<in> short_seqs (length cands) l" "seq_result inp cands js' Q" for js'
    by (rule popped_is_cheapest[OF assms(1,2,3) that])
  ultimately show ?thesis unfolding cheapest_def using assms(5-7) by blast
qed

text \<open>One evaluation: either it ends the search, or the popped sequence is ruled out.\<close>

lemma evaluate_node_stops:
  assumes ev: "evaluate_node sha256 inp cfg costs cands is s = Inr (True, s')"
    and hi: "search_inv sha256 inp cfg costs cands (node_of costs cands is # heap) s"
    and pr: "priced costs cands"
  shows "search_post sha256 inp cfg costs cands s'"
proof (cases "ps_evaluations s \<ge> pc_max_evaluations cfg")
  case True
  then show ?thesis
    using ev hi by (auto simp: evaluate_node_def search_inv_def search_post_def Let_def split: if_splits option.splits)
next
  case False
  with ev obtain b p where ne: "is \<noteq> []" and b: "analyze (with_remediation inp (map (\<lambda>i. cands ! i) is)) ModeFull = Inr b"
    and v: "valid_bundle b" and p: "summarize sha256 (map (\<lambda>i. cands ! i) is) b costs = Inr p"
    and s': "ps_best s' = Some p" "ps_disruptive s' = ps_disruptive s"
    by (auto simp: evaluate_node_def Let_def rbind_Inr split: if_splits)
  from hi have "heap_ok costs cands (pc_max_length cfg) (node_of costs cands is # heap)"
    "pending (\<lambda>js. seq_result inp cands js valid_bundle) costs cands (pc_max_length cfg) (node_of costs cands is # heap)"
    by (simp_all add: search_inv_def Let_def)
  from popped_cheapest[OF this(1) pr this(2) ne b v p] hi show ?thesis
    by (auto simp: search_post_def search_inv_def Let_def s' split: option.splits)
qed

lemma evaluate_node_goes_on:
  assumes ev: "evaluate_node sha256 inp cfg costs cands is s = Inr (False, s')"
    and hi: "search_inv sha256 inp cfg costs cands (node_of costs cands is # heap) s"
    and pr: "priced costs cands"
    and ex: "expand cfg costs cands (node_of costs cands is) heap = Inr heap'"
  shows "search_inv sha256 inp cfg costs cands heap' s'"
proof -
  let ?l = "pc_max_length cfg" and ?nd = "node_of costs cands is"
  have ok: "heap_ok costs cands ?l (?nd # heap)" and best: "ps_best s = None" "\<not> ps_incomplete s"
    and val: "pending (\<lambda>js. seq_result inp cands js valid_bundle) costs cands ?l (?nd # heap)"
    using hi by (simp_all add: search_inv_def Let_def)
  have s: "sorted heap" using ok by (simp add: heap_ok_def)
  have ok': "heap_ok costs cands ?l heap'" by (rule expand_keeps[OF ex pr ok])
  note go = expand_pending[OF ex pr s]
  show ?thesis
  proof (cases "is = []")
    case True
    have "pending P costs cands ?l heap'" if "pending P costs cands ?l (?nd # heap)" for P
    proof -
      have "pending (\<lambda>js. js \<noteq> [] \<and> P js) costs cands ?l (?nd # heap)" using that by (auto simp: pending_def)
      then have "pending (\<lambda>js. js \<noteq> [] \<and> P js) costs cands ?l heap'" by (rule go) (simp add: True)
      then show ?thesis by (auto simp: pending_def short_seqs_def)
    qed
    with hi ok' ev True show ?thesis
      by (auto simp: search_inv_def Let_def evaluate_node_def split: option.splits)
  next
    case False
    with ev obtain b where b: "analyze (with_remediation inp (map (\<lambda>i. cands ! i) is)) ModeFull = Inr b"
      and v: "\<not> valid_bundle b" and s': "ps_best s' = None" "\<not> ps_incomplete s'"
      and dis: "ps_disruptive s' = ps_disruptive s \<and> \<not> (ps_disruptive s = None \<and> security_only b) \<or>
        ps_disruptive s = None \<and> security_only b \<and>
          (\<exists>p. ps_disruptive s' = Some p \<and> summarize sha256 (map (\<lambda>i. cands ! i) is) b costs = Inr p)"
      using best by (auto simp: evaluate_node_def Let_def rbind_Inr security_only_def split: if_splits)
    have "pending (\<lambda>js. seq_result inp cands js valid_bundle) costs cands ?l heap'"
      by (rule go[OF val]) (simp add: seq_result_def b v)
    moreover have "case ps_disruptive s' of
         None \<Rightarrow> pending (\<lambda>js. seq_result inp cands js security_only) costs cands ?l heap'
       | Some p \<Rightarrow> cheapest sha256 inp ?l costs cands security_only p"
    proof (cases "ps_disruptive s")
      case None
      with hi have sec: "pending (\<lambda>js. seq_result inp cands js security_only) costs cands ?l (?nd # heap)"
        by (simp add: search_inv_def Let_def)
      show ?thesis
      proof (cases "security_only b")
        case True
        with dis None popped_cheapest[OF ok pr sec False b] show ?thesis by auto
      next
        case out: False
        have "pending (\<lambda>js. seq_result inp cands js security_only) costs cands ?l heap'"
          by (rule go[OF sec]) (simp add: seq_result_def b out)
        with dis out None show ?thesis by simp
      qed
    next
      case (Some p)
      with hi dis show ?thesis by (simp add: search_inv_def Let_def)
    qed
    ultimately show ?thesis using ok' s' by (simp add: search_inv_def Let_def)
  qed
qed

theorem best_first_correct:
  assumes "best_first sha256 inp cfg costs cands heap s = Inr s'"
    and "search_inv sha256 inp cfg costs cands heap s" and "priced costs cands"
  shows "search_post sha256 inp cfg costs cands s'"
  using assms
proof (induction sha256 inp cfg costs cands heap s rule: best_first.induct)
  case (1 sha256 inp cfg costs cands s)
  then show ?case by (auto intro: search_inv_done)
next
  case (2 sha256 inp cfg costs cands nd heap s)
  obtain "is" where nd: "nd = node_of costs cands is"
    using "2.prems"(2) by (auto simp: search_inv_def heap_ok_def Let_def)
  obtain stop t where ev: "evaluate_node sha256 inp cfg costs cands (snd (snd nd)) s = Inr (stop, t)"
    using "2.prems"(1) by (auto split: sum.splits)
  show ?case
  proof (cases stop)
    case True
    with ev "2.prems"(1) have "s' = t" by simp
    with evaluate_node_stops[of sha256 inp cfg costs cands "is" s t] ev "2.prems"(2,3) True show ?thesis
      by (simp add: nd)
  next
    case False
    with ev "2.prems"(1) obtain heap' where ex: "expand cfg costs cands nd heap = Inr heap'"
      and rest: "best_first sha256 inp cfg costs cands heap' t = Inr s'" by (auto split: sum.splits)
    have "search_inv sha256 inp cfg costs cands heap' t"
      by (rule evaluate_node_goes_on[OF _ _ "2.prems"(3)]) (use ev ex "2.prems"(2) False in \<open>simp_all add: nd\<close>)
    from "2.IH"[OF ev refl _ ex rest this "2.prems"(3)] False show ?thesis by simp
  qed
qed

lemma plan_start_inv: "search_inv sha256 inp cfg costs cands [(0, [], [])] no_search"
proof -
  have "(0, [], []) = node_of costs cands []" by (simp add: node_of_def seq_cost_def)
  moreover have "\<exists>k. take k js = []" for js :: "nat list" by (rule exI[of _ 0]) simp
  ultimately show ?thesis
    by (simp add: search_inv_def no_search_def heap_ok_def pending_def Let_def)
qed

section \<open>How much it evaluates\<close>

lemma node_weight_sum: "node_weight n d = (\<Sum>k \<le> d. n ^ k)"
proof (induction d)
  case (Suc d)
  have "(\<Sum>k \<le> Suc d. n ^ k) = n ^ 0 + (\<Sum>k \<le> d. n ^ Suc k)" by (rule sum.atMost_Suc_shift)
  with Suc show ?case by (simp add: sum_distrib_left)
qed simp

lemma node_weight_pos: "0 < node_weight n d"
  by (cases d) simp_all

lemma evaluate_node_counts:
  assumes "evaluate_node sha256 inp cfg costs cands js s = Inr (stop, s')"
  shows "ps_evaluations s \<le> ps_evaluations s' \<and> ps_evaluations s' \<le> ps_evaluations s + 1 \<and>
    ps_evaluations s' \<le> max (ps_evaluations s) (pc_max_evaluations cfg) \<and> (js = [] \<longrightarrow> s' = s \<and> \<not> stop)"
  using assms by (auto simp: evaluate_node_def Let_def rbind_Inr split: if_splits)

lemma heap_weight_pos: "0 < heap_weight n l (nd # heap)"
  by (cases nd) (simp add: heap_weight_def node_weight_pos)

lemma best_first_counts:
  assumes "best_first sha256 inp cfg costs cands heap s = Inr s'"
  shows "ps_evaluations s' \<le> max (ps_evaluations s) (pc_max_evaluations cfg) \<and>
    ps_evaluations s' \<le> ps_evaluations s + int (heap_weight (length cands) (pc_max_length cfg) heap)"
  using assms
proof (induction sha256 inp cfg costs cands heap s rule: best_first.induct)
  case (2 sha256 inp cfg costs cands nd heap s)
  obtain stop t where ev: "evaluate_node sha256 inp cfg costs cands (snd (snd nd)) s = Inr (stop, t)"
    using "2.prems" by (auto split: sum.splits)
  note count = evaluate_node_counts[OF ev]
  show ?case
  proof (cases stop)
    case True
    with ev "2.prems" have "s' = t" by simp
    with count heap_weight_pos[of "length cands" "pc_max_length cfg" nd heap] show ?thesis by auto
  next
    case False
    with ev "2.prems" obtain heap' where ex: "expand cfg costs cands nd heap = Inr heap'"
      and rest: "best_first sha256 inp cfg costs cands heap' t = Inr s'" by (auto split: sum.splits)
    from "2.IH"[OF ev refl _ ex rest] False count expand_decreases[OF ex] show ?thesis by auto
  qed
qed simp

lemma search_counts:
  assumes "best_first sha256 inp cfg costs cands [(0, [], [])] no_search = Inr s'"
  shows "ps_evaluations s' \<le> max 0 (pc_max_evaluations cfg) \<and>
    ps_evaluations s' \<le> int (\<Sum>k \<in> {1..nat (pc_max_length cfg)}. length cands ^ k)"
proof -
  let ?n = "length cands" and ?l = "pc_max_length cfg" and ?root = "(0, [], []) :: plan_node"
  have "evaluate_node sha256 inp cfg costs cands [] no_search = Inr (False, no_search)"
    by (simp add: evaluate_node_def)
  with assms obtain heap where ex: "expand cfg costs cands ?root [] = Inr heap"
    and rest: "best_first sha256 inp cfg costs cands heap no_search = Inr s'" by (auto split: sum.splits)
  have "heap_weight ?n ?l heap < heap_weight ?n ?l [?root]" by (rule expand_decreases[OF ex])
  also have "\<dots> = (\<Sum>k \<le> nat ?l. ?n ^ k)" by (simp add: node_weight_sum)
  also have "\<dots> = 1 + (\<Sum>k \<in> {1..nat ?l}. ?n ^ k)"
    by (simp add: atMost_atLeast0 sum.atLeast_Suc_atMost)
  finally have "heap_weight ?n ?l heap \<le> (\<Sum>k \<in> {1..nat ?l}. ?n ^ k)" by simp
  then have "int (heap_weight ?n ?l heap) \<le> int (\<Sum>k \<in> {1..nat ?l}. ?n ^ k)" by (simp only: of_nat_le_iff)
  moreover have "ps_evaluations s' \<le> max 0 (pc_max_evaluations cfg) \<and> ps_evaluations s' \<le> int (heap_weight ?n ?l heap)"
    using best_first_counts[OF rest] by (simp add: no_search_def)
  ultimately show ?thesis by linarith
qed

section \<open>The search answers\<close>

lemma action_cost_answers: "action_ok a \<Longrightarrow> \<exists>d \<ge> base_cost costs (act_kind a). action_cost a costs = Inr d"
  by (cases "act_kind a")
     (auto simp: action_cost_def action_ok_def seconds_param_def act_param_def rbind_Inr)

lemma base_cost_nonneg:
  assumes "\<And>k v. dget costs k = Some v \<Longrightarrow> 0 \<le> v"
  shows "0 \<le> base_cost costs k"
  using assms by (cases k) (auto simp: base_cost_def DEFAULT_COSTS_def split: option.splits)

lemma priced_ok:
  assumes "\<forall>a \<in> set cands. action_ok a" and "\<And>k v. dget costs k = Some v \<Longrightarrow> 0 \<le> v"
  shows "priced costs cands"
  unfolding priced_def
proof
  fix a assume "a \<in> set cands"
  with assms(1) obtain d where "base_cost costs (act_kind a) \<le> d" "action_cost a costs = Inr d"
    using action_cost_answers by blast
  with base_cost_nonneg[OF assms(2), where k = "act_kind a"] show "\<exists>d \<ge> 0. action_cost a costs = Inr d" by fastforce
qed

lemma summarize_answers:
  assumes "\<forall>a \<in> set as. action_ok a"
  shows "\<exists>p. summarize sha256 as b costs = Inr p"
proof -
  obtain js where "traverse act_to_json as = Inr js"
    using traverse_total[of as act_to_json] assms action_json_roundtrip by blast
  moreover obtain cs where "traverse (\<lambda>a. action_cost a costs) as = Inr cs"
    using traverse_total[of as "\<lambda>a. action_cost a costs"] assms action_cost_answers by blast
  ultimately show ?thesis by (simp add: summarize_def lift_parse_def)
qed

lemma with_remediation_ok:
  "input_ok inp \<Longrightarrow> \<forall>a \<in> set as. action_ok a \<Longrightarrow> input_ok (with_remediation inp as)"
  by (simp add: input_ok_def with_remediation_def)

lemma evaluate_node_answers:
  assumes "input_ok inp" and "\<forall>a \<in> set cands. action_ok a" and "set js \<subseteq> {..<length cands}"
  shows "\<exists>stop s'. evaluate_node sha256 inp cfg costs cands js s = Inr (stop, s')"
proof -
  let ?as = "map (\<lambda>i. cands ! i) js"
  have ok: "\<forall>a \<in> set ?as. action_ok a" using assms(2,3) nth_mem by fastforce
  obtain b where b: "analyze (with_remediation inp ?as) ModeFull = Inr b"
    using analyze_total[OF with_remediation_ok[OF assms(1) ok]] by blast
  obtain p where "summarize sha256 ?as b costs = Inr p" using summarize_answers[OF ok] by blast
  with b show ?thesis
    by (auto simp: evaluate_node_def Let_def intro: exI[of _ True] exI[of _ False])
qed

definition in_range :: "nat \<Rightarrow> plan_node list \<Rightarrow> bool" where
  "in_range n heap \<longleftrightarrow> (\<forall>nd \<in> set heap. set (snd (snd nd)) \<subseteq> {..<n})"

lemma push_children_answers:
  assumes "\<forall>a \<in> set cands. action_ok a" and "set ks \<subseteq> {..<length cands}"
    and "set (snd (snd nd)) \<subseteq> {..<length cands}" and "in_range (length cands) heap"
  shows "\<exists>heap'. for_each (push_child costs cands nd) ks heap = Inr heap' \<and> in_range (length cands) heap'"
  using assms
proof (induction ks arbitrary: heap)
  case (Cons j ks)
  obtain c ls js where nd: "nd = (c, ls, js)" by (cases nd)
  obtain d where "action_cost (cands ! j) costs = Inr d"
    using action_cost_answers[of "cands ! j" costs] Cons.prems(1,2) by auto
  with nd Cons.prems have "\<exists>h. push_child costs cands nd j heap = Inr h \<and> in_range (length cands) h"
    by (cases "j \<in> set js") (simp_all add: push_child_def heappush_def in_range_def set_insort_key)
  then obtain h where "push_child costs cands nd j heap = Inr h" "in_range (length cands) h" by blast
  with Cons.IH[of h] Cons.prems show ?case by simp
qed simp

lemma expand_answers:
  assumes "\<forall>a \<in> set cands. action_ok a" and "in_range (length cands) (nd # heap)"
  shows "\<exists>heap'. expand cfg costs cands nd heap = Inr heap' \<and> in_range (length cands) heap'"
proof -
  have "set [0..<length cands] \<subseteq> {..<length cands}" "set (snd (snd nd)) \<subseteq> {..<length cands}" "in_range (length cands) heap"
    using assms(2) by (auto simp: in_range_def)
  from push_children_answers[OF assms(1) this] this(3) show ?thesis by (simp add: expand_def)
qed

theorem best_first_answers:
  assumes "input_ok inp" and "\<forall>a \<in> set cands. action_ok a" and "in_range (length cands) heap"
  shows "\<exists>s'. best_first sha256 inp cfg costs cands heap s = Inr s'"
  using assms
proof (induction sha256 inp cfg costs cands heap s rule: best_first.induct)
  case (2 sha256 inp cfg costs cands nd heap s)
  have "set (snd (snd nd)) \<subseteq> {..<length cands}" using "2.prems"(3) by (simp add: in_range_def)
  from evaluate_node_answers[OF "2.prems"(1,2) this] obtain stop t
    where ev: "evaluate_node sha256 inp cfg costs cands (snd (snd nd)) s = Inr (stop, t)" by blast
  obtain heap' where ex: "expand cfg costs cands nd heap = Inr heap'" and r: "in_range (length cands) heap'"
    using expand_answers[OF "2.prems"(2,3)] by blast
  show ?case
    using "2.IH"[OF ev refl _ ex "2.prems"(1,2) r] ev ex by (cases stop) auto
qed simp

section \<open>The plan\<close>

definition used_candidates :: "analysis_input \<Rightarrow> defender_action list option \<Rightarrow> defender_action list planned" where
  "used_candidates inp candidates =
     (case candidates of Some cs \<Rightarrow> Inr cs | None \<Rightarrow> lift_parse (candidate_actions inp))"

lemma if_Inr: "(if c then Inl e else m) = Inr r \<longleftrightarrow> \<not> c \<and> m = Inr r"
  by simp

lemma plan_parts:
  assumes "plan sha256 inp cfg candidates = Inr r"
  obtains cands s where "used_candidates inp candidates = Inr cands" "cands \<noteq> []"
    "best_first sha256 inp cfg (all_costs cfg) cands [(0, [], [])] no_search = Inr s"
    "pr_status r = status_of s" "pr_best r = ps_best s" "pr_security_only r = ps_disruptive s"
    "pr_evaluations r = ps_evaluations s"
  using assms unfolding plan_def Let_def used_candidates_def[symmetric] rbind_Inr if_Inr sum.inject
  by clarify (rule that; (assumption | simp only: plan_report.simps)+)

lemma plan_total:
  assumes "input_ok inp" and "used_candidates inp candidates = Inr cands" and "cands \<noteq> []"
    and "\<forall>a \<in> set cands. action_ok a" and "naive_plan inp = Inr naive"
  shows "\<exists>r. plan sha256 inp cfg candidates = Inr r"
proof -
  have "in_range (length cands) [(0, [], [])]" by (simp add: in_range_def)
  from best_first_answers[OF assms(1,4) this] obtain s where
    s: "best_first sha256 inp cfg (all_costs cfg) cands [(0, [], [])] no_search = Inr s" by blast
  have naive: "\<forall>a \<in> set naive. action_ok a"
    using assms(5) by (auto simp: naive_plan_def rbind_Inr dest: parse_actions_ok)
  obtain nb where "analyze (with_remediation inp naive) ModeFull = Inr nb"
    using analyze_total[OF with_remediation_ok[OF assms(1) naive]] by blast
  moreover obtain np where "summarize sha256 naive nb (all_costs cfg) = Inr np"
    using summarize_answers[OF naive] by blast
  ultimately obtain n where n: "naive_summary sha256 inp (all_costs cfg) = Inr n"
    using assms(5) by (cases "naive = []") (simp_all add: naive_summary_def lift_parse_def)
  obtain b where b: "analyze inp ModeFull = Inr b" using analyze_total[OF assms(1)] by blast
  obtain p where p: "summarize sha256 (inp_remediation inp) b (all_costs cfg) = Inr p"
    using summarize_answers assms(1) unfolding input_ok_def by blast
  obtain js where "traverse act_to_json cands = Inr js"
    using traverse_total[of cands act_to_json] assms(4) action_json_roundtrip by blast
  with s n b p assms(3) show ?thesis
    unfolding plan_def Let_def used_candidates_def[symmetric] assms(2) by (simp only: rbind_simps lift_parse_def sum.case if_False, blast)
qed

end
