(* ===== verification/Coverage.thy ===== *)
theory Coverage
  imports Results
begin

text \<open>
  What the first interval of a run covers: from the seeded state of a case with plain names, every
  interleaving of attacker steps before the first defender action stays within what the run
  recorded. For a case without remediation that is the whole analysis.
\<close>

section \<open>The opening state\<close>

text \<open>The state in which the first interval starts.\<close>

definition begun :: "est \<Rightarrow> est" where
  "begun s = s\<lparr>x_env := reconcile (x_env s)\<rparr>"

lemma begun_parts [simp]:
  "x_env (begun s) = reconcile (x_env s)" "x_facts (begun s) = x_facts s" "x_creds (begun s) = x_creds s"
  "x_eph (begun s) = x_eph s" "x_count (begun s) = x_count s"
  by (simp_all add: begun_def)

lemma not_plain_model [simp]: "\<not> plain (model_pod_uid ns sa i)" "\<not> plain (model_controller_uid ns sa i)"
  by (simp_all add: model_pod_uid_def model_controller_uid_def MODEL_POD_PREFIX_def MODEL_DEPLOY_PREFIX_def)

lemma plain_numbered [simp]: "plain (numbered c k) \<longleftrightarrow> plain c"
  by (simp add: numbered_def)

lemma begun_pods_plain:
  assumes "\<And>u. dmem u (e_pods env) \<Longrightarrow> plain u" and "\<And>c. dmem c (e_controllers env) \<Longrightarrow> plain c"
    and "dmem u (e_pods (reconcile env))"
  shows "plain u"
proof -
  from assms(3) have "dmem u (e_pods env) \<or> (\<exists>p \<in> set (snd (reconcile_controllers env)). pod_uid p = u)"
    by (auto simp: reconcile_pods map_add_def image_iff dest!: map_of_SomeD split: option.splits)
  then show ?thesis
  proof
    assume "\<exists>p \<in> set (snd (reconcile_controllers env)). pod_uid p = u"
    then obtain p where p: "p \<in> set (snd (reconcile_controllers env))" "pod_uid p = u" by blast
    from reconcile_list_created[OF p(1)[unfolded reconcile_controllers_def]] obtain c ct k where
      "dget (e_controllers env) c = Some ct" "p = replacement_pod c ct k" by blast
    with p(2) assms(2)[of c] show ?thesis by (auto simp: replacement_pod_def)
  qed (rule assms(1))
qed

lemma begun_tidy:
  assumes inp: "input_ok inp" "plain_input inp"
    and seeded: "seeded True (from_inventory (inp_inventory inp) (inp_analysis_time inp)) s" and sound: "sound True s"
  shows "tidy r 0 (begun s)" and "accounted 0 (begun s)"
proof -
  let ?env = "from_inventory (inp_inventory inp) (inp_analysis_time inp)"
  have inv: "inventory_ok (inp_inventory inp)" using inp(1) by (simp add: input_ok_def)
  note look = from_inventory_lookup[OF inv]
  have env: "x_env s = ?env" using seeded by (simp add: seeded_def)
  have pods: "plain u" if "dmem u (e_pods ?env)" for u
    using that inp(2) unfolding look(2)[symmetric] by (auto simp: look plain_input_def plain_uid_def)
  have ctrls: "plain c" if "dmem c (e_controllers ?env)" for c
    using that inp(2) by (auto simp: look plain_input_def)
  have all_pods: "plain u" if "dmem u (e_pods (reconcile ?env))" for u
    by (rule begun_pods_plain[OF pods ctrls that])
  have creds: "\<not> dmem (projected_id u aud) (x_creds s)" for u aud
    using seeded projected_prefix[of u aud] by (auto simp: seeded_def)
  have S: "sound True (begun s)" using sound_reconcile[OF sound] by (simp add: begun_def)
  then have inv': "est_inv (begun s)" "plain_env (x_env (begun s))" by (auto simp: sound_def)
  have no_owner: "\<not> owns_pod (reconcile ?env) (model_controller_uid ns sa 0)" for ns sa
  proof
    assume "owns_pod (reconcile ?env) (model_controller_uid ns sa 0)"
    then obtain p where p: "p \<in> set (dvals (e_pods (reconcile ?env)))" "pod_controller_uid p = Some (model_controller_uid ns sa 0)"
      by (auto simp: owns_pod_iff)
    have "env_inv (reconcile ?env)" using inv'(1) env by (simp add: est_inv_def)
    then have "dmem (model_controller_uid ns sa 0) (e_controllers (reconcile ?env))"
      using p by (auto simp: env_inv_def refs_ok_def env_ok_def keyed_dvals)
    with ctrls[of "model_controller_uid ns sa 0"] show False by (simp add: reconcile_frame)
  qed
  show "tidy r 0 (begun s)"
    unfolding tidy_def
  proof (intro conjI allI impI)
    show "env_ok (x_env (begun s))" "owned (begun s)" "accounts_plain (x_env (begun s))"
      using inv' by (simp_all add: est_inv_def est_ok_def plain_env_def)
    show "reconciled (x_env (begun s))" by (simp add: reconcile_reconciled)
    show "delimited u" if "dmem u (e_pods (x_env (begun s)))" for u
      using inv'(2) that by (simp add: plain_env_def)
    show "tokens_ok r (begun s)" using creds by (fastforce simp: tokens_ok_def)
    fix ns sa
    show "pod_slot 0 (begun s) ns sa"
      using all_pods[of "model_pod_uid ns sa 0"] creds
      by (cases "dget (e_pods (reconcile ?env)) (model_pod_uid ns sa 0)") (auto simp: pod_slot_def env)
    show "controller_slot 0 (begun s) ns sa"
      using ctrls[of "model_controller_uid ns sa 0"] all_pods[of "first_pod (model_controller_uid ns sa 0)"] creds no_owner
      by (cases "dget (e_controllers ?env) (model_controller_uid ns sa 0)";
          cases "dget (e_pods (reconcile ?env)) (first_pod (model_controller_uid ns sa 0))")
         (auto simp: controller_slot_def env reconcile_frame Let_def)
  qed
  have "\<not> dmem (ControlsPod (model_pod_uid ns sa 0)) (x_facts s) \<and>
      \<not> dmem (ControlsController (model_controller_uid ns sa 0)) (x_facts s)" for ns sa
  proof -
    have "dget (x_facts s) f = None" if "\<not> unreserved f" for f
      using seeded that by (cases "dget (x_facts s) f") (auto simp: seeded_def)
    from this[of "ControlsPod (model_pod_uid ns sa 0)"] this[of "ControlsController (model_controller_uid ns sa 0)"]
    show ?thesis by (simp add: reserved_uid_def model_pod_uid_def model_controller_uid_def)
  qed
  then show "accounted 0 (begun s)" by (simp add: accounted_def)
qed

section \<open>The first interval\<close>

lemma saturate_Inr:
  "saturate r i l ns cs v = Inr w \<Longrightarrow>
     \<exists>s ir. closure r i (v_est v) = Inr s \<and> v_est w = s \<and> v_goals w = x_eph s \<and>
       v_intervals w = v_intervals v @ [ir] \<and> ir_goals ir = sort (dkeys (x_eph s))"
  by (auto simp: saturate_def split: sum.splits)

lemma saturate_facts:
  "saturate r i l ns cs v = Inr w \<Longrightarrow> dmem f (x_facts (v_est v)) \<Longrightarrow> dmem f (x_facts (v_est w))"
  by (drule saturate_Inr) (metis closure_facts)

text \<open>Later intervals only add records and facts.\<close>

lemma main_loop_extends:
  "main_loop r i as v = Inr w \<Longrightarrow>
     (\<exists>irs. v_intervals w = v_intervals v @ irs) \<and> (\<forall>f. dmem f (x_facts (v_est v)) \<longrightarrow> dmem f (x_facts (v_est w)))"
proof (induction as arbitrary: i v)
  case (Cons a as)
  from Cons.prems obtain v' where step: "interval_step r i a v = Inr v'" and rest: "main_loop r (i + 1) as v' = Inr w"
    by (auto simp: rbind_Inr)
  from step obtain env ns cs where "saturate r i (Some (act_label a)) ns cs (set_env env v) = Inr v'"
    by (auto simp: interval_step_def split: sum.splits prod.splits)
  with saturate_Inr[OF this] saturate_facts[OF this] Cons.IH[OF rest] show ?case
    by (fastforce simp: set_env_def)
qed simp

lemma full_run_parts:
  assumes "run_view inp EvidenceView ModeFull = Inr vo" and "\<not> vo_bounds_exceeded vo"
    and "initial (the_run inp EvidenceView ModeFull) = Inr (s, hist)"
  obtains t v irs where "closure (the_run inp EvidenceView ModeFull) 0 (begun s) = Inr t"
    "vo_intervals vo = v # irs" "ir_goals v = sort (dkeys (x_eph t))"
    "\<forall>f. dmem f (x_facts t) \<longrightarrow> dmem f (vo_derivations vo)"
    "inp_remediation inp = [] \<longrightarrow> vo_goals_final vo = x_eph t"
proof -
  let ?r = "the_run inp EvidenceView ModeFull" and ?v = "\<lparr>v_est = s, v_intervals = [], v_goals = []\<rparr>"
  from assms(1,2) obtain w where w: "run_body ?r hist ?v = Inr w" and vo: "vo = outcome ?r w False"
    using assms(3) by (auto simp: run_view_def Let_def outcome_def split: sum.splits prod.splits if_splits)
  have "full_body ?r ?v = Inr w"
    using w by (simp add: run_body_def history_phase_def the_run_def)
  then obtain env' cs x where rec: "reconcile_controllers (x_env s) = (env', cs)"
    and sat: "saturate ?r 0 None [] (map pod_uid cs) (set_env env' ?v) = Inr x"
    and rest: "main_loop ?r 1 (inp_remediation inp) x = Inr w"
    by (auto simp: full_body_def v_env_def rbind_Inr the_run_def split: prod.splits)
  have est: "v_est (set_env env' ?v) = begun s" using rec by (simp add: set_env_def begun_def)
  from saturate_Inr[OF sat] obtain t ir where t: "closure ?r 0 (begun s) = Inr t" "v_est x = t" "v_goals x = x_eph t"
      "v_intervals x = [ir]" "ir_goals ir = sort (dkeys (x_eph t))"
    unfolding est by (auto simp: set_env_def)
  from main_loop_extends[OF rest] t obtain irs where irs: "vo_intervals vo = ir # irs"
      "\<And>f. dmem f (x_facts t) \<Longrightarrow> dmem f (vo_derivations vo)"
    by (auto simp: vo outcome_def)
  have "vo_goals_final vo = x_eph t" if "inp_remediation inp = []"
    using rest that t by (simp add: vo outcome_def)
  with t irs show ?thesis by (intro that[of t ir irs]) auto
qed

theorem first_interval_covered:
  assumes inp: "input_ok inp" "plain_input inp"
    and run: "run_view inp EvidenceView ModeFull = Inr vo" "\<not> vo_bounds_exceeded vo"
    and start: "initial (the_run inp EvidenceView ModeFull) = Inr (s, hist)"
    and steps: "(att_step (the_run inp EvidenceView ModeFull) 0)\<^sup>*\<^sup>* (begun s) u"
  shows "(\<forall>f. dmem f (x_facts u) \<longrightarrow> dmem f (vo_derivations vo)) \<and>
    (\<forall>f. dmem f (x_eph u) \<longrightarrow> f \<in> set (ir_goals (hd (vo_intervals vo)))) \<and>
    (inp_remediation inp = [] \<longrightarrow> (\<forall>f. dmem f (x_eph u) \<longrightarrow> dmem f (vo_goals_final vo)))"
proof -
  let ?r = "the_run inp EvidenceView ModeFull"
  have plain: "True \<longrightarrow> plain_input inp" using inp(2) by simp
  obtain s' hist' where "initial ?r = Inr (s', hist')" "seeded True (from_inventory (inp_inventory inp) (inp_analysis_time inp)) s'"
      "sound True s'"
    by (rule initial_sound[OF inp(1) plain])
  with start have seeded: "seeded True (from_inventory (inp_inventory inp) (inp_analysis_time inp)) s" and snd: "sound True s"
    by simp_all
  have e: "no_eph (begun s) = begun s" using seeded by (simp add: seeded_def begun_def)
  obtain t v irs where t: "closure ?r 0 (begun s) = Inr t" and vo: "vo_intervals vo = v # irs"
      "ir_goals v = sort (dkeys (x_eph t))" "\<forall>f. dmem f (x_facts t) \<longrightarrow> dmem f (vo_derivations vo)"
      "inp_remediation inp = [] \<longrightarrow> vo_goals_final vo = x_eph t"
    by (rule full_run_parts[OF run start]) blast
  have "covers t u"
    by (rule closure_covers_interleavings[OF t]) (use begun_tidy[OF inp seeded snd] steps e in auto)
  then have "\<forall>f. dmem f (x_facts u) \<longrightarrow> dmem f (x_facts t)" "\<forall>f. dmem f (x_eph u) \<longrightarrow> dmem f (x_eph t)"
    by (simp_all add: covers_def)
  moreover have "f \<in> set (sort (dkeys (x_eph t))) \<longleftrightarrow> dmem f (x_eph t)" for f by auto
  ultimately show ?thesis using vo by simp
qed

end
