(* ===== verification/Examples.thy ===== *)
theory Examples
  imports Coverage
begin

text \<open>
  A small case, as a document and as the input it parses to: a stolen service-account token that
  may read a secret feeding a service, and a remediation that removes the role binding. The
  theorems about the whole analysis are applied to it.
\<close>

section \<open>The case\<close>

definition case_doc :: json where
  "case_doc = JObj [
     (''schema'', JStr ''afterlock.analysis-input/1.0''), (''case_id'', JStr ''c1''), (''cluster_id'', JStr ''k1''),
     (''analysis_time'', JInt 50),
     (''profile'', JObj [(''id'', JStr ''p''), (''kubernetes_version'', JStr ''1.30''),
        (''api_audiences'', JList [JStr ''api'']), (''projected_token_ttl_seconds'', JInt 600)]),
     (''inventory'', JObj [
        (''service_accounts'', JList [JObj [(''namespace'', JStr ''app''), (''name'', JStr ''web''), (''uid'', JStr ''sa1'')]]),
        (''roles'', JList [JObj [(''namespace'', JStr ''app''), (''name'', JStr ''reader''),
           (''rules'', JList [JObj [(''verbs'', JList [JStr ''get'']), (''resources'', JList [JStr ''secrets''])]])]]),
        (''bindings'', JList [JObj [(''namespace'', JStr ''app''), (''name'', JStr ''rb''), (''role_kind'', JStr ''Role''),
           (''role_name'', JStr ''reader''), (''subjects'', JList [JObj [(''kind'', JStr ''ServiceAccount''),
              (''namespace'', JStr ''app''), (''name'', JStr ''web'')]])]]),
        (''secrets'', JList [JObj [(''namespace'', JStr ''app''), (''name'', JStr ''db''), (''uid'', JStr ''s1''),
           (''version'', JInt 1)]]),
        (''services'', JList [JObj [(''name'', JStr ''pay''), (''source_namespace'', JStr ''app''),
           (''source_secret'', JStr ''db''), (''accepted_version'', JInt 1)]])]),
     (''credentials'', JList [JObj [(''id'', JStr ''tok''), (''kind'', JStr ''sa_token''),
        (''username'', JStr ''system:serviceaccount:app:web''), (''audience'', JStr ''api''), (''expires_at'', JInt 100)]]),
     (''initial_facts'', JList [JObj [(''kind'', JStr ''possesses_credential''), (''args'', JList [JStr ''tok'']),
        (''status'', JStr ''observed''), (''evidence'', JList [JStr ''e1''])]]),
     (''objectives'', JList [JObj [(''kind'', JStr ''no_secret_read''), (''id'', JStr ''o1''),
        (''namespace'', JStr ''app''), (''secret'', JStr ''db'')]]),
     (''remediation'', JList [JObj [(''kind'', JStr ''remove_binding''), (''namespace'', JStr ''app''), (''name'', JStr ''rb'')]])]"

definition case_token :: credential_spec where
  "case_token = \<lparr>cred_id = ''tok'', cred_kind = ''sa_token'', cred_username = ''system:serviceaccount:app:web'',
     cred_sa_uid = None, cred_bound_pod_uid = None, cred_audience = ''api'', cred_expires_at = Some 100\<rparr>"

definition case_action :: defender_action where
  "case_action = \<lparr>act_kind = RemoveBinding, act_params = [(''name'', ''rb''), (''namespace'', ''app'')]\<rparr>"

definition case_input :: analysis_input where
  "case_input = \<lparr>inp_case_id = ''c1'', inp_cluster_id = ''k1'', inp_analysis_time = 50,
     inp_profile = \<lparr>prof_id = ''p'', prof_kubernetes_version = ''1.30'', prof_api_audiences = [''api''],
        prof_projected_token_ttl_seconds = 600\<rparr>,
     inp_inventory = \<lparr>
        inv_service_accounts = [\<lparr>sa_namespace = ''app'', sa_name = ''web'', sa_uid = ''sa1''\<rparr>],
        inv_pods = [], inv_controllers = [],
        inv_roles = [\<lparr>role_namespace = Some ''app'', role_name = ''reader'',
          role_rules = [\<lparr>rule_verbs = {''get''}, rule_resources = {''secrets''}, rule_resource_names = None\<rparr>]\<rparr>],
        inv_bindings = [\<lparr>rb_namespace = Some ''app'', rb_name = ''rb'', rb_role_kind = KindRole, rb_role_name = ''reader'',
          rb_subjects = [\<lparr>subj_kind = SubjServiceAccount, subj_name = ''web'', subj_namespace = Some ''app''\<rparr>]\<rparr>],
        inv_secrets = [\<lparr>sec_namespace = ''app'', sec_name = ''db'', sec_uid = ''s1'', sec_version = 1\<rparr>],
        inv_services = [\<lparr>svc_name = ''pay'', svc_source_namespace = ''app'', svc_source_secret = ''db'',
          svc_accepted_version = 1, svc_rotation_propagation_seconds = 0, svc_grace = []\<rparr>],
        inv_admission_policies = []\<rparr>,
     inp_credentials = [case_token],
     inp_initial_facts = [\<lparr>if_seed = SeedPossessesCredential ''tok'', if_status = Observed, if_evidence = [''e1''], if_note = ''''\<rparr>],
     inp_remediation = [case_action],
     inp_objectives = [\<lparr>obj_id = ''o1'', obj_target = NoSecretRead ''app'' ''db'', obj_description = ''''\<rparr>],
     inp_legitimate_operations = [], inp_coverage_gaps = [], inp_assumptions = [],
     inp_bounds = \<lparr>max_intervals = 64, max_derivations = 100000, max_states = 200000\<rparr>,
     inp_raw_digest = ''sha256:'', inp_history_start = None\<rparr>"

lemma case_parses: "parse_analysis_input (\<lambda>s. '''') case_doc = Inr case_input"
  by code_simp

section \<open>Its states\<close>

definition case_run :: run where
  "case_run = the_run case_input EvidenceView ModeFull"

definition case_env :: env where
  "case_env = from_inventory (inp_inventory case_input) 50"

definition case_start :: est where
  "case_start = (case initial case_run of Inr (s, _) \<Rightarrow> s | Inl _ \<Rightarrow> blank case_env)"

lemma case_input_ok: "input_ok case_input"
  by (rule parse_analysis_input_ok[OF case_parses])

lemma case_plain: "plain_input case_input"
  by code_simp

lemma case_initial: "initial case_run = Inr (case_start, [])"
  by code_simp

text \<open>The attacker reads the secret with the stolen token.\<close>

definition case_use :: condition where
  "case_use = the (cred_use case_run case_env case_token)"

definition case_secret :: secret where
  "case_secret = \<lparr>sec_namespace = ''app'', sec_name = ''db'', sec_uid = ''s1'', sec_version = 1\<rparr>"

definition case_read :: derivation where
  "case_read = inferred (CanReadSecret ''app'' ''db'') R_READ_SECRET 0 [Possesses ''tok'']
     (read_conditions (x_env (begun case_start)) case_use (cred_username case_token) ''get'' case_secret) []"

lemma case_step: "att_step case_run 0 (begun case_start) (learn case_read (begun case_start))"
proof -
  have 1: "dmem (Possesses ''tok'') (x_facts (begun case_start)) \<and> dget (x_creds (begun case_start)) ''tok'' = Some case_token"
    by code_simp
  have 2: "cred_use case_run (x_env (begun case_start)) case_token = Some case_use" by code_simp
  have 3: "dget (e_secrets (x_env (begun case_start))) (''app'', ''db'') = Some case_secret" by code_simp
  have 4: "reading_verb (x_env (begun case_start)) (cred_username case_token) case_secret = Some ''get''" by code_simp
  have "derivable case_run 0 (begun case_start) (inferred (CanReadSecret (sec_namespace case_secret) (sec_name case_secret))
      R_READ_SECRET 0 [Possesses ''tok'']
      (read_conditions (x_env (begun case_start)) case_use (cred_username case_token) ''get'' case_secret) [])"
    by (rule derivable.read_can[OF _ 3 4]) (use 1 2 in \<open>simp add: holds_usable_def may_use_def\<close>)
  then have "derivable case_run 0 (begun case_start) case_read" by (simp add: case_read_def case_secret_def)
  then show ?thesis by (rule att_step.learn)
qed

lemma case_runs:
  "case run_view case_input EvidenceView ModeFull of Inl _ \<Rightarrow> False
   | Inr vo \<Rightarrow> \<not> vo_bounds_exceeded vo \<and> dmem (CanUseDownstream ''pay'') (vo_goals_final vo)"
  by code_simp

lemma case_contained:
  "case analyze case_input ModeFull of Inl _ \<Rightarrow> False | Inr b \<Rightarrow> bun_conclusion b = ContainedWithinScope"
  by code_simp

text \<open>The opening state satisfies what the theorems ask for.\<close>

lemma case_seeded:
  "seeded True (from_inventory (inp_inventory case_input) (inp_analysis_time case_input)) case_start \<and> sound True case_start"
proof -
  have plain: "True \<longrightarrow> plain_input case_input" using case_plain by simp
  obtain s hist where "initial (the_run case_input EvidenceView ModeFull) = Inr (s, hist)"
      "seeded True (from_inventory (inp_inventory case_input) (inp_analysis_time case_input)) s" "sound True s"
    by (rule initial_sound[OF case_input_ok plain])
  with case_initial show ?thesis by (simp add: case_run_def)
qed

lemma case_start_inv: "est_inv (begun case_start)"
  using sound_reconcile[OF conjunct2[OF case_seeded]] by (simp add: sound_def begun_def)

lemma case_no_eph: "no_eph (begun case_start) = begun case_start"
  using case_seeded by (simp add: seeded_def begun_def)

lemma case_tidy: "tidy case_run 0 (begun case_start)" and case_accounted: "accounted 0 (begun case_start)"
  using begun_tidy[OF case_input_ok case_plain] case_seeded by blast+

lemma case_closure: "\<exists>t. closure case_run 0 (begun case_start) = Inr t"
proof -
  have "case closure case_run 0 (begun case_start) of Inr _ \<Rightarrow> True | Inl _ \<Rightarrow> False" by code_simp
  then show ?thesis by (auto split: sum.splits)
qed

text \<open>The same run with room for one derivation.\<close>

definition tight_run :: run where
  "tight_run = case_run\<lparr>r_inp := case_input\<lparr>inp_bounds := \<lparr>max_intervals = 64, max_derivations = 1, max_states = 1\<rparr>\<rparr>\<rparr>"

lemma tight_closure: "\<exists>e t. closure tight_run 0 (begun case_start) = Inl (e, t)"
proof -
  have "case closure tight_run 0 (begun case_start) of Inr _ \<Rightarrow> False | Inl _ \<Rightarrow> True" by code_simp
  then show ?thesis by (auto split: sum.splits)
qed

lemma tight_audiences: "prof_api_audiences (inp_profile (r_inp tight_run)) \<noteq> []"
  by (simp add: tight_run_def case_input_def)

lemma case_read_reached: "dmem (CanReadSecret ''app'' ''db'') (x_eph (learn case_read (begun case_start)))"
  by code_simp

end
