(* ===== verification/Planner_Properties.thy ===== *)
theory Planner_Properties
  imports Planner_Correct Examples
begin

text \<open>
  The properties of the planner, applied to the small case with one candidate action.
\<close>

section \<open>Reading a proposed plan again\<close>

lemma parse_printed_actions:
  assumes "traverse act_to_json as = Inr js" and "\<forall>a \<in> set as. action_ok a"
  shows "parse_actions_from i js w = Inr as"
  using assms
proof (induction as arbitrary: i js)
  case (Cons a as)
  then obtain j js' where "act_to_json a = Inr j" "traverse act_to_json as = Inr js'" "js = j # js'"
    by (auto simp: rbind_Inr)
  moreover have "parse_action j v = Inr a" if "act_to_json a = Inr j" for v
    using action_json_roundtrip[of a v] Cons.prems(2) that by auto
  ultimately show ?case using Cons.IH Cons.prems(2) by simp
qed simp

lemma summary_reads_back:
  assumes "summarize sha256 as b costs = Inr p" and "\<forall>a \<in> set as. action_ok a" and "length as \<le> MAX_COLLECTION"
  shows "parse_actions (JList (pl_actions p)) w = Inr as \<and> pl_digest p = digest sha256 (JObj (bundle_items b))"
proof -
  from assms(1) obtain js where js: "traverse act_to_json as = Inr js" "pl_actions p = js"
    and d: "pl_digest p = digest sha256 (JObj (bundle_items b))"
    by (auto simp: summarize_def lift_parse_def rbind_Inr split: sum.splits)
  have "length js = length as" using js(1) by (auto dest: list_all2_lengthD simp: traverse_Inr)
  with parse_printed_actions[OF js(1) assms(2)] assms(3) d js(2) show ?thesis
    by (simp add: parse_actions_def list_Inr)
qed

section \<open>The small case\<close>

definition case_cfg :: planner_config where
  "case_cfg = \<lparr>pc_max_length = 1, pc_max_evaluations = 5, pc_costs = None\<rparr>"

lemma case_action_ok: "\<forall>a \<in> set [case_action]. action_ok a"
  by (simp add: case_action_def action_ok_def good_string_def MAX_STRING_def)

lemma case_priced: "priced (all_costs case_cfg) [case_action]"
  by (rule priced_ok[OF case_action_ok])
     (auto simp: all_costs_def case_cfg_def DEFAULT_COSTS_def split: if_splits)

lemma case_naive: "\<exists>as. naive_plan case_input = Inr as"
proof -
  have "case naive_plan case_input of Inr _ \<Rightarrow> True | Inl _ \<Rightarrow> False" by code_simp
  then show ?thesis by (auto split: sum.splits)
qed

lemma case_used: "used_candidates case_input (Some [case_action]) = Inr [case_action]"
  by (simp add: used_candidates_def)

lemma case_seq_valid: "seq_result case_input [case_action] [0] valid_bundle"
proof -
  have "with_remediation case_input (map ((!) [case_action]) [0]) = case_input"
    by (simp add: with_remediation_def case_input_def)
  moreover have "case analyze case_input ModeFull of Inl _ \<Rightarrow> False | Inr b \<Rightarrow> valid_bundle b" by code_simp
  ultimately show ?thesis by (auto simp: seq_result_def split: sum.splits)
qed

lemma case_seq: "[0] \<in> short_seqs (length [case_action]) (pc_max_length case_cfg)"
  by (simp add: short_seqs_def case_cfg_def)

lemma case_plan: "\<exists>r. plan (\<lambda>s. []) case_input case_cfg (Some [case_action]) = Inr r"
proof -
  obtain as where "naive_plan case_input = Inr as" using case_naive by blast
  from plan_total[OF case_input_ok case_used _ case_action_ok this] show ?thesis by simp
qed

lemma case_best: "plan (\<lambda>s. []) case_input case_cfg (Some [case_action]) = Inr r \<Longrightarrow> \<exists>p. pr_best r = Some p"
proof (erule plan_parts)
  fix cands s assume "used_candidates case_input (Some [case_action]) = Inr cands" and best: "pr_best r = ps_best s"
    and s: "best_first (\<lambda>s. []) case_input case_cfg (all_costs case_cfg) cands [(0, [], [])] no_search = Inr s"
  then have cands: "cands = [case_action]" using case_used by simp
  have "ps_evaluations s < pc_max_evaluations case_cfg" using search_counts[OF s] by (simp add: cands case_cfg_def)
  moreover have "search_post (\<lambda>s. []) case_input case_cfg (all_costs case_cfg) [case_action] s"
    using best_first_correct[OF s plan_start_inv] case_priced cands by simp
  ultimately show "\<exists>p. pr_best r = Some p"
    using case_seq case_seq_valid best by (auto simp: search_post_def Let_def split: option.splits if_splits)
qed

text \<open>The same case with a legitimate operation that no pod can do.\<close>

definition busy_case :: analysis_input where
  "busy_case = case_input\<lparr>inp_legitimate_operations :=
     [\<lparr>leg_id = ''l1'', leg_pod_uid = ''p0'', leg_target = LegitReadSecret ''app'' ''db'',
       leg_description = []\<rparr>]\<rparr>"

lemma busy_analysis:
  "case analyze (with_remediation busy_case [case_action]) ModeFull of Inl _ \<Rightarrow> False | Inr b \<Rightarrow> security_only b"
  by code_simp

lemma busy_seq: "seq_result busy_case [case_action] [0] security_only"
  using busy_analysis by (auto simp: seq_result_def split: sum.splits)

lemma busy_plan: "\<exists>r. plan (\<lambda>s. []) busy_case case_cfg (Some [case_action]) = Inr r"
proof -
  have "case naive_plan busy_case of Inr _ \<Rightarrow> True | Inl _ \<Rightarrow> False" by code_simp
  then obtain as where as: "naive_plan busy_case = Inr as" by (auto split: sum.splits)
  have ok: "input_ok busy_case" using case_input_ok by (simp add: input_ok_def busy_case_def)
  have "used_candidates busy_case (Some [case_action]) = Inr [case_action]" by (simp add: used_candidates_def)
  from plan_total[OF ok this _ case_action_ok as] show ?thesis by simp
qed

section \<open>Optimality\<close>

text \<open>
  C9: The status of a plan means what it says. With \<open>optimal_within_bounds\<close> the plan reported is the
  summary of a sequence of distinct candidates, no longer than allowed, whose full analysis
  concludes containment and preserves every legitimate operation, and no other such sequence costs
  less; with \<open>no_valid_plan_within_bounds\<close> there is no such sequence; and the search is given up only
  when the allowed number of evaluations was used. The candidates have a price that is not negative.
\<close>
theorem plan_status_is_right:
  assumes "plan sha256 inp cfg candidates = Inr r" and "used_candidates inp candidates = Inr cands"
    and "priced (all_costs cfg) cands"
  shows "case pr_status r of
      OptimalWithinBounds \<Rightarrow>
        \<exists>p. pr_best r = Some p \<and> cheapest sha256 inp (pc_max_length cfg) (all_costs cfg) cands valid_bundle p
    | NoValidPlan \<Rightarrow>
        \<forall>js \<in> short_seqs (length cands) (pc_max_length cfg). \<not> seq_result inp cands js valid_bundle
    | IncompleteSearch \<Rightarrow> pr_best r = None \<and> pc_max_evaluations cfg \<le> pr_evaluations r"
proof -
  obtain s where s: "best_first sha256 inp cfg (all_costs cfg) cands [(0, [], [])] no_search = Inr s"
    and r: "pr_status r = status_of s" "pr_best r = ps_best s" "pr_evaluations r = ps_evaluations s"
    by (rule plan_parts[OF assms(1)]) (use assms(2) in auto)
  from best_first_correct[OF s plan_start_inv assms(3)] show ?thesis
    unfolding r status_of_def search_post_def Let_def by (cases "ps_best s"; cases "ps_incomplete s") auto
qed

theorem plan_status_is_right_witness:
  "\<exists>r. plan (\<lambda>s. []) case_input case_cfg (Some [case_action]) = Inr r \<and> pr_status r = OptimalWithinBounds"
proof -
  obtain r where r: "plan (\<lambda>s. []) case_input case_cfg (Some [case_action]) = Inr r" using case_plan by blast
  obtain s where s: "best_first (\<lambda>s. []) case_input case_cfg (all_costs case_cfg) [case_action] [(0, [], [])] no_search = Inr s"
    and e: "pr_evaluations r = ps_evaluations s"
    by (rule plan_parts[OF r]) (use case_used in auto)
  have "pr_evaluations r \<le> 1" using search_counts[OF s] e by (simp add: case_cfg_def)
  then have "pr_status r = OptimalWithinBounds"
    using plan_status_is_right[OF r case_used case_priced] case_seq case_seq_valid
    by (auto simp: case_cfg_def split: plan_status.splits)
  with r show ?thesis by blast
qed

text \<open>
  The plan reported as the cheapest that only secures is one: a shortest-cost sequence among
  those whose analysis concludes containment while some legitimate operation is lost. Without one,
  and with the search run to its end, no sequence is of that kind.
\<close>
theorem security_only_plan_is_cheapest:
  assumes "plan sha256 inp cfg candidates = Inr r" and "used_candidates inp candidates = Inr cands"
    and "priced (all_costs cfg) cands"
  shows "case pr_security_only r of
      Some p \<Rightarrow> cheapest sha256 inp (pc_max_length cfg) (all_costs cfg) cands security_only p
    | None \<Rightarrow> pr_status r = NoValidPlan \<longrightarrow>
        (\<forall>js \<in> short_seqs (length cands) (pc_max_length cfg). \<not> seq_result inp cands js security_only)"
proof -
  obtain s where s: "best_first sha256 inp cfg (all_costs cfg) cands [(0, [], [])] no_search = Inr s"
    and r: "pr_status r = status_of s" "pr_security_only r = ps_disruptive s"
    by (rule plan_parts[OF assms(1)]) (use assms(2) in auto)
  from best_first_correct[OF s plan_start_inv assms(3)] show ?thesis
    unfolding r status_of_def search_post_def Let_def by (auto split: option.splits)
qed

theorem security_only_plan_is_cheapest_witness:
  "\<exists>r. plan (\<lambda>s. []) busy_case case_cfg (Some [case_action]) = Inr r \<and>
     (pr_status r = NoValidPlan \<longrightarrow> (\<exists>p. pr_security_only r = Some p \<and>
        cheapest (\<lambda>s. []) busy_case 1 (all_costs case_cfg) [case_action] security_only p))"
proof -
  obtain r where r: "plan (\<lambda>s. []) busy_case case_cfg (Some [case_action]) = Inr r" using busy_plan by blast
  have "used_candidates busy_case (Some [case_action]) = Inr [case_action]" by (simp add: used_candidates_def)
  from security_only_plan_is_cheapest[OF r this case_priced] case_seq busy_seq r show ?thesis
    by (auto simp: case_cfg_def split: option.splits)
qed

section \<open>Bounds\<close>

text \<open>
  C32: The search stays within its bounds: it analyses at most \<open>max_evaluations\<close> sequences, and at
  most as many as there are of a length up to \<open>max_length\<close> over the candidates.
\<close>
theorem plan_within_bounds:
  assumes "plan sha256 inp cfg candidates = Inr r" and "used_candidates inp candidates = Inr cands"
  shows "pr_evaluations r \<le> max 0 (pc_max_evaluations cfg) \<and>
    pr_evaluations r \<le> int (\<Sum>k \<in> {1..nat (pc_max_length cfg)}. length cands ^ k)"
proof -
  obtain s where "best_first sha256 inp cfg (all_costs cfg) cands [(0, [], [])] no_search = Inr s"
    and "pr_evaluations r = ps_evaluations s"
    by (rule plan_parts[OF assms(1)]) (use assms(2) in auto)
  with search_counts[OF this(1)] show ?thesis by simp
qed

theorem plan_within_bounds_witness:
  "\<exists>r. plan (\<lambda>s. []) case_input case_cfg (Some [case_action]) = Inr r \<and> pr_evaluations r \<le> 1"
proof -
  obtain r where r: "plan (\<lambda>s. []) case_input case_cfg (Some [case_action]) = Inr r" using case_plan by blast
  from plan_within_bounds[OF r case_used] r show ?thesis by (auto simp: case_cfg_def)
qed

section \<open>Answers\<close>



text \<open>
  C34: A proposed plan can be submitted. The actions printed in the report parse back to a
  remediation whose analysis concludes containment with every legitimate operation preserved, and
  has the digest the report names.
\<close>
theorem best_plan_can_be_submitted:
  assumes "plan sha256 inp cfg candidates = Inr r" and "used_candidates inp candidates = Inr cands"
    and "priced (all_costs cfg) cands" and "\<forall>a \<in> set cands. action_ok a"
    and "pc_max_length cfg \<le> int MAX_COLLECTION" and "pr_best r = Some p"
  shows "\<exists>as b. parse_actions (JList (pl_actions p)) w = Inr as \<and> set as \<subseteq> set cands \<and>
    analyze (with_remediation inp as) ModeFull = Inr b \<and> valid_bundle b \<and>
    pl_digest p = digest sha256 (JObj (bundle_items b))"
proof -
  obtain s where s: "best_first sha256 inp cfg (all_costs cfg) cands [(0, [], [])] no_search = Inr s"
    and best: "pr_best r = ps_best s"
    by (rule plan_parts[OF assms(1)]) (use assms(2) in auto)
  have "cheapest sha256 inp (pc_max_length cfg) (all_costs cfg) cands valid_bundle p"
    using best_first_correct[OF s plan_start_inv assms(3)] assms(6) best by (simp add: search_post_def Let_def)
  then obtain js b where js: "js \<in> short_seqs (length cands) (pc_max_length cfg)"
    and b: "analyze (with_remediation inp (map (\<lambda>i. cands ! i) js)) ModeFull = Inr b" "valid_bundle b"
      "summarize sha256 (map (\<lambda>i. cands ! i) js) b (all_costs cfg) = Inr p"
    unfolding cheapest_def by blast
  have sub: "set (map (\<lambda>i. cands ! i) js) \<subseteq> set cands" using js by (auto simp: short_seqs_def)
  moreover have "length (map (\<lambda>i. cands ! i) js) \<le> MAX_COLLECTION" using js assms(5) by (simp add: short_seqs_def)
  ultimately show ?thesis
    using summary_reads_back[OF b(3)] b(1,2) assms(4) by (meson subsetD)
qed

theorem best_plan_can_be_submitted_witness:
  "\<exists>r p as. plan (\<lambda>s. []) case_input case_cfg (Some [case_action]) = Inr r \<and> pr_best r = Some p \<and>
     parse_actions (JList (pl_actions p)) ''remediation'' = Inr as \<and> set as \<subseteq> {case_action}"
proof -
  obtain r where r: "plan (\<lambda>s. []) case_input case_cfg (Some [case_action]) = Inr r" using case_plan by blast
  obtain p where p: "pr_best r = Some p" using case_best[OF r] by blast
  have "pc_max_length case_cfg \<le> int MAX_COLLECTION" by (simp add: case_cfg_def MAX_COLLECTION_def)
  from best_plan_can_be_submitted[OF r case_used case_priced case_action_ok this p] r p show ?thesis by fastforce
qed

end
