(* ===== verification/Search.thy ===== *)
theory Search
  imports Explore
begin

text \<open>
  What the breadth-first search of the reference checker computes: a search that is not cut off by
  the limit visits exactly the reachable states, and its accumulator has collected exactly what
  these states contribute; a search that is cut off stays below that. The contract between the
  search and the body of its loop is a locale, interpreted on the body of \<open>explore\<close>.
\<close>

section \<open>Admission to the queue\<close>

lemma admit_result:
  assumes "admit n nxt seen q = (seen', q', ok)"
  shows "\<exists>new. seen' = seen @ new \<and> q' = q @ new \<and> set new \<subseteq> set nxt - set seen \<and> distinct new \<and>
    (ok \<longrightarrow> set nxt \<subseteq> set seen')"
  using assms
proof (induction n nxt seen q rule: admit.induct)
  case (2 n s nxt seen q)
  show ?case
  proof (cases "s \<in> set seen")
    case True
    with 2 show ?thesis by fastforce
  next
    case fresh: False
    show ?thesis
    proof (cases "length seen \<ge> n")
      case True
      with 2(3) fresh show ?thesis by auto
    next
      case False
      with fresh 2(2)[OF fresh False] 2(3) obtain new where
        new: "seen' = (seen @ [s]) @ new" "q' = (q @ [s]) @ new" "set new \<subseteq> set nxt - set (seen @ [s])"
          "distinct new" "ok \<longrightarrow> set nxt \<subseteq> set seen'"
        by auto
      have "seen' = seen @ s # new" "q' = q @ s # new" "distinct (s # new)"
        "set (s # new) \<subseteq> set (s # nxt) - set seen"
        using new fresh by auto
      moreover have "ok \<longrightarrow> set (s # nxt) \<subseteq> set seen'" using new by auto
      ultimately show ?thesis by blast
    qed
  qed
qed simp

section \<open>The search explores a transition system\<close>

text \<open>
  \<open>step\<close> is the transition relation, \<open>worth s\<close> what a state contributes, and \<open>gathered\<close> reads the
  contributions off the accumulator. The body lists the successors of the popped state, whatever
  it has accumulated, and adds what the state is worth.
\<close>

locale explored =
  fixes visit :: "'s \<Rightarrow> 'a \<Rightarrow> ('s list \<times> 'a) checked"
    and step :: "'s \<Rightarrow> 's \<Rightarrow> bool"
    and worth :: "'s \<Rightarrow> 'g set"
    and gathered :: "'a \<Rightarrow> 'g set"
  assumes successors: "visit s acc = Inr (nxt, acc') \<Longrightarrow> set nxt = {t. step s t}"
    and gathers: "visit s acc = Inr (nxt, acc') \<Longrightarrow> gathered acc' = gathered acc \<union> worth s"
begin

definition reachable :: "'s \<Rightarrow> 's set" where
  "reachable s0 = {t. step\<^sup>*\<^sup>* s0 t}"

definition search_inv :: "'s \<Rightarrow> 'g set \<Rightarrow> 's list \<Rightarrow> 's list \<Rightarrow> 'a \<Rightarrow> bool" where
  "search_inv s0 G q seen acc \<longleftrightarrow>
     distinct seen \<and> distinct q \<and> set q \<subseteq> set seen \<and> s0 \<in> set seen \<and> set seen \<subseteq> reachable s0 \<and>
     (\<forall>s t. s \<in> set seen \<longrightarrow> s \<notin> set q \<longrightarrow> step s t \<longrightarrow> t \<in> set seen) \<and>
     gathered acc = G \<union> \<Union> (worth ` (set seen - set q))"

lemma reachable_self: "s0 \<in> reachable s0"
  by (simp add: reachable_def)

lemma reachable_step: "s \<in> reachable s0 \<Longrightarrow> step s t \<Longrightarrow> t \<in> reachable s0"
  unfolding reachable_def mem_Collect_eq by (rule rtranclp.rtrancl_into_rtrancl)

lemma search_inv_start: "search_inv s0 (gathered acc) [s0] [s0] acc"
  by (simp add: search_inv_def reachable_self)

text \<open>One round of the loop: what it finds is reachable, and without a cut the invariant holds again.\<close>

lemma search_round:
  assumes before: "search_inv s0 G (s # q) seen acc"
    and body: "visit s acc = Inr (nxt, acc')" and adm: "admit n nxt seen q = (seen', q', ok)"
  shows "distinct seen' \<and> set seen' \<subseteq> reachable s0 \<and> gathered acc' \<subseteq> G \<union> \<Union> (worth ` reachable s0)"
    and "ok \<Longrightarrow> search_inv s0 G q' seen' acc'"
proof -
  from admit_result[OF adm] obtain new where seen': "seen' = seen @ new" and q': "q' = q @ new"
    and new: "set new \<subseteq> set nxt - set seen" "distinct new" and full: "ok \<longrightarrow> set nxt \<subseteq> set seen'" by blast
  from before have dist: "distinct seen" "distinct (s # q)" and sub: "set (s # q) \<subseteq> set seen"
    and s0: "s0 \<in> set seen" and reach: "set seen \<subseteq> reachable s0"
    and clo: "\<And>u t. u \<in> set seen \<Longrightarrow> u \<notin> set (s # q) \<Longrightarrow> step u t \<Longrightarrow> t \<in> set seen"
    and gath: "gathered acc = G \<union> \<Union> (worth ` (set seen - set (s # q)))"
    unfolding search_inv_def by blast+
  have succ: "set nxt = {t. step s t}" by (rule successors[OF body])
  have "s \<in> reachable s0" using sub reach by auto
  then have "t \<in> reachable s0" if "t \<in> set new" for t
    using new(1) succ that by (auto intro: reachable_step)
  then have reach': "set seen' \<subseteq> reachable s0" using reach seen' by auto
  have dist': "distinct seen'" "distinct q'" using dist new sub seen' q' by auto
  have "set seen - set q = insert s (set seen - set (s # q))" using sub dist by auto
  then have gath': "gathered acc' = G \<union> \<Union> (worth ` (set seen - set q))"
    using gathers[OF body] gath by (simp add: Un_ac)
  moreover have "\<Union> (worth ` (set seen - set q)) \<subseteq> \<Union> (worth ` reachable s0)"
    using reach by (intro UN_mono) auto
  ultimately show "distinct seen' \<and> set seen' \<subseteq> reachable s0 \<and> gathered acc' \<subseteq> G \<union> \<Union> (worth ` reachable s0)"
    using dist' reach' by auto
  show "search_inv s0 G q' seen' acc'" if ok
  proof -
    have rest: "set seen' - set q' = set seen - set q" using seen' q' new by auto
    have "t \<in> set seen'" if u: "u \<in> set seen'" "u \<notin> set q'" and st: "step u t" for u t
    proof (cases "u = s")
      case True
      then have "t \<in> set nxt" using st succ by simp
      with full \<open>ok\<close> show ?thesis by auto
    next
      case False
      with u rest have "u \<in> set seen" "u \<notin> set (s # q)" by auto
      then have "t \<in> set seen" using st by (rule clo)
      then show ?thesis using seen' by simp
    qed
    moreover have "set q' \<subseteq> set seen'" "s0 \<in> set seen'" using sub s0 seen' q' by auto
    ultimately show ?thesis
      unfolding search_inv_def rest using dist' reach' gath' by blast
  qed
qed

lemma closed_contains_reachable:
  assumes "search_inv s0 G [] seen acc"
  shows "set seen = reachable s0"
proof
  show "set seen \<subseteq> reachable s0" using assms unfolding search_inv_def by blast
  have "t \<in> set seen" if "step\<^sup>*\<^sup>* s0 t" for t
    using that
  proof induction
    case base
    from assms show ?case unfolding search_inv_def by blast
  next
    case (step u t)
    from assms step.IH step.hyps(2) show ?case unfolding search_inv_def by simp
  qed
  then show "reachable s0 \<subseteq> set seen" by (auto simp: reachable_def)
qed

text \<open>The result of the search, whether it was cut off (\<open>ok\<close> false) or not.\<close>

lemma search_explores_aux:
  assumes "search v n q seen acc = Inr (seen', acc', ok)" and "search_inv s0 G q seen acc" and "v = visit"
  shows "distinct seen' \<and> set seen' \<subseteq> reachable s0 \<and> gathered acc' \<subseteq> G \<union> \<Union> (worth ` reachable s0) \<and>
    (ok \<longrightarrow> set seen' = reachable s0 \<and> gathered acc' = G \<union> \<Union> (worth ` reachable s0))"
  using assms
proof (induction v n q seen acc rule: search.induct[case_names Empty Pop])
  case (Empty v n seen acc)
  then have same: "seen' = seen" "acc' = acc" by simp_all
  have all: "set seen = reachable s0" by (rule closed_contains_reachable) (rule Empty.prems(2))
  then have "gathered acc = G \<union> \<Union> (worth ` reachable s0)" "distinct seen"
    using Empty.prems(2) unfolding search_inv_def by simp_all
  with all same show ?case by simp
next
  case (Pop v n s q seen acc)
  from Pop.prems(1) obtain nxt acc1 where body: "v s acc = Inr (nxt, acc1)"
    by (auto split: sum.splits)
  obtain seen1 q1 ok1 where adm: "admit n nxt seen q = (seen1, q1, ok1)" by (cases "admit n nxt seen q") 
  show ?case
  proof (cases ok1)
    case True
    have "search v n q1 seen1 acc1 = Inr (seen', acc', ok)"
      using Pop.prems(1) body adm True by simp
    then show ?thesis
      using Pop.IH[OF body refl adm[symmetric] refl True] Pop.prems(3) body
        search_round(2)[OF Pop.prems(2) _ adm True] by blast
  next
    case False
    then have "seen' = seen1" "acc' = acc1" "\<not> ok" using Pop.prems(1) body adm by simp_all
    then show ?thesis using search_round(1)[OF Pop.prems(2) _ adm] body Pop.prems(3) by blast
  qed
qed

lemma search_explores:
  assumes "search visit n [s0] [s0] acc = Inr (seen', acc', ok)"
  shows "distinct seen' \<and> set seen' \<subseteq> reachable s0 \<and>
    gathered acc' \<subseteq> gathered acc \<union> \<Union> (worth ` reachable s0) \<and>
    (ok \<longrightarrow> set seen' = reachable s0 \<and> gathered acc' = gathered acc \<union> \<Union> (worth ` reachable s0))"
  by (rule search_explores_aux[OF assms search_inv_start refl])

end

section \<open>The transition system of the reference checker\<close>

text \<open>
  One action at a time: the attacker takes any of the supported steps, or the defender applies the
  next action of the remediation and the controllers reconcile.
\<close>

inductive ref_step ::
  "ref_static \<Rightarrow> (string, json) dict list \<Rightarrow> ref_limits \<Rightarrow> ref_state \<Rightarrow> ref_state \<Rightarrow> bool"
  for st actions lim where
  attack: "Yield e' a' \<in> set (attacker_steps st e a lim True None) \<Longrightarrow>
    ref_step st actions lim (phase, e, a) (phase, e', a')"
| defence: "phase < length actions \<Longrightarrow> defend e (actions ! phase) = Inr e' \<Longrightarrow>
    ref_step st actions lim (phase, e, a) (Suc phase, ref_reconcile e', a)"

inductive_simps ref_step_simps: "ref_step st actions lim (phase, e, a) t"

lemma drain_events_yields:
  "drain_events es unk = Inr (ys, unk') \<Longrightarrow> set ys = {(e, a). Yield e a \<in> set es}"
  by (induction es unk arbitrary: ys unk' rule: drain_events.induct) (force simp: rbind_Inr)+

definition final_worth ::
  "ref_static \<Rightarrow> (string, json) dict \<Rightarrow> nat \<Rightarrow> ref_state \<Rightarrow> string set" where
  "final_worth st raw n s = (case final_goals st raw n s of Inl e \<Rightarrow> {} | Inr gs \<Rightarrow> set gs)"

lemma main_visit_successors:
  assumes "main_visit st raw actions lim s acc = Inr (nxt, acc')"
  shows "set nxt = {t. ref_step st actions lim s t}"
proof -
  obtain p e a where s: "s = (p, e, a)" by (cases s)
  from assms obtain ys unk' ds unk where
      dr: "drain_events (attacker_steps st e a lim True None) unk = Inr (ys, unk')"
    and de: "defended actions s = Inr ds" and nxt: "nxt = map (\<lambda>(e', a'). (p, e', a')) ys @ ds"
    by (auto simp: main_visit_def s rbind_Inr split: prod.splits)
  have "set ds = {t. \<exists>e'. p < length actions \<and> defend e (actions ! p) = Inr e' \<and> t = (Suc p, ref_reconcile e', a)}"
    using de by (auto simp: defended_def s rbind_Inr split: if_splits)
  then show ?thesis
    unfolding nxt set_append set_map drain_events_yields[OF dr] s by (auto simp: ref_step_simps image_iff)
qed

lemma main_visit_gathers:
  assumes "main_visit st raw actions lim s acc = Inr (nxt, acc')"
  shows "set (fst acc') = set (fst acc) \<union> final_worth st raw (length actions) s"
proof -
  obtain p e a where s: "s = (p, e, a)" by (cases s)
  from assms show ?thesis
    by (auto simp: main_visit_def s rbind_Inr final_worth_def frozenset_def split: prod.splits)
qed

interpretation main: explored "main_visit st raw actions lim" "ref_step st actions lim"
    "final_worth st raw (length actions)" "\<lambda>acc. set (fst acc)"
  for st raw actions lim
  by unfold_locales (fact main_visit_successors, fact main_visit_gathers)

lemma final_worth_iff:
  "g \<in> final_worth st raw n (p, e, a) \<longleftrightarrow> p = n \<and> (\<exists>gs. ref_goals st e a raw = Inr gs \<and> g \<in> set gs)"
  by (auto simp: final_worth_def final_goals_def split: sum.splits)

text \<open>The objectives some interleaving of single steps reaches after the last defender action.\<close>

definition reaches_objective ::
  "ref_static \<Rightarrow> (string, json) dict \<Rightarrow> (string, json) dict list \<Rightarrow> ref_limits \<Rightarrow> ref_state \<Rightarrow> string \<Rightarrow> bool" where
  "reaches_objective st raw actions lim s0 g \<longleftrightarrow>
     (\<exists>e a gs. (ref_step st actions lim)\<^sup>*\<^sup>* s0 (length actions, e, a) \<and>
       ref_goals st e a raw = Inr gs \<and> g \<in> set gs)"

lemma reachable_worth:
  "\<Union> (final_worth st raw (length actions) ` main.reachable st actions lim s0) =
     {g. reaches_objective st raw actions lim s0 g}"
  unfolding main.reachable_def reaches_objective_def
  by (auto simp: final_worth_iff) blast

lemma explore_view_exact:
  assumes "explore_view st raw actions lim view = Inr r"
    and "start_state st raw lim view = Inr (s0, unk, whole)"
  shows "set (rv_objectives r) \<subseteq> {g. reaches_objective st raw actions lim s0 g} \<and>
    (rv_complete r \<longrightarrow>
       set (rv_objectives r) = {g. reaches_objective st raw actions lim s0 g} \<and>
       rv_states r = card {t. (ref_step st actions lim)\<^sup>*\<^sup>* s0 t})"
proof -
  from assms obtain seen goals unk' ok where
      run: "search (main_visit st raw actions lim) (rl_max_states lim) [s0] [s0] ([], unk) = Inr (seen, (goals, unk'), ok)"
    and r: "rv_objectives r = goals" "rv_states r = length seen" "rv_complete r = (ok \<and> whole)"
    by (auto simp: explore_view_def rbind_Inr)
  have "distinct seen" "rv_complete r \<longrightarrow> set seen = main.reachable st actions lim s0"
    and goals: "set goals \<subseteq> {g. reaches_objective st raw actions lim s0 g}"
      "rv_complete r \<longrightarrow> set goals = {g. reaches_objective st raw actions lim s0 g}"
    using main.search_explores[OF run] r(3) unfolding reachable_worth by simp_all
  then have "rv_complete r \<longrightarrow> rv_states r = card (main.reachable st actions lim s0)"
    using r(2) distinct_card by metis
  with goals r(1) show ?thesis unfolding main.reachable_def by simp
qed

end
