(* ===== verification/Agreement.thy ===== *)
theory Agreement
  imports Search Semantics_Correct
begin

text \<open>
  The engine's semantics and the reference checker's, side by side. \<open>ref_view\<close> reads an environment
  of the engine as one of the reference; authorization, credentials, admission, reconciliation and
  every defender action then agree. Both sides are models of independent code, so that each is the
  specification of the other.
\<close>

section \<open>Frozen sets\<close>

lemma set_frozenset [simp]: "set (frozenset xs) = set xs"
  by (simp add: frozenset_def)

lemma frozenset_eq_iff: "frozenset xs = frozenset ys \<longleftrightarrow> set xs = set ys"
  unfolding frozenset_def by (metis set_sorted_set sorted_set_cong)

lemma frozenset_idem [simp]: "frozenset (frozenset xs) = frozenset xs"
  by (simp add: frozenset_eq_iff)

lemma sort_frozenset [simp]: "sort (frozenset xs) = frozenset xs"
  by (simp add: frozenset_def sorted_sort_id)

lemma frozenset_Nil [simp]: "frozenset xs = [] \<longleftrightarrow> xs = []"
  by (metis set_empty set_frozenset)

lemma filter_frozenset: "filter P (frozenset xs) = frozenset (filter P xs)"
  by (simp add: frozenset_def sorted_set_def filter_sort remdups_filter)

lemma frozenset_cong: "set xs = set ys \<Longrightarrow> frozenset xs = frozenset ys"
  by (simp add: frozenset_eq_iff)

section \<open>The engine's environment as the reference sees it\<close>

definition sa_tuple :: "service_account \<Rightarrow> ref_sa" where
  "sa_tuple s = (sa_namespace s, sa_name s, sa_uid s)"

definition pod_tuple :: "pod \<Rightarrow> ref_pod" where
  "pod_tuple p = (pod_uid p, pod_namespace p, pod_name p, pod_service_account p,
     pod_token_audiences p, pod_controller_uid p)"

definition ctrl_tuple :: "controller \<Rightarrow> ref_ctrl" where
  "ctrl_tuple c = (ctrl_uid c, ctrl_namespace c, ctrl_name c, ctrl_service_account c, ctrl_token_audiences c)"

definition secret_tuple :: "secret \<Rightarrow> ref_secret" where
  "secret_tuple s = (sec_namespace s, sec_name s, sec_version s)"

definition service_tuple :: "downstream_service \<Rightarrow> ref_service" where
  "service_tuple s = (svc_name s, svc_source_namespace s, svc_source_secret s, svc_accepted_version s,
     svc_rotation_propagation_seconds s, svc_grace s)"

definition cred_tuple :: "credential_spec \<Rightarrow> ref_cred" where
  "cred_tuple c = (cred_id c, cred_kind c, cred_username c, cred_sa_uid c, cred_bound_pod_uid c,
     cred_audience c, cred_expires_at c)"

lemmas tuple_defs = sa_tuple_def pod_tuple_def ctrl_tuple_def secret_tuple_def service_tuple_def cred_tuple_def

definition rows_of :: "('v \<Rightarrow> 'r::linorder) \<Rightarrow> ('k, 'v) dict \<Rightarrow> 'r list" where
  "rows_of f d = frozenset (map f (dvals d))"

definition ref_view :: "env \<Rightarrow> ref_env" where
  "ref_view env = \<lparr>re_time = e_time env,
     re_sas = rows_of sa_tuple (e_service_accounts env),
     re_pods = rows_of pod_tuple (e_pods env),
     re_ctrls = rows_of ctrl_tuple (e_controllers env),
     re_bindings = frozenset (dkeys (e_bindings env)),
     re_secrets = rows_of secret_tuple (e_secrets env),
     re_services = rows_of service_tuple (e_services env),
     re_counters = frozenset (e_controller_pod_counter env)\<rparr>"

lemma ref_view_simps [simp]:
  "re_time (ref_view env) = e_time env"
  "re_sas (ref_view env) = rows_of sa_tuple (e_service_accounts env)"
  "re_pods (ref_view env) = rows_of pod_tuple (e_pods env)"
  "re_ctrls (ref_view env) = rows_of ctrl_tuple (e_controllers env)"
  "re_bindings (ref_view env) = frozenset (dkeys (e_bindings env))"
  "re_secrets (ref_view env) = rows_of secret_tuple (e_secrets env)"
  "re_services (ref_view env) = rows_of service_tuple (e_services env)"
  "re_counters (ref_view env) = frozenset (e_controller_pod_counter env)"
  by (simp_all add: ref_view_def)

lemma set_rows_of: "set (rows_of f d) = f ` set (dvals d)"
  by (simp add: rows_of_def image_image)

text \<open>Looking a row up by what identifies it.\<close>

lemma rows_of_lookup:
  assumes "keyed key d" and "\<And>v. sel (f v) \<longleftrightarrow> key v = k"
  shows "filter sel (rows_of f d) = (case dget d k of None \<Rightarrow> [] | Some v \<Rightarrow> [f v])"
proof -
  define ys where "ys = dvals d"
  have ys: "v \<in> set ys \<longleftrightarrow> dget d (key v) = Some v" for v
    unfolding ys_def by (rule keyed_dvals[OF assms(1)])
  have "set (filter sel (map f ys)) = f ` {v. dget d k = Some v}"
  proof (intro set_eqI iffI)
    fix x assume "x \<in> set (filter sel (map f ys))"
    then obtain v where "v \<in> set ys" "key v = k" "x = f v" using assms(2) by auto
    then show "x \<in> f ` {v. dget d k = Some v}" using ys by auto
  next
    fix x assume "x \<in> f ` {v. dget d k = Some v}"
    then obtain v where v: "dget d k = Some v" "x = f v" by blast
    then have "key v = k" using keyed_dget[OF assms(1)] by blast
    then have "v \<in> set ys" using v(1) ys by simp
    with v(2) \<open>key v = k\<close> show "x \<in> set (filter sel (map f ys))" using assms(2) by simp
  qed
  then have "frozenset (filter sel (map f ys)) =
      frozenset (case dget d k of None \<Rightarrow> [] | Some v \<Rightarrow> [f v])"
    by (intro frozenset_cong) (auto split: option.splits)
  then show ?thesis
    unfolding rows_of_def filter_frozenset ys_def[symmetric]
    by (simp add: frozenset_def sorted_set_def split: option.splits)
qed

text \<open>Deleting rows, and replacing the row of a key.\<close>

lemma rows_of_filter:
  assumes "keyed key d" and "keyed key d'" and "\<And>v. Q (f v) \<longleftrightarrow> P v"
    and "\<And>k. dget d' k = (case dget d k of None \<Rightarrow> None | Some v \<Rightarrow> if P v then Some v else None)"
  shows "rows_of f d' = filter Q (rows_of f d)"
proof -
  define ys zs where "ys = dvals d" and "zs = dvals d'"
  have "v \<in> set ys \<longleftrightarrow> dget d (key v) = Some v" "v \<in> set zs \<longleftrightarrow> dget d' (key v) = Some v" for v
    unfolding ys_def zs_def by (rule keyed_dvals, rule assms)+
  then have "set zs = {v \<in> set ys. P v}"
    using assms(4) by (auto split: option.splits if_splits)
  then show ?thesis
    unfolding rows_of_def filter_frozenset ys_def[symmetric] zs_def[symmetric]
    by (intro frozenset_cong) (auto simp: assms(3))
qed

section \<open>The static parts\<close>

definition rule_like :: "ref_rule \<Rightarrow> policy_rule \<Rightarrow> bool" where
  "rule_like r' r \<longleftrightarrow> set (rr_verbs r') = rule_verbs r \<and> set (rr_resources r') = rule_resources r \<and>
     map_option set (rr_names r') = rule_resource_names r"

fun subject_kind_name :: "subject_kind \<Rightarrow> string" where
  "subject_kind_name SubjServiceAccount = ''ServiceAccount''"
| "subject_kind_name SubjUser = ''User''"
| "subject_kind_name SubjGroup = ''Group''"

definition subject_like :: "ref_subject \<Rightarrow> subject \<Rightarrow> bool" where
  "subject_like s' s \<longleftrightarrow> rj_kind s' = subject_kind_name (subj_kind s) \<and> rj_name s' = subj_name s \<and>
     rj_namespace s' = subj_namespace s"

definition body_like :: "ref_body \<Rightarrow> role_binding \<Rightarrow> bool" where
  "body_like b' b \<longleftrightarrow> rb_ns b' = rb_namespace b \<and> rb_ns b' \<noteq> Some [] \<and> rb_nm b' = rb_name b \<and>
     (rb_kind b' = ''Role'' \<longleftrightarrow> rb_role_kind b = KindRole) \<and> rb_role b' = rb_role_name b \<and>
     list_all2 subject_like (rb_subjs b') (rb_subjects b)"

definition policy_like :: "ref_policy \<Rightarrow> admission_policy \<Rightarrow> bool" where
  "policy_like p' p \<longleftrightarrow> rp_namespace p' = adm_namespace p \<and>
     (rp_kind p' = ''service-account-restriction'' \<longleftrightarrow> adm_supported p) \<and>
     (\<forall>u. dget (rp_allowed p') u = map_option Some (dget (dict_of (adm_allowed_service_accounts p) []) u))"

text \<open>\<open>st\<close> is what the reference keeps of the input whose environments are those of \<open>env\<close>.\<close>

definition static_like :: "ref_static \<Rightarrow> env \<Rightarrow> profile \<Rightarrow> bool" where
  "static_like st env prof \<longleftrightarrow>
     (\<forall>k. rel_option (list_all2 rule_like) (dget (rs_roles st) k) (map_option role_rules (dget (e_roles env) k))) \<and>
     (\<forall>k b. dget (e_bindings env) k = Some b \<longrightarrow> (\<exists>b'. dget (rs_binding_body st) k = Some b' \<and> body_like b' b)) \<and>
     rel_set policy_like (set (rs_admission st)) (set (e_admission env)) \<and>
     rs_api_auds st = prof_api_audiences prof \<and> rs_ttl st = prof_projected_token_ttl_seconds prof"

lemma list_ex_all2:
  "list_all2 R xs ys \<Longrightarrow> (\<And>x y. R x y \<Longrightarrow> P x \<longleftrightarrow> Q y) \<Longrightarrow> list_ex P xs \<longleftrightarrow> list_ex Q ys"
  by (induction rule: list_all2_induct) auto

lemma rel_set_ex:
  "rel_set R A B \<Longrightarrow> (\<And>x y. R x y \<Longrightarrow> P x \<longleftrightarrow> Q y) \<Longrightarrow> (\<exists>x \<in> A. P x) \<longleftrightarrow> (\<exists>y \<in> B. Q y)"
  unfolding rel_set_def by blast

section \<open>Authorization\<close>

lemma sa_of_parse: "sa_of u = parse_sa_username u"
proof -
  have two: "(length xs = 2 \<and> list_all (\<lambda>b. b \<noteq> []) xs) = (\<exists>a b. xs = [a, b] \<and> a \<noteq> [] \<and> b \<noteq> [])" for xs :: "string list"
    by (auto simp: length_Suc_conv numeral_2_eq_2)
  show ?thesis
    unfolding sa_of_def parse_sa_username_def Let_def two SA_PREFIX_def SA_USER_PREFIX_def
    by (auto split: list.splits)
qed

lemma rule_allows_like: "rule_like r' r \<Longrightarrow> rule_allows r' v res n \<longleftrightarrow> rule_matches r v res n"
  by (auto simp: rule_like_def rule_allows_def rule_matches_def split: option.splits)

lemma subject_ok_like: "subject_like s' s \<Longrightarrow> subject_ok u sa s' \<longleftrightarrow> subject_matches1 u sa s"
  by (cases "subj_kind s") (auto simp: subject_like_def subject_ok_def subject_matches1_def split: option.splits)

lemma body_grants_like:
  assumes "static_like st env prof" and "body_like b' b"
  shows "body_grants st b' u v r ns n \<longleftrightarrow> binding_grants env b u v r ns n"
proof -
  let ?k = "(if rb_role_kind b = KindRole then rb_namespace b else None, rb_role_name b)"
  have ro: "rel_option (list_all2 rule_like) (dget (rs_roles st) ?k) (map_option role_rules (dget (e_roles env) ?k))"
    using assms(1) by (simp add: static_like_def)
  have sub: "list_ex (subject_ok u (sa_of u)) (rb_subjs b') \<longleftrightarrow> subject_matches b u"
  proof -
    have "list_all2 subject_like (rb_subjs b') (rb_subjects b)"
      using assms(2) unfolding body_like_def by blast
    then show ?thesis
      unfolding subject_matches_def sa_of_parse by (rule list_ex_all2) (rule subject_ok_like)
  qed
  have rules: "list_ex (\<lambda>r'. rule_allows r' v r n) rs' \<longleftrightarrow> list_ex (\<lambda>rule. rule_matches rule v r n) rs"
    if "list_all2 rule_like rs' rs" for rs' rs
    by (rule list_ex_all2[OF that rule_allows_like])
  obtain k where k: "?k = k" by simp
  have key: "(if rb_kind b' = ''Role'' then rb_namespace b else None, rb_role b') = k"
    and ns: "rb_ns b' = rb_namespace b"
    using assms(2) k by (simp_all add: body_like_def)
  show ?thesis
    unfolding body_grants_def binding_grants_def sub ns key k
    using ro[unfolded k] rules by (cases "dget (rs_roles st) k"; cases "dget (e_roles env) k") auto
qed

lemma body_label_like: "body_like b' b \<Longrightarrow> body_label b' = rb_key b"
  by (auto simp: body_like_def body_label_def rb_key_def binding_label_def split: option.splits)

lemma granting_agrees:
  assumes st: "static_like st env prof" and ok: "env_ok env"
  shows "set (granting st (ref_view env) u v r ns n) = set (authorizing_bindings env u v r ns n)"
proof -
  have keyed: "keyed bnd_key (e_bindings env)" using ok by (simp add: env_ok_def)
  have body: "\<exists>b'. dget (rs_binding_body st) k = Some b' \<and> body_like b' b" if "dget (e_bindings env) k = Some b" for k b
    using st that unfolding static_like_def by blast
  have one: "(case dget (rs_binding_body st) k of None \<Rightarrow> [] | Some b' \<Rightarrow>
        if body_grants st b' u v r ns n then [body_label b'] else []) =
      (if binding_grants env b u v r ns n then [rb_key b] else [])" if "dget (e_bindings env) k = Some b" for k b
    using body[OF that] body_grants_like[OF st] body_label_like by auto
  let ?F = "\<lambda>k. case dget (rs_binding_body st) k of None \<Rightarrow> [] | Some b' \<Rightarrow>
      if body_grants st b' u v r ns n then [body_label b'] else []"
  have "l \<in> set (granting st (ref_view env) u v r ns n) \<longleftrightarrow>
      (\<exists>k b. dget (e_bindings env) k = Some b \<and> binding_grants env b u v r ns n \<and> rb_key b = l)" for l
  proof -
    have "l \<in> set (granting st (ref_view env) u v r ns n) \<longleftrightarrow> (\<exists>k \<in> set (dkeys (e_bindings env)). l \<in> set (?F k))"
      unfolding granting_def ref_view_simps set_frozenset set_concat set_map by blast
    also have "\<dots> \<longleftrightarrow> (\<exists>k b. dget (e_bindings env) k = Some b \<and> l \<in> set (?F k))"
      unfolding Bex_def set_map mem_dkeys by blast
    also have "\<dots> \<longleftrightarrow> (\<exists>k b. dget (e_bindings env) k = Some b \<and> binding_grants env b u v r ns n \<and> rb_key b = l)"
      using one by (metis (no_types, lifting) empty_iff empty_set list.set_intros(1) set_ConsD)
    finally show ?thesis .
  qed
  moreover have "b \<in> set (dvals (e_bindings env)) \<longleftrightarrow> (\<exists>k. dget (e_bindings env) k = Some b)" for b
    using keyed_dvals[OF keyed] keyed_dget[OF keyed] by metis
  ultimately show ?thesis
    by (intro set_eqI) (simp only: authorizing_bindings_iff Bex_def, blast)
qed

lemma granted_agrees:
  assumes "static_like st env prof" and "env_ok env"
  shows "granting st (ref_view env) u v r ns n \<noteq> [] \<longleftrightarrow> authorizing_bindings env u v r ns n \<noteq> []"
  using granting_agrees[OF assms, of u v r ns n] by (metis set_empty)

lemma can_read_agrees:
  assumes "static_like st env prof" and "env_ok env"
  shows "can_read st (ref_view env) u ns n \<longleftrightarrow>
    (\<exists>v \<in> set SECRET_READ_VERBS. authorizing_bindings env u v ''secrets'' ns (Some n) \<noteq> [])"
  by (auto simp: can_read_def granted_agrees[OF assms] SECRET_READ_VERBS_def)

section \<open>Credentials\<close>

text \<open>The instant the engine is asked about, as the lower end of the reference's window.\<close>

definition window_from :: "int option \<Rightarrow> int \<Rightarrow> (int option \<times> int) option" where
  "window_from now hi = map_option (\<lambda>t. (Some t, hi)) now"

lemma expired_iff:
  "expired (ref_view env) ex (window_from now hi) \<longleftrightarrow>
     (\<exists>e. ex = Some e \<and> e \<le> (case now of None \<Rightarrow> e_time env | Some t \<Rightarrow> t))"
  by (auto simp: expired_def window_from_def split: option.splits)

lemma account_row:
  assumes "env_ok env"
  shows "filter (\<lambda>(ns, n, u). (ns, n) = sa) (rows_of sa_tuple (e_service_accounts env)) =
     (case dget (e_service_accounts env) sa of None \<Rightarrow> [] | Some s \<Rightarrow> [sa_tuple s])"
  using assms by (intro rows_of_lookup[where key = sa_key]) (auto simp: env_ok_def sa_tuple_def)

lemma pod_row:
  assumes "env_ok env"
  shows "filter (\<lambda>q. fst q = u) (rows_of pod_tuple (e_pods env)) =
     (case dget (e_pods env) u of None \<Rightarrow> [] | Some p \<Rightarrow> [pod_tuple p])"
  using assms by (intro rows_of_lookup[where key = pod_uid]) (auto simp: env_ok_def pod_tuple_def)

lemma cred_ok_supported: "cred_ok st e (cred_tuple c) w = VUnsupported \<longleftrightarrow> \<not> cred_supported c"
  by (auto simp: cred_ok_def cred_tuple_def cred_supported_def sa_of_parse split: option.splits list.splits)

lemma cred_ok_usable:
  assumes "static_like st env prof" and "env_ok env"
  shows "cred_ok st (ref_view env) (cred_tuple c) (window_from now hi) = VOk \<longleftrightarrow>
    us_usable (credential_usable env c prof now)"
proof (cases "cred_supported c")
  case False
  then show ?thesis
    using cred_ok_supported[of st "ref_view env" c "window_from now hi"] by (simp add: us_usable_iff)
next
  case True
  then obtain sa where kind: "cred_kind c = ''sa_token''" and sa: "parse_sa_username (cred_username c) = Some sa"
    by (auto simp: cred_supported_def)
  have auds: "rs_api_auds st = prof_api_audiences prof" using assms(1) by (simp add: static_like_def)
  show ?thesis
    unfolding us_usable_iff cred_ok_def cred_tuple_def token_valid_def prod.case sa_of_parse sa kind
      expired_iff ref_view_simps account_row[OF assms(2)] pod_row[OF assms(2)] auds
    using True
    by (auto simp: sa_tuple_def pod_tuple_def kind split: option.splits)
qed

section \<open>Admission and downstream services\<close>

fun outcome_verdict :: "adm_outcome \<Rightarrow> ref_admission" where
  "outcome_verdict AdmAllow = VAllow"
| "outcome_verdict AdmDeny = VDeny"
| "outcome_verdict AdmUnsupported = VUnsupportedPolicy"

lemma fold_verdict:
  "fold (\<lambda>p verdict. if forbids p creator sa then VDeny else verdict) ps v =
     (if \<exists>p \<in> set ps. forbids p creator sa then VDeny else v)"
  by (induction ps arbitrary: v) auto

lemma forbids_like: "policy_like p' p \<Longrightarrow> forbids p' creator sa \<longleftrightarrow> policy_denies p creator sa"
  by (auto simp: policy_like_def forbids_def policy_denies_def allowed_names_def policy_names_def Let_def
      split: option.splits)

lemma ref_admit_agrees:
  assumes "static_like st env prof"
  shows "ref_admit st creator ns sa = outcome_verdict (ad_outcome (admission_decision env creator ns sa))"
proof -
  have like: "rel_set policy_like (set (rs_admission st)) (set (e_admission env))"
    using assms by (simp add: static_like_def)
  have 1: "(\<exists>p' \<in> set (rs_admission st). rp_namespace p' = ns \<and> rp_kind p' \<noteq> ''service-account-restriction'') \<longleftrightarrow>
      (\<exists>p \<in> set (e_admission env). adm_namespace p = ns \<and> \<not> adm_supported p)"
    by (rule rel_set_ex[OF like]) (auto simp: policy_like_def)
  have 2: "(\<exists>p' \<in> set (rs_admission st). rp_namespace p' = ns \<and> forbids p' creator sa) \<longleftrightarrow>
      (\<exists>p \<in> set (e_admission env). adm_namespace p = ns \<and> policy_denies p creator sa)"
    by (rule rel_set_ex[OF like]) (use forbids_like in \<open>auto simp: policy_like_def\<close>)
  show ?thesis
    unfolding admission_outcome 1[symmetric] 2[symmetric] ref_admit_def Let_def fold_verdict
    by (auto simp: list_ex_iff)
qed

lemma honours_agrees: "honours (ref_view env) (service_tuple s) v \<longleftrightarrow> svc_accepts s v (e_time env)"
  by (auto simp: honours_def service_tuple_def svc_accepts_def)

section \<open>Reconciliation\<close>

lemma pod_number_numbered: "pod_number = numbered"
  by (intro ext) (simp add: pod_number_def numbered_def)

lemma fresh_number_index: "set taken = set taken' \<Longrightarrow> fresh_number c taken k = free_index c taken' k"
proof (induction c taken' k rule: free_index.induct)
  case (1 c taken' k)
  then show ?case
    by (simp add: fresh_number.simps[of c taken k] free_index.simps[of c taken' k] pod_number_numbered)
qed

text \<open>The sorted rows of the controllers are the controllers in the order of their UIDs.\<close>

lemma ctrl_rows_in_order:
  assumes "keyed ctrl_uid d"
  shows "rows_of ctrl_tuple d = map (\<lambda>u. ctrl_tuple (the (dget d u))) (sort (dkeys d))"
proof (rule sorted_distinct_set_unique)
  let ?row = "\<lambda>u. ctrl_tuple (the (dget d u))"
  have dist: "distinct (sort (dkeys d))" using assms by (simp add: keyed_def)
  have uid: "fst (?row u) = u" if "u \<in> set (sort (dkeys d))" for u
    using that keyed_dget[OF assms] by (auto simp: ctrl_tuple_def)
  show "sorted (rows_of ctrl_tuple d)" "distinct (rows_of ctrl_tuple d)"
    by (simp_all add: rows_of_def frozenset_def)
  have fsts: "map fst (map ?row (sort (dkeys d))) = sort (dkeys d)"
    unfolding map_map by (rule map_idI) (simp add: uid del: set_sort)
  have "distinct (map fst (map ?row (sort (dkeys d))))" unfolding fsts by (rule dist)
  then show "distinct (map ?row (sort (dkeys d)))" by (rule distinct_map[THEN iffD1, THEN conjunct1])
  have less: "sorted_wrt (<) (sort (dkeys d))"
    using dist by (simp add: strict_sorted_iff)
  have "sorted_wrt (<) (map ?row (sort (dkeys d)))"
    unfolding sorted_wrt_map
  proof (rule sorted_wrt_mono_rel[OF _ less])
    fix u w assume "u \<in> set (sort (dkeys d))" "w \<in> set (sort (dkeys d))" "u < w"
    then have "fst (?row u) < fst (?row w)" using uid by metis
    then show "?row u < ?row w" by (simp add: less_prod_def)
  qed
  then show "sorted (map ?row (sort (dkeys d)))" by (rule strict_sorted_imp_sorted)
  have "set (dvals d) = (\<lambda>u. the (dget d u)) ` set (dkeys d)"
  proof (intro set_eqI iffI)
    fix v assume "v \<in> set (dvals d)"
    then have v: "dget d (ctrl_uid v) = Some v" by (rule keyed_dvals[OF assms, THEN iffD1])
    show "v \<in> (\<lambda>u. the (dget d u)) ` set (dkeys d)"
      using dget_SomeD[OF v] by (rule image_eqI[rotated]) (simp add: v)
  next
    fix v assume "v \<in> (\<lambda>u. the (dget d u)) ` set (dkeys d)"
    then obtain u where v: "v = the (dget d u)" and "u \<in> set (dkeys d)" by blast
    then have "dget d u \<noteq> None" by (simp only: dget_None not_not simp_thms)
    with v have u: "dget d u = Some v" by auto
    then have "ctrl_uid v = u" by (rule keyed_dget[OF assms])
    with u show "v \<in> set (dvals d)" using keyed_dvals[OF assms, of v] by blast
  qed
  then show "set (rows_of ctrl_tuple d) = set (map ?row (sort (dkeys d)))"
    unfolding set_rows_of set_map set_sort by (simp only: image_image)
qed

text \<open>The reference's pods and counters, read off an environment of the engine.\<close>

definition same_pods :: "ref_pod list \<times> (string, int) dict \<Rightarrow> env \<Rightarrow> bool" where
  "same_pods s env \<longleftrightarrow> fst s = rows_of pod_tuple (e_pods env) \<and> dict_ok (snd s) \<and>
     set (snd s) = set (e_controller_pod_counter env)"

lemma dget_set_eq: "dict_ok d \<Longrightarrow> dict_ok e \<Longrightarrow> set d = set e \<Longrightarrow> dget d k = dget e k"
  by (metis dget_in_set in_set_dget not_None_eq)

lemma same_pods_restore:
  assumes same: "same_pods s env" and ok: "env_ok env" and c: "dget (e_controllers env) u = Some c"
  shows "same_pods (restore_pod (ctrl_tuple c) s) (if owns_pod env u then env else add_replacement env u c)"
proof -
  obtain pods cnt where s: "s = (pods, cnt)" by (cases s)
  have "keyed ctrl_uid (e_controllers env)" using ok by (simp add: env_ok_def)
  then have u: "ctrl_uid c = u" using c by (rule keyed_dget)
  have pods: "pods = rows_of pod_tuple (e_pods env)" and cnt: "dict_ok cnt" "set cnt = set (e_controller_pod_counter env)"
    using same by (simp_all add: same_pods_def s)
  have ctr: "dict_ok (e_controller_pod_counter env)" and kp: "keyed pod_uid (e_pods env)"
    using ok by (simp_all add: env_ok_def)
  have owns: "list_ex (\<lambda>(_, _, _, _, _, owner). owner = Some u) pods \<longleftrightarrow> owns_pod env u"
    unfolding pods owns_pod_def list_ex_iff set_rows_of by (auto simp: pod_tuple_def)
  have "set (map fst pods) = set (map pod_uid (dvals (e_pods env)))"
    unfolding pods set_map set_rows_of image_image by (simp add: pod_tuple_def)
  also have "map pod_uid (dvals (e_pods env)) = dkeys (e_pods env)"
    using kp by (auto simp: keyed_def)
  finally have taken: "set (map fst pods) = set (dkeys (e_pods env))" .
  have "counter cnt u = counter_of env u"
    unfolding counter_def counter_of_def dget_set_eq[OF cnt(1) ctr cnt(2)] ..
  then have k: "fresh_number u (map fst pods) (counter cnt u + 1) = next_index env u"
    unfolding next_index_def using fresh_number_index[OF taken] by simp
  let ?k = "next_index env u" and ?p = "replacement_pod u c (next_index env u)"
  have new: "pod_tuple ?p = (pod_number u ?k, ctrl_namespace c, pod_number (ctrl_name c) ?k,
      ctrl_service_account c, ctrl_token_audiences c, Some u)"
    by (simp add: pod_tuple_def replacement_pod_def pod_number_numbered)
  have fresh: "dget (e_pods env) (pod_uid ?p) = None"
    using free_index_free[of u "dkeys (e_pods env)" "counter_of env u + 1"]
    by (simp add: replacement_pod_def next_index_def dget_None del: mem_dkeys)
  have "set (dvals (dset (pod_uid ?p) ?p (e_pods env))) = insert ?p (set (dvals (e_pods env)))"
    unfolding dset_fresh[OF fresh] by simp
  then have added: "rows_of pod_tuple (dset (pod_uid ?p) ?p (e_pods env)) = frozenset (pod_tuple ?p # pods)"
    unfolding rows_of_def pods by (intro frozenset_cong) (simp only: set_map set_frozenset list.set image_insert)
  show ?thesis
  proof (cases "owns_pod env u")
    case True
    then show ?thesis using same owns by (simp add: restore_pod_def ctrl_tuple_def s u)
  next
    case False
    have restored: "restore_pod (ctrl_tuple c) s = (frozenset (pod_tuple ?p # pods), dset u ?k cnt)"
      using False owns by (simp add: restore_pod_def ctrl_tuple_def s u k new Let_def)
    have "set (dset u ?k cnt) = set (dset u ?k (e_controller_pod_counter env))"
      using cnt ctr by (simp add: set_dset)
    then show ?thesis
      unfolding restored using False cnt(1)
      by (simp add: same_pods_def add_replacement_def Let_def added)
  qed
qed

lemma sort_rows_of: "sort (rows_of f d) = rows_of f d"
  unfolding rows_of_def by (rule sort_frozenset)

lemma dict_ok_frozenset: "dict_ok d \<Longrightarrow> dict_ok (frozenset d)"
  by (simp add: frozenset_def sorted_set_def distinct_remdups_id distinct_map)

lemma same_pods_fold:
  assumes "same_pods s env" and "env_ok env" and "\<forall>u \<in> set us. dget (e_controllers env) u \<noteq> None"
  shows "same_pods (fold restore_pod (map (\<lambda>u. ctrl_tuple (the (dget (e_controllers env) u))) us) s)
    (fst (reconcile_list us env))"
  using assms
proof (induction us arbitrary: s env)
  case (Cons u us)
  then obtain c where c: "dget (e_controllers env) u = Some c" by auto
  let ?env = "if owns_pod env u then env else add_replacement env u c"
  have step: "same_pods (restore_pod (ctrl_tuple c) s) ?env"
    by (rule same_pods_restore) (use Cons.prems c in simp_all)
  have ok: "env_ok ?env" using Cons.prems(2) by (simp add: add_replacement_ok)
  have ctrls: "e_controllers ?env = e_controllers env" by simp
  have rest: "fst (reconcile_list (u # us) env) = fst (reconcile_list us ?env)"
    using reconcile_list_skip[of env u us] reconcile_list_add[OF c] by (cases "owns_pod env u") simp_all
  show ?case
    using Cons.IH[OF step ok] Cons.prems(3) unfolding rest ctrls by (simp add: c)
qed simp

lemma ref_reconcile_agrees:
  assumes "env_ok env"
  shows "ref_reconcile (ref_view env) = ref_view (reconcile env)"
proof -
  let ?us = "sort (dkeys (e_controllers env))"
  have keyed: "keyed ctrl_uid (e_controllers env)" and cnt: "dict_ok (e_controller_pod_counter env)"
    using assms by (simp_all add: env_ok_def)
  have in_order: "sort (rows_of ctrl_tuple (e_controllers env)) =
      map (\<lambda>u. ctrl_tuple (the (dget (e_controllers env) u))) ?us"
    unfolding sort_rows_of by (rule ctrl_rows_in_order[OF keyed])
  obtain pods cnt' where f: "fold restore_pod (map (\<lambda>u. ctrl_tuple (the (dget (e_controllers env) u))) ?us)
      (rows_of pod_tuple (e_pods env), frozenset (e_controller_pod_counter env)) = (pods, cnt')"
    by fastforce
  have "same_pods (rows_of pod_tuple (e_pods env), frozenset (e_controller_pod_counter env)) env"
    using dict_ok_frozenset[OF cnt] by (simp add: same_pods_def)
  then have "same_pods (pods, cnt') (fst (reconcile_list ?us env))"
    unfolding f[symmetric] by (rule same_pods_fold) (use assms in simp_all)
  then have "pods = rows_of pod_tuple (e_pods (reconcile env))"
    and "frozenset cnt' = frozenset (e_controller_pod_counter (reconcile env))"
    by (auto simp: same_pods_def reconcile_controllers_def intro: frozenset_cong)
  then show ?thesis
    unfolding ref_reconcile_def ref_view_simps in_order f by (simp add: ref_view_def)
qed

section \<open>Defender actions\<close>

text \<open>What a raw action denotes, as the reference reads it.\<close>

definition raw_effect :: "(string, json) dict \<Rightarrow> effect \<Rightarrow> bool" where
  "raw_effect m e \<longleftrightarrow>
     (case e of
        EffRemoveBinding (ns, n) \<Rightarrow> str_item m ''kind'' = Inr ''remove_binding'' \<and>
          str_get m ''namespace'' = Inr ns \<and> str_item m ''name'' = Inr n
      | EffDeletePod u \<Rightarrow> str_item m ''kind'' = Inr ''delete_pod'' \<and> str_item m ''uid'' = Inr u
      | EffDeleteController u \<Rightarrow> str_item m ''kind'' = Inr ''delete_controller'' \<and> str_item m ''uid'' = Inr u
      | EffDeletePodsExcept ns sa keep \<Rightarrow> str_item m ''kind'' = Inr ''delete_pods_except'' \<and>
          str_item m ''namespace'' = Inr ns \<and> str_item m ''service_account'' = Inr sa \<and>
          (\<exists>ks. strs_get m ''keep_uids'' = Inr ks \<and> set ks = set keep)
      | EffDeleteControllersExcept ns sa keep \<Rightarrow> str_item m ''kind'' = Inr ''delete_controllers_except'' \<and>
          str_item m ''namespace'' = Inr ns \<and> str_item m ''service_account'' = Inr sa \<and>
          (\<exists>ks. strs_get m ''keep_uids'' = Inr ks \<and> set ks = set keep)
      | EffDeleteAccount (ns, n) \<Rightarrow> str_item m ''kind'' = Inr ''delete_service_account'' \<and>
          str_item m ''namespace'' = Inr ns \<and> str_item m ''name'' = Inr n
      | EffRotate s \<Rightarrow> str_item m ''kind'' = Inr ''rotate_downstream_credential'' \<and> str_item m ''service'' = Inr s
      | EffWait n \<Rightarrow> str_item m ''kind'' = Inr ''wait'' \<and> int_item m ''seconds'' = Inr n)"

lemma ref_env_eqI:
  fixes e e' :: ref_env
  assumes "re_time e = re_time e'" "re_sas e = re_sas e'" "re_pods e = re_pods e'" "re_ctrls e = re_ctrls e'"
    "re_bindings e = re_bindings e'" "re_secrets e = re_secrets e'" "re_services e = re_services e'"
    "re_counters e = re_counters e'"
  shows "e = e'"
  using assms by simp

lemma drop_ctrls_agrees:
  assumes ok: "env_ok env" and same: "set gone = set us"
  shows "drop_ctrls gone (ref_view env) = ref_view (fold del_controller_cascade us env)"
proof (rule ref_env_eqI)
  have kc: "keyed ctrl_uid (e_controllers env)" and kp: "keyed pod_uid (e_pods env)"
    using ok by (simp_all add: env_ok_def)
  have kp': "keyed pod_uid (e_pods (fold del_controller_cascade us env))"
    using fold_cascade_ok[OF ok, of us] by (simp add: env_ok_def)
  have "rows_of ctrl_tuple (fold ddel us (e_controllers env)) =
      filter (\<lambda>c. fst c \<notin> set gone) (rows_of ctrl_tuple (e_controllers env))"
    by (rule rows_of_filter[OF kc keyed_fold_ddel[OF kc], where P = "\<lambda>c. ctrl_uid c \<notin> set us"])
      (use keyed_dget[OF kc] in \<open>auto simp: ctrl_tuple_def same dget_fold_ddel split: option.splits\<close>)
  then show "re_ctrls (drop_ctrls gone (ref_view env)) = re_ctrls (ref_view (fold del_controller_cascade us env))"
    by (simp add: drop_ctrls_def)
  have "rows_of pod_tuple (e_pods (fold del_controller_cascade us env)) =
      filter (\<lambda>(_, _, _, _, _, owner). case owner of None \<Rightarrow> True | Some u \<Rightarrow> u \<notin> set gone)
        (rows_of pod_tuple (e_pods env))"
    by (rule rows_of_filter[OF kp kp', where P = "\<lambda>p. pod_controller_uid p \<notin> Some ` set us"])
      (auto simp: pod_tuple_def same dget_fold_cascade[OF ok] split: option.splits)
  then show "re_pods (drop_ctrls gone (ref_view env)) = re_pods (ref_view (fold del_controller_cascade us env))"
    by (simp add: drop_ctrls_def)
qed (simp_all add: drop_ctrls_def)

lemma rows_of_dset:
  assumes d: "keyed key d" and old: "dget d k = Some v" and new: "key v' = k" and f: "\<And>x. f x = f v \<Longrightarrow> key x = k"
  shows "rows_of f (dset k v' d) = frozenset (filter (\<lambda>r. r \<noteq> f v) (rows_of f d) @ [f v'])"
proof -
  have d': "keyed key (dset k v' d)" by (rule keyed_dset[OF d new])
  define ys zs where "ys = dvals d" and "zs = dvals (dset k v' d)"
  have ys: "x \<in> set ys \<longleftrightarrow> dget d (key x) = Some x" for x
    unfolding ys_def by (rule keyed_dvals[OF d])
  have zs: "x \<in> set zs \<longleftrightarrow> x = v' \<or> (x \<in> set ys \<and> x \<noteq> v)" for x
  proof -
    have "x \<in> set zs \<longleftrightarrow> (if key x = k then x = v' else dget d (key x) = Some x)"
      unfolding zs_def keyed_dvals[OF d'] by auto
    also have "\<dots> \<longleftrightarrow> x = v' \<or> (x \<in> set ys \<and> x \<noteq> v)"
      using old new keyed_dget[OF d old] ys by auto
    finally show ?thesis .
  qed
  have same: "x = v" if "x \<in> set ys" "f x = f v" for x
    using that f[of x] ys old by simp
  have "f ` set zs = {r \<in> f ` set ys. r \<noteq> f v} \<union> {f v'}"
    using zs same by auto
  then show ?thesis
    unfolding rows_of_def filter_frozenset ys_def[symmetric] zs_def[symmetric]
    by (intro frozenset_cong) auto
qed

lemma rows_of_dset_sel:
  assumes d: "keyed key d" and new: "key v' = k" and sel: "\<And>x. sel (f x) \<longleftrightarrow> key x \<noteq> k"
  shows "rows_of f (dset k v' d) = frozenset (filter sel (rows_of f d) @ [f v'])"
proof -
  define ys zs where "ys = dvals d" and "zs = dvals (dset k v' d)"
  have "x \<in> set ys \<longleftrightarrow> dget d (key x) = Some x" for x
    unfolding ys_def by (rule keyed_dvals[OF d])
  moreover have "x \<in> set zs \<longleftrightarrow> (if key x = k then x = v' else dget d (key x) = Some x)" for x
    unfolding zs_def keyed_dvals[OF keyed_dset[OF d new]] by auto
  ultimately have "f ` set zs = {r \<in> f ` set ys. sel r} \<union> {f v'}"
    using new by (auto simp: sel split: if_splits)
  then show ?thesis
    unfolding rows_of_def filter_frozenset ys_def[symmetric] zs_def[symmetric]
    by (intro frozenset_cong) auto
qed

definition services_ok :: "env \<Rightarrow> bool" where
  "services_ok env \<longleftrightarrow>
     (\<forall>s \<in> set (dvals (e_services env)). 0 \<le> svc_accepted_version s \<and> 0 \<le> svc_rotation_propagation_seconds s)"

lemma rotate_agrees:
  assumes ok: "env_ok env" and sv: "services_ok env" and svc: "dget (e_services env) n = Some svc"
  shows "rotate_credential (ref_view env) n = ref_view (fst (rotate env svc))"
proof -
  have ks: "keyed svc_name (e_services env)" and kx: "keyed sec_key (e_secrets env)"
    using ok by (simp_all add: env_ok_def)
  have name: "svc_name svc = n" by (rule keyed_dget[OF ks svc])
  have "svc \<in> set (dvals (e_services env))" using keyed_dvals[OF ks, of svc] svc name by simp
  then have pos: "0 \<le> svc_accepted_version svc" "0 \<le> svc_rotation_propagation_seconds svc"
    using sv unfolding services_ok_def by blast+
  have row: "filter (\<lambda>s. fst s = n) (rows_of service_tuple (e_services env)) = [service_tuple svc]"
    using rows_of_lookup[OF ks, of "\<lambda>s. fst s = n" service_tuple n] svc by (simp add: service_tuple_def)
  let ?key = "(svc_source_namespace svc, svc_source_secret svc)"
  have cur: "filter (\<lambda>(ns, s, _). (ns, s) = ?key) (rows_of secret_tuple (e_secrets env)) =
      (case dget (e_secrets env) ?key of None \<Rightarrow> [] | Some s \<Rightarrow> [secret_tuple s])"
    by (rule rows_of_lookup[OF kx]) (simp add: secret_tuple_def)
  let ?version = "case dget (e_secrets env) ?key of None \<Rightarrow> 0 | Some s \<Rightarrow> sec_version s"
  let ?new = "max (svc_accepted_version svc) ?version + 1"
  let ?until = "e_time env + svc_rotation_propagation_seconds svc"
  let ?grace = "if svc_rotation_propagation_seconds svc > 0
      then sorted_set ((svc_accepted_version svc, ?until) # svc_grace svc) else svc_grace svc"
  let ?svc = "svc\<lparr>svc_accepted_version := ?new, svc_grace := ?grace\<rparr>"
  have new: "fold max (map (\<lambda>(_, _, v). v)
      (case dget (e_secrets env) ?key of None \<Rightarrow> [] | Some s \<Rightarrow> [secret_tuple s])) (svc_accepted_version svc) + 1 = ?new"
    using pos(1) by (auto simp: secret_tuple_def max.commute split: option.splits)
  have grace: "(if svc_rotation_propagation_seconds svc \<noteq> 0
      then frozenset ((svc_accepted_version svc, ?until) # svc_grace svc) else svc_grace svc) = ?grace"
    using pos(2) by (simp add: frozenset_def)
  have services: "frozenset (filter (\<lambda>s. s \<noteq> service_tuple svc) (rows_of service_tuple (e_services env)) @
      [service_tuple ?svc]) = rows_of service_tuple (dset n ?svc (e_services env))"
    by (rule rows_of_dset[OF ks svc, symmetric]) (use name in \<open>simp_all add: service_tuple_def\<close>)
  have tuple: "service_tuple ?svc = (svc_name svc, svc_source_namespace svc, svc_source_secret svc, ?new,
      svc_rotation_propagation_seconds svc, ?grace)"
    by (simp add: service_tuple_def)
  let ?rest = "filter (\<lambda>(ns, s, _). (ns, s) \<noteq> ?key) (rows_of secret_tuple (e_secrets env))"
  have secrets: "frozenset (?rest @ (if (case dget (e_secrets env) ?key of None \<Rightarrow> [] | Some s \<Rightarrow> [secret_tuple s]) \<noteq> []
        then [(svc_source_namespace svc, svc_source_secret svc, ?new)] else [])) =
      rows_of secret_tuple (case dget (e_secrets env) ?key of None \<Rightarrow> e_secrets env
        | Some s \<Rightarrow> dset ?key (s\<lparr>sec_version := ?new\<rparr>) (e_secrets env))"
  proof (cases "dget (e_secrets env) ?key")
    case None
    then have "filter (\<lambda>(ns, s, _). (ns, s) = ?key) (rows_of secret_tuple (e_secrets env)) = []" using cur by simp
    then have "?rest = rows_of secret_tuple (e_secrets env)"
      by (auto simp: filter_empty_conv filter_id_conv)
    with None show ?thesis by (simp add: rows_of_def)
  next
    case (Some s)
    then have key: "sec_key s = ?key" using keyed_dget[OF kx] by blast
    let ?s = "s\<lparr>sec_version := ?new\<rparr>"
    have tup: "secret_tuple ?s = (svc_source_namespace svc, svc_source_secret svc, ?new)"
      using key by (simp add: secret_tuple_def)
    have "rows_of secret_tuple (dset ?key ?s (e_secrets env)) = frozenset (?rest @ [secret_tuple ?s])"
      by (rule rows_of_dset_sel[OF kx]) (use key in \<open>simp_all add: secret_tuple_def\<close>)
    with Some show ?thesis unfolding tup by simp
  qed
  have "rotate_credential (ref_view env) n = (ref_view env)\<lparr>
      re_secrets := frozenset (?rest @ (if (case dget (e_secrets env) ?key of None \<Rightarrow> [] | Some s \<Rightarrow> [secret_tuple s]) \<noteq> []
        then [(svc_source_namespace svc, svc_source_secret svc, ?new)] else [])),
      re_services := frozenset (filter (\<lambda>s. s \<noteq> service_tuple svc) (rows_of service_tuple (e_services env)) @
        [service_tuple ?svc])\<rparr>"
    unfolding rotate_credential_def ref_view_simps row tuple
    by (simp only: list.case service_tuple_def prod.case Let_def cur new grace)
  also have "\<dots> = ref_view (fst (rotate env svc))"
    unfolding secrets services by (rule ref_env_eqI) (simp_all add: rotate_def Let_def name)
  finally show ?thesis .
qed

lemma defend_effect:
  assumes ok: "env_ok env" and sv: "services_ok env" and raw: "raw_effect m e"
  shows "defend (ref_view env) m = Inr (ref_view (apply_effect e env))"
proof -
  have kp: "keyed pod_uid (e_pods env)" and ks: "keyed sa_key (e_service_accounts env)"
    using ok by (simp_all add: env_ok_def)
  show ?thesis
  proof (cases e)
    case (EffRemoveBinding key)
    obtain ns n where key: "key = (ns, n)" by (cases key)
    have "frozenset (dkeys (ddel key (e_bindings env))) = filter (\<lambda>b. b \<noteq> (ns, n)) (frozenset (dkeys (e_bindings env)))"
      unfolding filter_frozenset by (intro frozenset_cong) (simp only: set_filter set_dkeys_ddel key, blast)
    with EffRemoveBinding key raw show ?thesis
      by (simp add: raw_effect_def defend_def ref_view_def)
  next
    case (EffDeletePod u)
    have "rows_of pod_tuple (ddel u (e_pods env)) = filter (\<lambda>p. fst p \<noteq> u) (rows_of pod_tuple (e_pods env))"
      by (rule rows_of_filter[OF kp keyed_ddel[OF kp], where P = "\<lambda>p. pod_uid p \<noteq> u"])
        (use keyed_dget[OF kp] in \<open>auto simp: pod_tuple_def split: option.splits\<close>)
    with EffDeletePod raw show ?thesis
      by (simp add: raw_effect_def defend_def ref_view_def)
  next
    case (EffDeleteController u)
    have "drop_ctrls [u] (ref_view env) = ref_view (fold del_controller_cascade [u] env)"
      by (rule drop_ctrls_agrees[OF ok]) simp
    with EffDeleteController raw show ?thesis by (simp add: raw_effect_def defend_def)
  next
    case (EffDeletePodsExcept ns sa keep)
    have kp': "keyed pod_uid (e_pods (del_pods (pod_selected ns sa keep) env))"
      using del_pods_ok[OF ok] by (simp add: env_ok_def)
    from raw EffDeletePodsExcept obtain ks where ks: "strs_get m ''keep_uids'' = Inr ks" "set ks = set keep"
      by (auto simp: raw_effect_def)
    have "rows_of pod_tuple (e_pods (del_pods (pod_selected ns sa keep) env)) =
        filter (\<lambda>(u, pns, _, psa, _, _). \<not> (pns = ns \<and> psa = sa \<and> u \<notin> set ks)) (rows_of pod_tuple (e_pods env))"
      by (rule rows_of_filter[OF kp kp', where P = "\<lambda>p. \<not> pod_selected ns sa keep p"])
        (auto simp: pod_tuple_def pod_selected_def ks(2) dget_del_pods[OF kp] split: option.splits)
    with EffDeletePodsExcept raw ks(1) show ?thesis
      by (simp add: raw_effect_def defend_def ref_view_def)
  next
    case (EffDeleteControllersExcept ns sa keep)
    from raw EffDeleteControllersExcept obtain ks where ks: "strs_get m ''keep_uids'' = Inr ks" "set ks = set keep"
      by (auto simp: raw_effect_def)
    let ?gone = "map fst (filter (\<lambda>(u, cns, _, csa, _). cns = ns \<and> csa = sa \<and> u \<notin> set ks)
        (rows_of ctrl_tuple (e_controllers env)))"
    define cs where "cs = dvals (e_controllers env)"
    have "drop_ctrls ?gone (ref_view env) =
        ref_view (fold del_controller_cascade (map ctrl_uid (filter (ctrl_selected ns sa keep) cs)) env)"
    proof (rule drop_ctrls_agrees[OF ok])
      have "set ?gone = fst ` {r \<in> ctrl_tuple ` set cs. case r of (u, cns, _, csa, _) \<Rightarrow> cns = ns \<and> csa = sa \<and> u \<notin> set ks}"
        unfolding set_map set_filter set_rows_of cs_def by simp
      also have "\<dots> = ctrl_uid ` {c \<in> set cs. ctrl_selected ns sa keep c}"
        by (force simp: ctrl_tuple_def ctrl_selected_def ks(2))
      finally show "set ?gone = set (map ctrl_uid (filter (ctrl_selected ns sa keep) cs))" by simp
    qed
    with EffDeleteControllersExcept raw ks(1) show ?thesis by (simp add: raw_effect_def defend_def cs_def)
  next
    case (EffDeleteAccount key)
    obtain ns n where key: "key = (ns, n)" by (cases key)
    have "rows_of sa_tuple (ddel key (e_service_accounts env)) =
        filter (\<lambda>(sns, sn, _). (sns, sn) \<noteq> (ns, n)) (rows_of sa_tuple (e_service_accounts env))"
      by (rule rows_of_filter[OF ks keyed_ddel[OF ks], where P = "\<lambda>s. sa_key s \<noteq> key"])
        (use keyed_dget[OF ks] in \<open>auto simp: sa_tuple_def key split: option.splits\<close>)
    with EffDeleteAccount key raw show ?thesis
      by (simp add: raw_effect_def defend_def ref_view_def)
  next
    case (EffRotate s)
    then have d: "defend (ref_view env) m = Inr (rotate_credential (ref_view env) s)"
      using raw by (simp add: raw_effect_def defend_def)
    show ?thesis
    proof (cases "dget (e_services env) s")
      case None
      have "filter (\<lambda>r. fst r = s) (rows_of service_tuple (e_services env)) = []"
        using rows_of_lookup[of svc_name "e_services env" "\<lambda>r. fst r = s" service_tuple s] ok None
        by (simp add: env_ok_def service_tuple_def)
      then have "rotate_credential (ref_view env) s = ref_view env" by (simp add: rotate_credential_def)
      with d None EffRotate show ?thesis by simp
    next
      case (Some svc)
      from d rotate_agrees[OF ok sv Some] Some EffRotate show ?thesis by simp
    qed
  next
    case (EffWait n)
    with raw show ?thesis by (simp add: raw_effect_def defend_def ref_view_def)
  qed
qed

section \<open>The raw actions\<close>

text \<open>What the accessors of the parser accept, the reference reads as the same value.\<close>

lemma jget_item: "jget m k = v \<Longrightarrow> v \<noteq> JNull \<Longrightarrow> item m k = Inr v"
  by (auto simp: item_def jget_def split: option.splits)

lemma req_item: "req m k w = Inr x \<Longrightarrow> str_item m k = Inr x"
  by (simp add: req_Inr jget_item str_item_def)

lemma str_opt_get: "str_opt m k w = Inr x \<Longrightarrow> str_get m k = Inr x"
  by (auto simp: str_opt_Inr str_get_def)

lemma int_opt_get: "int_opt m k w b = Inr x \<Longrightarrow> num_get m k = Inr x"
  by (auto simp: int_opt_Inr num_get_def)

lemma int_req_item: "int_req m k w b = Inr x \<Longrightarrow> num_item m k = Inr x \<and> int_item m k = Inr x"
  by (simp add: int_req_Inr jget_item num_item_def int_item_def)

lemma traverse_strs: "traverse (as_str k) (map JStr xs) = Inr xs"
  by (rule traverse_map) simp

lemma strs_item_read: "strs_of (jget m k) w = Inr xs \<Longrightarrow> xs \<noteq> [] \<Longrightarrow> strs_item m k = Inr xs"
  by (auto simp: strs_Inr strs_item_def list_item_def jget_item traverse_strs)

lemma strs_get_read:
  assumes "strs_of (jget m k) w = Inr xs" and "dget m k \<noteq> Some JNull"
  shows "strs_get m k = Inr xs"
  using assms by (cases "dget m k") (auto simp: strs_Inr strs_get_def list_get_def traverse_strs jget_def)

lemma keep_read:
  assumes "parse_keep w m = Inr extras" and "dget m ''keep_uids'' \<noteq> Some JNull"
  shows "\<exists>ks keep. extras = [(''keep_uids'', join '','' keep)] \<and> keep_list (join '','' keep) = keep \<and>
    set keep = set ks \<and> strs_get m ''keep_uids'' = Inr ks"
proof -
  from assms(1) obtain ks where ks: "strs_of (jget m ''keep_uids'') (w @ ''.keep_uids'') = Inr ks"
    "\<not> list_ex (\<lambda>k. CHR '','' \<in> set k) (sorted_set ks)" "extras = [(''keep_uids'', join '','' (sorted_set ks))]"
    by (auto simp: parse_keep_def rbind_Inr Let_def)
  have "keep_list (join '','' (sorted_set ks)) = sorted_set ks"
    by (rule keep_ok_facts(1)[OF sorted_set_keep[OF ks(1,2)]])
  with ks strs_get_read[OF ks(1) assms(2)] show ?thesis by auto
qed

lemma action_kind_of_name: "action_kind_of w k = Inr kind \<Longrightarrow> k = action_kind_name kind"
  by (auto simp: action_kind_of_def split: if_splits)

lemma parse_action_raw:
  assumes "parse_action (JObj m) w = Inr a" and keep: "dget m ''keep_uids'' \<noteq> Some JNull"
  shows "\<exists>e. effect_of a = Some e \<and> raw_effect m e"
proof -
  from assms obtain kind params extras where
      k: "str_item m ''kind'' = Inr (action_kind_name kind)"
    and ps: "traverse (\<lambda>key. rbind (req m key w) (\<lambda>v. Inr (key, v))) (required_params kind) = Inr params"
    and extras: "parse_extra_params w kind m = Inr extras"
    and a: "a = \<lparr>act_kind = kind, act_params = sort (params @ extras)\<rparr>"
    by (fastforce simp: parse_action_def rbind_Inr Let_def dest: req_item action_kind_of_name split: if_splits option.splits)
  note simps = a k effect_of_def act_opt_def raw_effect_def rbind_Inr parse_extra_params_def
  show ?thesis
  proof (cases kind)
    case DeletePodsExcept
    then have "parse_keep w m = Inr extras" using extras by (simp add: parse_extra_params_def)
    from keep_read[OF this keep] obtain ks keeps where
      "extras = [(''keep_uids'', join '','' keeps)]" "keep_list (join '','' keeps) = keeps"
      "set keeps = set ks" "strs_get m ''keep_uids'' = Inr ks" by blast
    with ps DeletePodsExcept show ?thesis by (auto simp: simps dest!: req_item)
  next
    case DeleteControllersExcept
    then have "parse_keep w m = Inr extras" using extras by (simp add: parse_extra_params_def)
    from keep_read[OF this keep] obtain ks keeps where
      "extras = [(''keep_uids'', join '','' keeps)]" "keep_list (join '','' keeps) = keeps"
      "set keeps = set ks" "strs_get m ''keep_uids'' = Inr ks" by blast
    with ps DeleteControllersExcept show ?thesis by (auto simp: simps dest!: req_item)
  next
    case RemoveBinding
    with ps extras show ?thesis by (auto simp: simps dest!: req_item str_opt_get split: option.splits)
  qed (use ps extras in \<open>auto simp: simps dest!: req_item int_req_item\<close>)
qed

end
