(* ===== verification/Agreement_Input.thy ===== *)
theory Agreement_Input
  imports Agreement Replay
begin

text \<open>
  From the raw document on: the reference checker and the parser of the engine read the same world,
  and along the remediation their environments stay the same. The two read explicit nulls in place
  of lists differently, so the document must have none.
\<close>

section \<open>Documents without explicit nulls\<close>

definition given :: "(string, json) dict \<Rightarrow> string \<Rightarrow> bool" where
  "given m key \<longleftrightarrow> dget m key \<noteq> Some JNull"

fun members :: "json \<Rightarrow> json list" where
  "members (JList xs) = xs"
| "members _ = []"

definition each_member :: "((string, json) dict \<Rightarrow> bool) \<Rightarrow> (string, json) dict \<Rightarrow> string \<Rightarrow> bool" where
  "each_member P m key \<longleftrightarrow> (\<forall>x. JObj x \<in> set (members (jget m key)) \<longrightarrow> P x)"

definition plain_policy :: "(string, json) dict \<Rightarrow> bool" where
  "plain_policy m \<longleftrightarrow>
     (case jget m ''allowed_service_accounts'' of
        JObj al \<Rightarrow> dict_ok al \<and> (\<forall>(u, v) \<in> set al. v \<noteq> JNull)
      | _ \<Rightarrow> True)"

definition plain_inventory :: "(string, json) dict \<Rightarrow> bool" where
  "plain_inventory m \<longleftrightarrow>
     (\<forall>key \<in> {''service_accounts'', ''pods'', ''controllers'', ''roles'', ''bindings'', ''secrets'', ''services'',
        ''admission_policies''}. given m key) \<and>
     each_member (\<lambda>p. given p ''token_audiences'') m ''pods'' \<and>
     each_member (\<lambda>p. given p ''token_audiences'') m ''controllers'' \<and>
     each_member (\<lambda>p. given p ''rules'') m ''roles'' \<and>
     each_member (\<lambda>p. given p ''subjects'') m ''bindings'' \<and>
     each_member plain_policy m ''admission_policies''"

definition plain_document :: "(string, json) dict \<Rightarrow> bool" where
  "plain_document raw \<longleftrightarrow>
     given raw ''credentials'' \<and> given raw ''remediation'' \<and>
     each_member (\<lambda>a. given a ''keep_uids'') raw ''remediation'' \<and>
     (case jget raw ''inventory'' of JObj m \<Rightarrow> plain_inventory m | _ \<Rightarrow> True)"

section \<open>Rows\<close>

lemma frozenset_empty: "frozenset [] = []"
  by simp

lemma list_all2_rel_comp:
  assumes "list_all2 P xs ys" and "\<And>x y. x \<in> set xs \<Longrightarrow> P x y \<Longrightarrow> \<exists>z. Q x z \<and> R z y"
  shows "\<exists>zs. list_all2 Q xs zs \<and> list_all2 R zs ys"
  using assms
proof (induction rule: list_all2_induct)
  case (Cons x xs y ys)
  then obtain zs z where "list_all2 Q xs zs" "list_all2 R zs ys" "Q x z" "R z y" by fastforce
  then show ?case by (intro exI[of _ "z # zs"]) simp
qed simp

lemma obj_rows:
  assumes "list_all2 (\<lambda>x y. \<exists>m. x = JObj m \<and> row m = Inr y) xs ys"
  shows "rbind (traverse (as_obj key) xs) (traverse row) = Inr ys"
  using assms by (induction rule: list_all2_induct) (auto simp: rbind_Inr)

text \<open>
  A list of the document that the parser reads item by item, the reference reads row by row, the
  results related item by item.
\<close>

lemma rows_read:
  assumes items: "parse_items m key w f = Inr ys" and given: "given m key"
    and each: "each_member P m key"
    and row: "\<And>x y. f x = Inr y \<Longrightarrow> \<exists>o'. x = JObj o' \<and> (P o' \<longrightarrow> (\<exists>r. row o' = Inr r \<and> R r y))"
  shows "\<exists>rs. rows m key row = Inr rs \<and> list_all2 R rs ys"
proof -
  from items obtain xs where xs: "list_of (jget m key) w = Inr xs" and tr: "list_all2 (\<lambda>x y. f x = Inr y) xs ys"
    by (auto simp: parse_items_def rbind_Inr traverse_Inr)
  have mem: "xs = members (jget m key)" using xs by (auto simp: list_Inr)
  have "\<exists>rs. list_all2 (\<lambda>x r. \<exists>o'. x = JObj o' \<and> row o' = Inr r) xs rs \<and> list_all2 R rs ys"
  proof (rule list_all2_rel_comp[OF tr])
    fix x y assume x: "x \<in> set xs" "f x = Inr y"
    show "\<exists>r. (\<exists>o'. x = JObj o' \<and> row o' = Inr r) \<and> R r y"
      using row[OF x(2)] x(1) each unfolding each_member_def mem[symmetric] by blast
  qed
  then obtain rs where
    rs: "list_all2 (\<lambda>x r. \<exists>o'. x = JObj o' \<and> row o' = Inr r) xs rs" "list_all2 R rs ys" by blast
  have "list_get m key = Inr xs"
    using xs given by (cases "dget m key") (auto simp: list_Inr list_get_def jget_def given_def)
  with obj_rows[OF rs(1)] rs(2) show ?thesis
    by (auto simp: rows_def objs_get_def)
qed

text \<open>Where the row is a function of the parsed object.\<close>

lemma rows_map:
  assumes "parse_items m key w f = Inr ys" and "given m key" and "each_member P m key"
    and "\<And>x y. f x = Inr y \<Longrightarrow> \<exists>o'. x = JObj o' \<and> (P o' \<longrightarrow> row o' = Inr (g y))"
  shows "rows m key row = Inr (map g ys)"
proof -
  have "\<exists>rs. rows m key row = Inr rs \<and> list_all2 (\<lambda>r y. r = g y) rs ys"
    by (rule rows_read[OF assms(1-3)]) (use assms(4) in blast)
  moreover have "list_all2 (\<lambda>r y. r = g y) rs ys \<Longrightarrow> rs = map g ys" for rs
    by (induction rule: list_all2_induct) simp_all
  ultimately show ?thesis by blast
qed

lemma each_True: "each_member (\<lambda>_. True) m key"
  by (simp add: each_member_def)

section \<open>The environment\<close>

lemma opt_strs_read: "opt_strs m k w = Inr xs \<Longrightarrow> given m k \<Longrightarrow> strs_get m k = Inr xs"
proof (cases "dget m k")
  case None
  then show "opt_strs m k w = Inr xs \<Longrightarrow> ?thesis" by (simp add: opt_strs_def strs_get_def list_get_def)
next
  case (Some v)
  then show "opt_strs m k w = Inr xs \<Longrightarrow> given m k \<Longrightarrow> ?thesis"
    unfolding opt_strs_def given_def by (auto intro: strs_get_read)
qed

lemmas read_simps = rbind_Inr obj_Inr

lemma sa_read: "parse_service_account x = Inr y \<Longrightarrow> \<exists>m. x = JObj m \<and> (True \<longrightarrow> sa_row m = Inr (sa_tuple y))"
  by (auto simp: parse_service_account_def read_simps sa_row_def sa_tuple_def dest!: req_item)

lemma pod_read:
  "parse_pod x = Inr y \<Longrightarrow> \<exists>m. x = JObj m \<and> (given m ''token_audiences'' \<longrightarrow> pod_row m = Inr (pod_tuple y))"
  by (auto simp: parse_pod_def read_simps Reference.pod_row_def pod_tuple_def dest!: req_item opt_strs_read str_opt_get)

lemma ctrl_read:
  "parse_controller x = Inr y \<Longrightarrow> \<exists>m. x = JObj m \<and> (given m ''token_audiences'' \<longrightarrow> ctrl_row m = Inr (ctrl_tuple y))"
  by (auto simp: parse_controller_def read_simps ctrl_row_def ctrl_tuple_def dest!: req_item opt_strs_read)

lemma binding_read:
  "parse_binding x = Inr y \<Longrightarrow> \<exists>m. x = JObj m \<and> (True \<longrightarrow> binding_row m = Inr (bnd_key y))"
  by (auto simp: parse_binding_def read_simps binding_row_def dest!: req_item str_opt_get)

lemma secret_read: "parse_secret x = Inr y \<Longrightarrow> \<exists>m. x = JObj m \<and> (True \<longrightarrow> secret_row m = Inr (secret_tuple y))"
  by (auto simp: parse_secret_def read_simps secret_row_def secret_tuple_def dest!: req_item int_req_item)

lemma service_read: "parse_service x = Inr y \<Longrightarrow> \<exists>m. x = JObj m \<and> (True \<longrightarrow> service_row m = Inr (service_tuple y))"
  by (auto simp: parse_service_def read_simps service_row_def service_tuple_def dest!: req_item int_req_item int_opt_get)

text \<open>What the parser's sorting of the collections keeps.\<close>

lemma rows_of_inventory:
  "distinct (map key xs) \<Longrightarrow> rows_of f (dict_of (map (\<lambda>x. (key x, x)) (sort_key g xs)) []) = frozenset (map f xs)"
proof -
  assume "distinct (map key xs)"
  then have "dict_of (map (\<lambda>x. (key x, x)) (sort_key g xs)) [] = map (\<lambda>x. (key x, x)) (sort_key g xs)"
    using dict_of_fresh[of "map (\<lambda>x. (key x, x)) (sort_key g xs)" "[]"] by (simp add: comp_def)
  then show ?thesis
    unfolding rows_of_def by (intro frozenset_cong) simp
qed

lemma keys_of_inventory:
  "frozenset (dkeys (dict_of (map (\<lambda>x. (key x, x)) (sort_key g xs)) [])) = frozenset (map key xs)"
  by (rule frozenset_cong) (use dkeys_dict_of[of "map (\<lambda>x. (key x, x)) (sort_key g xs)" "[]"] in \<open>simp add: image_image\<close>)

lemma env0_read:
  assumes "parse_inventory m = Inr i" and plain: "plain_inventory m"
  shows "env0 m t = Inr (ref_view (from_inventory i t))"
proof -
  obtain i0 where i: "i = sort_inventory i0" and ok: "inventory_ok i0" and items:
    "parse_items m ''service_accounts'' ''inventory'' parse_service_account = Inr (inv_service_accounts i0)"
    "parse_items m ''pods'' ''inventory.pods'' parse_pod = Inr (inv_pods i0)"
    "parse_items m ''controllers'' ''inventory.controllers'' parse_controller = Inr (inv_controllers i0)"
    "parse_items m ''bindings'' ''inventory.bindings'' parse_binding = Inr (inv_bindings i0)"
    "parse_items m ''secrets'' ''inventory.secrets'' parse_secret = Inr (inv_secrets i0)"
    "parse_items m ''services'' ''inventory.services'' parse_service = Inr (inv_services i0)"
    by (rule parse_inventory_parts[OF assms(1)]) blast
  have given: "given m ''service_accounts''" "given m ''pods''" "given m ''controllers''" "given m ''bindings''"
    "given m ''secrets''" "given m ''services''"
    and each: "each_member (\<lambda>p. given p ''token_audiences'') m ''pods''"
      "each_member (\<lambda>p. given p ''token_audiences'') m ''controllers''"
    using plain unfolding plain_inventory_def by simp_all
  have rows:
    "rows m ''service_accounts'' sa_row = Inr (map sa_tuple (inv_service_accounts i0))"
    "rows m ''pods'' Reference.pod_row = Inr (map pod_tuple (inv_pods i0))"
    "rows m ''controllers'' ctrl_row = Inr (map ctrl_tuple (inv_controllers i0))"
    "rows m ''bindings'' binding_row = Inr (map bnd_key (inv_bindings i0))"
    "rows m ''secrets'' secret_row = Inr (map secret_tuple (inv_secrets i0))"
    "rows m ''services'' service_row = Inr (map service_tuple (inv_services i0))"
    by (rule rows_map[OF items(1) given(1) each_True sa_read] rows_map[OF items(2) given(2) each(1) pod_read]
        rows_map[OF items(3) given(3) each(2) ctrl_read] rows_map[OF items(4) given(4) each_True binding_read]
        rows_map[OF items(5) given(5) each_True secret_read] rows_map[OF items(6) given(6) each_True service_read],
        assumption)+
  have keys: "distinct (map sa_key (inv_service_accounts i0))" "distinct (map pod_uid (inv_pods i0))"
    "distinct (map ctrl_uid (inv_controllers i0))" "distinct (map sec_key (inv_secrets i0))"
    "distinct (map svc_name (inv_services i0))"
    using ok by (simp_all add: inventory_ok_def)
  show ?thesis
    unfolding env0_def rows by (simp add: ref_view_def from_inventory_def i sort_inventory_def rows_of_inventory[OF keys(1)]
        rows_of_inventory[OF keys(2)] rows_of_inventory[OF keys(3)] rows_of_inventory[OF keys(4)] rows_of_inventory[OF keys(5)] keys_of_inventory frozenset_empty)
qed

section \<open>The static parts\<close>

lemma rule_read:
  assumes "parse_rule w x = Inr y"
  shows "\<exists>m. x = JObj m \<and> (True \<longrightarrow> (\<exists>r. rule_of m = Inr r \<and> rule_like r y))"
proof -
  from assms obtain m vs rs names where x: "x = JObj m" and vs: "strs_of (jget m ''verbs'') (w @ ''.verbs'') = Inr vs"
    and rs: "strs_of (jget m ''resources'') (w @ ''.resources'') = Inr rs" and ne: "vs \<noteq> []" "rs \<noteq> []"
    and names: "(case jget m ''resource_names'' of JNull \<Rightarrow> Inr None
        | v \<Rightarrow> rbind (strs_of v (w @ ''.resource_names'')) (\<lambda>ns. Inr (Some (set ns)))) = Inr names"
    and y: "y = \<lparr>rule_verbs = set vs, rule_resources = set rs, rule_resource_names = names\<rparr>"
    unfolding parse_rule_def read_simps guard_simps by blast
  have "\<exists>ns. strs_opt m ''resource_names'' = Inr ns \<and> map_option set ns = names"
  proof (cases "jget m ''resource_names'' = JNull")
    case True
    with names show ?thesis by (simp add: strs_opt_def)
  next
    case False
    with names have "rbind (strs_of (jget m ''resource_names'') (w @ ''.resource_names'')) (\<lambda>ns. Inr (Some (set ns))) = Inr names"
      by (cases "jget m ''resource_names''") simp_all
    then obtain ns where ns: "strs_of (jget m ''resource_names'') (w @ ''.resource_names'') = Inr ns" "names = Some (set ns)"
      by (auto simp: rbind_Inr)
    with False have "jget m ''resource_names'' = JList (map JStr ns)" by (simp add: strs_Inr)
    with ns(2) show ?thesis by (simp add: strs_opt_def traverse_strs)
  qed
  then show ?thesis
    using x y strs_item_read[OF vs ne(1)] strs_item_read[OF rs ne(2)] by (auto simp: rule_of_def rule_like_def)
qed

lemma role_read:
  assumes "parse_role x = Inr y"
  shows "\<exists>m. x = JObj m \<and> (given m ''rules'' \<longrightarrow>
    (\<exists>r. role_entry m = Inr r \<and> fst r = role_key y \<and> list_all2 rule_like (snd r) (role_rules y)))"
proof -
  from assms obtain m ns n rules where x: "x = JObj m" and ns: "str_opt m ''namespace'' ''inventory'' = Inr ns"
    and n: "req m ''name'' ''inventory'' = Inr n"
    and items: "parse_items m ''rules'' ''inventory.roles.rules'' (parse_rule ''inventory.roles.rules'') = Inr rules"
    and y: "y = \<lparr>role_namespace = ns, role_name = n, role_rules = rules\<rparr>"
    unfolding parse_role_def read_simps parse_items_def by blast
  have "\<exists>rs. rows m ''rules'' rule_of = Inr rs \<and> list_all2 rule_like rs rules" if "given m ''rules''"
    by (rule rows_read[OF items that each_True rule_read])
  then show ?thesis
    using x y str_opt_get[OF ns] req_item[OF n] by (auto simp: role_entry_def rows_def rbind_Inr)
qed

lemma subject_read:
  "parse_subject x = Inr y \<Longrightarrow> \<exists>m. x = JObj m \<and> (True \<longrightarrow> (\<exists>r. subject_of m = Inr r \<and> subject_like r y))"
  by (auto simp: parse_subject_def read_simps subject_of_def subject_like_def parse_subject_kind_def
      dest!: req_item str_opt_get split: if_splits)

lemma body_read:
  assumes "parse_binding x = Inr y"
  shows "\<exists>m. x = JObj m \<and> (given m ''subjects'' \<longrightarrow> (\<exists>r. body_entry m = Inr r \<and> fst r = bnd_key y \<and> body_like (snd r) y))"
proof -
  from assms obtain m ks k ns subjects n rn where x: "x = JObj m" and k: "parse_role_kind ks = Inr k"
    and ks: "req m ''role_kind'' ''inventory'' = Inr ks" and ns: "str_opt m ''namespace'' ''inventory'' = Inr ns"
    and n: "req m ''name'' ''inventory'' = Inr n" and rn: "req m ''role_name'' ''inventory'' = Inr rn"
    and items: "parse_items m ''subjects'' ''inventory.bindings.subjects'' parse_subject = Inr subjects"
    and y: "y = \<lparr>rb_namespace = ns, rb_name = n, rb_role_kind = k, rb_role_name = rn, rb_subjects = subjects\<rparr>"
    unfolding parse_binding_def read_simps parse_items_def by blast
  have "\<exists>rs. rows m ''subjects'' subject_of = Inr rs \<and> list_all2 subject_like rs subjects" if "given m ''subjects''"
    by (rule rows_read[OF items that each_True subject_read])
  moreover have "ns \<noteq> Some []" using ns by (auto simp: str_opt_Inr good_string_def)
  moreover have "ks = ''Role'' \<longleftrightarrow> k = KindRole" using k by (auto simp: parse_role_kind_def split: if_splits)
  ultimately show ?thesis
    using x y str_opt_get[OF ns] req_item[OF n] req_item[OF rn] req_item[OF ks]
    by (fastforce simp: body_entry_def rows_def rbind_Inr body_like_def)
qed

text \<open>The entries of a table, and the dictionaries both sides make of it.\<close>

lemma table_read:
  assumes all: "list_all2 (\<lambda>e y. fst e = key y \<and> R (snd e) (val y)) es ys" and dist: "distinct (map key ys)"
  shows "rel_option R (dget (dict_of es []) k)
    (map_option val (dget (dict_of (map (\<lambda>y. (key y, y)) (sort_key g ys)) []) k))"
proof -
  have keys: "map fst es = map key ys"
    using all by (induction rule: list_all2_induct) simp_all
  then have es: "dict_of es [] = es" using dict_of_fresh[of es "[]"] dist by simp
  have dist': "distinct (map key (sort_key g ys))" using dist by simp
  have val: "dget (dict_of (map (\<lambda>y. (key y, y)) (sort_key g ys)) []) k = Some y \<longleftrightarrow> y \<in> set ys \<and> key y = k" for y
    using dget_dict_of_keyed[OF dist', of k y] by simp
  obtain d where d: "dict_of (map (\<lambda>y. (key y, y)) (sort_key g ys)) [] = d" by simp
  show ?thesis
  proof (cases "dget es k")
    case None
    then have "k \<notin> set (map key ys)" unfolding keys[symmetric] dget_None .
    then have "dget d k \<noteq> Some y" for y using val[of y] unfolding d by auto
    then have "dget d k = None" by (cases "dget d k") auto
    with None es d show ?thesis by simp
  next
    case (Some r)
    then have "(k, r) \<in> set es" by (rule dget_in_set)
    from list_all2_left[OF all this] obtain y where y: "y \<in> set ys" "key y = k" "R r (val y)" by auto
    then have "dget d k = Some y" using val[of y] unfolding d by simp
    with y Some es d show ?thesis by simp
  qed
qed

lemma strs_of_opt: "strs_of v w = Inr ns \<Longrightarrow> v \<noteq> JNull \<Longrightarrow> strs_opt [(u, v)] u = Inr (Some ns)"
  by (auto simp: strs_Inr strs_opt_def jget_def traverse_strs)

lemma allowed_read:
  assumes "traverse (\<lambda>(k, v). rbind (strs_of v w) (\<lambda>ns. Inr (k, ns))) al = Inr allowed"
    and "\<forall>(u, v) \<in> set al. v \<noteq> JNull"
  shows "traverse allowed_entry al = Inr (map (\<lambda>(u, ns). (u, Some ns)) allowed) \<and> map fst allowed = map fst al"
  using assms by (induction al arbitrary: allowed) (auto simp: rbind_Inr allowed_entry_def strs_of_opt)

lemma falsy_truthy: "falsy v \<longleftrightarrow> \<not> truthy v"
  by (cases v) simp_all

lemma policy_read:
  assumes "parse_policy x = Inr y"
  shows "\<exists>m. x = JObj m \<and> (plain_policy m \<longrightarrow> (\<exists>r. policy_of m = Inr r \<and> policy_like r y))"
proof -
  from assms obtain m al allowed ns n k where x: "x = JObj m"
    and al: "or_empty_obj (jget m ''allowed_service_accounts'') = JObj al"
    and allowed: "traverse (\<lambda>(k, v). rbind (strs_of v ''inventory.admission_policies.allowed'') (\<lambda>ns. Inr (k, ns))) al = Inr allowed"
    and ns: "req m ''namespace'' ''inventory'' = Inr ns" and k: "req m ''kind'' ''inventory'' = Inr k"
    and y: "y = \<lparr>adm_namespace = ns, adm_name = n, adm_kind = k, adm_allowed_service_accounts = sort allowed\<rparr>"
    unfolding parse_policy_def read_simps by blast
  have "\<exists>r. policy_of m = Inr r \<and> policy_like r y" if plain: "plain_policy m"
  proof -
    let ?v = "jget m ''allowed_service_accounts''"
    have obj: "(if falsy ?v then Inr [] else as_obj ''allowed_service_accounts'' ?v) = Inr al"
      and clean: "dict_ok al" "\<forall>(u, v) \<in> set al. v \<noteq> JNull"
      using al plain by (auto simp: or_empty_obj_def falsy_truthy plain_policy_def split: if_splits json.splits)
    from allowed_read[OF allowed clean(2)] have tr: "traverse allowed_entry al = Inr (map (\<lambda>(u, ns). (u, Some ns)) allowed)"
      and "map fst allowed = map fst al" by blast+
    with clean(1) have dist: "distinct (map fst allowed)" by simp
    then have "dict_of (sort allowed) [] = sort allowed"
      using dict_of_fresh[of "sort allowed" "[]"] by simp
    moreover have "dget (sort allowed) u = dget allowed u" for u
      using dist by (intro dget_set_eq) simp_all
    moreover have "dget (map (\<lambda>(u, ns). (u, Some ns)) allowed) u = map_option Some (dget allowed u)" for u
      by (induction allowed) auto
    ultimately show ?thesis
      using obj tr req_item[OF ns] req_item[OF k]
      by (auto simp: policy_of_def allowed_of_def Let_def policy_like_def y adm_supported_def)
  qed
  with x show ?thesis by blast
qed

lemma cred_read: "parse_credential x = Inr y \<Longrightarrow> \<exists>m. x = JObj m \<and> (True \<longrightarrow> cred_row m = Inr (cred_tuple y))"
  by (auto simp: parse_credential_def read_simps cred_row_def cred_tuple_def dest!: req_item str_opt_get int_opt_get)

lemma list_all2_sets: "list_all2 R xs ys \<Longrightarrow> set zs = set ys \<Longrightarrow> rel_set R (set xs) (set zs)"
  by (induction arbitrary: zs rule: list_all2_induct) (auto simp: rel_set_def) 

lemma jget_obj_item: "jget raw k = JObj m \<Longrightarrow> obj_item raw k = Inr m"
  by (simp add: obj_item_def jget_item)

lemma parse_input_parts:
  assumes "parse_analysis_input sha256 (JObj raw) = Inr inp"
  obtains pm im creds where "jget raw ''profile'' = JObj pm" "parse_profile pm = Inr (inp_profile inp)"
    "jget raw ''inventory'' = JObj im" "parse_inventory im = Inr (inp_inventory inp)"
    "parse_items raw ''credentials'' ''credentials'' parse_credential = Inr creds"
    "inp_credentials inp = sort_key cred_id creds" "distinct (map cred_id creds)"
    "parse_actions (jget raw ''remediation'') ''remediation'' = Inr (inp_remediation inp)"
    "int_item raw ''analysis_time'' = Inr (inp_analysis_time inp)"
proof -
  from assms obtain t pm prof im iv creds rem where parts:
    "int_req raw ''analysis_time'' ''analysis input'' 0 = Inr t" "obj_of (jget raw ''profile'') ''profile'' = Inr pm"
    "parse_profile pm = Inr prof" "obj_of (jget raw ''inventory'') ''inventory'' = Inr im" "parse_inventory im = Inr iv"
    "parse_items raw ''credentials'' ''credentials'' parse_credential = Inr creds"
    "distinct (map cred_id creds)" "parse_actions (jget raw ''remediation'') ''remediation'' = Inr rem"
    and inp: "inp_analysis_time inp = t" "inp_profile inp = prof" "inp_inventory inp = iv"
      "inp_credentials inp = sort_key cred_id creds" "inp_remediation inp = rem"
    unfolding parse_analysis_input_def rbind_Inr obj_of.simps unique_Inr sum.inject
    by clarify (rule that; (assumption | simp only: analysis_input.simps | blast)+)
  show thesis
    by (rule that[of pm im creds]) (use parts inp int_req_item in \<open>simp_all add: obj_Inr\<close>)
qed

lemma parse_profile_parts:
  assumes "parse_profile pm = Inr p"
  obtains auds ttl where "strs_of (jget pm ''api_audiences'') ''profile.api_audiences'' = Inr auds" "auds \<noteq> []"
    "int_req pm ''projected_token_ttl_seconds'' ''profile'' 1 = Inr ttl"
    "prof_api_audiences p = auds" "prof_projected_token_ttl_seconds p = ttl"
  using assms unfolding parse_profile_def rbind_Inr guard_simps by (auto simp del: int_req_Inr)

text \<open>The reference's static table of an input agrees with the first environment of the engine.\<close>

lemma static_read:
  assumes parse: "parse_analysis_input sha256 (JObj raw) = Inr inp" and plain: "plain_document raw"
  shows "\<exists>st. static_of raw = Inr st \<and> static_like st (from_inventory (inp_inventory inp) t) (inp_profile inp)"
proof -
  obtain pm im creds where pm: "jget raw ''profile'' = JObj pm" "parse_profile pm = Inr (inp_profile inp)"
    and im: "jget raw ''inventory'' = JObj im" "parse_inventory im = Inr (inp_inventory inp)"
    and creds: "parse_items raw ''credentials'' ''credentials'' parse_credential = Inr creds"
    by (rule parse_input_parts[OF parse]) blast
  obtain i0 where i: "inp_inventory inp = sort_inventory i0" and ok: "inventory_ok i0" and items:
    "parse_items im ''roles'' ''inventory.roles'' parse_role = Inr (inv_roles i0)"
    "parse_items im ''bindings'' ''inventory.bindings'' parse_binding = Inr (inv_bindings i0)"
    "parse_items im ''admission_policies'' ''inventory.admission_policies'' parse_policy = Inr (inv_admission_policies i0)"
    by (rule parse_inventory_parts[OF im(2)]) blast
  have pi: "plain_inventory im" and gc: "given raw ''credentials''"
    using plain im(1) by (simp_all add: plain_document_def)
  have given: "given im ''roles''" "given im ''bindings''" "given im ''admission_policies''"
    and each: "each_member (\<lambda>p. given p ''rules'') im ''roles''" "each_member (\<lambda>p. given p ''subjects'') im ''bindings''"
      "each_member plain_policy im ''admission_policies''"
    using pi unfolding plain_inventory_def by simp_all
  have "\<exists>rs. rows im ''roles'' role_entry = Inr rs \<and> list_all2 (\<lambda>r y. fst r = role_key y \<and> list_all2 rule_like (snd r) (role_rules y)) rs (inv_roles i0)"
    by (rule rows_read[OF items(1) given(1) each(1) role_read])
  then obtain roles where roles: "rows im ''roles'' role_entry = Inr roles" "list_all2 (\<lambda>r y. fst r = role_key y \<and> list_all2 rule_like (snd r) (role_rules y)) roles (inv_roles i0)" by blast
  have "\<exists>rs. rows im ''bindings'' body_entry = Inr rs \<and> list_all2 (\<lambda>r y. fst r = bnd_key y \<and> body_like (snd r) y) rs (inv_bindings i0)"
    by (rule rows_read[OF items(2) given(2) each(2) body_read])
  then obtain bodies where bodies: "rows im ''bindings'' body_entry = Inr bodies" "list_all2 (\<lambda>r y. fst r = bnd_key y \<and> body_like (snd r) y) bodies (inv_bindings i0)" by blast
  have "\<exists>rs. rows im ''admission_policies'' policy_of = Inr rs \<and> list_all2 policy_like rs (inv_admission_policies i0)"
    by (rule rows_read[OF items(3) given(3) each(3) policy_read])
  then obtain policies where policies: "rows im ''admission_policies'' policy_of = Inr policies" "list_all2 policy_like policies (inv_admission_policies i0)" by blast
  have crows: "rows raw ''credentials'' cred_row = Inr (map cred_tuple creds)"
    by (rule rows_map[OF creds gc each_True cred_read])
  obtain auds ttl where auds: "strs_of (jget pm ''api_audiences'') ''profile.api_audiences'' = Inr auds" "auds \<noteq> []"
    and ttl: "int_req pm ''projected_token_ttl_seconds'' ''profile'' 1 = Inr ttl"
    and prof: "prof_api_audiences (inp_profile inp) = auds" "prof_projected_token_ttl_seconds (inp_profile inp) = ttl"
    by (rule parse_profile_parts[OF pm(2)]) blast
  let ?st = "\<lparr>rs_roles = dict_of roles [], rs_binding_body = dict_of bodies [], rs_admission = policies,
     rs_api_auds = auds, rs_ttl = ttl, rs_creds = dict_of (map (\<lambda>c. (fst c, c)) (map cred_tuple creds)) []\<rparr>"
  have "static_of raw = Inr ?st"
    using jget_obj_item[OF pm(1)] jget_obj_item[OF im(1)] roles(1) bodies(1) policies(1) crows
      strs_item_read[OF auds] int_req_item[OF ttl]
    by (simp add: static_of_def)
  moreover have "static_like ?st (from_inventory (inp_inventory inp) t) (inp_profile inp)"
  proof -
    let ?env = "from_inventory (inp_inventory inp) t"
    have keys: "distinct (map role_key (inv_roles i0))" "distinct (map bnd_key (inv_bindings i0))"
      using ok by (simp_all add: inventory_ok_def)
    have "rel_option (list_all2 rule_like) (dget (dict_of roles []) k) (map_option role_rules (dget (e_roles ?env) k))" for k
      unfolding from_inventory_def i sort_inventory_def env.simps inventory.simps
      by (rule table_read[where key = role_key and val = role_rules and R = "list_all2 rule_like", OF roles(2) keys(1)])
    moreover have "\<exists>b'. dget (dict_of bodies []) k = Some b' \<and> body_like b' b" if b: "dget (e_bindings ?env) k = Some b" for k b
    proof -
      have "rel_option body_like (dget (dict_of bodies []) k) (map_option (\<lambda>b. b) (dget (e_bindings ?env) k))"
        unfolding from_inventory_def i sort_inventory_def env.simps inventory.simps
        by (rule table_read[where key = bnd_key and val = "\<lambda>b. b" and R = body_like, OF bodies(2) keys(2)])
      with b show ?thesis by (cases "dget (dict_of bodies []) k") auto
    qed
    moreover have "rel_set policy_like (set policies) (set (e_admission ?env))"
      by (rule list_all2_sets[OF policies(2)]) (simp add: from_inventory_def i sort_inventory_def)
    ultimately show ?thesis unfolding static_like_def by (simp add: prof)
  qed
  ultimately show ?thesis by blast
qed

section \<open>Along the remediation\<close>

text \<open>The environments of the engine between the defender actions, each after reconciliation.\<close>

fun envs_along :: "env \<Rightarrow> defender_action list \<Rightarrow> env list" where
  "envs_along env [] = [env]"
| "envs_along env (a # as) =
     env # (case apply_defender_action env a of
              Inl _ \<Rightarrow> []
            | Inr (env', _) \<Rightarrow> envs_along (reconcile env') as)"

definition engine_timeline :: "analysis_input \<Rightarrow> env list" where
  "engine_timeline inp =
     envs_along (reconcile (from_inventory (inp_inventory inp) (inp_analysis_time inp))) (inp_remediation inp)"

lemma services_ok_inventory: "inventory_ok i \<Longrightarrow> services_ok (from_inventory i t)"
  unfolding services_ok_def
proof
  fix s assume ok: "inventory_ok i" and s: "s \<in> set (dvals (e_services (from_inventory i t)))"
  have "keyed svc_name (e_services (from_inventory i t))" using from_inventory_ok[of i t] by (simp add: env_ok_def)
  from s[unfolded keyed_dvals[OF this] from_inventory_lookup[OF ok]]
  show "0 \<le> svc_accepted_version s \<and> 0 \<le> svc_rotation_propagation_seconds s"
    using ok unfolding inventory_ok_def by fastforce
qed

lemma services_ok_cong: "e_services env = e_services env' \<Longrightarrow> services_ok env = services_ok env'"
  by (simp add: services_ok_def)

lemma services_ok_rotate:
  assumes ok: "env_ok env" and sv: "services_ok env" and svc: "dget (e_services env) n = Some svc"
  shows "services_ok (fst (rotate env svc))"
proof -
  have ks: "keyed svc_name (e_services env)" using ok by (simp add: env_ok_def)
  have "svc_name svc = n" by (rule keyed_dget[OF ks svc])
  with svc have mem: "svc \<in> set (dvals (e_services env))" using keyed_dvals[OF ks, of svc] by simp
  have "set (dvals (dset k v d)) \<subseteq> insert v (set (dvals d))" for k :: string and v :: downstream_service and d
    by (induction d) auto
  then have sub: "s = v \<or> s \<in> set (dvals d)" if "s \<in> set (dvals (dset k v d))"
    for s v :: downstream_service and k :: string and d using that by blast
  have "\<exists>v. e_services (fst (rotate env svc)) = dset (svc_name svc) v (e_services env) \<and>
      svc_accepted_version svc \<le> svc_accepted_version v \<and>
      svc_rotation_propagation_seconds v = svc_rotation_propagation_seconds svc"
    unfolding rotate_def Let_def fst_conv env.ext_inject
    by (simp split del: if_split cong: if_cong, rule exI, rule conjI, rule refl, simp add: max_def)
  then obtain v where "e_services (fst (rotate env svc)) = dset (svc_name svc) v (e_services env)"
    and "svc_accepted_version svc \<le> svc_accepted_version v"
      "svc_rotation_propagation_seconds v = svc_rotation_propagation_seconds svc" by blast
  with sv mem show ?thesis
    unfolding services_ok_def using sub[of _ "svc_name svc" v "e_services env"] by fastforce
qed

lemma services_ok_effect: "env_ok env \<Longrightarrow> services_ok env \<Longrightarrow> services_ok (apply_effect e env)"
proof (cases e)
  case (EffRotate s)
  then show "env_ok env \<Longrightarrow> services_ok env \<Longrightarrow> ?thesis" by (simp add: services_ok_rotate split: option.splits)
qed (simp_all add: services_ok_def)

lemma static_like_shrinks:
  assumes "static_like st env prof" and "e_roles env' = e_roles env" and "e_admission env' = e_admission env"
    and "map_of (e_bindings env') \<subseteq>\<^sub>m map_of (e_bindings env)"
  shows "static_like st env' prof"
  using assms unfolding static_like_def map_le_def by (metis domI)

lemma effect_bindings: "map_of (e_bindings (apply_effect e env)) \<subseteq>\<^sub>m map_of (e_bindings env)"
  by (cases e) (auto simp: map_le_def rotate_def Let_def split: option.splits if_splits)

text \<open>What holds of every environment of the timeline, and the two timelines side by side.\<close>

lemma envs_along_agree:
  assumes "list_all2 (\<lambda>m a. \<exists>e. effect_of a = Some e \<and> raw_effect m e) ms as" and "env_ok env" and "services_ok env"
  shows "timeline_from [] ms i (ref_view env) = Inr (map ref_view (envs_along env as))"
  using assms
proof (induction ms as arbitrary: env i rule: list_all2_induct)
  case (Cons m ms a as)
  then obtain e where e: "effect_of a = Some e" "raw_effect m e" by blast
  let ?env = "apply_effect e env"
  obtain ns where ap: "apply_defender_action env a = Inr (?env, ns)"
    using apply_defender_action_effect[OF e(1)] by blast
  have ok: "env_ok ?env" by (rule apply_effect_ok[OF Cons.prems(1)])
  have sv: "services_ok ?env" by (rule services_ok_effect[OF Cons.prems])
  have "services_ok (reconcile ?env)" using sv by (simp add: services_ok_def)
  then have "timeline_from [] ms j (ref_view (reconcile ?env)) = Inr (map ref_view (envs_along (reconcile ?env) as))" for j
    by (rule Cons.IH[OF reconcile_ok[OF ok]])
  then show ?case
    by (simp add: defend_effect[OF Cons.prems e(2)] ref_reconcile_agrees[OF ok] created_at_def ap)
qed simp

lemma envs_along_ok:
  assumes "env \<in> set (envs_along start as)" and "env_ok start" and "static_like st start prof"
    and "\<forall>a \<in> set as. \<exists>e. effect_of a = Some e"
  shows "env_ok env \<and> static_like st env prof"
  using assms
proof (induction start as rule: envs_along.induct)
  case (2 start a as)
  from 2(5) obtain e where e: "effect_of a = Some e" by auto
  then obtain ns where ap: "apply_defender_action start a = Inr (apply_effect e start, ns)"
    using apply_defender_action_effect by blast
  have "static_like st (reconcile (apply_effect e start)) prof"
    by (rule static_like_shrinks[OF 2(4)]) (simp_all add: effect_bindings)
  moreover have "env_ok (reconcile (apply_effect e start))"
    by (rule reconcile_ok[OF apply_effect_ok[OF 2(3)]])
  ultimately show ?case
    using 2(1)[OF ap refl] 2(2-5) ap by auto
qed simp

lemma actions_read:
  assumes "parse_actions (jget raw ''remediation'') w = Inr as" and "given raw ''remediation''"
    and "each_member (\<lambda>a. given a ''keep_uids'') raw ''remediation''"
  shows "\<exists>ms. objs_get raw ''remediation'' = Inr ms \<and>
    list_all2 (\<lambda>m a. \<exists>e. effect_of a = Some e \<and> raw_effect m e) ms as"
proof -
  from assms(1) obtain xs where xs: "list_of (jget raw ''remediation'') w = Inr xs" and ps: "parse_actions_from 0 xs w = Inr as"
    by (auto simp: parse_actions_def rbind_Inr)
  have mem: "members (jget raw ''remediation'') = xs" using xs by (auto simp: list_Inr)
  have get: "list_get raw ''remediation'' = Inr xs"
    using xs assms(2) by (cases "dget raw ''remediation''") (auto simp: list_Inr list_get_def jget_def given_def)
  have "\<exists>ms. traverse (as_obj k) xs = Inr ms \<and> list_all2 (\<lambda>m a. \<exists>e. effect_of a = Some e \<and> raw_effect m e) ms as"
    if "parse_actions_from i xs w = Inr as" "\<forall>m. JObj m \<in> set xs \<longrightarrow> given m ''keep_uids''" for i k
    using that
  proof (induction xs arbitrary: i as)
    case (Cons x xs)
    then obtain a as' where a: "parse_action x (w @ ''['' @ str_of_nat i @ '']'') = Inr a"
      "parse_actions_from (Suc i) xs w = Inr as'" "as = a # as'" by (auto simp: rbind_Inr)
    then obtain m where m: "x = JObj m" by (auto simp: parse_action_def read_simps)
    have "\<exists>e. effect_of a = Some e \<and> raw_effect m e"
      by (rule parse_action_raw[OF a(1)[unfolded m]]) (use Cons.prems(2) m in \<open>simp add: given_def\<close>)
    with Cons.IH[OF a(2)] Cons.prems(2) m a(3) show ?case by fastforce
  qed simp
  from this[OF ps] assms(3) mem get show ?thesis
    by (fastforce simp: each_member_def objs_get_def)
qed

end
