(* ===== verification/Reference_Properties.thy ===== *)
theory Reference_Properties
  imports Agreement_Input Examples
begin

text \<open>
  The properties of the independent reference checker, and a small case for it.
\<close>

section \<open>The small case for the reference checker\<close>

text \<open>The same case without a remediation, as the raw document.\<close>

definition ref_case :: "(string, json) dict" where
  "ref_case = (case case_doc of JObj m \<Rightarrow> ddel ''remediation'' m | _ \<Rightarrow> [])"

definition ref_case_limits :: ref_limits where
  "ref_case_limits = \<lparr>rl_max_states = 9, rl_max_live = 2\<rparr>"

lemma ref_case_explored:
  "rbind (static_of ref_case) (\<lambda>st. explore_view st ref_case [] ref_case_limits ''evidence_supported'') =
     Inr \<lparr>rv_objectives = [''o1''], rv_states = 2, rv_complete = True, rv_unknown = []\<rparr>"
  by code_simp

lemma explore_view_starts:
  "explore_view st raw actions lim view = Inr r \<Longrightarrow> \<exists>s unk whole. start_state st raw lim view = Inr (s, unk, whole)"
  by (cases "start_state st raw lim view") (auto simp: explore_view_def)

text \<open>
  C40: The breadth-first search is exact. Whatever it reports is reached by some interleaving of
  single attacker steps and defender actions that ends after the last action; and when it was not
  cut off by the limit, it reports every objective that is, and it has counted the reachable states.
\<close>
theorem exploration_is_exact:
  assumes "explore_view st raw actions lim view = Inr r"
    and "start_state st raw lim view = Inr (s0, unk, whole)"
  shows "set (rv_objectives r) \<subseteq> {g. reaches_objective st raw actions lim s0 g} \<and>
    (rv_complete r \<longrightarrow>
       set (rv_objectives r) = {g. reaches_objective st raw actions lim s0 g} \<and>
       rv_states r = card {t. (ref_step st actions lim)\<^sup>*\<^sup>* s0 t})"
  by (rule explore_view_exact[OF assms])

theorem exploration_is_exact_witness:
  "\<exists>st s0. {g. reaches_objective st ref_case [] ref_case_limits s0 g} = {''o1''} \<and>
     card {t. (ref_step st [] ref_case_limits)\<^sup>*\<^sup>* s0 t} = 2"
proof -
  from ref_case_explored obtain st where run:
    "explore_view st ref_case [] ref_case_limits ''evidence_supported'' =
       Inr \<lparr>rv_objectives = [''o1''], rv_states = 2, rv_complete = True, rv_unknown = []\<rparr>"
    unfolding rbind_Inr by blast
  from explore_view_starts[OF run] obtain s0 unk whole where
    "start_state st ref_case ref_case_limits ''evidence_supported'' = Inr (s0, unk, whole)" by blast
  from exploration_is_exact[OF run this] have
    "{g. reaches_objective st ref_case [] ref_case_limits s0 g} = {''o1''} \<and>
       card {t. (ref_step st [] ref_case_limits)\<^sup>*\<^sup>* s0 t} = 2" by simp
  then show ?thesis by blast
qed

section \<open>The reference and the engine\<close>

definition case_raw :: "(string, json) dict" where
  "case_raw = (case case_doc of JObj m \<Rightarrow> m | _ \<Rightarrow> [])"

lemma case_raw_parses: "parse_analysis_input (\<lambda>s. []) (JObj case_raw) = Inr case_input"
  using case_parses by (simp add: case_raw_def case_doc_def)

lemma case_raw_plain: "plain_document case_raw"
  unfolding plain_document_def plain_inventory_def each_member_def given_def case_raw_def case_doc_def
  by (simp add: jget_def)

lemma engine_timeline_nonempty: "reconcile (from_inventory (inp_inventory inp) (inp_analysis_time inp)) \<in> set (engine_timeline inp)"
  unfolding engine_timeline_def by (cases "inp_remediation inp") simp_all

lemma start_agrees:
  assumes parse: "parse_analysis_input sha256 (JObj raw) = Inr inp" and plain: "plain_document raw"
  shows "start_env raw = Inr (ref_view (reconcile (from_inventory (inp_inventory inp) (inp_analysis_time inp)))) \<and>
    env_ok (reconcile (from_inventory (inp_inventory inp) (inp_analysis_time inp))) \<and>
    services_ok (reconcile (from_inventory (inp_inventory inp) (inp_analysis_time inp)))"
proof -
  obtain im w where im: "jget raw ''inventory'' = JObj im" "parse_inventory im = Inr (inp_inventory inp)"
    and t: "int_item raw ''analysis_time'' = Inr (inp_analysis_time inp)"
    by (rule parse_input_parts[OF parse]) blast
  have ok: "inventory_ok (inp_inventory inp)" by (rule parse_inventory_ok[OF im(2)])
  have env: "env_ok (from_inventory (inp_inventory inp) (inp_analysis_time inp))" by (rule from_inventory_ok)
  have "plain_inventory im" using plain im(1) by (simp add: plain_document_def)
  then have "env0 im (inp_analysis_time inp) = Inr (ref_view (from_inventory (inp_inventory inp) (inp_analysis_time inp)))"
    by (rule env0_read[OF im(2)])
  then show ?thesis
    using services_ok_inventory[OF ok] reconcile_ok[OF env]
    by (simp add: start_env_def jget_obj_item[OF im(1)] t ref_reconcile_agrees[OF env] services_ok_def)
qed

text \<open>
  C7: The reference checker, reading the raw document with code of its own, goes through the same
  environments as the engine: after every defender action and reconciliation, its tuples are the
  rows of the engine's environment, for every document the parser accepts that has no explicit
  nulls in place of lists.
\<close>
theorem reference_timeline_agrees:
  assumes "parse_analysis_input sha256 (JObj raw) = Inr inp" and "plain_document raw"
  shows "ref_timeline raw [] = Inr (map ref_view (engine_timeline inp))"
proof -
  obtain ms where ms: "objs_get raw ''remediation'' = Inr ms"
    "list_all2 (\<lambda>m a. \<exists>e. effect_of a = Some e \<and> raw_effect m e) ms (inp_remediation inp)"
    by (rule parse_input_parts[OF assms(1)]) (use actions_read assms(2) in \<open>force simp: plain_document_def\<close>)
  with start_agrees[OF assms] envs_along_agree[OF ms(2)] show ?thesis
    by (simp add: ref_timeline_def engine_timeline_def created_at_def)
qed

theorem reference_timeline_agrees_witness:
  "ref_timeline case_raw [] = Inr (map ref_view (engine_timeline case_input)) \<and> length (engine_timeline case_input) = 2"
  using reference_timeline_agrees[OF case_raw_parses case_raw_plain] by code_simp

text \<open>
  C8: In each of these environments both semantics judge alike: the same bindings authorize a
  request, the same credentials are usable, admission has the same outcome, and a service honours
  the same versions of its secret.
\<close>
theorem reference_judges_alike:
  assumes "parse_analysis_input sha256 (JObj raw) = Inr inp" and "plain_document raw"
    and "env \<in> set (engine_timeline inp)" and "static_of raw = Inr st"
  shows "set (granting st (ref_view env) user verb res ns name) = set (authorizing_bindings env user verb res ns name) \<and>
    (cred_ok st (ref_view env) (cred_tuple c) (window_from now hi) = VOk \<longleftrightarrow>
       us_usable (credential_usable env c (inp_profile inp) now)) \<and>
    ref_admit st creator pns sa = outcome_verdict (ad_outcome (admission_decision env creator pns sa)) \<and>
    (honours (ref_view env) (service_tuple s) v \<longleftrightarrow> svc_accepts s v (e_time env))"
proof -
  let ?start = "reconcile (from_inventory (inp_inventory inp) (inp_analysis_time inp))"
  have "static_like st (from_inventory (inp_inventory inp) (inp_analysis_time inp)) (inp_profile inp)"
    using static_read[OF assms(1,2), of "inp_analysis_time inp"] assms(4) by auto
  then have "static_like st ?start (inp_profile inp)" by (rule static_like_shrinks) simp_all
  moreover obtain ms where "list_all2 (\<lambda>m a. \<exists>e. effect_of a = Some e \<and> raw_effect m e) ms (inp_remediation inp)"
    by (rule parse_input_parts[OF assms(1)]) (use actions_read assms(2) in \<open>force simp: plain_document_def\<close>)
  then have "\<forall>a \<in> set (inp_remediation inp). \<exists>e. effect_of a = Some e"
    by (force simp: list_all2_conv_all_nth in_set_conv_nth)
  ultimately have env: "env_ok env" "static_like st env (inp_profile inp)"
    using envs_along_ok[OF assms(3)[unfolded engine_timeline_def]] start_agrees[OF assms(1,2)] by blast+
  show ?thesis
    by (intro conjI granting_agrees[OF env(2,1)] cred_ok_usable[OF env(2,1)] ref_admit_agrees[OF env(2)] honours_agrees)
qed

theorem reference_judges_alike_witness:
  "\<exists>st env. static_of case_raw = Inr st \<and> env \<in> set (engine_timeline case_input) \<and>
     set (granting st (ref_view env) ''system:serviceaccount:app:web'' ''get'' ''secrets'' ''app'' (Some ''db'')) =
       set (authorizing_bindings env ''system:serviceaccount:app:web'' ''get'' ''secrets'' ''app'' (Some ''db''))"
proof -
  obtain st where st: "static_of case_raw = Inr st"
    using static_read[OF case_raw_parses case_raw_plain] by blast
  show ?thesis
    using reference_judges_alike[OF case_raw_parses case_raw_plain engine_timeline_nonempty st] st
      engine_timeline_nonempty by blast
qed

end
