(* ===== verification/Evidence.thy ===== *)
theory Evidence
  imports Parse_Correct
begin

text \<open>
  The first half of \<open>packages/afterlock/evidence.py\<close>: the redaction checks, the validation of
  evidence envelopes and the loading of a replay bundle.

  Two parts of Python's library are parameters, with nothing assumed of them: \<open>json_pairs\<close> reads a
  JSON text (\<open>None\<close>: \<open>ValueError\<close> or \<open>RecursionError\<close>) and gives every object as its list of pairs,
  \<open>fromiso\<close> reads a time (\<open>datetime.fromisoformat\<close>, then the conversion to a number of seconds).
  A decoded string holds the characters up to code point 255; of a percent-decoded one only
  the ASCII characters matter, so the bytes above 127 stay as they are.
\<close>

section \<open>Errors\<close>

text \<open>
  \<open>BundleErr\<close> is \<open>BundleError\<close> with its text, \<open>InputErr\<close> a \<open>ModelError\<close> of the parser, \<open>Raised\<close>
  whatever Python raises on a member of an unexpected type or a missing one.
\<close>

datatype evidence_error = BundleErr string | InputErr model_error | Raised

type_synonym 'a compiled = "evidence_error + 'a"

section \<open>Redaction\<close>

definition REPLAY_SCHEMA :: string where "REPLAY_SCHEMA = ''afterlock.replay/1''"

definition BUNDLE_FILES :: "string list" where
  "BUNDLE_FILES = [''inventory.json'', ''events.jsonl'', ''case.json'']"

definition MAX_FILE_BYTES :: int where "MAX_FILE_BYTES = 16 * 1024 * 1024"
definition MAX_LINE_BYTES :: int where "MAX_LINE_BYTES = 64 * 1024"
definition MAX_DEPTH :: nat where "MAX_DEPTH = 6"
definition MAX_TEXT :: int where "MAX_TEXT = 512"
definition MAX_EVENTS :: int where "MAX_EVENTS = 200000"

definition FORBIDDEN_KEYS :: "string set" where
  "FORBIDDEN_KEYS =
     {''token'', ''bearer'', ''authorization'', ''data'', ''stringdata'', ''string_data'', ''password'',
      ''secret_value'', ''response_body'', ''responseobject'', ''request_body'', ''requestobject'',
      ''credential_value''}"

definition FORBIDDEN_KEY_SUFFIXES :: "string list" where
  "FORBIDDEN_KEY_SUFFIXES =
     [''token'', ''password'', ''secretvalue'', ''clientsecret'', ''secretkey'', ''apikey'', ''privatekey'',
      ''accesskey'', ''authorization'']"

text \<open>\<open>str.lower\<close> on the characters up to 255.\<close>

definition lower_char :: "char \<Rightarrow> char" where
  "lower_char c = (let n = code_of c in
     if (65 \<le> n \<and> n \<le> 90) \<or> (192 \<le> n \<and> n \<le> 222 \<and> n \<noteq> 215) then char_of (n + 32) else c)"

definition in_range_of :: "char \<Rightarrow> int \<Rightarrow> int \<Rightarrow> bool" where
  "in_range_of c a b \<longleftrightarrow> a \<le> code_of c \<and> code_of c \<le> b"

definition is_lower :: "char \<Rightarrow> bool" where "is_lower c \<longleftrightarrow> in_range_of c 97 122"
definition is_upper :: "char \<Rightarrow> bool" where "is_upper c \<longleftrightarrow> in_range_of c 65 90"
definition is_number :: "char \<Rightarrow> bool" where "is_number c \<longleftrightarrow> in_range_of c 48 57"

definition is_alnum :: "char \<Rightarrow> bool" where
  "is_alnum c \<longleftrightarrow> is_lower c \<or> is_upper c \<or> is_number c"

definition ends_with :: "string \<Rightarrow> string \<Rightarrow> bool" where
  "ends_with s t \<longleftrightarrow> length t \<le> length s \<and> drop (length s - length t) s = t"

definition forbidden_key :: "string \<Rightarrow> bool" where
  "forbidden_key k =
     (let low = map lower_char k; norm = filter (\<lambda>c. is_lower c \<or> is_number c) low
      in low \<in> FORBIDDEN_KEYS \<or> norm \<in> FORBIDDEN_KEYS \<or> list_ex (ends_with norm) FORBIDDEN_KEY_SUFFIXES)"

text \<open>
  The five regular expressions, as matchers of a prefix. A repetition takes the longest run of its
  class; only in the third does the rest of the pattern start inside the class, so it may stop
  anywhere.
\<close>

definition jwt_char :: "char \<Rightarrow> bool" where
  "jwt_char c \<longleftrightarrow> is_alnum c \<or> c = CHR ''_'' \<or> c = CHR ''-''"

definition jwt_at :: "string \<Rightarrow> bool" where
  "jwt_at s \<longleftrightarrow> starts_with s ''eyJ'' \<and>
     (let rest = drop 3 s; tail = dropWhile jwt_char rest
      in 8 \<le> length (takeWhile jwt_char rest) \<and> starts_with tail ''.'' \<and>
         8 \<le> length (takeWhile jwt_char (drop 1 tail)))"

definition jwt64_at :: "string \<Rightarrow> bool" where
  "jwt64_at s \<longleftrightarrow> starts_with s ''ZXlK'' \<and>
     16 \<le> length (takeWhile (\<lambda>c. jwt_char c \<or> c = CHR ''+'' \<or> c = CHR ''/'') (drop 4 s))"

definition pem_at :: "string \<Rightarrow> bool" where
  "pem_at s \<longleftrightarrow> starts_with s ''-----BEGIN '' \<and>
     (let rest = drop 11 s
      in list_ex (\<lambda>i. starts_with (drop i rest) ''PRIVATE KEY-----'')
           [0..<Suc (length (takeWhile (\<lambda>c. is_upper c \<or> c = CHR '' '') rest))])"

definition pem64_at :: "string \<Rightarrow> bool" where
  "pem64_at s \<longleftrightarrow> starts_with s ''LS0tLS1CRUdJTi''"

definition canary_at :: "string \<Rightarrow> bool" where
  "canary_at s \<longleftrightarrow> starts_with s ''AFTERLOCK-CANARY-'' \<and> takeWhile is_alnum (drop 17 s) \<noteq> []"

definition SENSITIVE_PATTERNS :: "(string \<Rightarrow> bool) list" where
  "SENSITIVE_PATTERNS = [jwt_at, jwt64_at, pem_at, pem64_at, canary_at]"

fun search_in :: "(string \<Rightarrow> bool) \<Rightarrow> string \<Rightarrow> bool" where
  "search_in m [] = m []"
| "search_in m (c # cs) = (m (c # cs) \<or> search_in m cs)"

text \<open>\<open>urllib.parse.unquote\<close>.\<close>

definition hex_value :: "char \<Rightarrow> int option" where
  "hex_value c = (let n = code_of c in
     if is_number c then Some (n - 48)
     else if 65 \<le> n \<and> n \<le> 70 then Some (n - 55)
     else if 97 \<le> n \<and> n \<le> 102 then Some (n - 87)
     else None)"

fun unquote :: "string \<Rightarrow> string" where
  "unquote (p # a # b # s) =
     (case (if p = CHR ''%'' then hex_value a else None, hex_value b) of
        (Some x, Some y) \<Rightarrow> char_of (16 * x + y) # unquote s
      | _ \<Rightarrow> p # unquote (a # b # s))"
| "unquote s = s"

definition credential_like :: "string \<Rightarrow> bool" where
  "credential_like v =
     list_ex (\<lambda>c. list_ex (\<lambda>pat. search_in pat c) SENSITIVE_PATTERNS)
       (v # (if CHR ''%'' \<in> set v then [unquote v] else []))"

section \<open>Reading JSON\<close>

text \<open>The hook \<open>_no_duplicate_keys\<close> sees every object, the inner ones first.\<close>

fun no_duplicate_keys :: "json \<Rightarrow> bool" where
  "no_duplicate_keys (JObj kvs) = (distinct (map fst kvs) \<and> (\<forall>kv \<in> set kvs. no_duplicate_keys (snd kv)))"
| "no_duplicate_keys (JList vs) = (\<forall>v \<in> set vs. no_duplicate_keys v)"
| "no_duplicate_keys _ = True"

definition loads :: "(string \<Rightarrow> json option) \<Rightarrow> string \<Rightarrow> json option" where
  "loads json_pairs s =
     (case json_pairs s of
        None \<Rightarrow> None
      | Some v \<Rightarrow> if no_duplicate_keys v then Some v else None)"

section \<open>Times and profiles\<close>

text \<open>
  A time is its whole seconds since the epoch and the microseconds beyond them; the rounding of the
  float between the two, which only shows thousands of years from now, is not modelled.
\<close>

datatype iso_time = NotIso | NoZone | At int int

text \<open>
  \<open>BundleError\<close> is a \<open>ValueError\<close>, so the one raised for a missing time zone is caught by the same
  handler and reported as an invalid timestamp.
\<close>

definition parse_time :: "(string \<Rightarrow> iso_time) \<Rightarrow> json \<Rightarrow> string \<Rightarrow> bool \<Rightarrow> int compiled" where
  "parse_time fromiso v w round_up =
     (case v of
        JStr s \<Rightarrow>
          if int (length s) > 40 then Inl (BundleErr (w @ '': expected RFC 3339 timestamp''))
          else (case fromiso (concat (map (\<lambda>c. if c = CHR ''Z'' then ''+00:00'' else [c]) s)) of
                  At t us \<Rightarrow> Inr (if round_up \<and> us > 0 then t + 1 else t)
                | _ \<Rightarrow> Inl (BundleErr (w @ '': invalid timestamp '' @ repr_str s)))
      | _ \<Rightarrow> Inl (BundleErr (w @ '': expected RFC 3339 timestamp'')))"

text \<open>The profiles are files of the package: a lookup by id.\<close>

definition profile_id_ok :: "string \<Rightarrow> bool" where
  "profile_id_ok s \<longleftrightarrow> 1 \<le> length s \<and> int (length s) \<le> 64 \<and>
     list_all (\<lambda>c. is_lower c \<or> is_number c \<or> c = CHR ''.'' \<or> c = CHR ''-'') s"

definition load_profile :: "(string, (string, json) dict) dict \<Rightarrow> string \<Rightarrow> (string, json) dict compiled" where
  "load_profile profiles s =
     (if \<not> profile_id_ok s then Inl (BundleErr (''invalid profile id '' @ repr_str s))
      else (case dget profiles s of
              None \<Rightarrow> Inl (BundleErr (''unknown semantic profile '' @ repr_str s))
            | Some p \<Rightarrow> Inr p))"

section \<open>Scanning\<close>

text \<open>\<open>_scan\<close> appends to a list of problems; here it returns what it appends.\<close>

fun scan :: "json \<Rightarrow> string \<Rightarrow> nat \<Rightarrow> string list"
  and scan_members :: "(string \<times> json) list \<Rightarrow> string \<Rightarrow> nat \<Rightarrow> string list"
  and scan_items :: "json list \<Rightarrow> nat \<Rightarrow> string \<Rightarrow> nat \<Rightarrow> string list"
where
  "scan v path depth =
     (if depth > MAX_DEPTH then [path @ '': nesting deeper than '' @ str_of_nat MAX_DEPTH]
      else case v of
        JObj kvs \<Rightarrow> scan_members kvs path depth
      | JList vs \<Rightarrow> (if int (length vs) > 256 then [path @ '': list too long''] else []) @ scan_items vs 0 path depth
      | JStr s \<Rightarrow>
          (if int (length s) > MAX_TEXT then [path @ '': string longer than '' @ str_of_int MAX_TEXT] else []) @
          (if credential_like s then [path @ '': value resembles credential material''] else [])
      | _ \<Rightarrow> [])"
| "scan_members [] path depth = []"
| "scan_members ((k, v) # kvs) path depth =
     (if int (length k) > 64 then [path @ '': invalid key'']
      else if forbidden_key k then [path @ ''.'' @ k @ '': forbidden field (credential or payload material)'']
      else scan v (path @ ''.'' @ k) (depth + 1)) @ scan_members kvs path depth"
| "scan_items [] i path depth = []"
| "scan_items (v # vs) i path depth =
     (if int i \<ge> 256 then []
      else scan v (path @ ''['' @ str_of_nat i @ '']'') (depth + 1) @ scan_items vs (i + 1) path depth)"

definition MAX_DOCUMENT_DEPTH :: nat where "MAX_DOCUMENT_DEPTH = 32"

fun scan_document :: "json \<Rightarrow> string \<Rightarrow> string \<Rightarrow> nat \<Rightarrow> unit compiled"
  and scan_document_members :: "(string \<times> json) list \<Rightarrow> string \<Rightarrow> string \<Rightarrow> nat \<Rightarrow> unit compiled"
  and scan_document_items :: "json list \<Rightarrow> nat \<Rightarrow> string \<Rightarrow> string \<Rightarrow> nat \<Rightarrow> unit compiled"
where
  "scan_document v name path depth =
     (if depth > MAX_DOCUMENT_DEPTH
      then Inl (BundleErr (name @ '': '' @ path @ '': nesting deeper than '' @ str_of_nat MAX_DOCUMENT_DEPTH))
      else case v of
        JObj kvs \<Rightarrow> scan_document_members kvs name path depth
      | JList vs \<Rightarrow> scan_document_items vs 0 name path depth
      | JStr s \<Rightarrow> if credential_like s
                  then Inl (BundleErr (name @ '': '' @ path @ '': value resembles credential material''))
                  else Inr ()
      | _ \<Rightarrow> Inr ())"
| "scan_document_members [] name path depth = Inr ()"
| "scan_document_members ((k, v) # kvs) name path depth =
     (if forbidden_key k
      then Inl (BundleErr (name @ '': '' @ path @ ''.'' @ k @ '': forbidden field (credential or payload material)''))
      else rbind (scan_document v name (path @ ''.'' @ k) (depth + 1))
             (\<lambda>_. scan_document_members kvs name path depth))"
| "scan_document_items [] i name path depth = Inr ()"
| "scan_document_items (v # vs) i name path depth =
     rbind (scan_document v name (path @ ''['' @ str_of_nat i @ '']'') (depth + 1))
       (\<lambda>_. scan_document_items vs (i + 1) name path depth)"

declare scan.simps [simp del] scan_document.simps [simp del]

section \<open>Envelopes\<close>

record envelope =
  ev_id :: string
  ev_source :: string
  ev_sequence :: int
  ev_type :: string
  ev_observed_at :: int
  ev_body :: "(string, json) dict"
  ev_content_key :: string

definition missing_names :: "(string, json) dict \<Rightarrow> string list" where
  "missing_names m =
     List.map_filter (\<lambda>k. case jget m k of JStr (_ # _) \<Rightarrow> None | _ \<Rightarrow> Some (''missing '' @ k))
       [''event_id'', ''source_id'', ''event_type'', ''cluster_id'']"

fun str_member :: "(string, json) dict \<Rightarrow> string \<Rightarrow> string" where
  "str_member m k = (case jget m k of JStr s \<Rightarrow> s | _ \<Rightarrow> [])"

definition sequence_of :: "(string, json) dict \<Rightarrow> int option" where
  "sequence_of m = (case jget m ''source_sequence'' of JInt n \<Rightarrow> if n < 0 then None else Some n | _ \<Rightarrow> None)"

fun error_text :: "evidence_error \<Rightarrow> string" where
  "error_text (BundleErr s) = s"
| "error_text _ = []"

text \<open>Either the problems or the envelope; a valid one has no problems.\<close>

definition validate_envelope ::
  "(string \<Rightarrow> iso_time) \<Rightarrow> json \<Rightarrow> string \<Rightarrow> string list + envelope" where
  "validate_envelope fromiso raw cluster_id =
     (case raw of
        JObj m \<Rightarrow>
          let found = scan raw ''$'' 0 in
          if found \<noteq> [] then Inl found
          else
            let observed = parse_time fromiso (jget m ''observed_at'') ''observed_at'' False;
                problems =
                  (if jget m ''schema_version'' \<noteq> JStr ''1'' then [''unsupported schema_version''] else []) @
                  missing_names m @
                  (if sequence_of m = None then [''source_sequence must be a non-negative integer''] else []) @
                  (if jget m ''cluster_id'' \<noteq> JStr cluster_id then [''cluster_id does not match bundle''] else []) @
                  (case observed of Inl e \<Rightarrow> [error_text e] | Inr _ \<Rightarrow> [])
            in if problems \<noteq> [] then Inl problems
               else Inr \<lparr>ev_id = str_member m ''event_id'', ev_source = str_member m ''source_id'',
                         ev_sequence = (case sequence_of m of Some n \<Rightarrow> n | None \<Rightarrow> -1),
                         ev_type = str_member m ''event_type'',
                         ev_observed_at = (case observed of Inr t \<Rightarrow> t | Inl _ \<Rightarrow> 0),
                         ev_body = m,
                         ev_content_key = canonical_json (JObj (filter (\<lambda>(k, v). k \<noteq> ''ingested_at'') m))\<rparr>
      | _ \<Rightarrow> Inl [''envelope is not an object''])"

section \<open>Loading a bundle\<close>

text \<open>
  The directory as the code sees it: \<open>None\<close> when it is none, else its entries by name. Bytes are
  characters; decoding them (\<open>utf8\<close>) and SHA-256 are parameters.
\<close>

record bundle_file =
  file_symlink :: bool
  file_regular :: bool
  file_inside :: bool
  file_bytes :: string

type_synonym bundle_dir = "(string, bundle_file) dict option"

record replay_bundle =
  bn_manifest :: "(string, json) dict"
  bn_inventory :: "(string, json) dict"
  bn_case :: "(string, json) dict"
  bn_lines :: "string list"

definition read_file :: "(string, bundle_file) dict \<Rightarrow> string \<Rightarrow> string compiled" where
  "read_file dir name =
     (case dget dir name of
        None \<Rightarrow> Inl (BundleErr (name @ '': missing''))
      | Some f \<Rightarrow>
          if file_symlink f then Inl (BundleErr (name @ '': symbolic links are not accepted''))
          else if \<not> file_regular f then Inl (BundleErr (name @ '': missing''))
          else if \<not> file_inside f then Inl (BundleErr (name @ '': path escapes bundle directory''))
          else if int (length (file_bytes f)) > MAX_FILE_BYTES
          then Inl (BundleErr (name @ '': larger than '' @ str_of_int MAX_FILE_BYTES @ '' bytes''))
          else Inr (file_bytes f))"

definition json_file ::
  "(string \<Rightarrow> string option) \<Rightarrow> (string \<Rightarrow> json option) \<Rightarrow> string \<Rightarrow> string \<Rightarrow> json compiled" where
  "json_file utf8 json_pairs data name =
     (case Option.bind (utf8 data) (loads json_pairs) of
        None \<Rightarrow> Inl (BundleErr (name @ '': invalid JSON''))
      | Some v \<Rightarrow> Inr v)"

text \<open>\<open>str.splitlines\<close>; the flag says that the last character was a carriage return.\<close>

definition line_break :: "char \<Rightarrow> bool" where
  "line_break c \<longleftrightarrow> code_of c \<in> {10, 11, 12, 13, 28, 29, 30, 133}"

fun lines_from :: "string \<Rightarrow> bool \<Rightarrow> string \<Rightarrow> string list" where
  "lines_from acc cr [] = (if acc = [] then [] else [rev acc])"
| "lines_from acc cr (c # cs) =
     (if cr \<and> c = CHR 0x0A then lines_from [] False cs
      else if line_break c then rev acc # lines_from [] (c = CHR 0x0D) cs
      else lines_from (c # acc) False cs)"

definition splitlines :: "string \<Rightarrow> string list" where
  "splitlines s = lines_from [] False s"

definition file_checked ::
  "(string \<Rightarrow> string) \<Rightarrow> (string, bundle_file) dict \<Rightarrow> (string, json) dict \<Rightarrow> string \<Rightarrow> (string \<times> string) compiled" where
  "file_checked sha256 dir files name =
     rbind (read_file dir name) (\<lambda>data.
     let actual = ''sha256:'' @ sha256 data in
     rbind (guard (jget files name = JStr actual)
              (BundleErr (name @ '': checksum mismatch (manifest '' @ py_str (jget files name) @ '', actual '' @ actual @ '')'')))
       (\<lambda>_. Inr (name, data)))"

definition bundle_object :: "json \<Rightarrow> (string, json) dict compiled" where
  "bundle_object v =
     (case v of JObj m \<Rightarrow> Inr m | _ \<Rightarrow> Inl (BundleErr ''inventory.json and case.json must be objects''))"

definition manifest_files :: "json \<Rightarrow> ((string, json) dict \<times> (string, json) dict) compiled" where
  "manifest_files manifest =
     (case manifest of
        JObj m \<Rightarrow>
          if jget m ''schema'' \<noteq> JStr REPLAY_SCHEMA
          then Inl (BundleErr ''manifest.json: unsupported replay schema'')
          else (case jget m ''files'' of
                  JObj files \<Rightarrow>
                    if fst ` set files = set BUNDLE_FILES then Inr (m, files)
                    else Inl (BundleErr (''manifest.json: files must list exactly '' @ py_repr (JList (map JStr BUNDLE_FILES))))
                | _ \<Rightarrow> Inl (BundleErr (''manifest.json: files must list exactly '' @ py_repr (JList (map JStr BUNDLE_FILES)))))
      | _ \<Rightarrow> Inl (BundleErr ''manifest.json: unsupported replay schema''))"

definition content_of :: "(string \<times> string) list \<Rightarrow> string \<Rightarrow> string" where
  "content_of contents name = (case dget contents name of Some d \<Rightarrow> d | None \<Rightarrow> [])"

definition load_bundle ::
  "(string \<Rightarrow> string) \<Rightarrow> (string \<Rightarrow> string option) \<Rightarrow> (string \<Rightarrow> json option) \<Rightarrow> string \<Rightarrow> bundle_dir \<Rightarrow>
     replay_bundle compiled" where
  "load_bundle sha256 utf8 json_pairs dirname bdir =
     (case bdir of
        None \<Rightarrow> Inl (BundleErr (dirname @ '': not a directory''))
      | Some dir \<Rightarrow>
          rbind (read_file dir ''manifest.json'') (\<lambda>mdata.
          rbind (json_file utf8 json_pairs mdata ''manifest.json'') (\<lambda>mv.
          rbind (manifest_files mv) (\<lambda>(manifest, files).
          rbind (traverse (file_checked sha256 dir files) BUNDLE_FILES) (\<lambda>contents.
          rbind (json_file utf8 json_pairs (content_of contents ''inventory.json'') ''inventory.json'') (\<lambda>iv.
          rbind (json_file utf8 json_pairs (content_of contents ''case.json'') ''case.json'') (\<lambda>cv.
          rbind (bundle_object iv) (\<lambda>inventory.
          rbind (bundle_object cv) (\<lambda>case_obj.
          rbind (scan_document iv ''inventory.json'' ''$'' 0) (\<lambda>_.
          rbind (scan_document cv ''case.json'' ''$'' 0) (\<lambda>_.
          case utf8 (content_of contents ''events.jsonl'') of
            None \<Rightarrow> Inl Raised
          | Some txt \<Rightarrow>
              let ls = splitlines txt in
              if int (length ls) > MAX_EVENTS then Inl (BundleErr ''events.jsonl: too many events'')
              else Inr \<lparr>bn_manifest = manifest, bn_inventory = inventory, bn_case = case_obj, bn_lines = ls\<rparr>)))))))))))"

end
