(* ===== verification/Projection.thy ===== *)
theory Projection
  imports Evidence
begin

text \<open>
  The second half of \<open>packages/afterlock/evidence.py\<close>: deduplication of the envelopes, attribution of
  events to the attacker as a fixpoint, and the projection to the analysis input. A member is read
  as Python reads it: \<open>b.get("actor") or {}\<close> accepts everything falsy, and \<open>get\<close> on anything but an
  object raises.
\<close>

section \<open>Deduplication\<close>

record diagnostics =
  dg_accepted :: int
  dg_duplicates :: int
  dg_rejected :: "(nat \<times> string list) list"
  dg_conflicts :: "(string \<times> int \<times> string list) list"
  dg_ignored :: "(string \<times> string) list"

definition no_diagnostics :: diagnostics where
  "no_diagnostics = \<lparr>dg_accepted = 0, dg_duplicates = 0, dg_rejected = [], dg_conflicts = [], dg_ignored = []\<rparr>"

definition diagnostics_json :: "diagnostics \<Rightarrow> json" where
  "diagnostics_json d = JObj
     [(''accepted'', JInt (dg_accepted d)), (''duplicates'', JInt (dg_duplicates d)),
      (''rejected'', JList (map (\<lambda>(n, ps). JObj [(''line'', JInt (int n)), (''problems'', JList (map JStr ps))]) (dg_rejected d))),
      (''conflicts'', JList (map (\<lambda>(src, sq, ids).
          JObj [(''source_id'', JStr src), (''source_sequence'', JInt sq), (''event_ids'', JList (map JStr ids))]) (dg_conflicts d))),
      (''ignored'', JList (map (\<lambda>(e, r). JObj [(''event'', JStr e), (''reason'', JStr r)]) (dg_ignored d)))]"

type_synonym envelopes = "(string \<times> int, envelope) dict"

text \<open>\<open>len(line.encode())\<close>: the characters from 128 on take two bytes.\<close>

definition byte_length :: "string \<Rightarrow> int" where
  "byte_length s = (\<Sum>c \<leftarrow> s. if code_of c < 128 then 1 else 2)"

definition reject :: "nat \<Rightarrow> string list \<Rightarrow> diagnostics \<Rightarrow> diagnostics" where
  "reject n ps d = d\<lparr>dg_rejected := dg_rejected d @ [(n, ps)]\<rparr>"

definition accept_envelope :: "envelope \<Rightarrow> envelopes \<times> diagnostics \<Rightarrow> envelopes \<times> diagnostics" where
  "accept_envelope env st =
     (case st of (by_key, d) \<Rightarrow>
      let key = (ev_source env, ev_sequence env) in
      case dget by_key key of
        None \<Rightarrow> (dset key env by_key, d\<lparr>dg_accepted := dg_accepted d + 1\<rparr>)
      | Some prev \<Rightarrow>
          if ev_content_key prev = ev_content_key env then (by_key, d\<lparr>dg_duplicates := dg_duplicates d + 1\<rparr>)
          else (by_key, d\<lparr>dg_conflicts := dg_conflicts d @ [(fst key, snd key, sorted_set [ev_id prev, ev_id env])]\<rparr>))"

definition event_line ::
  "(string \<Rightarrow> json option) \<Rightarrow> (string \<Rightarrow> iso_time) \<Rightarrow> string \<Rightarrow> nat \<times> string \<Rightarrow>
     envelopes \<times> diagnostics \<Rightarrow> envelopes \<times> diagnostics" where
  "event_line json_pairs fromiso cluster_id nl st =
     (case nl of (n, line) \<Rightarrow>
      if strip line = [] then st
      else if byte_length line > MAX_LINE_BYTES then apsnd (reject n [''line too long'']) st
      else (case loads json_pairs line of
              None \<Rightarrow> apsnd (reject n [''invalid JSON or duplicate key'']) st
            | Some raw \<Rightarrow>
                (case validate_envelope fromiso raw cluster_id of
                   Inl problems \<Rightarrow> apsnd (reject n (take 5 problems)) st
                 | Inr env \<Rightarrow> accept_envelope env st)))"

definition events ::
  "(string \<Rightarrow> json option) \<Rightarrow> (string \<Rightarrow> iso_time) \<Rightarrow> string list \<Rightarrow> string \<Rightarrow> envelope list \<times> diagnostics" where
  "events json_pairs fromiso lines cluster_id =
     (case fold (event_line json_pairs fromiso cluster_id) (enumerate 1 lines) ([], no_diagnostics) of
        (by_key, d) \<Rightarrow> (sort_key (\<lambda>e. (ev_source e, ev_sequence e)) (dvals by_key), d))"

section \<open>Members\<close>

definition or_empty :: "json \<Rightarrow> json" where
  "or_empty v = (if truthy v then v else JObj [])"

definition get_of :: "json \<Rightarrow> string \<Rightarrow> json compiled" where
  "get_of v k = (case v of JObj m \<Rightarrow> Inr (jget m k) | _ \<Rightarrow> Inl Raised)"

text \<open>Iterating over a value: a string gives its characters, an object its keys.\<close>

definition iterate :: "json \<Rightarrow> json list compiled" where
  "iterate v =
     (case v of
        JList xs \<Rightarrow> Inr xs
      | JStr s \<Rightarrow> Inr (map (\<lambda>c. JStr [c]) s)
      | JObj m \<Rightarrow> Inr (map (JStr \<circ> fst) m)
      | _ \<Rightarrow> Inl Raised)"

definition get_default :: "(string, json) dict \<Rightarrow> string \<Rightarrow> json \<Rightarrow> json" where
  "get_default m k v = (case dget m k of None \<Rightarrow> v | Some x \<Rightarrow> x)"

text \<open>Membership of a value in a set of strings; a list or an object cannot be hashed.\<close>

definition in_names :: "json \<Rightarrow> string set \<Rightarrow> bool compiled" where
  "in_names v names =
     (case v of
        JStr s \<Rightarrow> Inr (s \<in> names)
      | JList _ \<Rightarrow> Inl Raised
      | JObj _ \<Rightarrow> Inl Raised
      | _ \<Rightarrow> Inr False)"

text \<open>A member that has to be a string for the input to be accepted in the end.\<close>

definition text_of :: "json \<Rightarrow> string compiled" where
  "text_of v = (case v of JStr s \<Rightarrow> Inr s | _ \<Rightarrow> Inl Raised)"

section \<open>Attribution\<close>

text \<open>
  Whether the attacker made a request, and whether it succeeded. The parts of an event: actor,
  action, target, outcome.
\<close>

definition part :: "envelope \<Rightarrow> string \<Rightarrow> json" where
  "part ev k = or_empty (jget (ev_body ev) k)"

definition succeeded :: "json \<Rightarrow> bool" where
  "succeeded status = (case status of JInt n \<Rightarrow> 200 \<le> n \<and> n < 300 | _ \<Rightarrow> False)"

definition attacker_request :: "string set \<Rightarrow> string set \<Rightarrow> envelope \<Rightarrow> bool compiled" where
  "attacker_request users pods ev =
     rbind (get_of (part ev ''outcome'') ''http_status'') (\<lambda>status.
     rbind (get_of (part ev ''actor'') ''pod_uid'') (\<lambda>actor_pod.
     rbind (get_of (part ev ''actor'') ''username'') (\<lambda>user.
     rbind (in_names user users) (\<lambda>known.
     rbind (if known then Inr True else in_names actor_pod pods) (\<lambda>is_attacker.
     Inr (is_attacker \<and> succeeded status))))))"

text \<open>The pods an attacker request brings under control.\<close>

type_synonym pod_table = "(string, (string, json) dict) dict"

definition claimed_pods :: "pod_table \<Rightarrow> envelope \<Rightarrow> string list compiled" where
  "claimed_pods pods_by_uid ev =
     rbind (get_of (part ev ''action'') ''verb'') (\<lambda>verb.
     rbind (get_of (part ev ''action'') ''resource'') (\<lambda>resource.
     rbind (get_of (part ev ''action'') ''namespace'') (\<lambda>_.
     if (resource = JStr ''pods'' \<or> resource = JStr ''pods/exec'') \<and> verb = JStr ''create'' then
       rbind (get_of (part ev ''target'') ''uid'') (\<lambda>uid.
       Inr (case uid of JStr u \<Rightarrow> [u] | _ \<Rightarrow> []))
     else if resource = JStr ''deployments'' \<and> verb = JStr ''create'' then
       rbind (get_of (part ev ''target'') ''uid'') (\<lambda>uid.
       Inr (case uid of
              JStr u \<Rightarrow> map fst (filter (\<lambda>(puid, p). jget p ''controller_uid'' = JStr u) pods_by_uid)
            | _ \<Rightarrow> []))
     else Inr [])))"

definition attribute_event ::
  "string set \<Rightarrow> pod_table \<Rightarrow> envelope \<Rightarrow> string set \<Rightarrow> string set compiled" where
  "attribute_event users pods_by_uid ev pods =
     (if ev_type ev \<noteq> ''k8s.api.response'' then Inr pods
      else rbind (attacker_request users pods ev) (\<lambda>mine.
           if \<not> mine then Inr pods
           else rbind (claimed_pods pods_by_uid ev) (\<lambda>new. Inr (pods \<union> set new))))"

definition attribution_pass ::
  "string set \<Rightarrow> pod_table \<Rightarrow> envelope list \<Rightarrow> string set \<Rightarrow> string set compiled" where
  "attribution_pass users pods_by_uid evs pods = for_each (attribute_event users pods_by_uid) evs pods"

text \<open>Every pod that can be added is the target of a request or in the inventory.\<close>

definition target_uids :: "envelope list \<Rightarrow> string list" where
  "target_uids evs =
     concat (map (\<lambda>ev. case part ev ''target'' of
                         JObj m \<Rightarrow> (case jget m ''uid'' of JStr u \<Rightarrow> [u] | _ \<Rightarrow> [])
                       | _ \<Rightarrow> []) evs)"

definition known_uids :: "pod_table \<Rightarrow> envelope list \<Rightarrow> string set" where
  "known_uids pods_by_uid evs = set (target_uids evs) \<union> fst ` set pods_by_uid"

lemma claimed_known: "claimed_pods pods_by_uid ev = Inr new \<Longrightarrow> ev \<in> set evs \<Longrightarrow> set new \<subseteq> known_uids pods_by_uid evs"
  unfolding known_uids_def target_uids_def claimed_pods_def
  by (auto simp: rbind_Inr get_of_def image_iff simp del: mem_dkeys split: json.splits if_splits) (metis fst_conv)

lemma attribution_pass_grows:
  assumes "attribution_pass users pods_by_uid evs pods = Inr pods'"
  shows "pods \<subseteq> pods' \<and> pods' \<subseteq> pods \<union> known_uids pods_by_uid evs"
proof -
  have "pods \<subseteq> t \<and> t \<subseteq> pods \<union> known_uids pods_by_uid all"
    if "for_each (attribute_event users pods_by_uid) es s = Inr t" "set es \<subseteq> set all"
      "pods \<subseteq> s \<and> s \<subseteq> pods \<union> known_uids pods_by_uid all" for es s t all
    using that
  proof (induction es arbitrary: s)
    case (Cons e es)
    then obtain u where u: "attribute_event users pods_by_uid e s = Inr u"
      and rest: "for_each (attribute_event users pods_by_uid) es u = Inr t" by (auto simp: rbind_Inr)
    have "u = s \<or> (\<exists>new. claimed_pods pods_by_uid e = Inr new \<and> u = s \<union> set new)"
      using u by (auto simp: attribute_event_def rbind_Inr split: if_splits)
    then have "pods \<subseteq> u \<and> u \<subseteq> pods \<union> known_uids pods_by_uid all"
      using claimed_known[of pods_by_uid e _ all] Cons.prems(2,3) by auto
    with Cons.IH[OF rest] Cons.prems(2) show ?case by simp
  qed simp
  from this[of evs pods pods' evs] assms show ?thesis by (simp add: attribution_pass_def)
qed

text \<open>\<open>while changed\<close>.\<close>

function attribute_pods ::
  "string set \<Rightarrow> pod_table \<Rightarrow> envelope list \<Rightarrow> string set \<Rightarrow> string set compiled" where
  "attribute_pods users pods_by_uid evs pods =
     (case attribution_pass users pods_by_uid evs pods of
        Inl e \<Rightarrow> Inl e
      | Inr pods' \<Rightarrow> if pods' = pods then Inr pods else attribute_pods users pods_by_uid evs pods')"
  by pat_completeness auto
termination
proof (relation "measure (\<lambda>(users, pods_by_uid, evs, pods). card (known_uids pods_by_uid evs - pods))")
  fix users pods_by_uid evs pods pods'
  assume "attribution_pass users pods_by_uid evs pods = Inr pods'" and ne: "pods' \<noteq> pods"
  from attribution_pass_grows[OF this(1)] ne have
    "known_uids pods_by_uid evs - pods' \<subset> known_uids pods_by_uid evs - pods" by blast
  moreover have "finite (known_uids pods_by_uid evs)" by (simp add: known_uids_def)
  ultimately have "card (known_uids pods_by_uid evs - pods') < card (known_uids pods_by_uid evs - pods)"
    by (intro psubset_card_mono) simp_all
  then show "((users, pods_by_uid, evs, pods'), users, pods_by_uid, evs, pods) \<in>
      measure (\<lambda>(users, pods_by_uid, evs, pods). card (known_uids pods_by_uid evs - pods))" by simp
qed simp

declare attribute_pods.simps [simp del]

section \<open>Facts, credentials and gaps\<close>

record found_fact =
  ff_status :: string
  ff_evidence :: "string list"
  ff_note :: "string option"

type_synonym found_facts = "(string \<times> string list, found_fact) dict"

record found_gap =
  fg_id :: string
  fg_kind :: string
  fg_description :: string
  fg_evidence :: "string list"

definition add_fact :: "string \<Rightarrow> string list \<Rightarrow> string \<Rightarrow> string \<Rightarrow> string \<Rightarrow> found_facts \<Rightarrow> found_facts" where
  "add_fact kind args status evidence note_text facts =
     (case dget facts (kind, args) of
        Some f \<Rightarrow>
          if evidence \<in> set (ff_evidence f) then facts
          else dset (kind, args) (f\<lparr>ff_evidence := sort (ff_evidence f @ [evidence])\<rparr>) facts
      | None \<Rightarrow>
          dset (kind, args) \<lparr>ff_status = status, ff_evidence = [evidence],
            ff_note = (if note_text = [] then None else Some note_text)\<rparr> facts)"

record projection =
  pj_heartbeats :: "(string, int) dict"
  pj_gaps :: "found_gap list"
  pj_ignored :: "(string \<times> string) list"
  pj_credentials :: "(string, (string, json) dict) dict"
  pj_facts :: found_facts

definition cred_fields :: "string set" where
  "cred_fields = {''id'', ''kind'', ''username'', ''sa_uid'', ''bound_pod_uid'', ''audience'', ''expires_at''}"

definition cred_spec :: "json \<Rightarrow> (string, json) dict compiled" where
  "cred_spec c =
     (case c of
        JObj m \<Rightarrow>
          (let extra = filter (\<lambda>k. k \<notin> cred_fields) (map fst m) in
           if extra \<noteq> []
           then Inl (BundleErr (''case.json compromised_credentials: unknown fields '' @
                  py_repr (JList (map JStr (sorted_set extra)))))
           else Inr m)
      | _ \<Rightarrow> Inl Raised)"

type_synonym seeded_state = "(string, (string, json) dict) dict \<times> string set \<times> found_facts"

definition seed_credential :: "json \<Rightarrow> seeded_state \<Rightarrow> seeded_state compiled" where
  "seed_credential c st =
     (case st of (creds, users, facts) \<Rightarrow>
      rbind (cred_spec c) (\<lambda>spec.
      rbind (text_of (jget spec ''id'')) (\<lambda>cid.
      rbind (text_of (jget spec ''username'')) (\<lambda>user.
      Inr (dset cid spec creds, insert user users,
           add_fact ''possesses_credential'' [cid] ''assumed'' ''case:seeded-compromise'' [] facts)))))"

definition resolved_names :: "json list \<Rightarrow> string set compiled" where
  "resolved_names xs =
     (if list_all (\<lambda>v. case v of JList _ \<Rightarrow> False | JObj _ \<Rightarrow> False | _ \<Rightarrow> True) xs
      then Inr (set (List.map_filter (\<lambda>v. case v of JStr s \<Rightarrow> Some s | _ \<Rightarrow> None) xs))
      else Inl Raised)"

definition dicts_of :: "json list \<Rightarrow> (string, json) dict list" where
  "dicts_of xs = List.map_filter (\<lambda>v. case v of JObj m \<Rightarrow> Some m | _ \<Rightarrow> None) xs"

definition pods_table :: "(string, json) dict \<Rightarrow> pod_table compiled" where
  "pods_table inventory =
     rbind (iterate (get_default inventory ''pods'' (JList []))) (\<lambda>xs.
     rbind (traverse (\<lambda>p. rbind (text_of (jget p ''uid'')) (\<lambda>u. Inr (u, p)))
              (filter (\<lambda>p. dmem ''uid'' p) (dicts_of xs))) (\<lambda>rows.
     Inr (dict_of rows [])))"

type_synonym secret_table = "(string \<times> string, (string, json) dict) dict"

definition secrets_table :: "(string, json) dict \<Rightarrow> secret_table compiled" where
  "secrets_table inventory =
     rbind (iterate (get_default inventory ''secrets'' (JList []))) (\<lambda>xs.
     rbind (traverse (\<lambda>s. rbind (text_of (jget s ''namespace'')) (\<lambda>ns.
                           rbind (text_of (jget s ''name'')) (\<lambda>n. Inr ((ns, n), s)))) (dicts_of xs)) (\<lambda>rows.
     Inr (dict_of rows [])))"

section \<open>Projecting an event\<close>

record project_ctx =
  px_profile :: "(string, json) dict"
  px_users :: "string set"
  px_pods :: "string set"
  px_resolved :: "string set"
  px_pods_by_uid :: pod_table
  px_secrets :: secret_table

definition event_ref :: "envelope \<Rightarrow> string" where
  "event_ref ev = ev_source ev @ ''#'' @ str_of_int (ev_sequence ev)"

definition note_gap :: "string \<Rightarrow> string \<Rightarrow> string \<Rightarrow> string list \<Rightarrow> projection \<Rightarrow> projection" where
  "note_gap gid kind txt evidence st =
     st\<lparr>pj_gaps := pj_gaps st @ [\<lparr>fg_id = gid, fg_kind = kind, fg_description = txt, fg_evidence = evidence\<rparr>]\<rparr>"

definition note_fact :: "string \<Rightarrow> string list \<Rightarrow> string \<Rightarrow> string \<Rightarrow> projection \<Rightarrow> projection" where
  "note_fact kind args evidence note_text st =
     st\<lparr>pj_facts := add_fact kind args ''observed'' evidence note_text (pj_facts st)\<rparr>"

definition collector_gap :: "project_ctx \<Rightarrow> envelope \<Rightarrow> projection \<Rightarrow> projection" where
  "collector_gap ctx ev st =
     (let gid = py_str (get_default (ev_body ev) ''gap_id'' (JStr (event_ref ev))) in
      if gid \<in> px_resolved ctx then st
      else note_gap gid ''observation_gap''
             (take (nat MAX_TEXT) (py_str (get_default (ev_body ev) ''reason'' (JStr ''collector reported an observation gap''))))
             [event_ref ev] st)"

definition heartbeat_seen :: "envelope \<Rightarrow> projection \<Rightarrow> projection" where
  "heartbeat_seen ev st =
     st\<lparr>pj_heartbeats := dset (ev_source ev)
          (max (case dget (pj_heartbeats st) (ev_source ev) of None \<Rightarrow> 0 | Some t \<Rightarrow> t) (ev_observed_at ev)) (pj_heartbeats st)\<rparr>"

definition ignore_event :: "envelope \<Rightarrow> string \<Rightarrow> projection \<Rightarrow> projection" where
  "ignore_event ev why st = st\<lparr>pj_ignored := pj_ignored st @ [(event_ref ev, why)]\<rparr>"

definition default_audience :: "(string, json) dict \<Rightarrow> json compiled" where
  "default_audience profile =
     (case jget profile ''api_audiences'' of
        JList (x # _) \<Rightarrow> Inr x
      | JStr (c # _) \<Rightarrow> Inr (JStr [c])
      | _ \<Rightarrow> Inl Raised)"

definition drop_null :: "string \<Rightarrow> (string, json) dict \<Rightarrow> (string, json) dict" where
  "drop_null k m = (if dget m k = Some JNull then ddel k m else m)"

text \<open>The request itself proves possession of the credential of the pod that made it.\<close>

definition observed_spec :: "string \<Rightarrow> string \<Rightarrow> json \<Rightarrow> json \<Rightarrow> json \<Rightarrow> json \<Rightarrow> (string, json) dict" where
  "observed_spec cid user account actor_pod aud expires =
     [(''id'', JStr cid), (''kind'', JStr ''sa_token''), (''username'', JStr user),
      (''sa_uid'', case account of JStr s \<Rightarrow> JStr s | _ \<Rightarrow> JNull), (''bound_pod_uid'', actor_pod),
      (''audience'', aud), (''expires_at'', expires)]"

definition expiry_of :: "(string \<Rightarrow> iso_time) \<Rightarrow> json \<Rightarrow> json compiled" where
  "expiry_of fromiso actor =
     (case actor of
        JObj m \<Rightarrow>
          (case dget m ''credential_expires_at'' of
             None \<Rightarrow> Inr JNull
           | Some v \<Rightarrow> rbind (parse_time fromiso v ''credential_expires_at'' True) (\<lambda>t. Inr (JInt t)))
      | _ \<Rightarrow> Inl Raised)"

definition keep_credential ::
  "string \<Rightarrow> (string, json) dict \<Rightarrow> (string, (string, json) dict) dict \<Rightarrow> (string, (string, json) dict) dict" where
  "keep_credential cid spec creds =
     (let kept = (case dget creds cid of Some c \<Rightarrow> c | None \<Rightarrow> spec)
      in dset cid (drop_null ''expires_at'' (drop_null ''sa_uid'' kept)) creds)"

definition observed_credential ::
  "(string \<Rightarrow> iso_time) \<Rightarrow> project_ctx \<Rightarrow> envelope \<Rightarrow> json \<Rightarrow> projection \<Rightarrow> projection compiled" where
  "observed_credential fromiso ctx ev actor_pod st =
     (let actor = part ev ''actor'' in
      rbind (get_of actor ''audience'') (\<lambda>a.
      rbind (if truthy a then Inr a else default_audience (px_profile ctx)) (\<lambda>aud.
      let cid = ''observed:'' @ py_str actor_pod @ '':'' @ py_str aud in
      rbind (get_of actor ''username'') (\<lambda>username.
      rbind (get_of actor ''sa_uid'') (\<lambda>account.
      case username of
        JStr user \<Rightarrow>
          rbind (expiry_of fromiso actor) (\<lambda>expires.
          Inr (note_fact ''possesses_credential'' [cid] (event_ref ev) ''credential observed in use''
                 (st\<lparr>pj_credentials := keep_credential cid (observed_spec cid user account actor_pod aud expires)
                       (pj_credentials st)\<rparr>)))
      | _ \<Rightarrow> Inr st)))))"

definition is_int :: "json \<Rightarrow> bool" where
  "is_int v = (case v of JInt _ \<Rightarrow> True | JBool _ \<Rightarrow> True | _ \<Rightarrow> False)"

definition pod_created :: "project_ctx \<Rightarrow> envelope \<Rightarrow> string \<Rightarrow> json \<Rightarrow> projection \<Rightarrow> projection compiled" where
  "pod_created ctx ev uid ns st =
     (let st1 = note_fact ''controls_pod'' [uid] (event_ref ev) [] st in
      if dmem uid (px_pods_by_uid ctx) then Inr st1
      else rbind (get_of (part ev ''target'') ''service_account'') (\<lambda>sa.
           Inr (case (sa, ns) of
                  (JStr a, JStr n) \<Rightarrow>
                    note_fact ''historical_pod'' [uid, n, a] (event_ref ev) ''attacker pod no longer in inventory'' st1
                | _ \<Rightarrow>
                    note_gap (''pod-sa-unknown:'' @ uid) ''missing_metadata''
                      (''service account of attacker pod '' @ uid @ '' is unknown'') [event_ref ev] st1)))"

definition secret_got :: "project_ctx \<Rightarrow> envelope \<Rightarrow> string \<Rightarrow> string \<Rightarrow> projection \<Rightarrow> projection compiled" where
  "secret_got ctx ev ns name st =
     rbind (get_of (part ev ''target'') ''observed_version'') (\<lambda>version.
     if is_int version then Inr (note_fact ''knows_secret'' [ns, name, py_str version] (event_ref ev) [] st)
     else (case dget (px_secrets ctx) (ns, name) of
             None \<Rightarrow>
               Inr (note_gap (''secret-version-unknown:'' @ ns @ ''/'' @ name) ''missing_metadata''
                      (''version of secret '' @ ns @ ''/'' @ name @ '' read at '' @ event_ref ev @ '' is unknown'')
                      [event_ref ev] st)
           | Some sec \<Rightarrow>
               (case dget sec ''version'' of
                  None \<Rightarrow> Inl Raised
                | Some v \<Rightarrow>
                    Inr (note_fact ''knows_secret'' [ns, name, py_str v] (event_ref ev)
                           ''version not in audit record; assumed equal to inventory version'' st))))"

definition secrets_listed :: "project_ctx \<Rightarrow> envelope \<Rightarrow> string \<Rightarrow> json \<Rightarrow> json \<Rightarrow> projection \<Rightarrow> projection" where
  "secrets_listed ctx ev verb ns name st =
     fold (\<lambda>((sns, sname), sec) st.
         if (case ns of JStr n \<Rightarrow> sns = n | _ \<Rightarrow> True) \<and> (case name of JStr n \<Rightarrow> sname = n | _ \<Rightarrow> True) \<and>
            is_int (jget sec ''version'')
         then note_fact ''knows_secret'' [sns, sname, py_str (jget sec ''version'')] (event_ref ev)
                (verb @ '' response; version assumed equal to inventory version'') st
         else st)
       (sort_key fst (px_secrets ctx)) st"

definition request_facts :: "project_ctx \<Rightarrow> envelope \<Rightarrow> projection \<Rightarrow> projection compiled" where
  "request_facts ctx ev st =
     rbind (get_of (part ev ''action'') ''verb'') (\<lambda>verb.
     rbind (get_of (part ev ''action'') ''resource'') (\<lambda>resource.
     rbind (get_of (part ev ''action'') ''namespace'') (\<lambda>ns.
     rbind (get_of (part ev ''target'') ''uid'') (\<lambda>uid.
     rbind (get_of (part ev ''target'') ''name'') (\<lambda>name.
     case (verb, resource, ns, uid, name) of
       (JStr v, JStr r, _, _, _) \<Rightarrow>
         if v = ''create'' \<and> (r = ''pods'' \<or> r = ''pods/exec'') \<and> (case uid of JStr _ \<Rightarrow> True | _ \<Rightarrow> False)
         then pod_created ctx ev (case uid of JStr u \<Rightarrow> u | _ \<Rightarrow> []) ns st
         else if v = ''create'' \<and> r = ''deployments'' \<and> (case uid of JStr _ \<Rightarrow> True | _ \<Rightarrow> False)
         then Inr (note_fact ''controls_controller'' [case uid of JStr u \<Rightarrow> u | _ \<Rightarrow> []] (event_ref ev) [] st)
         else if v = ''get'' \<and> r = ''secrets''
         then (case (ns, name) of
                 (JStr n, JStr s) \<Rightarrow> secret_got ctx ev n s st
               | _ \<Rightarrow> Inr st)
         else if (v = ''list'' \<or> v = ''watch'') \<and> r = ''secrets''
         then Inr (secrets_listed ctx ev v ns name st)
         else Inr st
     | _ \<Rightarrow> Inr st)))))"

definition api_response ::
  "(string \<Rightarrow> iso_time) \<Rightarrow> project_ctx \<Rightarrow> envelope \<Rightarrow> projection \<Rightarrow> projection compiled" where
  "api_response fromiso ctx ev st =
     rbind (attacker_request (px_users ctx) (px_pods ctx) ev) (\<lambda>mine.
     if \<not> mine then Inr st
     else
       rbind (get_of (part ev ''actor'') ''pod_uid'') (\<lambda>actor_pod.
       rbind (in_names actor_pod (px_pods ctx)) (\<lambda>from_pod.
       rbind (if from_pod then observed_credential fromiso ctx ev actor_pod st else Inr st) (\<lambda>st1.
       request_facts ctx ev st1))))"

definition project_event ::
  "(string \<Rightarrow> iso_time) \<Rightarrow> project_ctx \<Rightarrow> envelope \<Rightarrow> projection \<Rightarrow> projection compiled" where
  "project_event fromiso ctx ev st =
     (if ev_type ev = ''collector.gap'' then Inr (collector_gap ctx ev st)
      else if ev_type ev = ''collector.heartbeat'' then Inr (heartbeat_seen ev st)
      else if ev_type ev = ''lab.receipt''
      then Inr (ignore_event ev ''lab receipts are validation records, not attacker evidence'' st)
      else if ev_type ev \<noteq> ''k8s.api.response''
      then Inr (ignore_event ev (''unsupported event type '' @ repr_str (ev_type ev)) st)
      else api_response fromiso ctx ev st)"

section \<open>The projection\<close>

definition stale_gap :: "(string, int) dict \<Rightarrow> int \<Rightarrow> int \<Rightarrow> string \<Rightarrow> json \<Rightarrow> found_gap list compiled" where
  "stale_gap heartbeats t bound shown src =
     (case src of
        JList _ \<Rightarrow> Inl Raised
      | JObj _ \<Rightarrow> Inl Raised
      | _ \<Rightarrow>
          let last = (case src of JStr s \<Rightarrow> dget heartbeats s | _ \<Rightarrow> None) in
          Inr (if (case last of None \<Rightarrow> True | Some h \<Rightarrow> t - h > bound)
               then [\<lparr>fg_id = ''stale:'' @ py_str src, fg_kind = ''stale_evidence'',
                      fg_description = ''source '' @ py_str src @ '' has no heartbeat within '' @ shown @ ''s of analysis time'',
                      fg_evidence = []\<rparr>]
               else []))"

definition stale_gaps :: "(string, json) dict \<Rightarrow> (string, int) dict \<Rightarrow> int \<Rightarrow> found_gap list compiled" where
  "stale_gaps case_obj heartbeats t =
     (let staleness = jget case_obj ''max_evidence_staleness_seconds'' in
      case (case staleness of JInt n \<Rightarrow> Some n | JBool b \<Rightarrow> Some (if b then 1 else 0) | _ \<Rightarrow> None) of
        None \<Rightarrow> Inr []
      | Some bound \<Rightarrow>
          rbind (iterate (get_default case_obj ''required_sources'' (JList []))) (\<lambda>srcs.
          rbind (traverse (stale_gap heartbeats t bound (py_str staleness)) srcs) (\<lambda>gs. Inr (concat gs))))"

definition rejected_gap :: "nat \<times> string list \<Rightarrow> found_gap" where
  "rejected_gap r =
     (case r of (n, problems) \<Rightarrow>
      \<lparr>fg_id = ''rejected:line'' @ str_of_nat n, fg_kind = ''rejected_evidence'',
       fg_description = ''an evidence record was rejected: '' @ join ''; '' problems, fg_evidence = []\<rparr>)"

definition conflict_gap :: "string \<times> int \<times> string list \<Rightarrow> found_gap" where
  "conflict_gap c =
     (case c of (src, sq, ids) \<Rightarrow>
      \<lparr>fg_id = ''conflict:'' @ src @ ''#'' @ str_of_int sq, fg_kind = ''conflicting_evidence'',
       fg_description = ''conflicting records for '' @ src @ ''#'' @ str_of_int sq, fg_evidence = ids\<rparr>)"

definition gap_json :: "found_gap \<Rightarrow> json" where
  "gap_json g = JObj [(''id'', JStr (fg_id g)), (''kind'', JStr (fg_kind g)),
     (''description'', JStr (fg_description g)), (''evidence'', JList (map JStr (fg_evidence g)))]"

definition found_fact_json :: "(string \<times> string list) \<times> found_fact \<Rightarrow> json" where
  "found_fact_json e =
     (case e of ((kind, args), f) \<Rightarrow>
      JObj ([(''kind'', JStr kind), (''args'', JList (map JStr args)), (''status'', JStr (ff_status f)),
             (''evidence'', JList (map JStr (ff_evidence f)))] @
            (case ff_note f of None \<Rightarrow> [] | Some n \<Rightarrow> [(''note'', JStr n)])))"

definition profile_item :: "(string, json) dict \<Rightarrow> string \<Rightarrow> (string \<times> json) compiled" where
  "profile_item profile k = (case dget profile k of None \<Rightarrow> Inl Raised | Some v \<Rightarrow> Inr (k, v))"

text \<open>The document of a projection; the credentials and facts are sorted by their keys.\<close>

definition projected_doc ::
  "string \<Rightarrow> string \<Rightarrow> int \<Rightarrow> (string \<times> json) list \<Rightarrow> (string, json) dict \<Rightarrow> (string, json) dict \<Rightarrow> json list \<Rightarrow>
     projection \<Rightarrow> found_gap list \<Rightarrow> json" where
  "projected_doc case_id cluster_id t prof inventory case_obj assumptions st gaps = JObj
     [(''schema'', JStr ''afterlock.analysis-input/1''), (''case_id'', JStr case_id), (''cluster_id'', JStr cluster_id),
      (''analysis_time'', JInt t), (''profile'', JObj prof), (''inventory'', JObj inventory),
      (''credentials'', JList (map (\<lambda>(cid, c). JObj c) (sort_key fst (pj_credentials st)))),
      (''initial_facts'', JList (map found_fact_json (sort_key fst (pj_facts st)))),
      (''remediation'', get_default case_obj ''remediation'' (JList [])),
      (''objectives'', get_default case_obj ''objectives'' (JList [])),
      (''legitimate_operations'', get_default case_obj ''legitimate_operations'' (JList [])),
      (''coverage_gaps'', JList (map gap_json (sort_key fg_id gaps))),
      (''assumptions'', JList assumptions), (''bounds'', get_default case_obj ''bounds'' (JObj []))]"

text \<open>What the projection reads before the events: the tables, the seeded compromise, the attribution.\<close>

definition starting_point ::
  "replay_bundle \<Rightarrow> (string, json) dict \<Rightarrow> envelope list \<Rightarrow> (project_ctx \<times> seeded_state \<times> json list) compiled" where
  "starting_point bundle profile evs =
     rbind (pods_table (bn_inventory bundle)) (\<lambda>pods_by_uid.
     rbind (secrets_table (bn_inventory bundle)) (\<lambda>secrets.
     rbind (iterate (get_default profile ''assumptions'' (JList []))) (\<lambda>prof_assumptions.
     rbind (iterate (get_default (bn_case bundle) ''assumptions'' (JList []))) (\<lambda>case_assumptions.
     rbind (iterate (get_default (bn_case bundle) ''compromised_credentials'' (JList []))) (\<lambda>compromised.
     rbind (for_each seed_credential compromised ([], {}, [])) (\<lambda>(creds, users, facts).
     rbind (iterate (get_default (bn_case bundle) ''resolved_gaps'' (JList []))) (\<lambda>rs.
     rbind (resolved_names rs) (\<lambda>resolved.
     rbind (attribute_pods users pods_by_uid evs {}) (\<lambda>pods.
     Inr (\<lparr>px_profile = profile, px_users = users, px_pods = pods, px_resolved = resolved,
            px_pods_by_uid = pods_by_uid, px_secrets = secrets\<rparr>,
          (creds, users, facts),
          prof_assumptions @ map (JStr \<circ> py_str) case_assumptions))))))))))"

definition project ::
  "(string \<Rightarrow> string) \<Rightarrow> (string \<Rightarrow> json option) \<Rightarrow> (string \<Rightarrow> iso_time) \<Rightarrow> (string, (string, json) dict) dict \<Rightarrow>
     replay_bundle \<Rightarrow> (json \<times> diagnostics) compiled" where
  "project sha256 json_pairs fromiso profiles bundle =
     (case (jget (bn_manifest bundle) ''case_id'', jget (bn_manifest bundle) ''cluster_id'') of
        (JStr case_id, JStr cluster_id) \<Rightarrow>
          rbind (load_profile profiles (py_str (get_default (bn_case bundle) ''profile'' (JStr [])))) (\<lambda>profile.
          rbind (parse_time fromiso (jget (bn_case bundle) ''analysis_time'') ''case.analysis_time'' False) (\<lambda>t.
          case events json_pairs fromiso (bn_lines bundle) cluster_id of
            (evs, diag) \<Rightarrow>
              rbind (starting_point bundle profile evs) (\<lambda>(ctx, (creds, users, facts), assumptions).
              rbind (for_each (project_event fromiso ctx) evs
                       \<lparr>pj_heartbeats = [], pj_gaps = [], pj_ignored = [], pj_credentials = creds, pj_facts = facts\<rparr>) (\<lambda>st.
              rbind (stale_gaps (bn_case bundle) (pj_heartbeats st) t) (\<lambda>stale.
              let gaps = pj_gaps st @ stale @ map rejected_gap (dg_rejected diag) @ map conflict_gap (dg_conflicts diag) in
              rbind (traverse (profile_item profile)
                       [''id'', ''kubernetes_version'', ''api_audiences'', ''projected_token_ttl_seconds'']) (\<lambda>prof.
              let doc = projected_doc case_id cluster_id t prof (bn_inventory bundle) (bn_case bundle) assumptions st gaps in
              case parse_analysis_input sha256 doc of
                Inl e \<Rightarrow> Inl (InputErr e)
              | Inr _ \<Rightarrow> Inr (doc, diag\<lparr>dg_ignored := pj_ignored st\<rparr>)))))))
      | _ \<Rightarrow> Inl (BundleErr ''manifest.json: case_id and cluster_id are required''))"

end
