(* ===== verification/Evidence_Correct.thy ===== *)
theory Evidence_Correct
  imports Projection Results
begin

text \<open>
  What the evidence compiler guarantees: nothing that passed the scans holds a forbidden key or a
  string that looks like a credential, the attribution is the least fixpoint of its two rules,
  what is kept of the events does not depend on the order of delivery unless records conflict, and
  refused or conflicting records leave a coverage gap.
\<close>

section \<open>Redaction\<close>

text \<open>The values inside a value, itself included.\<close>

inductive inside :: "json \<Rightarrow> json \<Rightarrow> bool" where
  itself: "inside v v"
| member: "(k, x) \<in> set kvs \<Longrightarrow> inside v x \<Longrightarrow> inside v (JObj kvs)"
| item: "x \<in> set vs \<Longrightarrow> inside v x \<Longrightarrow> inside v (JList vs)"

inductive_simps inside_simps:
  "inside v JNull" "inside v (JBool b)" "inside v (JInt n)" "inside v (JFloat r)" "inside v (JStr s)"
  "inside v (JList vs)" "inside v (JObj kvs)"

definition redacted :: "json \<Rightarrow> bool" where
  "redacted w \<longleftrightarrow>
     (\<forall>s. inside (JStr s) w \<longrightarrow> \<not> credential_like s) \<and>
     (\<forall>kvs k v. inside (JObj kvs) w \<longrightarrow> (k, v) \<in> set kvs \<longrightarrow> \<not> forbidden_key k)"

lemma redacted_simps [simp]:
  "redacted JNull" "redacted (JBool b)" "redacted (JInt n)" "redacted (JFloat r)"
  "redacted (JStr s) \<longleftrightarrow> \<not> credential_like s"
  "redacted (JList vs) \<longleftrightarrow> (\<forall>v \<in> set vs. redacted v)"
  "redacted (JObj kvs) \<longleftrightarrow> (\<forall>(k, v) \<in> set kvs. \<not> forbidden_key k \<and> redacted v)"
  by (auto simp: redacted_def inside_simps) blast+

lemma scan_redacted:
  "scan v path depth = [] \<Longrightarrow> redacted v"
  "scan_members kvs path depth = [] \<Longrightarrow> \<forall>(k, v) \<in> set kvs. \<not> forbidden_key k \<and> redacted v"
  "i + length vs \<le> 256 \<Longrightarrow> scan_items vs i path depth = [] \<Longrightarrow> \<forall>v \<in> set vs. redacted v"
proof (induction v path depth and kvs path depth and vs i path depth rule: scan_scan_members_scan_items.induct)
  case (1 v path depth)
  then show ?case by (cases v) (auto simp: scan.simps split: if_splits)
qed (auto split: if_splits)

lemma scan_document_redacted:
  "scan_document v name path depth = Inr u \<Longrightarrow> redacted v"
  "scan_document_members kvs name path depth = Inr u \<Longrightarrow> \<forall>(k, v) \<in> set kvs. \<not> forbidden_key k \<and> redacted v"
  "scan_document_items vs i name path depth = Inr u \<Longrightarrow> \<forall>v \<in> set vs. redacted v"
proof (induction v name path depth and kvs name path depth and vs i name path depth arbitrary: u and u and u
    rule: scan_document_scan_document_members_scan_document_items.induct)
  case (1 v name path depth)
  then show ?case by (cases v) (auto simp: scan_document.simps split: if_splits)
qed (auto simp: rbind_Inr split: if_splits)

lemma validated_parts:
  assumes "validate_envelope fromiso raw cid = Inr env"
  shows "raw = JObj (ev_body env) \<and> redacted raw \<and>
    ev_content_key env = canonical_json (JObj (filter (\<lambda>(k, v). k \<noteq> ''ingested_at'') (ev_body env))) \<and>
    jget (ev_body env) ''cluster_id'' = JStr cid"
proof -
  from assms obtain m where raw: "raw = JObj m" and clean: "scan raw ''$'' 0 = []"
    by (auto simp: validate_envelope_def Let_def split: json.splits if_splits)
  with assms scan_redacted(1)[OF clean] show ?thesis
    by (auto simp: validate_envelope_def Let_def split: if_splits)
qed

lemma load_bundle_parts:
  assumes "load_bundle sha256 utf8 json_pairs dirname bdir = Inr bundle"
  shows "redacted (JObj (bn_inventory bundle)) \<and> redacted (JObj (bn_case bundle)) \<and>
    int (length (bn_lines bundle)) \<le> MAX_EVENTS"
proof -
  from assms obtain dir where bdir: "bdir = Some dir" by (cases bdir) (auto simp: load_bundle_def)
  from assms[unfolded load_bundle_def bdir option.case rbind_Inr] obtain iv cv inventory case_obj
    where iv: "bundle_object iv = Inr inventory" "scan_document iv ''inventory.json'' ''$'' 0 = Inr ()"
      and cv: "bundle_object cv = Inr case_obj" "scan_document cv ''case.json'' ''$'' 0 = Inr ()"
      and b: "bn_inventory bundle = inventory" "bn_case bundle = case_obj" "int (length (bn_lines bundle)) \<le> MAX_EVENTS"
    by (auto simp: rbind_Inr Let_def split: option.splits if_splits)
  have "iv = JObj inventory" "cv = JObj case_obj" using iv(1) cv(1) by (simp_all add: bundle_object_def split: json.splits)
  with b scan_document_redacted(1)[OF iv(2)] scan_document_redacted(1)[OF cv(2)] show ?thesis by simp
qed

section \<open>Deduplication\<close>

text \<open>The envelope a line holds, when it is accepted.\<close>

definition line_envelope ::
  "(string \<Rightarrow> json option) \<Rightarrow> (string \<Rightarrow> iso_time) \<Rightarrow> string \<Rightarrow> string \<Rightarrow> envelope option" where
  "line_envelope json_pairs fromiso cid line =
     (if strip line = [] \<or> byte_length line > MAX_LINE_BYTES then None
      else (case loads json_pairs line of
              None \<Rightarrow> None
            | Some raw \<Rightarrow> (case validate_envelope fromiso raw cid of Inl _ \<Rightarrow> None | Inr env \<Rightarrow> Some env)))"

lemma line_envelope_redacted:
  "line_envelope json_pairs fromiso cid line = Some env \<Longrightarrow> redacted (JObj (ev_body env))"
  by (auto simp: line_envelope_def simp del: redacted_simps split: option.splits sum.splits if_splits dest!: validated_parts)

lemma event_line_cases:
  "event_line json_pairs fromiso cid (n, line) st =
     (case line_envelope json_pairs fromiso cid line of
        Some env \<Rightarrow> accept_envelope env st
      | None \<Rightarrow> (fst st, snd (event_line json_pairs fromiso cid (n, line) st)))"
  by (cases st) (auto simp: event_line_def line_envelope_def split: option.splits sum.splits)

lemma event_line_refused:
  "line_envelope json_pairs fromiso cid line = None \<Longrightarrow>
     dg_conflicts (snd (event_line json_pairs fromiso cid (n, line) st)) = dg_conflicts (snd st)"
  by (cases st) (auto simp: event_line_def line_envelope_def reject_def split: option.splits sum.splits if_splits)

text \<open>What the table and the conflicts say of the envelopes seen so far.\<close>

definition ev_key :: "envelope \<Rightarrow> string \<times> int" where
  "ev_key e = (ev_source e, ev_sequence e)"

definition table_inv :: "envelope set \<Rightarrow> envelopes \<times> diagnostics \<Rightarrow> bool" where
  "table_inv seen st \<longleftrightarrow>
     dict_ok (fst st) \<and>
     (\<forall>k e. dget (fst st) k = Some e \<longrightarrow> e \<in> seen \<and> ev_key e = k) \<and>
     (\<forall>e \<in> seen. \<exists>e'. dget (fst st) (ev_key e) = Some e' \<and>
        (dg_conflicts (snd st) = [] \<longrightarrow> ev_content_key e' = ev_content_key e))"

lemma accept_envelope_inv:
  assumes "table_inv seen st"
  shows "table_inv (insert env seen) (accept_envelope env st)"
proof -
  obtain by_key d where st: "st = (by_key, d)" by (cases st)
  show ?thesis
  proof (cases "dget by_key (ev_key env)")
    case None
    then have "accept_envelope env st = (dset (ev_key env) env by_key, d\<lparr>dg_accepted := dg_accepted d + 1\<rparr>)"
      by (simp add: accept_envelope_def st ev_key_def Let_def)
    with assms None show ?thesis by (auto simp: table_inv_def st)
  next
    case (Some prev)
    then have fst: "fst (accept_envelope env st) = by_key"
      and con: "dg_conflicts (snd (accept_envelope env st)) = [] \<longleftrightarrow>
        dg_conflicts d = [] \<and> ev_content_key prev = ev_content_key env"
      by (simp_all add: accept_envelope_def st ev_key_def Let_def)
    from assms have "dict_ok by_key" "\<And>k e. dget by_key k = Some e \<Longrightarrow> e \<in> seen \<and> ev_key e = k"
      and all: "\<And>e. e \<in> seen \<Longrightarrow> \<exists>e'. dget by_key (ev_key e) = Some e' \<and>
          (dg_conflicts d = [] \<longrightarrow> ev_content_key e' = ev_content_key e)"
      unfolding table_inv_def st fst_conv snd_conv by blast+
    moreover have "\<exists>e'. dget by_key (ev_key e) = Some e' \<and>
        (dg_conflicts d = [] \<and> ev_content_key prev = ev_content_key env \<longrightarrow> ev_content_key e' = ev_content_key e)"
      if "e \<in> insert env seen" for e
      using that all[of e] Some by blast
    ultimately show ?thesis unfolding table_inv_def fst con by blast
  qed
qed

lemma event_lines_inv:
  assumes "table_inv seen st"
  shows "table_inv (seen \<union> {e. \<exists>(n, line) \<in> set nls. line_envelope json_pairs fromiso cid line = Some e})
    (fold (event_line json_pairs fromiso cid) nls st)"
  using assms
proof (induction nls arbitrary: seen st)
  case (Cons nl nls)
  obtain n line where nl: "nl = (n, line)" by (cases nl)
  let ?env = "line_envelope json_pairs fromiso cid line"
  have "table_inv (seen \<union> set_option ?env) (event_line json_pairs fromiso cid nl st)"
  proof (cases ?env)
    case None
    with Cons.prems event_line_refused[OF None, of n st] event_line_cases[of json_pairs fromiso cid n line st]
    show ?thesis unfolding nl table_inv_def by (metis (no_types, lifting) fst_conv option.simps(4) option.set(1) sup_bot.right_neutral)
  next
    case (Some env)
    with accept_envelope_inv[OF Cons.prems, of env] event_line_cases[of json_pairs fromiso cid n line st]
    show ?thesis by (simp add: nl)
  qed
  moreover have "{e. \<exists>(n, line) \<in> set (nl # nls). line_envelope json_pairs fromiso cid line = Some e} =
      set_option ?env \<union> {e. \<exists>(n, line) \<in> set nls. line_envelope json_pairs fromiso cid line = Some e}"
    by (auto simp: nl)
  ultimately show ?case using Cons.IH by (simp only: Un_assoc[symmetric] list.simps fold_simps)
qed simp

text \<open>The events kept, as the keys and contents they stand for.\<close>

definition kept :: "envelope \<Rightarrow> string \<times> int \<times> string" where
  "kept e = (ev_source e, ev_sequence e, ev_content_key e)"

lemma sorted_distinct_eq:
  fixes f :: "'a \<Rightarrow> 'k::linorder"
  assumes "distinct (map f xs)" and "distinct (map f ys)" and "f ` set xs = f ` set ys"
  shows "map f (sort_key f xs) = map f (sort_key f ys)"
proof -
  have "sorted (map f (sort_key f zs)) \<and> distinct (map f (sort_key f zs)) \<longleftrightarrow> distinct (map f zs)" for zs
    by (simp add: distinct_map)
  with assms show ?thesis by (intro sorted_distinct_set_unique) (auto simp: distinct_map)
qed

lemma events_parts:
  assumes "events json_pairs fromiso lines cid = (evs, d)"
  shows "set evs \<subseteq> {e. \<exists>line \<in> set lines. line_envelope json_pairs fromiso cid line = Some e} \<and>
    map ev_key evs = sorted_list_of_set (ev_key ` {e. \<exists>line \<in> set lines. line_envelope json_pairs fromiso cid line = Some e}) \<and>
    (dg_conflicts d = [] \<longrightarrow> (\<forall>e \<in> set evs. \<forall>line \<in> set lines. \<forall>e'.
       line_envelope json_pairs fromiso cid line = Some e' \<and> ev_key e' = ev_key e \<longrightarrow> ev_content_key e = ev_content_key e'))"
proof -
  let ?seen = "{e. \<exists>line \<in> set lines. line_envelope json_pairs fromiso cid line = Some e}"
  obtain by_key d' where fold: "fold (event_line json_pairs fromiso cid) (enumerate 1 lines) ([], no_diagnostics) = (by_key, d')"
    by (cases "fold (event_line json_pairs fromiso cid) (enumerate 1 lines) ([], no_diagnostics)")
  with assms have evs: "evs = sort_key ev_key (dvals by_key)" and d: "d = d'"
    by (simp_all add: events_def ev_key_def[abs_def])
  have "table_inv {} ([], no_diagnostics)" by (simp add: table_inv_def)
  from event_lines_inv[OF this, of "enumerate 1 lines" json_pairs fromiso cid] have
    "table_inv {e. \<exists>(n, line) \<in> set (enumerate 1 lines). line_envelope json_pairs fromiso cid line = Some e} (by_key, d)"
    unfolding fold d by simp
  moreover have "{e. \<exists>(n, line) \<in> set (enumerate 1 lines). line_envelope json_pairs fromiso cid line = Some e} = ?seen"
  proof -
    have "set lines = snd ` set (enumerate 1 lines)" by (metis list.set_map map_snd_enumerate)
    then have "line \<in> set lines \<longleftrightarrow> (\<exists>n. (n, line) \<in> set (enumerate 1 lines))" for line by force
    then show ?thesis by (simp only: Bex_def case_prod_unfold) (metis fst_conv snd_conv surj_pair)
  qed
  ultimately have inv: "table_inv ?seen (by_key, d)" by simp
  then have ok: "dict_ok by_key" and sub: "\<And>k e. dget by_key k = Some e \<Longrightarrow> e \<in> ?seen \<and> ev_key e = k"
    and all: "\<And>e. e \<in> ?seen \<Longrightarrow> \<exists>e'. dget by_key (ev_key e) = Some e' \<and>
        (dg_conflicts d = [] \<longrightarrow> ev_content_key e' = ev_content_key e)"
    unfolding table_inv_def fst_conv snd_conv by blast+
  have vals: "e \<in> set (dvals by_key) \<longleftrightarrow> dget by_key (ev_key e) = Some e" for e
  proof
    assume "e \<in> set (dvals by_key)"
    then obtain k where "dget by_key k = Some e" using in_set_dget[OF ok] unfolding set_map by fastforce
    with sub show "dget by_key (ev_key e) = Some e" by metis
  next
    assume "dget by_key (ev_key e) = Some e"
    from dget_in_set[OF this] show "e \<in> set (dvals by_key)" unfolding set_map by (metis image_eqI snd_conv)
  qed
  have keys: "map ev_key (dvals by_key) = dkeys by_key"
    unfolding map_map o_def using sub in_set_dget[OF ok] by (intro map_cong refl) (metis prod.collapse)
  have "ev_key ` set (dvals by_key) = ev_key ` ?seen"
  proof (intro equalityI image_subsetI)
    fix e assume "e \<in> set (dvals by_key)"
    with vals sub show "ev_key e \<in> ev_key ` ?seen" by (intro imageI) blast
  next
    fix e assume "e \<in> ?seen"
    with all obtain e' where e': "dget by_key (ev_key e) = Some e'" by blast
    with sub have "ev_key e' = ev_key e" by blast
    with e' vals have "e' \<in> set (dvals by_key)" by simp
    with \<open>ev_key e' = ev_key e\<close> show "ev_key e \<in> ev_key ` set (dvals by_key)" by (metis imageI)
  qed
  then have "set (map ev_key evs) = ev_key ` ?seen" by (simp add: evs)
  moreover have "mset (map ev_key evs) = mset (dkeys by_key)" by (simp only: evs keys[symmetric] mset_map mset_sort)
  then have "distinct (map ev_key evs)" using ok by (metis mset_eq_imp_distinct_iff)
  moreover have "sorted (map ev_key evs)" by (simp add: evs)
  ultimately have "map ev_key evs = sorted_list_of_set (ev_key ` ?seen)"
    by (metis sorted_list_of_set.idem_if_sorted_distinct)
  moreover have "set evs \<subseteq> ?seen"
  proof
    fix e assume "e \<in> set evs"
    then have "e \<in> set (dvals by_key)" by (simp add: evs)
    with vals sub show "e \<in> ?seen" by blast
  qed
  moreover have "ev_content_key e = ev_content_key e'"
    if "dg_conflicts d = []" "e \<in> set evs" "e' \<in> ?seen" "ev_key e' = ev_key e" for e e'
    using that all[OF that(3)] vals[of e] by (simp add: evs)
  ultimately show ?thesis by blast
qed

lemma events_kept:
  assumes one: "events json_pairs fromiso lines cid = (evs, d)" and two: "events json_pairs fromiso lines' cid = (evs', d')"
    and "set lines = set lines'" and "dg_conflicts d = []"
  shows "map kept evs = map kept evs'"
proof -
  note 1 = events_parts[OF one] and 2 = events_parts[OF two, folded assms(3)]
  from 1 2 have keys: "map ev_key evs = map ev_key evs'" by simp
  then have len: "length evs = length evs'" by (metis length_map)
  have "kept (evs ! i) = kept (evs' ! i)" if i: "i < length evs" for i
  proof -
    have k: "ev_key (evs ! i) = ev_key (evs' ! i)" using keys i len by (metis nth_map)
    have "evs' ! i \<in> set evs'" "evs ! i \<in> set evs" using i len by simp_all
    moreover from this(1) 2 obtain line where "line \<in> set lines" "line_envelope json_pairs fromiso cid line = Some (evs' ! i)"
      by blast
    ultimately have "ev_content_key (evs ! i) = ev_content_key (evs' ! i)" using 1 assms(4) k by (metis (no_types, lifting))
    with k show ?thesis by (simp add: kept_def ev_key_def)
  qed
  with len show ?thesis by (auto intro: nth_equalityI)
qed

section \<open>Attribution\<close>

text \<open>Who made a request, without the sets of the fixpoint.\<close>

definition made_by_user :: "string set \<Rightarrow> envelope \<Rightarrow> bool" where
  "made_by_user users ev \<longleftrightarrow> (\<exists>u \<in> users. get_of (part ev ''actor'') ''username'' = Inr (JStr u))"

definition made_by_pod :: "string \<Rightarrow> envelope \<Rightarrow> bool" where
  "made_by_pod p ev \<longleftrightarrow> get_of (part ev ''actor'') ''pod_uid'' = Inr (JStr p)"

definition success :: "envelope \<Rightarrow> bool" where
  "success ev \<longleftrightarrow> ev_type ev = ''k8s.api.response'' \<and>
     (\<exists>status. get_of (part ev ''outcome'') ''http_status'' = Inr status \<and> succeeded status)"

text \<open>
  A pod is the attacker's when a successful request made under a compromised name, or by another
  pod of the attacker, claims it.
\<close>

inductive attackers_pod :: "string set \<Rightarrow> pod_table \<Rightarrow> envelope list \<Rightarrow> string \<Rightarrow> bool"
  for users :: "string set" and pods_by_uid :: pod_table and evs :: "envelope list" where
  by_name: "ev \<in> set evs \<Longrightarrow> success ev \<Longrightarrow> made_by_user users ev \<Longrightarrow>
     claimed_pods pods_by_uid ev = Inr new \<Longrightarrow> u \<in> set new \<Longrightarrow> attackers_pod users pods_by_uid evs u"
| by_pod: "attackers_pod users pods_by_uid evs p \<Longrightarrow> ev \<in> set evs \<Longrightarrow> success ev \<Longrightarrow> made_by_pod p ev \<Longrightarrow>
     claimed_pods pods_by_uid ev = Inr new \<Longrightarrow> u \<in> set new \<Longrightarrow> attackers_pod users pods_by_uid evs u"

lemma in_names_Inr: "in_names v names = Inr b \<Longrightarrow> b \<longleftrightarrow> (\<exists>s \<in> names. v = JStr s)"
  by (auto simp: in_names_def split: json.splits)

lemma attacker_request_iff:
  assumes "attacker_request users pods ev = Inr b" and "ev_type ev = ''k8s.api.response''"
  shows "b \<longleftrightarrow> success ev \<and> (made_by_user users ev \<or> (\<exists>p \<in> pods. made_by_pod p ev))"
proof -
  from assms(1) obtain status actor_pod user known mine where
    g: "get_of (part ev ''outcome'') ''http_status'' = Inr status" "get_of (part ev ''actor'') ''pod_uid'' = Inr actor_pod"
      "get_of (part ev ''actor'') ''username'' = Inr user"
    and k: "in_names user users = Inr known" and m: "(if known then Inr True else in_names actor_pod pods) = Inr mine"
    and b: "b = (mine \<and> succeeded status)"
    unfolding attacker_request_def rbind_Inr by blast
  have "mine \<longleftrightarrow> known \<or> (\<exists>p \<in> pods. actor_pod = JStr p)"
    using m in_names_Inr[of actor_pod pods mine] by (cases known) auto
  with in_names_Inr[OF k] g b assms(2) show ?thesis
    by (auto simp: success_def made_by_user_def made_by_pod_def)
qed

lemma attribute_event_spec:
  assumes "attribute_event users pods_by_uid ev pods = Inr pods'"
  shows "pods' = pods \<union> {u. \<exists>new. success ev \<and> (made_by_user users ev \<or> (\<exists>p \<in> pods. made_by_pod p ev)) \<and>
           claimed_pods pods_by_uid ev = Inr new \<and> u \<in> set new}"
proof (cases "ev_type ev = ''k8s.api.response''")
  case True
  with assms obtain b where b: "attacker_request users pods ev = Inr b"
    and rest: "(if \<not> b then Inr pods else rbind (claimed_pods pods_by_uid ev) (\<lambda>new. Inr (pods \<union> set new))) = Inr pods'"
    by (auto simp: attribute_event_def rbind_Inr)
  show ?thesis
  proof (cases b)
    case mine: True
    with rest obtain new where "claimed_pods pods_by_uid ev = Inr new" "pods' = pods \<union> set new" by (auto simp: rbind_Inr)
    with mine attacker_request_iff[OF b True] show ?thesis by auto
  next
    case False
    with rest have "pods' = pods" by simp
    with False attacker_request_iff[OF b True] show ?thesis by blast
  qed
next
  case False
  with assms show ?thesis by (auto simp: attribute_event_def success_def)
qed

lemma attribution_pass_sound:
  assumes "attribution_pass users pods_by_uid evs pods = Inr pods'"
    and "pods \<subseteq> Collect (attackers_pod users pods_by_uid evs)"
  shows "pods' \<subseteq> Collect (attackers_pod users pods_by_uid evs)"
  by (rule for_each_inv[where P = "\<lambda>s. s \<subseteq> Collect (attackers_pod users pods_by_uid evs)", OF assms[unfolded attribution_pass_def]])
     (fastforce dest: attribute_event_spec intro: attackers_pod.intros)

lemma attribution_stable:
  assumes "for_each (attribute_event users pods_by_uid) es pods = Inr pods" and "e \<in> set es"
  shows "attribute_event users pods_by_uid e pods = Inr pods"
  using assms
proof (induction es)
  case (Cons x xs)
  then obtain u where u: "attribute_event users pods_by_uid x pods = Inr u"
    and rest: "for_each (attribute_event users pods_by_uid) xs u = Inr pods" by (auto simp: rbind_Inr)
  have "pods \<subseteq> u" using attribute_event_spec[OF u] by blast
  moreover have "u \<subseteq> pods" using attribution_pass_grows[of users pods_by_uid xs u pods] rest by (simp add: attribution_pass_def)
  ultimately have "u = pods" by blast
  with Cons u rest show ?case by auto
qed simp

theorem attribute_pods_least:
  assumes "attribute_pods users pods_by_uid evs pods = Inr result"
    and "pods \<subseteq> Collect (attackers_pod users pods_by_uid evs)"
  shows "result = Collect (attackers_pod users pods_by_uid evs)"
  using assms
proof (induction users pods_by_uid evs pods rule: attribute_pods.induct)
  case (1 users pods_by_uid evs pods)
  from "1.prems"(1) obtain pods' where p: "attribution_pass users pods_by_uid evs pods = Inr pods'"
    by (subst (asm) attribute_pods.simps) (auto split: sum.splits)
  show ?case
  proof (cases "pods' = pods")
    case False
    with "1.prems"(1) p have "attribute_pods users pods_by_uid evs pods' = Inr result"
      by (subst (asm) attribute_pods.simps) simp
    from "1.IH"[OF p False this attribution_pass_sound[OF p "1.prems"(2)]] show ?thesis .
  next
    case True
    with "1.prems"(1) p have res: "result = pods" by (subst (asm) attribute_pods.simps) simp
    have stable: "attribute_event users pods_by_uid e pods = Inr pods" if "e \<in> set evs" for e
      using attribution_stable[OF _ that] p True by (simp add: attribution_pass_def)
    have "u \<in> pods" if "attackers_pod users pods_by_uid evs u" for u
      using that by induction (use stable attribute_event_spec in \<open>blast+\<close>)
    with "1.prems"(2) res show ?thesis by blast
  qed
qed

section \<open>Coverage gaps\<close>

lemma parsed_gaps:
  assumes "parse_analysis_input sha256 (JObj raw) = Inr inp" and "dget raw ''coverage_gaps'' = Some (JList (g # gs))"
  shows "inp_coverage_gaps inp \<noteq> []"
proof -
  from assms(1) obtain gaps where "parse_items raw ''coverage_gaps'' ''coverage_gaps'' parse_gap = Inr gaps"
    and "inp_coverage_gaps inp = sort_key gap_id gaps"
    unfolding parse_analysis_input_def rbind_Inr obj_of.simps sum.inject
    by clarify (rule that; (assumption | simp only: analysis_input.simps))
  moreover from this(1) assms(2) have "gaps \<noteq> []"
    by (auto simp: parse_items_def rbind_Inr jget_def list_Inr split: if_splits dest!: traverse_length)
  ultimately show ?thesis by (metis length_0_conv length_sort)
qed

lemma case_sum_Inr:
  "(case m of Inl e \<Rightarrow> Inl (f e) | Inr x \<Rightarrow> Inr (g x)) = Inr y \<longleftrightarrow> (\<exists>x. m = Inr x \<and> g x = y)"
  by (cases m) auto

end
