(* ===== verification/Evidence_Facts.thy ===== *)
theory Evidence_Facts
  imports Evidence_Correct
begin

text \<open>
  Where the facts of a projection come from: each names as evidence the seeded compromise or a
  successful request of the attacker.
\<close>

section \<open>Evidence of facts\<close>

definition sources_ok :: "(string \<Rightarrow> bool) \<Rightarrow> found_facts \<Rightarrow> bool" where
  "sources_ok good facts \<longleftrightarrow> (\<forall>e \<in> set facts. \<forall>r \<in> set (ff_evidence (snd e)). good r)"

lemma set_dset_subset: "set (dset k v d) \<subseteq> insert (k, v) (set d)"
  by (induction d) auto

lemma add_fact_sources:
  assumes "sources_ok good facts" and "good r"
  shows "sources_ok good (add_fact kind args status r txt facts)"
proof (cases "dget facts (kind, args)")
  case None
  then have "set (add_fact kind args status r txt facts) \<subseteq>
      insert ((kind, args), \<lparr>ff_status = status, ff_evidence = [r], ff_note = (if txt = [] then None else Some txt)\<rparr>) (set facts)"
    unfolding add_fact_def by (simp add: set_dset_subset)
  with assms show ?thesis unfolding sources_ok_def by fastforce
next
  case (Some f)
  then have "\<forall>r \<in> set (ff_evidence f). good r" using assms(1) dget_in_set[OF Some] by (fastforce simp: sources_ok_def)
  moreover have "set (add_fact kind args status r txt facts) \<subseteq>
      insert ((kind, args), f\<lparr>ff_evidence := sort (ff_evidence f @ [r])\<rparr>) (set facts)"
    unfolding add_fact_def using Some set_dset_subset[of "(kind, args)" "f\<lparr>ff_evidence := sort (ff_evidence f @ [r])\<rparr>" facts] by auto
  ultimately show ?thesis using assms unfolding sources_ok_def by fastforce
qed

definition good_ref :: "project_ctx \<Rightarrow> envelope list \<Rightarrow> string \<Rightarrow> bool" where
  "good_ref ctx evs r \<longleftrightarrow> r = ''case:seeded-compromise'' \<or>
     (\<exists>ev \<in> set evs. r = event_ref ev \<and> success ev \<and>
        (made_by_user (px_users ctx) ev \<or> (\<exists>p \<in> px_pods ctx. made_by_pod p ev)))"

abbreviation facts_backed :: "project_ctx \<Rightarrow> envelope list \<Rightarrow> projection \<Rightarrow> bool" where
  "facts_backed ctx evs st \<equiv> sources_ok (good_ref ctx evs) (pj_facts st)"

lemma note_simps [simp]:
  "pj_facts (note_gap gid kind txt ers st) = pj_facts st"
  "pj_facts (ignore_event ev why st) = pj_facts st"
  "pj_facts (heartbeat_seen ev st) = pj_facts st"
  "pj_facts (collector_gap ctx ev st) = pj_facts st"
  by (simp_all add: note_gap_def ignore_event_def heartbeat_seen_def collector_gap_def Let_def)

lemma note_fact_backed:
  "facts_backed ctx evs st \<Longrightarrow> good_ref ctx evs r \<Longrightarrow> facts_backed ctx evs (note_fact kind args r txt st)"
  by (simp add: note_fact_def add_fact_sources)

lemma fold_backed:
  "(\<And>x s. facts_backed ctx evs s \<Longrightarrow> facts_backed ctx evs (f x s)) \<Longrightarrow> facts_backed ctx evs st \<Longrightarrow>
     facts_backed ctx evs (fold f xs st)"
  by (induction xs arbitrary: st) auto

lemma secrets_listed_backed:
  assumes "facts_backed ctx evs st" and "good_ref ctx evs (event_ref ev)"
  shows "facts_backed ctx evs (secrets_listed ctx ev verb ns name st)"
  unfolding secrets_listed_def
  by (rule fold_backed[OF _ assms(1)]) (simp add: note_fact_backed assms(2) case_prod_unfold)

lemma pod_created_backed:
  assumes "pod_created ctx ev uid ns st = Inr st'" and "facts_backed ctx evs st" and "good_ref ctx evs (event_ref ev)"
  shows "facts_backed ctx evs st'"
proof (cases "dmem uid (px_pods_by_uid ctx)")
  case True
  with assms show ?thesis by (auto simp: pod_created_def Let_def intro: note_fact_backed)
next
  case False
  with assms(1) obtain sa where st': "st' = (case (sa, ns) of
      (JStr a, JStr n) \<Rightarrow> note_fact ''historical_pod'' [uid, n, a] (event_ref ev) ''attacker pod no longer in inventory''
        (note_fact ''controls_pod'' [uid] (event_ref ev) [] st)
    | _ \<Rightarrow> note_gap (''pod-sa-unknown:'' @ uid) ''missing_metadata''
        (''service account of attacker pod '' @ uid @ '' is unknown'') [event_ref ev]
        (note_fact ''controls_pod'' [uid] (event_ref ev) [] st))"
    unfolding pod_created_def Let_def by (auto simp: rbind_Inr simp del: not_None_eq)
  note keep = note_fact_backed[OF note_fact_backed[OF assms(2,3)] assms(3)] note_fact_backed[OF assms(2,3)]
  show ?thesis unfolding st' by (cases sa; cases ns) (simp_all add: keep)
qed

lemma secret_got_backed:
  assumes "secret_got ctx ev ns name st = Inr st'" and "facts_backed ctx evs st" and "good_ref ctx evs (event_ref ev)"
  shows "facts_backed ctx evs st'"
proof -
  from assms(1) obtain version where v: "(if is_int version
      then Inr (note_fact ''knows_secret'' [ns, name, py_str version] (event_ref ev) [] st)
      else (case dget (px_secrets ctx) (ns, name) of
              None \<Rightarrow> Inr (note_gap (''secret-version-unknown:'' @ ns @ ''/'' @ name) ''missing_metadata''
                 (''version of secret '' @ ns @ ''/'' @ name @ '' read at '' @ event_ref ev @ '' is unknown'') [event_ref ev] st)
            | Some sec \<Rightarrow> (case dget sec ''version'' of
                None \<Rightarrow> Inl Raised
              | Some v \<Rightarrow> Inr (note_fact ''knows_secret'' [ns, name, py_str v] (event_ref ev)
                  ''version not in audit record; assumed equal to inventory version'' st)))) = Inr st'"
    unfolding secret_got_def rbind_Inr by blast
  show ?thesis
  proof (cases "is_int version")
    case True
    with v assms(2,3) show ?thesis by (auto intro: note_fact_backed)
  next
    case False
    with v assms(2,3) show ?thesis
      by (cases "dget (px_secrets ctx) (ns, name)"; cases "dget (the (dget (px_secrets ctx) (ns, name))) ''version''")
        (auto intro: note_fact_backed)
  qed
qed

lemma request_facts_backed:
  assumes "request_facts ctx ev st = Inr st'" and "facts_backed ctx evs st" and "good_ref ctx evs (event_ref ev)"
  shows "facts_backed ctx evs st'"
proof -
  note keep = pod_created_backed[OF _ assms(2,3)] secret_got_backed[OF _ assms(2,3)]
    secrets_listed_backed[OF assms(2,3)] note_fact_backed[OF assms(2,3)] assms(2)
  from assms(1) obtain verb resource ns uid name where f: "(case (verb, resource, ns, uid, name) of
       (JStr v, JStr r, _, _, _) \<Rightarrow>
         if v = ''create'' \<and> (r = ''pods'' \<or> r = ''pods/exec'') \<and> (case uid of JStr _ \<Rightarrow> True | _ \<Rightarrow> False)
         then pod_created ctx ev (case uid of JStr u \<Rightarrow> u | _ \<Rightarrow> []) ns st
         else if v = ''create'' \<and> r = ''deployments'' \<and> (case uid of JStr _ \<Rightarrow> True | _ \<Rightarrow> False)
         then Inr (note_fact ''controls_controller'' [case uid of JStr u \<Rightarrow> u | _ \<Rightarrow> []] (event_ref ev) [] st)
         else if v = ''get'' \<and> r = ''secrets''
         then (case (ns, name) of (JStr n, JStr s) \<Rightarrow> secret_got ctx ev n s st | _ \<Rightarrow> Inr st)
         else if (v = ''list'' \<or> v = ''watch'') \<and> r = ''secrets''
         then Inr (secrets_listed ctx ev v ns name st)
         else Inr st
     | _ \<Rightarrow> Inr st) = Inr st'"
    unfolding request_facts_def rbind_Inr by blast
  have got: "facts_backed ctx evs st'"
    if "(case (ns, name) of (JStr n, JStr s) \<Rightarrow> secret_got ctx ev n s st | _ \<Rightarrow> Inr st) = Inr st'"
    using that assms(2) by (cases ns; cases name) (auto intro: keep)
  show ?thesis
  proof (cases "\<exists>v r. verb = JStr v \<and> resource = JStr r")
    case True
    then obtain v r where vr: "verb = JStr v" "resource = JStr r" by blast
    from assms(2) f[unfolded vr prod.case json.case] show ?thesis
      by (auto simp: keep(3,4) simp del: prod.case_eq_if split: if_split_asm dest: keep(1) got[unfolded prod.case])
  next
    case False
    with f show ?thesis using assms(2) by (cases verb; cases resource) simp_all
  qed
qed

lemma observed_credential_backed:
  assumes "observed_credential fromiso ctx ev actor_pod st = Inr st'" and "facts_backed ctx evs st"
    and "good_ref ctx evs (event_ref ev)"
  shows "facts_backed ctx evs st'"
proof -
  let ?cid = "\<lambda>aud. ''observed:'' @ py_str actor_pod @ '':'' @ py_str aud"
  from assms(1) obtain aud username account where c: "(case username of
        JStr user \<Rightarrow>
          rbind (expiry_of fromiso (part ev ''actor'')) (\<lambda>expires.
          Inr (note_fact ''possesses_credential'' [?cid aud] (event_ref ev) ''credential observed in use''
                 (st\<lparr>pj_credentials := keep_credential (?cid aud)
                       (observed_spec (?cid aud) user account actor_pod aud expires) (pj_credentials st)\<rparr>)))
      | _ \<Rightarrow> Inr st) = Inr st'"
    unfolding observed_credential_def Let_def rbind_Inr by blast
  have "facts_backed ctx evs (st\<lparr>pj_credentials := cs\<rparr>)" for cs using assms(2) by simp
  note keep = note_fact_backed[OF this assms(3)]
  show ?thesis
    using c assms(2) by (cases username) (auto simp: rbind_Inr intro: keep)
qed

lemma project_event_backed:
  assumes "project_event fromiso ctx ev st = Inr st'" and "facts_backed ctx evs st" and ev: "ev \<in> set evs"
  shows "facts_backed ctx evs st'"
proof (cases "ev_type ev = ''k8s.api.response''")
  case False
  with assms(1,2) show ?thesis by (auto simp: project_event_def split: if_splits)
next
  case True
  with assms(1) have "api_response fromiso ctx ev st = Inr st'" by (simp add: project_event_def)
  then obtain mine where mine: "attacker_request (px_users ctx) (px_pods ctx) ev = Inr mine"
    and rest: "(if \<not> mine then Inr st
      else rbind (get_of (part ev ''actor'') ''pod_uid'') (\<lambda>actor_pod.
           rbind (in_names actor_pod (px_pods ctx)) (\<lambda>from_pod.
           rbind (if from_pod then observed_credential fromiso ctx ev actor_pod st else Inr st) (\<lambda>st1.
           request_facts ctx ev st1)))) = Inr st'"
    unfolding api_response_def rbind_Inr by blast
  show ?thesis
  proof (cases mine)
    case False
    with rest assms(2) show ?thesis by simp
  next
    case m: True
    with attacker_request_iff[OF mine True] ev have good: "good_ref ctx evs (event_ref ev)"
      unfolding good_ref_def by blast
    from rest m obtain from_pod actor_pod st1 where
      "(if from_pod then observed_credential fromiso ctx ev actor_pod st else Inr st) = Inr st1"
      and st': "request_facts ctx ev st1 = Inr st'" by (auto simp: rbind_Inr)
    then have "facts_backed ctx evs st1"
      using observed_credential_backed[OF _ assms(2) good] assms(2) by (cases from_pod) auto
    from request_facts_backed[OF st' this good] show ?thesis .
  qed
qed

lemma seeded_backed:
  assumes "for_each seed_credential cs (creds, users, facts) = Inr (creds', users', facts')" and "sources_ok good facts"
    and "good ''case:seeded-compromise''"
  shows "sources_ok good facts'"
proof -
  have "sources_ok good (snd (snd (creds', users', facts')))"
    by (rule for_each_inv[where P = "\<lambda>s. sources_ok good (snd (snd s))", OF assms(1)])
       (use assms(2,3) in \<open>auto simp: seed_credential_def rbind_Inr intro!: add_fact_sources\<close>)
  then show ?thesis by simp
qed

text \<open>The names that stand for compromised accounts in the case.\<close>

definition compromised_names :: "replay_bundle \<Rightarrow> string set" where
  "compromised_names bundle = {u. \<exists>cs m. iterate (get_default (bn_case bundle) ''compromised_credentials'' (JList [])) = Inr cs \<and>
     JObj m \<in> set cs \<and> jget m ''username'' = JStr u}"

lemma text_of_Inr: "text_of v = Inr s \<longleftrightarrow> v = JStr s"
  by (cases v) (simp_all add: text_of_def)

lemma seeded_names:
  "for_each seed_credential cs (creds, users, facts) = Inr (creds', users', facts') \<Longrightarrow>
     users' = users \<union> {u. \<exists>m. JObj m \<in> set cs \<and> jget m ''username'' = JStr u}"
proof (induction cs arbitrary: creds users facts)
  case (Cons c cs)
  then obtain creds1 users1 facts1 where one: "seed_credential c (creds, users, facts) = Inr (creds1, users1, facts1)"
    and "for_each seed_credential cs (creds1, users1, facts1) = Inr (creds', users', facts')" by (auto simp: rbind_Inr)
  with Cons.IH have "users' = users1 \<union> {u. \<exists>m. JObj m \<in> set cs \<and> jget m ''username'' = JStr u}" by blast
  moreover from one obtain m u where "c = JObj m" "jget m ''username'' = JStr u" "users1 = insert u users"
    by (auto simp: seed_credential_def rbind_Inr text_of_Inr cred_spec_def Let_def split: json.splits if_splits)
  ultimately show ?case by auto
qed simp

lemma starting_point_parts:
  assumes "starting_point bundle profile evs = Inr (ctx, (creds, users, facts), assumptions)"
  shows "px_users ctx = compromised_names bundle \<and> sources_ok (good_ref ctx evs) facts \<and>
    pods_table (bn_inventory bundle) = Inr (px_pods_by_uid ctx) \<and>
    px_pods ctx = {u. attackers_pod (px_users ctx) (px_pods_by_uid ctx) evs u}"
proof -
  from assms obtain cs pods pods_by_uid profile' secrets resolved where
    cs: "iterate (get_default (bn_case bundle) ''compromised_credentials'' (JList [])) = Inr cs"
    and table: "pods_table (bn_inventory bundle) = Inr pods_by_uid"
    and seed: "for_each seed_credential cs ([], {}, []) = Inr (creds, users, facts)"
    and pods: "attribute_pods users pods_by_uid evs {} = Inr pods"
    and ctx: "ctx = \<lparr>px_profile = profile', px_users = users, px_pods = pods, px_resolved = resolved,
      px_pods_by_uid = pods_by_uid, px_secrets = secrets\<rparr>"
    unfolding starting_point_def rbind_Inr by (clarsimp simp: rbind_Inr)
  have "sources_ok (good_ref ctx evs) facts"
    by (rule seeded_backed[OF seed]) (simp_all add: sources_ok_def good_ref_def)
  moreover have "pods = Collect (attackers_pod users pods_by_uid evs)"
    by (rule attribute_pods_least[OF pods]) simp
  moreover have "users = compromised_names bundle" using seeded_names[OF seed] by (auto simp: compromised_names_def cs)
  ultimately show ?thesis by (simp add: ctx table)
qed

section \<open>The whole projection\<close>

lemma project_parts:
  assumes "project sha256 json_pairs fromiso profiles bundle = Inr (doc, diag)"
  obtains case_id cluster_id evs d profile t ctx creds users facts assumptions st stale prof inp where
    "jget (bn_manifest bundle) ''cluster_id'' = JStr cluster_id"
    "events json_pairs fromiso (bn_lines bundle) cluster_id = (evs, d)"
    "starting_point bundle profile evs = Inr (ctx, (creds, users, facts), assumptions)"
    "for_each (project_event fromiso ctx) evs
       \<lparr>pj_heartbeats = [], pj_gaps = [], pj_ignored = [], pj_credentials = creds, pj_facts = facts\<rparr> = Inr st"
    "doc = projected_doc case_id cluster_id t prof (bn_inventory bundle) (bn_case bundle) assumptions st
       (pj_gaps st @ stale @ map rejected_gap (dg_rejected d) @ map conflict_gap (dg_conflicts d))"
    "diag = d\<lparr>dg_ignored := pj_ignored st\<rparr>" "parse_analysis_input sha256 doc = Inr inp"
proof -
  obtain case_id cluster_id where ids: "jget (bn_manifest bundle) ''case_id'' = JStr case_id"
    "jget (bn_manifest bundle) ''cluster_id'' = JStr cluster_id"
    using assms by (auto simp: project_def split: json.splits)
  obtain evs d where evs: "events json_pairs fromiso (bn_lines bundle) cluster_id = (evs, d)"
    by (cases "events json_pairs fromiso (bn_lines bundle) cluster_id")
  from assms[unfolded project_def ids prod.case json.case evs Let_def] show thesis
    by (clarsimp simp: rbind_Inr case_sum_Inr simp del: traverse.simps)
      (rule that[OF ids(2) evs]; (assumption | simp))
qed

lemma project_gaps:
  assumes "project sha256 json_pairs fromiso profiles bundle = Inr (doc, diag)"
    and "dg_rejected diag \<noteq> [] \<or> dg_conflicts diag \<noteq> []"
  shows "\<exists>raw g gs. doc = JObj raw \<and> dget raw ''coverage_gaps'' = Some (JList (g # gs))"
proof (rule project_parts[OF assms(1)])
  fix case_id cluster_id t prof assumptions st stale d
  assume doc: "doc = projected_doc case_id cluster_id t prof (bn_inventory bundle) (bn_case bundle) assumptions st
       (pj_gaps st @ stale @ map rejected_gap (dg_rejected d) @ map conflict_gap (dg_conflicts d))"
    and d: "diag = d\<lparr>dg_ignored := pj_ignored st\<rparr>"
  let ?gaps = "pj_gaps st @ stale @ map rejected_gap (dg_rejected d) @ map conflict_gap (dg_conflicts d)"
  have "?gaps \<noteq> []" using assms(2) by (auto simp: d)
  then have "sort_key fg_id ?gaps \<noteq> []" by (metis length_0_conv length_sort)
  then obtain g gs where "map gap_json (sort_key fg_id ?gaps) = g # gs" by (cases "map gap_json (sort_key fg_id ?gaps)") auto
  then show ?thesis unfolding doc projected_doc_def by simp
qed

lemma project_facts:
  assumes "project sha256 json_pairs fromiso profiles bundle = Inr (doc, diag)"
  shows "\<exists>cluster_id evs d profile ctx seeds assumptions raw facts.
    jget (bn_manifest bundle) ''cluster_id'' = JStr cluster_id \<and>
    events json_pairs fromiso (bn_lines bundle) cluster_id = (evs, d) \<and>
    starting_point bundle profile evs = Inr (ctx, seeds, assumptions) \<and>
    doc = JObj raw \<and> dget raw ''initial_facts'' = Some (JList (map found_fact_json facts)) \<and>
    sources_ok (good_ref ctx evs) facts"
proof (rule project_parts[OF assms])
  fix case_id cluster_id t prof assumptions st stale d evs ctx creds users facts profile
  assume ids: "jget (bn_manifest bundle) ''cluster_id'' = JStr cluster_id"
    and ev: "events json_pairs fromiso (bn_lines bundle) cluster_id = (evs, d)"
    and start: "starting_point bundle profile evs = Inr (ctx, (creds, users, facts), assumptions)"
    and run: "for_each (project_event fromiso ctx) evs
       \<lparr>pj_heartbeats = [], pj_gaps = [], pj_ignored = [], pj_credentials = creds, pj_facts = facts\<rparr> = Inr st"
    and doc: "doc = projected_doc case_id cluster_id t prof (bn_inventory bundle) (bn_case bundle) assumptions st
       (pj_gaps st @ stale @ map rejected_gap (dg_rejected d) @ map conflict_gap (dg_conflicts d))"
  have "facts_backed ctx evs st"
    by (rule for_each_inv[where P = "facts_backed ctx evs", OF run])
       (use starting_point_parts[OF start] project_event_backed in auto)
  then have "sources_ok (good_ref ctx evs) (sort_key fst (pj_facts st))" by (simp add: sources_ok_def)
  moreover obtain raw where "doc = JObj raw" "dget raw ''initial_facts'' = Some (JList (map found_fact_json (sort_key fst (pj_facts st))))"
    unfolding doc projected_doc_def by simp
  ultimately show ?thesis using ids ev start by blast
qed

end
