(* ===== verification/Bundle_Example.thy ===== *)
theory Bundle_Example
  imports Evidence_Facts Examples
begin

text \<open>
  A small replay bundle: the attacker creates a pod with the stolen token, one line is no JSON and
  one is delivered twice. It is loaded, read and projected into an analysis input, step by step.
  A second event, made from that pod, gives the attribution a chain.
\<close>
section \<open>A small bundle\<close>

definition case_part :: "string \<Rightarrow> (string, json) dict" where
  "case_part k = (case case_doc of JObj m \<Rightarrow> (case jget m k of JObj x \<Rightarrow> x | _ \<Rightarrow> []) | _ \<Rightarrow> [])"

definition case_member :: "string \<Rightarrow> json" where
  "case_member k = (case case_doc of JObj m \<Rightarrow> jget m k | _ \<Rightarrow> JNull)"

definition demo_body :: "string \<Rightarrow> int \<Rightarrow> (string, json) dict \<Rightarrow> string \<Rightarrow> (string, json) dict" where
  "demo_body eid n actor uid =
     [(''schema_version'', JStr ''1''), (''event_id'', JStr eid), (''source_id'', JStr ''audit''),
      (''source_sequence'', JInt n), (''event_type'', JStr ''k8s.api.response''), (''cluster_id'', JStr ''k1''),
      (''observed_at'', JStr ''t''), (''actor'', JObj actor),
      (''action'', JObj [(''verb'', JStr ''create''), (''resource'', JStr ''pods''), (''namespace'', JStr ''app'')]),
      (''target'', JObj [(''uid'', JStr uid), (''service_account'', JStr ''web'')]),
      (''outcome'', JObj [(''http_status'', JInt 201)])]"

definition demo_envelope :: "string \<Rightarrow> int \<Rightarrow> (string, json) dict \<Rightarrow> string \<Rightarrow> envelope" where
  "demo_envelope eid n actor uid =
     \<lparr>ev_id = eid, ev_source = ''audit'', ev_sequence = n, ev_type = ''k8s.api.response'', ev_observed_at = 50,
      ev_body = demo_body eid n actor uid, ev_content_key = canonical_json (JObj (demo_body eid n actor uid))\<rparr>"

abbreviation first_event :: "(string \<Rightarrow> int \<Rightarrow> (string, json) dict \<Rightarrow> string \<Rightarrow> 'a) \<Rightarrow> 'a" where
  "first_event f \<equiv> f ''e1'' 1 [(''username'', JStr ''system:serviceaccount:app:web'')] ''u9''"

abbreviation second_event :: "(string \<Rightarrow> int \<Rightarrow> (string, json) dict \<Rightarrow> string \<Rightarrow> 'a) \<Rightarrow> 'a" where
  "second_event f \<equiv> f ''e2'' 2 [(''username'', JStr ''x''), (''pod_uid'', JStr ''u9'')] ''u8''"

definition demo_bundle :: replay_bundle where
  "demo_bundle =
     \<lparr>bn_manifest = [(''schema'', JStr REPLAY_SCHEMA), (''case_id'', JStr ''c1''), (''cluster_id'', JStr ''k1''),
        (''files'', JObj (map (\<lambda>n. (n, JStr ''sha256:'')) BUNDLE_FILES))],
      bn_inventory = [],
      bn_case = [(''profile'', JStr ''p''), (''analysis_time'', JStr ''t''),
        (''compromised_credentials'', case_member ''credentials''), (''objectives'', case_member ''objectives'')],
      bn_lines = [''a'', ''broken'', ''a'']\<rparr>"

definition demo_json :: "string \<Rightarrow> json option" where
  "demo_json s =
     (if s = ''M'' then Some (JObj (bn_manifest demo_bundle))
      else if s = ''I'' then Some (JObj (bn_inventory demo_bundle))
      else if s = ''C'' then Some (JObj (bn_case demo_bundle))
      else if s = ''a'' then Some (JObj (first_event demo_body))
      else if s = ''b'' then Some (JObj (second_event demo_body))
      else None)"

definition demo_time :: "string \<Rightarrow> iso_time" where
  "demo_time s = At 50 0"

definition demo_file :: "string \<Rightarrow> bundle_file" where
  "demo_file s = \<lparr>file_symlink = False, file_regular = True, file_inside = True, file_bytes = s\<rparr>"

definition demo_dir :: bundle_dir where
  "demo_dir = Some [(''manifest.json'', demo_file ''M''), (''inventory.json'', demo_file ''I''),
     (''case.json'', demo_file ''C''),
     (''events.jsonl'', demo_file (''a'' @ [CHR 0x0A] @ ''broken'' @ [CHR 0x0A] @ ''a'' @ [CHR 0x0A]))]"

lemma demo_loads: "load_bundle (\<lambda>s. []) Some demo_json ''d'' demo_dir = Inr demo_bundle"
  by code_simp

definition demo_profiles :: "(string, (string, json) dict) dict" where
  "demo_profiles = [(''p'', case_part ''profile'')]"

definition demo_events :: "envelope list" where
  "demo_events = [first_event demo_envelope, second_event demo_envelope]"

definition demo_diag :: diagnostics where
  "demo_diag = no_diagnostics\<lparr>dg_accepted := 1, dg_duplicates := 1,
     dg_rejected := [(2, [''invalid JSON or duplicate key''])]\<rparr>"

lemma demo_validates_first:
  "validate_envelope demo_time (JObj (first_event demo_body)) ''k1'' = Inr (first_event demo_envelope)"
  by code_simp

lemma demo_validates_second:
  "validate_envelope demo_time (JObj (second_event demo_body)) ''k1'' = Inr (second_event demo_envelope)"
  by code_simp

lemma demo_lines:
  "strip ''a'' \<noteq> []" "strip ''b'' \<noteq> []" "strip ''broken'' \<noteq> []"
  "\<not> MAX_LINE_BYTES < byte_length ''a''" "\<not> MAX_LINE_BYTES < byte_length ''b''" "\<not> MAX_LINE_BYTES < byte_length ''broken''"
  "loads demo_json ''a'' = Some (JObj (first_event demo_body))"
  "loads demo_json ''b'' = Some (JObj (second_event demo_body))"
  "loads demo_json ''broken'' = None"
  by code_simp+

lemma demo_accepts:
  "accept_envelope (first_event demo_envelope) (apsnd (reject 2 [''invalid JSON or duplicate key''])
     (accept_envelope (first_event demo_envelope) ([], no_diagnostics))) =
   ([((''audit'', 1), first_event demo_envelope)], demo_diag)"
  by (simp add: accept_envelope_def demo_envelope_def demo_diag_def no_diagnostics_def reject_def)

lemma demo_reads:
  "events demo_json demo_time (bn_lines demo_bundle) ''k1'' = ([first_event demo_envelope], demo_diag)"
proof -
  have "fold (event_line demo_json demo_time ''k1'') (enumerate 1 (bn_lines demo_bundle)) ([], no_diagnostics) =
    ([((''audit'', 1), first_event demo_envelope)], demo_diag)"
    using demo_accepts by (simp add: event_line_def demo_lines demo_validates_first demo_bundle_def numeral_2_eq_2)
  then show ?thesis by (simp add: events_def)
qed

lemma demo_starts:
  "case starting_point demo_bundle (case_part ''profile'') demo_events of
     Inr (ctx, seeds, assumptions) \<Rightarrow> px_pods ctx = {''u8'', ''u9''} | Inl _ \<Rightarrow> False"
  by code_simp

lemma demo_ids: "jget (bn_manifest demo_bundle) ''case_id'' = JStr ''c1''" "jget (bn_manifest demo_bundle) ''cluster_id'' = JStr ''k1''"
  by code_simp+

definition demo_ctx :: project_ctx where
  "demo_ctx = \<lparr>px_profile = case_part ''profile'', px_users = {''system:serviceaccount:app:web''}, px_pods = {''u9''},
     px_resolved = {}, px_pods_by_uid = [], px_secrets = []\<rparr>"

definition demo_seeds :: seeded_state where
  "demo_seeds = ([(''tok'', [(''id'', JStr ''tok''), (''kind'', JStr ''sa_token''),
       (''username'', JStr ''system:serviceaccount:app:web''), (''audience'', JStr ''api''), (''expires_at'', JInt 100)])],
     {''system:serviceaccount:app:web''},
     [((''possesses_credential'', [''tok'']),
        \<lparr>ff_status = ''assumed'', ff_evidence = [''case:seeded-compromise''], ff_note = None\<rparr>)])"

definition demo_found :: "((string \<times> string list) \<times> found_fact) list" where
  "demo_found = [((''controls_pod'', [''u9'']),
       \<lparr>ff_status = ''observed'', ff_evidence = [''audit#1''], ff_note = None\<rparr>),
     ((''historical_pod'', [''u9'', ''app'', ''web'']),
       \<lparr>ff_status = ''observed'', ff_evidence = [''audit#1''], ff_note = Some ''attacker pod no longer in inventory''\<rparr>)]"

lemma demo_start:
  "starting_point demo_bundle (case_part ''profile'') [first_event demo_envelope] = Inr (demo_ctx, demo_seeds, [])"
  by code_simp

lemma demo_run:
  "for_each (project_event demo_time demo_ctx) [first_event demo_envelope]
     \<lparr>pj_heartbeats = [], pj_gaps = [], pj_ignored = [], pj_credentials = fst demo_seeds, pj_facts = snd (snd demo_seeds)\<rparr> =
   Inr \<lparr>pj_heartbeats = [], pj_gaps = [], pj_ignored = [], pj_credentials = fst demo_seeds,
         pj_facts = snd (snd demo_seeds) @ demo_found\<rparr>"
  by code_simp

definition demo_doc :: "(string, json) dict" where
  "demo_doc = [(''schema'', JStr ''afterlock.analysis-input/1''), (''case_id'', JStr ''c1''), (''cluster_id'', JStr ''k1''),
      (''analysis_time'', JInt 50), (''profile'', JObj (case_part ''profile'')), (''inventory'', JObj (bn_inventory demo_bundle)),
      (''credentials'', JList (map (\<lambda>(cid, c). JObj c) (fst demo_seeds))),
      (''initial_facts'', JList (map found_fact_json (demo_found @ snd (snd demo_seeds)))),
      (''remediation'', JList []), (''objectives'', case_member ''objectives''), (''legitimate_operations'', JList []),
      (''coverage_gaps'', JList [gap_json (rejected_gap (2, [''invalid JSON or duplicate key'']))]),
      (''assumptions'', JList []), (''bounds'', JObj [])]"

lemma demo_writes:
  "projected_doc ''c1'' ''k1'' 50 (case_part ''profile'') (bn_inventory demo_bundle) (bn_case demo_bundle) []
     \<lparr>pj_heartbeats = [], pj_gaps = [], pj_ignored = [], pj_credentials = fst demo_seeds,
         pj_facts = snd (snd demo_seeds) @ demo_found\<rparr> (map rejected_gap (dg_rejected demo_diag)) = JObj demo_doc"
  by code_simp

lemma demo_parses: "\<exists>inp. parse_analysis_input (\<lambda>s. []) (JObj demo_doc) = Inr inp"
proof -
  have "case parse_analysis_input (\<lambda>s. []) (JObj demo_doc) of Inr _ \<Rightarrow> True | Inl _ \<Rightarrow> False" by code_simp
  then show ?thesis by (auto split: sum.splits)
qed

lemma demo_settings:
  "load_profile demo_profiles (py_str (get_default (bn_case demo_bundle) ''profile'' (JStr []))) = Inr (case_part ''profile'')"
  "parse_time demo_time (jget (bn_case demo_bundle) ''analysis_time'') ''case.analysis_time'' False = Inr 50"
  "stale_gaps (bn_case demo_bundle) [] 50 = Inr []"
  "traverse (profile_item (case_part ''profile''))
     [''id'', ''kubernetes_version'', ''api_audiences'', ''projected_token_ttl_seconds''] = Inr (case_part ''profile'')"
  by code_simp+

lemma demo_projects:
  "project (\<lambda>s. []) demo_json demo_time demo_profiles demo_bundle = Inr (JObj demo_doc, demo_diag)"
proof -
  from demo_parses obtain inp where inp: "parse_analysis_input (\<lambda>s. []) (JObj demo_doc) = Inr inp" by blast
  obtain creds users facts where seeds: "demo_seeds = (creds, users, facts)" by (cases demo_seeds) auto
  note run = demo_run[unfolded seeds fst_conv snd_conv] and writes = demo_writes[unfolded seeds fst_conv snd_conv]
  have none: "dg_conflicts demo_diag = []" "demo_diag\<lparr>dg_ignored := []\<rparr> = demo_diag"
    by (simp_all add: demo_diag_def no_diagnostics_def)
  show ?thesis
    unfolding project_def demo_ids demo_reads demo_settings rbind_simps prod.case json.case demo_start seeds run Let_def
      projection.simps demo_settings
    by (simp add: writes inp none)
qed

end
