(* ===== verification/Evidence_Properties.thy ===== *)
theory Evidence_Properties
  imports Bundle_Example
begin

text \<open>
  The properties of the evidence compiler: what is kept of a bundle holds no secret, does not depend
  on the order of delivery, is attributed to the attacker for a reason, and what is refused of it
  stands in the way of a containment verdict.
\<close>



text \<open>
  C14: Delivery. Two deliveries of the same lines, in any order and with any repetition, keep the
  same events in the same order (same source, sequence number and content), as long as no two of
  the records conflict.
\<close>
theorem delivery_order_is_irrelevant:
  assumes "events json_pairs fromiso lines cid = (evs, d)" and "events json_pairs fromiso lines' cid = (evs', d')"
    and "set lines = set lines'" and "dg_conflicts d = []"
  shows "map kept evs = map kept evs'"
  using assms by (rule events_kept)

theorem delivery_order_is_irrelevant_witness:
  "map kept (fst (events demo_json demo_time [''broken'', ''a''] ''k1'')) = [kept (first_event demo_envelope)]"
proof -
  have "bn_lines demo_bundle = [''a'', ''broken'', ''a'']" by (simp add: demo_bundle_def)
  then have "set (bn_lines demo_bundle) = set [''broken'', ''a'']" by auto
  moreover have "dg_conflicts demo_diag = []" by (simp add: demo_diag_def no_diagnostics_def)
  ultimately show ?thesis
    using delivery_order_is_irrelevant[OF demo_reads, of "[''broken'', ''a'']" "fst (events demo_json demo_time [''broken'', ''a''] ''k1'')"
        "snd (events demo_json demo_time [''broken'', ''a''] ''k1'')"] by simp
qed

text \<open>
  C11: Attribution. The pods ascribed to the attacker are exactly those reached by the two rules: a
  successful request under the name of a compromised credential of the case claims the pod, or one
  made from a pod already ascribed does. The fixpoint neither misses a pod, in whatever order the
  events come, nor adds one.
\<close>
theorem attribution_is_least:
  assumes "starting_point bundle profile evs = Inr (ctx, seeds, assumptions)"
  shows "pods_table (bn_inventory bundle) = Inr (px_pods_by_uid ctx) \<and>
    px_pods ctx = {u. attackers_pod (compromised_names bundle) (px_pods_by_uid ctx) evs u}"
proof -
  obtain creds users facts where seeds: "seeds = (creds, users, facts)" by (cases seeds) auto
  show ?thesis using starting_point_parts[OF assms[unfolded seeds]] by simp
qed

theorem attribution_is_least_witness:
  "\<exists>pods_by_uid. {u. attackers_pod (compromised_names demo_bundle) pods_by_uid demo_events u} = {''u8'', ''u9''}"
proof -
  from demo_starts obtain ctx seeds assumptions where
    s: "starting_point demo_bundle (case_part ''profile'') demo_events = Inr (ctx, seeds, assumptions)"
    and pods: "px_pods ctx = {''u8'', ''u9''}" by (auto split: sum.splits)
  from attribution_is_least[OF s] pods show ?thesis by metis
qed

text \<open>
  C12: Attribution of facts. Every initial fact of a projected document names as evidence only the
  seeded compromise or successful requests among the accepted events, each made under the name of a
  compromised credential of the case or from a pod of the attacker.
\<close>
theorem facts_need_attacker_requests:
  assumes "project sha256 json_pairs fromiso profiles bundle = Inr (doc, diag)"
    and "jget (bn_manifest bundle) ''cluster_id'' = JStr cid"
    and "events json_pairs fromiso (bn_lines bundle) cid = (evs, d)"
    and "pods_table (bn_inventory bundle) = Inr pods_by_uid"
  shows "\<exists>raw facts. doc = JObj raw \<and> dget raw ''initial_facts'' = Some (JList (map found_fact_json facts)) \<and>
    (\<forall>(key, f) \<in> set facts. \<forall>r \<in> set (ff_evidence f). r = ''case:seeded-compromise'' \<or>
       (\<exists>ev \<in> set evs. r = event_ref ev \<and> success ev \<and> (made_by_user (compromised_names bundle) ev \<or>
          (\<exists>p. attackers_pod (compromised_names bundle) pods_by_uid evs p \<and> made_by_pod p ev))))"
proof -
  from project_facts[OF assms(1)] obtain profile ctx seeds assumptions raw facts where
    start: "starting_point bundle profile evs = Inr (ctx, seeds, assumptions)"
    and doc: "doc = JObj raw" "dget raw ''initial_facts'' = Some (JList (map found_fact_json facts))"
    and ok: "sources_ok (good_ref ctx evs) facts"
    using assms(2,3) by auto
  obtain creds users found where seeds: "seeds = (creds, users, found)" by (cases seeds) auto
  have "px_users ctx = compromised_names bundle" "px_pods_by_uid ctx = pods_by_uid"
    and "px_pods ctx = {u. attackers_pod (px_users ctx) (px_pods_by_uid ctx) evs u}"
    using starting_point_parts[OF start[unfolded seeds]] assms(4) by simp_all
  with ok have "\<forall>(key, f) \<in> set facts. \<forall>r \<in> set (ff_evidence f). r = ''case:seeded-compromise'' \<or>
       (\<exists>ev \<in> set evs. r = event_ref ev \<and> success ev \<and> (made_by_user (compromised_names bundle) ev \<or>
          (\<exists>p. attackers_pod (compromised_names bundle) pods_by_uid evs p \<and> made_by_pod p ev)))"
    by (fastforce simp: sources_ok_def good_ref_def)
  with doc show ?thesis by blast
qed

theorem facts_need_attacker_requests_witness:
  "\<exists>raw facts. JObj demo_doc = JObj raw \<and> dget raw ''initial_facts'' = Some (JList (map found_fact_json facts)) \<and>
    list_all (\<lambda>(key, f). list_all (\<lambda>r. r = ''case:seeded-compromise'' \<or>
       (\<exists>ev \<in> set [first_event demo_envelope]. r = event_ref ev \<and> success ev \<and>
          (made_by_user (compromised_names demo_bundle) ev \<or>
           (\<exists>p. attackers_pod (compromised_names demo_bundle) [] [first_event demo_envelope] p \<and> made_by_pod p ev))))
      (ff_evidence f)) facts"
proof -
  have "pods_table (bn_inventory demo_bundle) = Inr []" by code_simp
  from facts_need_attacker_requests[OF demo_projects demo_ids(2) demo_reads this] show ?thesis
    unfolding list_all_iff case_prod_unfold .
qed

text \<open>
  C10: Refused evidence counts. When a line was rejected or two records conflict, the projected
  document parses, its analysis answers in every mode, and the conclusion is never containment
  within the modelled scope.
\<close>
theorem refused_evidence_is_never_contained:
  assumes "project sha256 json_pairs fromiso profiles bundle = Inr (doc, diag)"
    and "dg_rejected diag \<noteq> [] \<or> dg_conflicts diag \<noteq> []"
  shows "\<exists>inp b. parse_analysis_input sha256 doc = Inr inp \<and> analyze inp md = Inr b \<and>
    bun_conclusion b \<noteq> ContainedWithinScope"
proof -
  obtain inp where inp: "parse_analysis_input sha256 doc = Inr inp" by (rule project_parts[OF assms(1)])
  from project_gaps[OF assms] obtain raw g gs where
    "doc = JObj raw" "dget raw ''coverage_gaps'' = Some (JList (g # gs))" by blast
  with inp have gaps: "inp_coverage_gaps inp \<noteq> []" using parsed_gaps by blast
  have ok: "input_ok inp" by (rule parse_analysis_input_ok[OF inp])
  then obtain b where b: "analyze inp md = Inr b" using analyze_total by blast
  have "inp_objectives inp \<noteq> []" using ok by (simp add: input_ok_def)
  with conclusion_contained[OF b] gaps have "bun_conclusion b \<noteq> ContainedWithinScope" by blast
  with inp b show ?thesis by blast
qed

theorem refused_evidence_is_never_contained_witness:
  "\<exists>inp b. parse_analysis_input (\<lambda>s. []) (JObj demo_doc) = Inr inp \<and> analyze inp ModeFull = Inr b \<and>
    bun_conclusion b \<noteq> ContainedWithinScope"
  by (rule refused_evidence_is_never_contained[OF demo_projects]) (simp add: demo_diag_def)

end
