(* ===== verification/Storage.thy ===== *)
theory Storage
  imports Parse
begin

text \<open>
  The in-memory backend of \<open>services/api/afterlock_api/storage.py\<close>: content-addressed manifests,
  cases, results and leased jobs. Each method is a function of the store, under the lock for its
  whole body, so one call is one step. What a call raises carries the store it leaves behind.

  Clock readings are arguments (\<open>now\<close>), in integer ticks; the random part of \<open>new_id\<close> is an argument
  (\<open>tok\<close>), and so is SHA-256. The deep copies of the source are identity on values.
\<close>

section \<open>Records\<close>

record manifest =
  man_id :: string
  man_cluster :: string
  man_case :: string
  man_kind :: string
  man_input_hash :: string
  man_profile :: json
  man_engine :: string
  man_payload :: "(string, json) dict"

record stored_case =
  cs_id :: string
  cs_cluster :: string
  cs_input :: json
  cs_diagnostics :: json
  cs_hash :: string

datatype job_state = Queued | Leased | Running | Succeeded | Failed | Cancelled

record job =
  jb_id :: string
  jb_cluster :: string
  jb_manifest :: string
  jb_kind :: string
  jb_state :: job_state
  jb_owner :: "string option"
  jb_expires :: "int option"
  jb_heartbeat :: "int option"
  jb_attempts :: int
  jb_max_attempts :: int
  jb_cancel :: bool
  jb_error :: "string option"
  jb_created_by :: string
  jb_seq :: nat

record result =
  res_id :: string
  res_cluster :: string
  res_case :: string
  res_manifest :: string
  res_job :: "string option"
  res_kind :: string
  res_version :: int
  res_body :: json

record lease =
  lz_job :: string
  lz_cluster :: string
  lz_owner :: string
  lz_kind :: string
  lz_attempt :: int
  lz_manifest :: manifest

record store =
  st_max_cases :: nat
  st_max_results :: nat
  st_max_jobs :: nat
  st_cases :: "(string \<times> string, stored_case) dict"
  st_manifests :: "(string, manifest) dict"
  st_jobs :: "(string, job) dict"
  st_results :: "(string, result) dict"
  st_result_by_job :: "(string, string) dict"

datatype store_exn =
    StorageFull string
  | AmbiguousCase string
  | BadValue string
  | NoKey string
  | NoOrder

type_synonym 'a step = "(store_exn \<times> store) + 'a \<times> store"

text \<open>\<open>Scope\<close>: \<open>None\<close> is every cluster.\<close>

type_synonym scope = "string set option"

definition DEFAULT_MAX_CASES :: nat where "DEFAULT_MAX_CASES = 1000"
definition DEFAULT_MAX_RESULTS :: nat where "DEFAULT_MAX_RESULTS = 10000"
definition DEFAULT_MAX_JOBS :: nat where "DEFAULT_MAX_JOBS = 10000"

section \<open>Manifests\<close>

definition JOB_KINDS :: "string list" where
  "JOB_KINDS = [''analysis'', ''plan'', ''verification'']"

definition result_prefix :: "string \<Rightarrow> string option" where
  "result_prefix k =
     (if k = ''analysis'' then Some ''an'' else if k = ''plan'' then Some ''pl''
      else if k = ''verification'' then Some ''vf'' else None)"

definition new_id :: "string \<Rightarrow> string \<Rightarrow> string" where
  "new_id prefix tok = prefix @ ''-'' @ tok"

definition after_colon :: "string \<Rightarrow> string" where
  "after_colon h = tl (dropWhile (\<lambda>c. c \<noteq> CHR '':'') h)"

definition manifest_body :: "string \<Rightarrow> string \<Rightarrow> string \<Rightarrow> string \<Rightarrow> (string, json) dict \<Rightarrow> json" where
  "manifest_body cluster cid kind engine payload =
     JObj [(''cluster_id'', JStr cluster), (''case_id'', JStr cid), (''kind'', JStr kind),
           (''engine_version'', JStr engine), (''payload'', JObj payload)]"

definition payload_profile :: "(string, json) dict \<Rightarrow> json" where
  "payload_profile payload =
     (case or_empty_obj (jget payload ''input'') of
        JObj inp \<Rightarrow>
          (case jget inp ''profile'' of
             JObj p \<Rightarrow> JObj [(''id'', jget p ''id''), (''kubernetes_version'', jget p ''kubernetes_version'')]
           | _ \<Rightarrow> JObj [])
      | _ \<Rightarrow> JObj [])"

definition build_manifest ::
  "(string \<Rightarrow> string) \<Rightarrow> string \<Rightarrow> string \<Rightarrow> string \<Rightarrow> string \<Rightarrow> (string, json) dict \<Rightarrow> store_exn + manifest" where
  "build_manifest sha256 engine cluster cid kind payload =
     (if kind \<notin> set JOB_KINDS then Inl (BadValue kind)
      else let h = digest sha256 (manifest_body cluster cid kind engine payload) in
        Inr \<lparr>man_id = ''mf-'' @ take 40 (after_colon h), man_cluster = cluster, man_case = cid, man_kind = kind,
             man_input_hash = h, man_profile = payload_profile payload, man_engine = engine, man_payload = payload\<rparr>)"

definition manifest_intact :: "(string \<Rightarrow> string) \<Rightarrow> manifest \<Rightarrow> bool" where
  "manifest_intact sha256 m \<longleftrightarrow>
     digest sha256 (manifest_body (man_cluster m) (man_case m) (man_kind m) (man_engine m) (man_payload m)) = man_input_hash m"

section \<open>Cases\<close>

definition visible :: "scope \<Rightarrow> string \<Rightarrow> bool" where
  "visible sc cluster \<longleftrightarrow> (case sc of None \<Rightarrow> True | Some cs \<Rightarrow> cluster \<in> cs)"

definition scope_for :: "string set \<Rightarrow> scope" where
  "scope_for clusters = (if ''*'' \<in> clusters then None else Some clusters)"

definition empty_store :: "nat \<Rightarrow> nat \<Rightarrow> nat \<Rightarrow> store_exn + store" where
  "empty_store mc mr mj =
     (if min (min mc mr) mj < 1 then Inl (BadValue ''in-memory storage caps must be >= 1'')
      else Inr \<lparr>st_max_cases = mc, st_max_results = mr, st_max_jobs = mj, st_cases = [], st_manifests = [],
                st_jobs = [], st_results = [], st_result_by_job = []\<rparr>)"

definition create_case :: "(string \<Rightarrow> string) \<Rightarrow> stored_case \<Rightarrow> store \<Rightarrow> bool step" where
  "create_case sha256 c s =
     (let key = (cs_cluster c, cs_id c) in
      if dmem key (st_cases s) then Inr (False, s)
      else if length (st_cases s) \<ge> st_max_cases s then Inl (StorageFull ''case'', s)
      else Inr (True, s\<lparr>st_cases := dset key (c\<lparr>cs_hash := digest sha256 (cs_input c)\<rparr>) (st_cases s)\<rparr>))"

fun pick_case :: "stored_case list \<Rightarrow> string \<Rightarrow> store_exn + stored_case option" where
  "pick_case [] cid = Inr None"
| "pick_case [c] cid = Inr (Some c)"
| "pick_case _ cid = Inl (AmbiguousCase cid)"

definition get_case :: "string \<Rightarrow> scope \<Rightarrow> string option \<Rightarrow> store \<Rightarrow> store_exn + stored_case option" where
  "get_case cid sc cluster s =
     pick_case (map snd (filter (\<lambda>((cl, i), c). i = cid \<and> visible sc cl \<and> (cluster = None \<or> cluster = Some cl)) (st_cases s))) cid"

definition list_cases :: "scope \<Rightarrow> store \<Rightarrow> (string \<times> string) list" where
  "list_cases sc s = sort (map (\<lambda>((cl, i), c). (i, cl)) (filter (\<lambda>((cl, i), c). visible sc cl) (st_cases s)))"

definition list_case_ids :: "scope \<Rightarrow> store \<Rightarrow> string list" where
  "list_case_ids sc s = map fst (list_cases sc s)"

section \<open>Manifests and results in the store\<close>

definition put_manifest :: "manifest \<Rightarrow> store \<Rightarrow> unit step" where
  "put_manifest m s =
     (if \<not> dmem (man_cluster m, man_case m) (st_cases s) then Inl (NoKey ''manifest references an unknown case'', s)
      else Inr ((), s\<lparr>st_manifests := setdefault (man_id m) m (st_manifests s)\<rparr>))"

definition record_analysis :: "string \<Rightarrow> manifest \<Rightarrow> json \<Rightarrow> store \<Rightarrow> string step" where
  "record_analysis tok m body s =
     (if length (st_results s) \<ge> st_max_results s then Inl (StorageFull ''result'', s)
      else case put_manifest m s of
        Inl e \<Rightarrow> Inl e
      | Inr (_, s') \<Rightarrow>
          (case result_prefix (man_kind m) of
             None \<Rightarrow> Inl (NoKey (man_kind m), s')
           | Some p \<Rightarrow>
               let rid = new_id p tok in
               Inr (rid, s'\<lparr>st_results := dset rid \<lparr>res_id = rid, res_cluster = man_cluster m, res_case = man_case m,
                 res_manifest = man_id m, res_job = None, res_kind = man_kind m, res_version = 1, res_body = body\<rparr>
                 (st_results s')\<rparr>)))"

record analysis_view =
  av_id :: string
  av_case :: string
  av_cluster :: string
  av_input :: json
  av_result :: json

definition get_analysis :: "string \<Rightarrow> scope \<Rightarrow> store \<Rightarrow> store_exn + analysis_view option" where
  "get_analysis rid sc s =
     (case dget (st_results s) rid of
        None \<Rightarrow> Inr None
      | Some r \<Rightarrow>
          if res_kind r \<noteq> ''analysis'' \<or> \<not> visible sc (res_cluster r) then Inr None
          else (case dget (st_manifests s) (res_manifest r) of
                  None \<Rightarrow> Inl (NoKey (res_manifest r))
                | Some m \<Rightarrow>
                    (case dget (man_payload m) ''input'' of
                       None \<Rightarrow> Inl (NoKey ''input'')
                     | Some i \<Rightarrow> Inr (Some \<lparr>av_id = rid, av_case = res_case r, av_cluster = res_cluster r,
                                            av_input = i, av_result = res_body r\<rparr>))))"

section \<open>Jobs\<close>

record job_view =
  jv_id :: string
  jv_cluster :: string
  jv_manifest :: string
  jv_kind :: string
  jv_state :: job_state
  jv_attempts :: int
  jv_max_attempts :: int
  jv_cancel :: bool
  jv_error :: "string option"
  jv_result_id :: "string option"
  jv_result :: "json option"

definition public_job :: "job \<Rightarrow> string option \<Rightarrow> json option \<Rightarrow> job_view" where
  "public_job j rid body = \<lparr>jv_id = jb_id j, jv_cluster = jb_cluster j, jv_manifest = jb_manifest j, jv_kind = jb_kind j,
     jv_state = jb_state j, jv_attempts = jb_attempts j, jv_max_attempts = jb_max_attempts j, jv_cancel = jb_cancel j,
     jv_error = jb_error j, jv_result_id = rid, jv_result = body\<rparr>"

definition job_view_of :: "job \<Rightarrow> store \<Rightarrow> store_exn + job_view" where
  "job_view_of j s =
     (case dget (st_result_by_job s) (jb_id j) of
        None \<Rightarrow> Inr (public_job j None None)
      | Some rid \<Rightarrow>
          if rid = [] then Inr (public_job j (Some rid) None)
          else (case dget (st_results s) rid of
                  None \<Rightarrow> Inl (NoKey rid)
                | Some r \<Rightarrow> Inr (public_job j (Some rid) (Some (res_body r)))))"

definition with_view :: "job \<Rightarrow> store \<Rightarrow> job_view step" where
  "with_view j s = (case job_view_of j s of Inl e \<Rightarrow> Inl (e, s) | Inr v \<Rightarrow> Inr (v, s))"

definition set_job :: "job \<Rightarrow> store \<Rightarrow> store" where
  "set_job j s = s\<lparr>st_jobs := dset (jb_id j) j (st_jobs s)\<rparr>"

definition fresh_job :: "string \<Rightarrow> manifest \<Rightarrow> string \<Rightarrow> int \<Rightarrow> nat \<Rightarrow> job" where
  "fresh_job jid m by max_attempts n = \<lparr>jb_id = jid, jb_cluster = man_cluster m, jb_manifest = man_id m, jb_kind = man_kind m,
     jb_state = Queued, jb_owner = None, jb_expires = None, jb_heartbeat = None, jb_attempts = 0,
     jb_max_attempts = max_attempts, jb_cancel = False, jb_error = None, jb_created_by = by, jb_seq = n\<rparr>"

definition enqueue :: "string \<Rightarrow> manifest \<Rightarrow> string \<Rightarrow> int \<Rightarrow> store \<Rightarrow> job_view step" where
  "enqueue tok m created_by max_attempts s =
     (if \<not> (1 \<le> max_attempts \<and> max_attempts \<le> 10) then Inl (BadValue ''max_attempts must be in 1..10'', s)
      else if length (st_jobs s) \<ge> st_max_jobs s then Inl (StorageFull ''job'', s)
      else case put_manifest m s of
        Inl e \<Rightarrow> Inl e
      | Inr (_, s') \<Rightarrow>
          let j = fresh_job (new_id ''job'' tok) m created_by max_attempts (length (st_jobs s')) in
          with_view j (set_job j s'))"

definition get_job :: "string \<Rightarrow> scope \<Rightarrow> store \<Rightarrow> store_exn + job_view option" where
  "get_job jid sc s =
     (case dget (st_jobs s) jid of
        None \<Rightarrow> Inr None
      | Some j \<Rightarrow> if visible sc (jb_cluster j) then rbind (job_view_of j s) (\<lambda>v. Inr (Some v)) else Inr None)"

fun is_held_state :: "job_state \<Rightarrow> bool" where
  "is_held_state Leased = True"
| "is_held_state Running = True"
| "is_held_state _ = False"

fun terminal :: "job_state \<Rightarrow> bool" where
  "terminal Succeeded = True"
| "terminal Failed = True"
| "terminal Cancelled = True"
| "terminal _ = False"

definition cancelled_job :: "job \<Rightarrow> job" where
  "cancelled_job j =
     (if jb_state j = Queued then j\<lparr>jb_state := Cancelled, jb_cancel := True\<rparr>
      else if is_held_state (jb_state j) then j\<lparr>jb_cancel := True\<rparr> else j)"

definition cancel_job :: "string \<Rightarrow> scope \<Rightarrow> store \<Rightarrow> job_view option step" where
  "cancel_job jid sc s =
     (case dget (st_jobs s) jid of
        None \<Rightarrow> Inr (None, s)
      | Some j \<Rightarrow>
          if \<not> visible sc (jb_cluster j) then Inr (None, s)
          else let s' = set_job (cancelled_job j) s in
            (case with_view (cancelled_job j) s' of Inl e \<Rightarrow> Inl e | Inr (v, s'') \<Rightarrow> Inr (Some v, s'')))"

definition release :: "job \<Rightarrow> job_state \<Rightarrow> string option \<Rightarrow> job" where
  "release j st err = j\<lparr>jb_state := st, jb_owner := None, jb_expires := None,
     jb_error := (case err of None \<Rightarrow> jb_error j | Some e \<Rightarrow> Some e)\<rparr>"

text \<open>Comparing an expiry that is \<open>None\<close> would raise a \<open>TypeError\<close> (\<open>NoOrder\<close>).\<close>

definition expired_at :: "job \<Rightarrow> int \<Rightarrow> store_exn + bool" where
  "expired_at j now = (case jb_expires j of None \<Rightarrow> Inl NoOrder | Some e \<Rightarrow> Inr (e \<le> now))"

definition lease_expired :: "job \<Rightarrow> int \<Rightarrow> store_exn + bool" where
  "lease_expired j now = (if is_held_state (jb_state j) then expired_at j now else Inr False)"

definition leased_job :: "job \<Rightarrow> string \<Rightarrow> int \<Rightarrow> int \<Rightarrow> bool \<Rightarrow> job" where
  "leased_job j owner now seconds expired =
     j\<lparr>jb_error := (if expired then Some (''lease held by '' @ (case jb_owner j of None \<Rightarrow> ''None'' | Some w \<Rightarrow> w) @
         '' expired; re-queued'') else jb_error j),
       jb_state := Leased, jb_owner := Some owner, jb_expires := Some (now + seconds), jb_heartbeat := Some now,
       jb_attempts := jb_attempts j + 1\<rparr>"

definition grant :: "job \<Rightarrow> string \<Rightarrow> store \<Rightarrow> lease option step" where
  "grant j owner s =
     (case dget (st_manifests s) (jb_manifest j) of
        None \<Rightarrow> Inl (NoKey (jb_manifest j), s)
      | Some m \<Rightarrow> Inr (Some \<lparr>lz_job = jb_id j, lz_cluster = jb_cluster j, lz_owner = owner, lz_kind = jb_kind j,
                            lz_attempt = jb_attempts j, lz_manifest = m\<rparr>, s))"

fun claim_from :: "job list \<Rightarrow> string \<Rightarrow> int \<Rightarrow> int \<Rightarrow> scope \<Rightarrow> store \<Rightarrow> lease option step" where
  "claim_from [] owner seconds now sc s = Inr (None, s)"
| "claim_from (j # js) owner seconds now sc s =
     (if \<not> visible sc (jb_cluster j) then claim_from js owner seconds now sc s
      else case lease_expired j now of
        Inl e \<Rightarrow> Inl (e, s)
      | Inr expired \<Rightarrow>
          if \<not> (jb_state j = Queued \<or> expired) then claim_from js owner seconds now sc s
          else if jb_cancel j then claim_from js owner seconds now sc (set_job (release j Cancelled None) s)
          else if jb_attempts j \<ge> jb_max_attempts j then
            claim_from js owner seconds now sc
              (set_job (release j Failed (Some ''lease expired and retry budget exhausted'')) s)
          else let j' = leased_job j owner now seconds expired in grant j' owner (set_job j' s))"

definition claim :: "string \<Rightarrow> int \<Rightarrow> int \<Rightarrow> scope \<Rightarrow> store \<Rightarrow> lease option step" where
  "claim owner seconds now sc s = claim_from (sort_key jb_seq (dvals (st_jobs s))) owner seconds now sc s"

definition held :: "lease \<Rightarrow> int \<Rightarrow> store \<Rightarrow> store_exn + job option" where
  "held lz now s =
     (case dget (st_jobs s) (lz_job lz) of
        None \<Rightarrow> Inr None
      | Some j \<Rightarrow>
          if jb_cluster j \<noteq> lz_cluster lz \<or> \<not> is_held_state (jb_state j) \<or> jb_owner j \<noteq> Some (lz_owner lz) \<or>
             jb_attempts j \<noteq> lz_attempt lz then Inr None
          else rbind (expired_at j now) (\<lambda>expired. Inr (if expired then None else Some j)))"

definition with_held :: "lease \<Rightarrow> int \<Rightarrow> store \<Rightarrow> 'a \<Rightarrow> (job \<Rightarrow> 'a step) \<Rightarrow> 'a step" where
  "with_held lz now s lost f =
     (case held lz now s of Inl e \<Rightarrow> Inl (e, s) | Inr None \<Rightarrow> Inr (lost, s) | Inr (Some j) \<Rightarrow> f j)"

datatype heartbeat_status = HbOk | HbCancel | HbLost

text \<open>\<open>heartbeat\<close> reads the clock twice.\<close>

definition heartbeat :: "lease \<Rightarrow> int \<Rightarrow> int \<Rightarrow> int \<Rightarrow> store \<Rightarrow> heartbeat_status step" where
  "heartbeat lz seconds now now' s =
     with_held lz now s HbLost (\<lambda>j.
       Inr (if jb_cancel j then HbCancel else HbOk,
            set_job (j\<lparr>jb_heartbeat := Some now', jb_expires := Some (now' + seconds)\<rparr>) s))"

definition mark_running :: "lease \<Rightarrow> int \<Rightarrow> int \<Rightarrow> int \<Rightarrow> store \<Rightarrow> heartbeat_status step" where
  "mark_running lz seconds now now' s =
     (case heartbeat lz seconds now now' s of
        Inl e \<Rightarrow> Inl e
      | Inr (st, s') \<Rightarrow>
          if st = HbLost then Inr (st, s')
          else (case dget (st_jobs s') (lz_job lz) of
                  None \<Rightarrow> Inl (NoKey (lz_job lz), s')
                | Some j \<Rightarrow> Inr (st, set_job (j\<lparr>jb_state := Running\<rparr>) s')))"

definition publish :: "string \<Rightarrow> job \<Rightarrow> manifest \<Rightarrow> json \<Rightarrow> store \<Rightarrow> store" where
  "publish rid j m body s =
     set_job (release j Succeeded None)
       (s\<lparr>st_results := dset rid \<lparr>res_id = rid, res_cluster = jb_cluster j, res_case = man_case m, res_manifest = man_id m,
            res_job = Some (jb_id j), res_kind = jb_kind j, res_version = 1, res_body = body\<rparr> (st_results s),
          st_result_by_job := dset (jb_id j) rid (st_result_by_job s)\<rparr>)"

definition complete_job :: "string \<Rightarrow> lease \<Rightarrow> json \<Rightarrow> int \<Rightarrow> store \<Rightarrow> string option step" where
  "complete_job tok lz body now s =
     with_held lz now s None (\<lambda>j.
       if jb_cancel j \<or> dmem (jb_id j) (st_result_by_job s) then Inr (None, s)
       else case dget (st_manifests s) (jb_manifest j) of
         None \<Rightarrow> Inr (None, s)
       | Some m \<Rightarrow>
           if \<not> dmem (man_cluster m, man_case m) (st_cases s) then Inr (None, s)
           else if length (st_results s) \<ge> st_max_results s then
             Inr (None, set_job (release j Failed (Some (''in-memory result limit ('' @ str_of_nat (st_max_results s) @
               '') reached''))) s)
           else (case result_prefix (jb_kind j) of
                   None \<Rightarrow> Inl (NoKey (jb_kind j), s)
                 | Some p \<Rightarrow> Inr (Some (new_id p tok), publish (new_id p tok) j m body s)))"

definition failed_job :: "job \<Rightarrow> string \<Rightarrow> bool \<Rightarrow> job" where
  "failed_job j err retryable =
     (if jb_cancel j then release j Cancelled (Some err)
      else if retryable \<and> jb_attempts j < jb_max_attempts j then release j Queued (Some err)
      else release j Failed (Some err))"

definition fail_job :: "lease \<Rightarrow> string \<Rightarrow> bool \<Rightarrow> int \<Rightarrow> store \<Rightarrow> job_state option step" where
  "fail_job lz err retryable now s =
     with_held lz now s None (\<lambda>j. let j' = failed_job j err retryable in Inr (Some (jb_state j'), set_job j' s))"

definition acknowledge_cancel :: "lease \<Rightarrow> int \<Rightarrow> store \<Rightarrow> bool step" where
  "acknowledge_cancel lz now s =
     with_held lz now s False (\<lambda>j.
       if \<not> jb_cancel j then Inr (False, s) else Inr (True, set_job (release j Cancelled None) s))"

end
