(* ===== verification/Auth.thy ===== *)
theory Auth
  imports Storage
begin

text \<open>
  Who may call the API: bearer tokens signed by an OIDC provider (\<open>afterlock_api/oidc.py\<close>) and the
  static tokens, principals and concurrency limits of \<open>afterlock_api/app.py\<close>.

  The JWT library is a parameter of the definitions: reading an unverified header, making a key of a
  JWK (\<open>'k\<close> is the type of its keys), and decoding a token, which verifies the signature and the
  registered claims. A fetch of the key set and the clock readings are arguments of each call; times
  are integer ticks. Comparing a float with a time is the parameter \<open>exceeds\<close>.
\<close>

section \<open>Configuration\<close>

definition ALLOWED_ALGS :: "(string, string) dict" where
  "ALLOWED_ALGS = [(''RS256'', ''RSA''), (''ES256'', ''EC'')]"

definition ROLE_PRIORITY :: "string list" where
  "ROLE_PRIORITY = [''analyst'', ''viewer'', ''lab-operator'']"

definition MAX_TOKEN_BYTES :: int where "MAX_TOKEN_BYTES = 16 * 1024"

record oidc_config =
  oc_issuer :: string
  oc_audience :: string
  oc_jwks_url :: string
  oc_role_claim :: string
  oc_clusters_claim :: string
  oc_role_map :: "(string, string) dict"
  oc_allow_wildcard :: bool
  oc_leeway :: int
  oc_jwks_ttl :: int
  oc_jwks_min_refresh :: int
  oc_allow_insecure :: bool

datatype config_error = BadConfig string

definition check_config :: "oidc_config \<Rightarrow> config_error + unit" where
  "check_config c =
     (if oc_issuer c = [] \<or> oc_audience c = [] \<or> oc_jwks_url c = []
      then Inl (BadConfig ''OIDC issuer, audience and JWKS URL are all required'')
      else if \<not> starts_with (oc_jwks_url c) ''https://'' \<and> \<not> oc_allow_insecure c
      then Inl (BadConfig ''AFTERLOCK_OIDC_JWKS_URL must use https'')
      else if \<not> (0 \<le> oc_leeway c \<and> oc_leeway c \<le> 300)
      then Inl (BadConfig ''OIDC leeway must be within 0..300 seconds'')
      else (case filter (\<lambda>(k, v). v \<notin> set ROLE_PRIORITY \<or> k = []) (oc_role_map c) of
              [] \<Rightarrow> Inr ()
            | (k, v) # _ \<Rightarrow> Inl (BadConfig (''AFTERLOCK_OIDC_ROLE_MAP entry '' @ k @ '' -> '' @ v @ '' is invalid''))))"

text \<open>\<open>rpartition\<close> at the last colon.\<close>

definition rpartition_colon :: "string \<Rightarrow> (string \<times> string) option" where
  "rpartition_colon s =
     (if CHR '':'' \<in> set s
      then Some (rev (tl (dropWhile (\<lambda>c. c \<noteq> CHR '':'') (rev s))), rev (takeWhile (\<lambda>c. c \<noteq> CHR '':'') (rev s)))
      else None)"

definition entries_of :: "string \<Rightarrow> string list" where
  "entries_of spec = map strip (filter (\<lambda>x. strip x \<noteq> []) (split_on CHR '','' spec))"

definition role_entry :: "string \<Rightarrow> (string, string) dict \<Rightarrow> config_error + (string, string) dict" where
  "role_entry entry m =
     (case rpartition_colon entry of
        None \<Rightarrow> Inl (BadConfig (''AFTERLOCK_OIDC_ROLE_MAP entry '' @ entry @ '' must be <claim-value>:<role>''))
      | Some (value, role) \<Rightarrow> Inr (dset value role m))"

definition role_map_of :: "string \<Rightarrow> config_error + (string, string) dict" where
  "role_map_of spec = for_each role_entry (entries_of spec) []"

section \<open>The key set\<close>

record 'k jwk =
  jwk_type :: string
  jwk_key :: 'k

record 'k jwks =
  jk_keys :: "(string, 'k jwk) dict"
  jk_fetched :: "int option"
  jk_attempted :: "int option"

definition no_keys :: "'k jwks" where
  "no_keys = \<lparr>jk_keys = [], jk_fetched = None, jk_attempted = None\<rparr>"

datatype oidc_exn = OIDCError string | TypeError

definition usable_jwk :: "(string, json) dict \<Rightarrow> bool" where
  "usable_jwk m \<longleftrightarrow> (jget m ''kty'' = JStr ''RSA'' \<or> jget m ''kty'' = JStr ''EC'') \<and>
     (case dget m ''use'' of None \<Rightarrow> True | Some u \<Rightarrow> u = JStr ''sig'')"

definition add_key :: "((string, json) dict \<Rightarrow> 'k jwk option) \<Rightarrow> json \<Rightarrow> (string, 'k jwk) dict \<Rightarrow> (string, 'k jwk) dict" where
  "add_key from_dict x keys =
     (case x of
        JObj m \<Rightarrow>
          if \<not> usable_jwk m then keys
          else (case jget m ''kid'' of
                  JStr kid \<Rightarrow>
                    if kid = [] then keys
                    else (case from_dict m of None \<Rightarrow> keys | Some k \<Rightarrow> dset kid k keys)
                | _ \<Rightarrow> keys)
      | _ \<Rightarrow> keys)"

definition refresh :: "((string, json) dict \<Rightarrow> 'k jwk option) \<Rightarrow> (string, json) dict \<Rightarrow> int \<Rightarrow> 'k jwks \<Rightarrow> 'k jwks" where
  "refresh from_dict doc now st =
     st\<lparr>jk_keys := fold (add_key from_dict) (case jget doc ''keys'' of JList xs \<Rightarrow> xs | _ \<Rightarrow> []) [],
        jk_fetched := Some now\<rparr>"

definition stale :: "oidc_config \<Rightarrow> int \<Rightarrow> 'k jwks \<Rightarrow> bool" where
  "stale cfg now st \<longleftrightarrow> (case jk_fetched st of None \<Rightarrow> True | Some t \<Rightarrow> now - t \<ge> oc_jwks_ttl cfg)"

definition recently_tried :: "oidc_config \<Rightarrow> int \<Rightarrow> 'k jwks \<Rightarrow> bool" where
  "recently_tried cfg now st \<longleftrightarrow> (case jk_attempted st of None \<Rightarrow> False | Some t \<Rightarrow> now - t < oc_jwks_min_refresh cfg)"

definition must_fetch :: "oidc_config \<Rightarrow> string \<Rightarrow> int \<Rightarrow> 'k jwks \<Rightarrow> bool" where
  "must_fetch cfg kid now st \<longleftrightarrow> \<not> recently_tried cfg now st \<and> (stale cfg now st \<or> \<not> dmem kid (jk_keys st))"

text \<open>
  What the outside gives a call: the clock when it starts and after the fetch, what the fetch
  returns (the name of an exception or a document), and, for a token, the clock after decoding.
\<close>

record surroundings =
  at_start :: int
  at_fetch :: int
  at_end :: int
  fetched :: "string + (string, json) dict"

definition key_of ::
  "((string, json) dict \<Rightarrow> 'k jwk option) \<Rightarrow> oidc_config \<Rightarrow> surroundings \<Rightarrow> string \<Rightarrow> 'k jwks \<Rightarrow> (oidc_exn + 'k jwk) \<times> 'k jwks" where
  "key_of from_dict cfg env kid st =
     (let got = (\<lambda>s. (case dget (jk_keys s) kid of None \<Rightarrow> Inl (OIDCError ''unknown signing key'') | Some k \<Rightarrow> Inr k, s)) in
      if must_fetch cfg kid (at_start env) st
      then let st1 = st\<lparr>jk_attempted := Some (at_start env)\<rparr> in
        (case fetched env of
           Inr doc \<Rightarrow> got (refresh from_dict doc (at_fetch env) st1)
         | Inl e \<Rightarrow> if jk_fetched st1 = None then (Inl (OIDCError (''JWKS unavailable: '' @ e)), st1) else got st1)
      else got st)"

section \<open>Validation of a token\<close>

record identity =
  id_subject :: string
  id_role :: string
  id_clusters :: "string set"

definition role_of :: "oidc_config \<Rightarrow> (string, json) dict \<Rightarrow> oidc_exn + string" where
  "role_of cfg claims =
     (let values = (case jget claims (oc_role_claim cfg) of
          JStr s \<Rightarrow> [s]
        | JList vs \<Rightarrow> List.map_filter (\<lambda>v. case v of JStr s \<Rightarrow> Some s | _ \<Rightarrow> None) vs
        | _ \<Rightarrow> []);
          roles = (if oc_role_map cfg \<noteq> [] then List.map_filter (dget (oc_role_map cfg)) values else values) in
      case filter (\<lambda>r. r \<in> set roles) ROLE_PRIORITY of
        [] \<Rightarrow> Inl (OIDCError ''no recognised role claim'')
      | r # _ \<Rightarrow> Inr r)"

definition cluster_values :: "json \<Rightarrow> oidc_exn + string list" where
  "cluster_values raw =
     (case raw of
        JStr s \<Rightarrow> Inr (split_on CHR ''|'' s)
      | JList vs \<Rightarrow>
          traverse (\<lambda>v. case v of JStr s \<Rightarrow> Inr s | _ \<Rightarrow> Inl (OIDCError ''missing clusters claim'')) vs
      | _ \<Rightarrow> Inl (OIDCError ''missing clusters claim''))"

definition clusters_of :: "oidc_config \<Rightarrow> (string, json) dict \<Rightarrow> oidc_exn + string set" where
  "clusters_of cfg claims =
     rbind (cluster_values (jget claims (oc_clusters_claim cfg))) (\<lambda>values.
      let clusters = set (filter (\<lambda>v. v \<noteq> [] \<and> length v \<le> 128) values) in
      if clusters = {} then Inl (OIDCError ''empty clusters claim'')
      else if ''*'' \<in> clusters \<and> \<not> oc_allow_wildcard cfg then Inl (OIDCError ''wildcard cluster claim refused'')
      else Inr clusters)"

definition issued_ok :: "(string \<Rightarrow> int \<Rightarrow> bool) \<Rightarrow> json \<Rightarrow> int \<Rightarrow> bool" where
  "issued_ok exceeds iat limit =
     (case iat of
        JInt n \<Rightarrow> n \<le> limit
      | JBool b \<Rightarrow> (if b then 1 else 0) \<le> limit
      | JFloat r \<Rightarrow> \<not> exceeds r limit
      | _ \<Rightarrow> False)"

text \<open>A \<open>sub\<close> claim that is absent is a \<open>KeyError\<close>, an algorithm that cannot be hashed a \<open>TypeError\<close>.\<close>

definition identity_of ::
  "(string \<Rightarrow> int \<Rightarrow> bool) \<Rightarrow> oidc_config \<Rightarrow> surroundings \<Rightarrow> (string, json) dict \<Rightarrow> oidc_exn + identity" where
  "identity_of exceeds cfg env claims =
     (if \<not> issued_ok exceeds (jget claims ''iat'') (at_end env + oc_leeway cfg) then Inl (OIDCError ''iat in the future'')
      else case dget claims ''sub'' of
        None \<Rightarrow> Inl TypeError
      | Some sub \<Rightarrow>
          rbind (role_of cfg claims) (\<lambda>role.
          rbind (clusters_of cfg claims) (\<lambda>clusters.
          Inr \<lparr>id_subject = py_str sub, id_role = role, id_clusters = clusters\<rparr>)))"

definition algorithm_of :: "json \<Rightarrow> oidc_exn + string \<times> string" where
  "algorithm_of alg =
     (case alg of
        JList _ \<Rightarrow> Inl TypeError
      | JObj _ \<Rightarrow> Inl TypeError
      | JStr a \<Rightarrow> (case dget ALLOWED_ALGS a of None \<Rightarrow> Inl (OIDCError (''algorithm '' @ py_repr alg @ '' not allowed'')) | Some t \<Rightarrow> Inr (a, t))
      | _ \<Rightarrow> Inl (OIDCError (''algorithm '' @ py_repr alg @ '' not allowed'')))"

definition validate ::
  "(string \<Rightarrow> int \<Rightarrow> bool) \<Rightarrow> (string \<Rightarrow> (string, json) dict option) \<Rightarrow>
     ((string, json) dict \<Rightarrow> 'k jwk option) \<Rightarrow> (string \<Rightarrow> 'k \<Rightarrow> string \<Rightarrow> string + (string, json) dict) \<Rightarrow>
     oidc_config \<Rightarrow> surroundings \<Rightarrow> string \<Rightarrow> 'k jwks \<Rightarrow> (oidc_exn + identity) \<times> 'k jwks" where
  "validate exceeds header_of from_dict decode cfg env token st =
     (if int (length token) > MAX_TOKEN_BYTES \<or> length (filter (\<lambda>c. c = CHR ''.'') token) \<noteq> 2
      then (Inl (OIDCError ''not a compact JWS''), st)
      else case header_of token of
        None \<Rightarrow> (Inl (OIDCError ''malformed header''), st)
      | Some header \<Rightarrow>
          (case algorithm_of (jget header ''alg'') of
             Inl e \<Rightarrow> (Inl e, st)
           | Inr (alg, key_type) \<Rightarrow>
               (case jget header ''kid'' of
                  JStr (c # cs) \<Rightarrow>
                    (case key_of from_dict cfg env (c # cs) st of
                       (Inl e, st') \<Rightarrow> (Inl e, st')
                     | (Inr k, st') \<Rightarrow>
                         (if jwk_type k \<noteq> key_type then Inl (OIDCError ''key type does not match algorithm'')
                          else (case decode token (jwk_key k) alg of
                                  Inl e \<Rightarrow> Inl (OIDCError e)
                                | Inr claims \<Rightarrow> identity_of exceeds cfg env claims), st'))
                | _ \<Rightarrow> (Inl (OIDCError ''missing kid''), st))))"

section \<open>Principals\<close>

definition ROLES :: "string list" where
  "ROLES = [''viewer'', ''analyst'', ''lab-operator'']"

record principal =
  pr_name :: string
  pr_role :: string
  pr_clusters :: "string set"

definition may_read :: "principal \<Rightarrow> string \<Rightarrow> bool" where
  "may_read p cluster \<longleftrightarrow> cluster \<in> pr_clusters p \<or> ''*'' \<in> pr_clusters p"

definition may_analyze :: "principal \<Rightarrow> string \<Rightarrow> bool" where
  "may_analyze p cluster \<longleftrightarrow> pr_role p = ''analyst'' \<and> may_read p cluster"

definition scope_of :: "principal \<Rightarrow> scope" where
  "scope_of p = scope_for (pr_clusters p)"

definition token_entry :: "(string \<Rightarrow> string) \<Rightarrow> nat \<times> string \<Rightarrow> (string, principal) dict \<Rightarrow> config_error + (string, principal) dict" where
  "token_entry sha256 ie out =
     (case ie of (i, entry) \<Rightarrow>
      case split_on CHR '':'' entry of
        [token, role, clusters] \<Rightarrow>
          if role \<notin> set ROLES \<or> length token < 16
          then Inl (BadConfig (''AFTERLOCK_API_TOKENS entry '' @ str_of_nat i @ '' is malformed (token must be >= 16 chars)''))
          else Inr (dset (sha256 token)
                 \<lparr>pr_name = ''principal-'' @ str_of_nat i, pr_role = role, pr_clusters = set (split_on CHR ''|'' clusters)\<rparr> out)
      | _ \<Rightarrow> Inl (BadConfig (''AFTERLOCK_API_TOKENS entry '' @ str_of_nat i @ '' is malformed (token must be >= 16 chars)'')))"

definition parse_tokens :: "(string \<Rightarrow> string) \<Rightarrow> string \<Rightarrow> config_error + (string, principal) dict" where
  "parse_tokens sha256 spec = for_each (token_entry sha256) (enumerate 0 (entries_of spec)) []"

datatype http_error = HttpError int string | ServerError

text \<open>
  \<open>principal\<close>: the static tokens by their digest first, then the OIDC provider, when there is one.
  \<open>check\<close> is its \<open>validate\<close> for the request, a function of the key set.
\<close>

definition authenticate ::
  "(string \<Rightarrow> string) \<Rightarrow> (string, principal) dict \<Rightarrow> (string \<Rightarrow> 'k jwks \<Rightarrow> (oidc_exn + identity) \<times> 'k jwks) option \<Rightarrow>
     string option \<Rightarrow> 'k jwks \<Rightarrow> (http_error + principal) \<times> 'k jwks" where
  "authenticate sha256 tokens check header st =
     (case header of
        None \<Rightarrow> (Inl (HttpError 401 ''missing bearer token''), st)
      | Some h \<Rightarrow>
          if \<not> starts_with h ''Bearer '' then (Inl (HttpError 401 ''missing bearer token''), st)
          else let token = drop 7 h in
            (case dget tokens (sha256 token) of
               Some p \<Rightarrow> (Inr p, st)
             | None \<Rightarrow>
                 (case check of
                    None \<Rightarrow> (Inl (HttpError 401 ''invalid token''), st)
                  | Some validated \<Rightarrow>
                      (case validated token st of
                         (Inl (OIDCError _), st') \<Rightarrow> (Inl (HttpError 401 ''invalid token''), st')
                       | (Inl TypeError, st') \<Rightarrow> (Inl ServerError, st')
                       | (Inr ident, st') \<Rightarrow>
                           (Inr \<lparr>pr_name = ''oidc:'' @ take 200 (id_subject ident), pr_role = id_role ident,
                              pr_clusters = id_clusters ident\<rparr>, st')))))"

section \<open>Limits\<close>

record limiter =
  lm_what :: string
  lm_per_principal :: nat
  lm_total :: nat
  lm_held :: "(string, nat) dict"

definition held_by :: "limiter \<Rightarrow> string \<Rightarrow> nat" where
  "held_by l name = (case dget (lm_held l) name of None \<Rightarrow> 0 | Some n \<Rightarrow> n)"

definition slots_held :: "limiter \<Rightarrow> nat" where
  "slots_held l = sum_list (dvals (lm_held l))"

definition acquire :: "string \<Rightarrow> limiter \<Rightarrow> http_error + limiter" where
  "acquire name l =
     (if held_by l name \<ge> lm_per_principal l \<or> slots_held l \<ge> lm_total l
      then Inl (HttpError 429 (''too many concurrent '' @ lm_what l @ '' requests''))
      else Inr (l\<lparr>lm_held := dset name (held_by l name + 1) (lm_held l)\<rparr>))"

definition release_slot :: "string \<Rightarrow> limiter \<Rightarrow> limiter" where
  "release_slot name l =
     (let left = int (held_by l name) - 1 in
      if left > 0 then l\<lparr>lm_held := dset name (nat left) (lm_held l)\<rparr>
      else l\<lparr>lm_held := ddel name (lm_held l)\<rparr>)"

text \<open>
  \<open>BodyLimit\<close>: what the application gets to see of the chunks the client sends. \<open>None\<close> is a body
  that is still being sent, \<open>Gone\<close> a client that left.
\<close>

datatype body_outcome = TooLarge | Gone | Body string

datatype body_message = Chunk string bool | Disconnect

definition is_digits :: "string \<Rightarrow> bool" where
  "is_digits s \<longleftrightarrow> s \<noteq> [] \<and> list_all (\<lambda>c. c \<in> set ''0123456789'') s"

fun read_chunks :: "int \<Rightarrow> string \<Rightarrow> body_message list \<Rightarrow> body_outcome option" where
  "read_chunks max_bytes seen [] = None"
| "read_chunks max_bytes seen (Disconnect # ms) = Some Gone"
| "read_chunks max_bytes seen (Chunk c going_on # ms) =
     (if int (length (seen @ c)) > max_bytes then Some TooLarge
      else if going_on then read_chunks max_bytes (seen @ c) ms
      else Some (Body (seen @ c)))"

definition limited_body :: "int \<Rightarrow> string option \<Rightarrow> body_message list \<Rightarrow> body_outcome option" where
  "limited_body max_bytes content_length ms =
     (case content_length of
        None \<Rightarrow> read_chunks max_bytes [] ms
      | Some l \<Rightarrow>
          if \<not> is_digits l \<or> (case py_int l of None \<Rightarrow> True | Some n \<Rightarrow> n > max_bytes) then Some TooLarge
          else read_chunks max_bytes [] ms)"

end
