(* ===== verification/Api.thy ===== *)
theory Api
  imports Auth Projection Results Replay Planner
begin

text \<open>
  The routes of \<open>afterlock_api/app.py\<close> over the in-memory store. A handler runs after the framework
  has checked the shape of the request (its arguments are of the declared types and within the
  declared limits); it returns a response or an HTTP error, and the store it leaves behind.
\<close>

section \<open>Requests and responses\<close>

record settings =
  sg_docs :: string
  sg_verify_max_states :: int
  sg_sse_max_seconds :: int
  sg_sse_heartbeat_seconds :: int

definition DOCS_MODES :: "string list" where
  "DOCS_MODES = [''off'', ''authenticated'', ''public'']"

definition MAX_VERIFY_STATES :: int where "MAX_VERIFY_STATES = 50000"

definition check_settings :: "settings \<Rightarrow> config_error + unit" where
  "check_settings c =
     (if sg_docs c \<notin> set DOCS_MODES then Inl (BadConfig ''AFTERLOCK_API_DOCS'')
      else if \<not> (1 \<le> sg_verify_max_states c \<and> sg_verify_max_states c \<le> MAX_VERIFY_STATES)
      then Inl (BadConfig ''AFTERLOCK_VERIFY_MAX_STATES'')
      else if \<not> (0 < sg_sse_max_seconds c \<and> sg_sse_max_seconds c \<le> 3600) then Inl (BadConfig ''AFTERLOCK_SSE_MAX_SECONDS'')
      else Inr ())"

record inline_bundle =
  ib_case_id :: string
  ib_cluster :: string
  ib_inventory :: "(string, json) dict"
  ib_case :: "(string, json) dict"
  ib_events :: "json list"

record analysis_request =
  aq_remediation :: "json list option"
  aq_mode :: mode

record plan_request =
  pq_max_length :: int
  pq_max_evaluations :: int

datatype response =
    CaseCreated string json json
  | CaseList "string list" "(string \<times> string) list" nat
  | CaseDetail string string json json
  | AnalysisDone string json
  | AnalysisDetail string string json
  | Verified "(string, problem list) dict" "(string \<times> ref_view_report) list"
  | Planned plan_report
  | JobAccepted string job_state string
  | JobDetail job_view

type_synonym 'a reply = "http_error + 'a"

text \<open>
  What the handlers take from outside: SHA-256, reading and writing JSON text, reading a timestamp,
  the profiles on disk, the version of the engine and the random token of this request.
\<close>

record services =
  sv_sha256 :: "string \<Rightarrow> string"
  sv_json_pairs :: "string \<Rightarrow> json option"
  sv_dumps :: "json \<Rightarrow> string"
  sv_fromiso :: "string \<Rightarrow> iso_time"
  sv_profiles :: "(string, (string, json) dict) dict"
  sv_engine :: string
  sv_token :: string

section \<open>Errors\<close>

fun store_error :: "store_exn \<Rightarrow> http_error" where
  "store_error (StorageFull what) = HttpError 507 what"
| "store_error (AmbiguousCase cid) = HttpError 409 cid"
| "store_error _ = ServerError"

definition read_store :: "store_exn + 'a \<Rightarrow> 'a reply" where
  "read_store r = (case r of Inl e \<Rightarrow> Inl (store_error e) | Inr x \<Rightarrow> Inr x)"

definition found :: "string \<Rightarrow> 'a option \<Rightarrow> 'a reply" where
  "found what x = (case x of None \<Rightarrow> Inl (HttpError 404 (what @ '' not found'')) | Some y \<Rightarrow> Inr y)"

definition invalid_input :: "'e + 'a \<Rightarrow> 'a reply" where
  "invalid_input r = (case r of Inl _ \<Rightarrow> Inl (HttpError 422 ''invalid_input'') | Inr x \<Rightarrow> Inr x)"

definition internal :: "'e + 'a \<Rightarrow> 'a reply" where
  "internal r = (case r of Inl _ \<Rightarrow> Inl ServerError | Inr x \<Rightarrow> Inr x)"

definition only_analysts :: "principal \<Rightarrow> string \<Rightarrow> unit reply" where
  "only_analysts p cluster =
     (if may_analyze p cluster then Inr () else Inl (HttpError 403 ''analyst role for this cluster required''))"

fun compile_error :: "evidence_error \<Rightarrow> http_error" where
  "compile_error Raised = ServerError"
| "compile_error _ = HttpError 422 ''invalid_input''"

text \<open>A handler that calls the store last: what the checks before it return decides whether it is called.\<close>

definition calling :: "'a reply \<Rightarrow> ('a \<Rightarrow> store \<Rightarrow> 'b step) \<Rightarrow> ('a \<Rightarrow> 'b \<Rightarrow> response reply) \<Rightarrow> store \<Rightarrow> response reply \<times> store" where
  "calling checks call answer s =
     (case checks of
        Inl e \<Rightarrow> (Inl e, s)
      | Inr x \<Rightarrow>
          (case call x s of
             Inl (e, t) \<Rightarrow> (Inl (store_error e), t)
           | Inr (y, t) \<Rightarrow> (answer x y, t)))"

definition object_of :: "json \<Rightarrow> (string, json) dict reply" where
  "object_of v = (case v of JObj m \<Rightarrow> Inr m | _ \<Rightarrow> Inl ServerError)"

section \<open>Cases\<close>

definition case_for :: "string \<Rightarrow> principal \<Rightarrow> string option \<Rightarrow> store \<Rightarrow> stored_case reply" where
  "case_for cid p cluster s = rbind (read_store (get_case cid (scope_of p) cluster s)) (found ''case'')"

definition analysis_for :: "string \<Rightarrow> principal \<Rightarrow> store \<Rightarrow> analysis_view reply" where
  "analysis_for rid p s = rbind (read_store (get_analysis rid (scope_of p) s)) (found ''analysis'')"

definition job_for :: "string \<Rightarrow> principal \<Rightarrow> store \<Rightarrow> job_view reply" where
  "job_for jid p s = rbind (read_store (get_job jid (scope_of p) s)) (found ''job'')"

definition inline_replay :: "services \<Rightarrow> inline_bundle \<Rightarrow> replay_bundle" where
  "inline_replay sv b =
     \<lparr>bn_manifest = [(''schema'', JStr ''afterlock.replay/1''), (''case_id'', JStr (ib_case_id b)),
        (''cluster_id'', JStr (ib_cluster b))],
      bn_inventory = ib_inventory b, bn_case = ib_case b, bn_lines = map (sv_dumps sv) (ib_events b)\<rparr>"

definition compiled_case :: "services \<Rightarrow> principal \<Rightarrow> inline_bundle \<Rightarrow> stored_case reply" where
  "compiled_case sv p b =
     rbind (only_analysts p (ib_cluster b)) (\<lambda>_.
     case project (sv_sha256 sv) (sv_json_pairs sv) (sv_fromiso sv) (sv_profiles sv) (inline_replay sv b) of
       Inl e \<Rightarrow> Inl (compile_error e)
     | Inr (raw, diag) \<Rightarrow>
         Inr \<lparr>cs_id = ib_case_id b, cs_cluster = ib_cluster b, cs_input = raw, cs_diagnostics = diagnostics_json diag,
              cs_hash = []\<rparr>)"

definition post_case :: "services \<Rightarrow> principal \<Rightarrow> inline_bundle \<Rightarrow> store \<Rightarrow> response reply \<times> store" where
  "post_case sv p b =
     calling (compiled_case sv p b) (create_case (sv_sha256 sv))
       (\<lambda>c created. if \<not> created then Inl (HttpError 409 ''case already exists in this cluster'')
         else rbind (object_of (cs_input c)) (\<lambda>raw.
           Inr (CaseCreated (cs_id c) (cs_diagnostics c) (jget raw ''coverage_gaps''))))"

definition get_cases :: "principal \<Rightarrow> int \<Rightarrow> int \<Rightarrow> store \<Rightarrow> response reply" where
  "get_cases p limit offset s =
     (if \<not> (1 \<le> limit \<and> limit \<le> 200) \<or> offset < 0 then Inl (HttpError 422 ''invalid pagination'')
      else let page = take (nat limit) (drop (nat offset) (list_cases (scope_of p) s)) in
        Inr (CaseList (map fst page) page (length (list_case_ids (scope_of p) s))))"

definition read_case :: "principal \<Rightarrow> string \<Rightarrow> string option \<Rightarrow> store \<Rightarrow> response reply" where
  "read_case p cid cluster s =
     rbind (case_for cid p cluster s) (\<lambda>c. Inr (CaseDetail cid (cs_cluster c) (cs_input c) (cs_diagnostics c)))"

section \<open>Analyses\<close>

definition requested_input ::
  "services \<Rightarrow> principal \<Rightarrow> string \<Rightarrow> analysis_request \<Rightarrow> string option \<Rightarrow> store \<Rightarrow>
     (stored_case \<times> (string, json) dict \<times> analysis_input) reply" where
  "requested_input sv p cid rq cluster s =
     rbind (case_for cid p cluster s) (\<lambda>c.
     rbind (only_analysts p (cs_cluster c)) (\<lambda>_.
     rbind (object_of (cs_input c)) (\<lambda>m.
     let raw = (case aq_remediation rq of None \<Rightarrow> m | Some r \<Rightarrow> dset ''remediation'' (JList r) m) in
     rbind (invalid_input (parse_analysis_input (sv_sha256 sv) (JObj raw))) (\<lambda>inp. Inr (c, raw, inp)))))"

definition analysis_payload :: "(string, json) dict \<Rightarrow> mode \<Rightarrow> (string, json) dict" where
  "analysis_payload raw md = [(''input'', JObj raw), (''mode'', JStr (mode_name md))]"

definition post_analysis ::
  "services \<Rightarrow> principal \<Rightarrow> string \<Rightarrow> analysis_request \<Rightarrow> string option \<Rightarrow> store \<Rightarrow> response reply \<times> store" where
  "post_analysis sv p cid rq cluster s =
     calling
       (rbind (requested_input sv p cid rq cluster s) (\<lambda>(c, raw, inp).
        rbind (internal (analyze inp (aq_mode rq))) (\<lambda>b.
        rbind (internal (build_manifest (sv_sha256 sv) (sv_engine sv) (cs_cluster c) cid ''analysis''
                 (analysis_payload raw (aq_mode rq)))) (\<lambda>m.
        Inr (m, bundle_json (sv_sha256 sv) b)))))
       (\<lambda>(m, doc). record_analysis (sv_token sv) m doc)
       (\<lambda>(m, doc) rid. Inr (AnalysisDone rid doc)) s"

definition read_analysis :: "principal \<Rightarrow> string \<Rightarrow> store \<Rightarrow> response reply" where
  "read_analysis p rid s =
     rbind (analysis_for rid p s) (\<lambda>a. Inr (AnalysisDetail rid (av_case a) (av_result a)))"

text \<open>\<open>heavy.slot\<close>: the slot is given back whatever the block does.\<close>

definition with_slot :: "string \<Rightarrow> response reply \<Rightarrow> limiter \<Rightarrow> response reply \<times> limiter" where
  "with_slot name block l =
     (case acquire name l of Inl e \<Rightarrow> (Inl e, l) | Inr l' \<Rightarrow> (block, release_slot name l'))"

definition gated :: "'a reply \<Rightarrow> principal \<Rightarrow> ('a \<Rightarrow> response reply) \<Rightarrow> limiter \<Rightarrow> response reply \<times> limiter" where
  "gated checks p block l = (case checks of Inl e \<Rightarrow> (Inl e, l) | Inr x \<Rightarrow> with_slot (pr_name p) (block x) l)"

definition post_verification ::
  "settings \<Rightarrow> principal \<Rightarrow> string \<Rightarrow> store \<Rightarrow> limiter \<Rightarrow> response reply \<times> limiter" where
  "post_verification cfg p rid s =
     gated (rbind (analysis_for rid p s) (\<lambda>a. rbind (only_analysts p (av_cluster a)) (\<lambda>_. Inr a))) p
       (\<lambda>a.
        rbind (object_of (av_input a)) (\<lambda>raw.
        rbind (object_of (av_result a)) (\<lambda>result.
        rbind (internal (verify_witnesses raw result)) (\<lambda>ws.
        rbind (internal (explore raw (default_limits\<lparr>rl_max_states := nat (sg_verify_max_states cfg)\<rparr>))) (\<lambda>ex.
        Inr (Verified ws ex))))))"

definition post_plan ::
  "services \<Rightarrow> principal \<Rightarrow> string \<Rightarrow> plan_request \<Rightarrow> string option \<Rightarrow> store \<Rightarrow> limiter \<Rightarrow> response reply \<times> limiter" where
  "post_plan sv p cid rq cluster s =
     gated
       (rbind (case_for cid p cluster s) (\<lambda>c.
        rbind (only_analysts p (cs_cluster c)) (\<lambda>_. invalid_input (parse_analysis_input (sv_sha256 sv) (cs_input c)))))
       p
       (\<lambda>inp.
        rbind (internal (plan (sv_sha256 sv) inp
          (default_config\<lparr>pc_max_length := pq_max_length rq, pc_max_evaluations := pq_max_evaluations rq\<rparr>) None)) (\<lambda>r.
        Inr (Planned r)))"

section \<open>Jobs\<close>

text \<open>
  \<open>enqueue\<close>: with the in-process worker the response also schedules \<open>Worker.drain\<close>, which runs
  after it as any other worker.
\<close>

definition post_job :: "services \<Rightarrow> principal \<Rightarrow> int \<Rightarrow> manifest reply \<Rightarrow> store \<Rightarrow> response reply \<times> store" where
  "post_job sv p attempts m =
     calling m (\<lambda>m. enqueue (sv_token sv) m (pr_name p) attempts)
       (\<lambda>m v. Inr (JobAccepted (jv_id v) (jv_state v) (jv_manifest v)))"

definition post_analysis_job ::
  "services \<Rightarrow> principal \<Rightarrow> string \<Rightarrow> analysis_request \<Rightarrow> int \<Rightarrow> string option \<Rightarrow> store \<Rightarrow> response reply \<times> store" where
  "post_analysis_job sv p cid rq attempts cluster s =
     post_job sv p attempts
       (rbind (requested_input sv p cid rq cluster s) (\<lambda>(c, raw, inp).
        internal (build_manifest (sv_sha256 sv) (sv_engine sv) (cs_cluster c) cid ''analysis''
          (analysis_payload raw (aq_mode rq))))) s"

definition post_plan_job ::
  "services \<Rightarrow> principal \<Rightarrow> string \<Rightarrow> plan_request \<Rightarrow> int \<Rightarrow> string option \<Rightarrow> store \<Rightarrow> response reply \<times> store" where
  "post_plan_job sv p cid rq attempts cluster s =
     post_job sv p attempts
       (rbind (case_for cid p cluster s) (\<lambda>c.
        rbind (only_analysts p (cs_cluster c)) (\<lambda>_.
        internal (build_manifest (sv_sha256 sv) (sv_engine sv) (cs_cluster c) cid ''plan''
          [(''input'', cs_input c), (''max_length'', JInt (pq_max_length rq)),
           (''max_evaluations'', JInt (pq_max_evaluations rq))])))) s"

definition post_verification_job ::
  "services \<Rightarrow> principal \<Rightarrow> string \<Rightarrow> int option \<Rightarrow> store \<Rightarrow> response reply \<times> store" where
  "post_verification_job sv p rid attempts s =
     post_job sv p (case attempts of None \<Rightarrow> 3 | Some n \<Rightarrow> n)
       (rbind (analysis_for rid p s) (\<lambda>a.
        rbind (only_analysts p (av_cluster a)) (\<lambda>_.
        internal (build_manifest (sv_sha256 sv) (sv_engine sv) (av_cluster a) (av_case a) ''verification''
          [(''input'', av_input a), (''result'', av_result a), (''analysis_id'', JStr rid)])))) s"

definition read_job :: "principal \<Rightarrow> string \<Rightarrow> store \<Rightarrow> response reply" where
  "read_job p jid s = rbind (job_for jid p s) (\<lambda>v. Inr (JobDetail v))"

definition post_cancel :: "principal \<Rightarrow> string \<Rightarrow> store \<Rightarrow> response reply \<times> store" where
  "post_cancel p jid s =
     calling
       (rbind (job_for jid p s) (\<lambda>v.
        rbind (only_analysts p (jv_cluster v)) (\<lambda>_.
        if terminal (jv_state v) then Inl (HttpError 409 ''job already finished'') else Inr jid)))
       (\<lambda>jid. cancel_job jid (scope_of p))
       (\<lambda>_ out. case out of None \<Rightarrow> Inl ServerError | Some v \<Rightarrow> Inr (JobDetail v)) s"

section \<open>Progress streams\<close>

datatype sse = StateEvent nat job_view | TimeoutEvent string nat | Heartbeat

text \<open>One turn of the loop observes the clock, whether the client left, and the job afterwards.\<close>

record observation =
  ob_now :: int
  ob_gone :: bool
  ob_next :: "job_view option"

definition progress_key :: "job_view \<Rightarrow> job_state \<times> int \<times> bool \<times> string option" where
  "progress_key v = (jv_state v, jv_attempts v, jv_cancel v, jv_result_id v)"

text \<open>The events of the stream, and whether it has ended (and given its slot back).\<close>

fun job_stream ::
  "settings \<Rightarrow> int \<Rightarrow> int \<Rightarrow> nat \<Rightarrow> (job_state \<times> int \<times> bool \<times> string option) option \<Rightarrow> job_view \<Rightarrow> observation list \<Rightarrow>
     sse list \<times> bool" where
  "job_stream cfg start beat sq shown_key v obs =
     (let news = shown_key \<noteq> Some (progress_key v); sq' = (if news then sq + 1 else sq);
          shown = (if news then [StateEvent sq' v] else []) in
      if news \<and> terminal (jv_state v) then (shown, True)
      else case obs of
        [] \<Rightarrow> (shown, False)
      | ob # obs' \<Rightarrow>
          if ob_now ob - start \<ge> sg_sse_max_seconds cfg then (shown @ [TimeoutEvent (jv_id v) sq'], True)
          else let late = ob_now ob - beat \<ge> sg_sse_heartbeat_seconds cfg;
                   shown' = shown @ (if late then [Heartbeat] else []) in
            if ob_gone ob then (shown', True)
            else (case ob_next ob of
                    None \<Rightarrow> (shown', True)
                  | Some v' \<Rightarrow>
                      apfst ((@) shown') (job_stream cfg start (if late then ob_now ob else beat) sq'
                        (Some (progress_key v)) v' obs')))"

text \<open>
  \<open>job_events\<close>: a stream takes a slot before it starts and gives it back when it ends. The
  line that tells the client when to retry is left out.
\<close>

definition job_events ::
  "settings \<Rightarrow> principal \<Rightarrow> string \<Rightarrow> store \<Rightarrow> int \<Rightarrow> observation list \<Rightarrow> limiter \<Rightarrow> (http_error + sse list) \<times> limiter" where
  "job_events cfg p jid s now obs l =
     (case job_for jid p s of
        Inl e \<Rightarrow> (Inl e, l)
      | Inr v \<Rightarrow>
          (case acquire (pr_name p) l of
             Inl e \<Rightarrow> (Inl e, l)
           | Inr l' \<Rightarrow>
               (case job_stream cfg now now 0 None v obs of
                  (evs, ended) \<Rightarrow> (Inr evs, if ended then release_slot (pr_name p) l' else l'))))"

section \<open>The application\<close>

datatype request =
    CreateCase inline_bundle
  | ListCases int int
  | ReadCase string "string option"
  | RunAnalysis string analysis_request "string option"
  | ReadAnalysis string
  | VerifyAnalysis string
  | MakePlan string plan_request "string option"
  | AnalysisJob string analysis_request int "string option"
  | PlanJob string plan_request int "string option"
  | VerificationJob string "int option"
  | ReadJob string
  | CancelJob string
  | LabCall string

record 'k api =
  ap_store :: store
  ap_heavy :: limiter
  ap_keys :: "'k jwks"

definition on_store :: "(store \<Rightarrow> response reply \<times> store) \<Rightarrow> 'k api \<Rightarrow> response reply \<times> 'k api" where
  "on_store f a = (case f (ap_store a) of (r, t) \<Rightarrow> (r, a\<lparr>ap_store := t\<rparr>))"

definition on_heavy :: "(store \<Rightarrow> limiter \<Rightarrow> response reply \<times> limiter) \<Rightarrow> 'k api \<Rightarrow> response reply \<times> 'k api" where
  "on_heavy f a = (case f (ap_store a) (ap_heavy a) of (r, l) \<Rightarrow> (r, a\<lparr>ap_heavy := l\<rparr>))"

definition on_read :: "(store \<Rightarrow> response reply) \<Rightarrow> 'k api \<Rightarrow> response reply \<times> 'k api" where
  "on_read f a = (f (ap_store a), a)"

fun route :: "services \<Rightarrow> settings \<Rightarrow> principal \<Rightarrow> request \<Rightarrow> 'k api \<Rightarrow> response reply \<times> 'k api" where
  "route sv cfg p (CreateCase b) = on_store (post_case sv p b)"
| "route sv cfg p (ListCases limit offset) = on_read (get_cases p limit offset)"
| "route sv cfg p (ReadCase cid cluster) = on_read (read_case p cid cluster)"
| "route sv cfg p (RunAnalysis cid rq cluster) = on_store (post_analysis sv p cid rq cluster)"
| "route sv cfg p (ReadAnalysis rid) = on_read (read_analysis p rid)"
| "route sv cfg p (VerifyAnalysis rid) = on_heavy (post_verification cfg p rid)"
| "route sv cfg p (MakePlan cid rq cluster) = on_heavy (post_plan sv p cid rq cluster)"
| "route sv cfg p (AnalysisJob cid rq n cluster) = on_store (post_analysis_job sv p cid rq n cluster)"
| "route sv cfg p (PlanJob cid rq n cluster) = on_store (post_plan_job sv p cid rq n cluster)"
| "route sv cfg p (VerificationJob rid n) = on_store (post_verification_job sv p rid n)"
| "route sv cfg p (ReadJob jid) = on_read (read_job p jid)"
| "route sv cfg p (CancelJob jid) = on_store (post_cancel p jid)"
| "route sv cfg p (LabCall path) = Pair (Inl (HttpError 403 ''the API cannot perform lab or cluster mutations''))"

text \<open>Every route but the health check depends on the principal first.\<close>

definition serve ::
  "services \<Rightarrow> settings \<Rightarrow> (string, principal) dict \<Rightarrow> (string \<Rightarrow> 'k jwks \<Rightarrow> (oidc_exn + identity) \<times> 'k jwks) option \<Rightarrow>
     string option \<Rightarrow> request \<Rightarrow> 'k api \<Rightarrow> response reply \<times> 'k api" where
  "serve sv cfg tokens check header rq a =
     (case authenticate (sv_sha256 sv) tokens check header (ap_keys a) of
        (Inl e, keys) \<Rightarrow> (Inl e, a\<lparr>ap_keys := keys\<rparr>)
      | (Inr p, keys) \<Rightarrow> route sv cfg p rq (a\<lparr>ap_keys := keys\<rparr>))"

end
