(* ===== verification/Storage_Correct.thy ===== *)
theory Storage_Correct
  imports Storage Semantics_Correct
begin

text \<open>
  What the storage guarantees: the moves a job can make, the invariant of the store under every
  call, and the properties of leases and publication that the worker relies on.
\<close>

section \<open>Holding a lease\<close>

lemma held_iff:
  "held lz now s = Inr (Some j) \<longleftrightarrow>
     dget (st_jobs s) (lz_job lz) = Some j \<and> jb_cluster j = lz_cluster lz \<and> is_held_state (jb_state j) \<and>
     jb_owner j = Some (lz_owner lz) \<and> jb_attempts j = lz_attempt lz \<and> (\<exists>e. jb_expires j = Some e \<and> now < e)"
proof (cases "dget (st_jobs s) (lz_job lz)")
  case (Some k)
  then show ?thesis by (cases "jb_expires k") (auto simp: held_def expired_at_def)
qed (simp add: held_def)

lemma with_held_iff:
  "with_held lz now s lost f = Inr (x, t) \<longleftrightarrow>
     (held lz now s = Inr None \<and> x = lost \<and> t = s) \<or> (\<exists>j. held lz now s = Inr (Some j) \<and> f j = Inr (x, t))"
  by (auto simp: with_held_def split: sum.splits option.splits)

section \<open>Moves of a job\<close>

text \<open>Everything a call other than a publication does to an existing job.\<close>

inductive job_move :: "job \<Rightarrow> job \<Rightarrow> bool" where
  mv_cancel: "job_move j (cancelled_job j)"
| mv_lease: "jb_state j = Queued \<or> is_held_state (jb_state j) \<Longrightarrow> \<not> jb_cancel j \<Longrightarrow> jb_attempts j < jb_max_attempts j \<Longrightarrow>
    job_move j (leased_job j owner now seconds expired)"
| mv_drop: "is_held_state (jb_state j) \<Longrightarrow> jb_cancel j \<Longrightarrow> job_move j (release j Cancelled None)"
| mv_give_up: "is_held_state (jb_state j) \<Longrightarrow> job_move j (release j Failed (Some err))"
| mv_beat: "is_held_state (jb_state j) \<Longrightarrow> job_move j (j\<lparr>jb_heartbeat := Some t, jb_expires := Some e\<rparr>)"
| mv_run: "is_held_state (jb_state j) \<Longrightarrow> job_move j (j\<lparr>jb_state := Running\<rparr>)"
| mv_fail: "is_held_state (jb_state j) \<Longrightarrow> job_move j (failed_job j err retryable)"

inductive_cases job_moveE: "job_move j j'"

lemma held_not_terminal [simp]: "is_held_state st \<Longrightarrow> \<not> terminal st"
  by (cases st) simp_all

lemma held_cases: "is_held_state st \<longleftrightarrow> st = Leased \<or> st = Running"
  by (cases st) simp_all

lemma terminal_cases: "terminal st \<longleftrightarrow> st = Succeeded \<or> st = Failed \<or> st = Cancelled"
  by (cases st) simp_all

lemmas move_defs = cancelled_job_def leased_job_def release_def failed_job_def

text \<open>What a move keeps: the identity of the job, its budget, a cancellation request, a final state.\<close>

definition same_job :: "job \<Rightarrow> job \<Rightarrow> bool" where
  "same_job j j' \<longleftrightarrow> jb_id j' = jb_id j \<and> jb_cluster j' = jb_cluster j \<and> jb_manifest j' = jb_manifest j \<and>
     jb_kind j' = jb_kind j \<and> jb_max_attempts j' = jb_max_attempts j \<and> jb_created_by j' = jb_created_by j \<and>
     jb_seq j' = jb_seq j"

lemma same_job_refl [simp]: "same_job j j"
  by (simp add: same_job_def)

lemma same_job_trans: "same_job a b \<Longrightarrow> same_job b c \<Longrightarrow> same_job a c"
  by (simp add: same_job_def)

lemma job_move_same: "job_move j j' \<Longrightarrow> same_job j j'"
  by (erule job_moveE) (simp_all add: same_job_def move_defs)

lemma job_move_terminal: "job_move j j' \<Longrightarrow> terminal (jb_state j) \<Longrightarrow> j' = j"
  by (induction rule: job_move.induct) (auto simp: cancelled_job_def)

lemma job_move_keeps:
  assumes "job_move j j'"
  shows "jb_cancel j \<Longrightarrow> jb_cancel j'" and "jb_attempts j \<le> jb_attempts j'"
    and "jb_attempts j \<le> jb_max_attempts j \<Longrightarrow> jb_attempts j' \<le> jb_max_attempts j'"
    and "jb_state j' = Succeeded \<Longrightarrow> jb_state j = Succeeded"
  using assms
  by (induction rule: job_move.induct) (auto simp: move_defs held_cases split: if_splits)

section \<open>The invariant\<close>

definition job_ok :: "store \<Rightarrow> job \<Rightarrow> bool" where
  "job_ok s j \<longleftrightarrow>
     (is_held_state (jb_state j) \<longleftrightarrow> jb_owner j \<noteq> None) \<and> (is_held_state (jb_state j) \<longleftrightarrow> jb_expires j \<noteq> None) \<and>
     0 \<le> jb_attempts j \<and> jb_attempts j \<le> jb_max_attempts j \<and> 1 \<le> jb_max_attempts j \<and> jb_max_attempts j \<le> 10 \<and>
     (is_held_state (jb_state j) \<longrightarrow> 1 \<le> jb_attempts j) \<and>
     (jb_state j = Queued \<longrightarrow> \<not> jb_cancel j \<and> jb_attempts j < jb_max_attempts j) \<and>
     jb_kind j \<in> set JOB_KINDS \<and>
     (\<exists>m. dget (st_manifests s) (jb_manifest j) = Some m \<and> man_cluster m = jb_cluster j \<and> man_kind m = jb_kind j) \<and>
     (jb_state j = Succeeded \<longleftrightarrow> dmem (jb_id j) (st_result_by_job s))"

definition result_ok :: "store \<Rightarrow> result \<Rightarrow> bool" where
  "result_ok s r \<longleftrightarrow>
     (\<exists>m. dget (st_manifests s) (res_manifest r) = Some m \<and> man_cluster m = res_cluster r \<and> man_case m = res_case r \<and>
        man_kind m = res_kind r) \<and>
     (\<forall>jid. res_job r = Some jid \<longrightarrow> dget (st_result_by_job s) jid = Some (res_id r))"

definition store_ok :: "store \<Rightarrow> bool" where
  "store_ok s \<longleftrightarrow>
     keyed jb_id (st_jobs s) \<and> keyed man_id (st_manifests s) \<and> keyed res_id (st_results s) \<and>
     keyed (\<lambda>c. (cs_cluster c, cs_id c)) (st_cases s) \<and> dict_ok (st_result_by_job s) \<and>
     (\<forall>jid j. dget (st_jobs s) jid = Some j \<longrightarrow> job_ok s j) \<and>
     (\<forall>rid r. dget (st_results s) rid = Some r \<longrightarrow> result_ok s r) \<and>
     (\<forall>mid m. dget (st_manifests s) mid = Some m \<longrightarrow> dmem (man_cluster m, man_case m) (st_cases s)) \<and>
     (\<forall>jid rid. dget (st_result_by_job s) jid = Some rid \<longrightarrow>
        (\<exists>j r. dget (st_jobs s) jid = Some j \<and> dget (st_results s) rid = Some r \<and> res_job r = Some jid \<and>
           res_cluster r = jb_cluster j \<and> res_manifest r = jb_manifest j)) \<and>
     length (st_cases s) \<le> st_max_cases s \<and> length (st_results s) \<le> st_max_results s \<and> length (st_jobs s) \<le> st_max_jobs s \<and>
     (\<forall>jid j. dget (st_jobs s) jid = Some j \<longrightarrow> jb_seq j < length (st_jobs s)) \<and>
     distinct (map jb_seq (dvals (st_jobs s)))"

text \<open>A call that only moves existing jobs.\<close>

definition jobs_moved :: "store \<Rightarrow> store \<Rightarrow> bool" where
  "jobs_moved s t \<longleftrightarrow> t = s\<lparr>st_jobs := st_jobs t\<rparr> \<and> dkeys (st_jobs t) = dkeys (st_jobs s) \<and>
     (\<forall>jid j. dget (st_jobs s) jid = Some j \<longrightarrow> (\<exists>j'. dget (st_jobs t) jid = Some j' \<and> job_move\<^sup>*\<^sup>* j j'))"

lemma jobs_moved_refl [simp]: "jobs_moved s s"
  by (auto simp: jobs_moved_def)

lemma jobs_moved_trans: "jobs_moved s t \<Longrightarrow> jobs_moved t u \<Longrightarrow> jobs_moved s u"
proof -
  assume s: "jobs_moved s t" and t: "jobs_moved t u"
  have "u = s\<lparr>st_jobs := st_jobs u\<rparr>"
  proof -
    have "u = t\<lparr>st_jobs := st_jobs u\<rparr>" "t = s\<lparr>st_jobs := st_jobs t\<rparr>" using s t by (simp_all add: jobs_moved_def)
    then show ?thesis by (metis store.update_convs(6) store.surjective)
  qed
  moreover have "\<exists>j''. dget (st_jobs u) jid = Some j'' \<and> job_move\<^sup>*\<^sup>* j j''" if j: "dget (st_jobs s) jid = Some j" for jid j
  proof -
    from s j obtain j' where j': "dget (st_jobs t) jid = Some j'" "job_move\<^sup>*\<^sup>* j j'" unfolding jobs_moved_def by blast
    with t obtain j'' where "dget (st_jobs u) jid = Some j''" "job_move\<^sup>*\<^sup>* j' j''" unfolding jobs_moved_def by blast
    with j'(2) show ?thesis by (blast intro: rtranclp_trans)
  qed
  ultimately show ?thesis using s t by (simp add: jobs_moved_def)
qed

lemma dkeys_dset_old: "dmem k d \<Longrightarrow> dkeys (dset k v d) = dkeys d"
  by (induction d) auto

lemma set_job_moved:
  assumes "dget (st_jobs s) (jb_id j) = Some j" and "job_move j j'"
  shows "jobs_moved s (set_job j' s)"
proof -
  have "jb_id j' = jb_id j" using job_move_same[OF assms(2)] by (simp add: same_job_def)
  then show ?thesis using assms by (auto simp: jobs_moved_def set_job_def dkeys_dset_old)
qed

lemma jobs_moved_same:
  assumes "jobs_moved s t" and "dget (st_jobs s) jid = Some j"
  obtains j' where "dget (st_jobs t) jid = Some j'" "job_move\<^sup>*\<^sup>* j j'" "same_job j j'"
proof -
  from assms obtain j' where j': "dget (st_jobs t) jid = Some j'" "job_move\<^sup>*\<^sup>* j j'" unfolding jobs_moved_def by blast
  from j'(2) have "same_job j j'" by induction (auto intro: same_job_trans job_move_same)
  with j' show thesis by (rule that)
qed

lemma job_move_ok: "job_move j j' \<Longrightarrow> job_ok s j \<Longrightarrow> job_ok s j'"
  by (induction rule: job_move.induct) (auto simp: job_ok_def move_defs held_cases split: if_splits)

lemma job_moves_ok: "job_move\<^sup>*\<^sup>* j j' \<Longrightarrow> job_ok s j \<Longrightarrow> job_ok s j'"
  by (induction rule: rtranclp_induct) (auto intro: job_move_ok)

lemma dvals_lookup:
  assumes "dict_ok d"
  shows "map f (dvals d) = map (\<lambda>k. f (the (dget d k))) (dkeys d)"
proof -
  have "f (snd e) = f (the (dget d (fst e)))" if "e \<in> set d" for e
    using map_of_is_SomeI[OF assms, of "fst e" "snd e"] that by simp
  then show ?thesis by simp
qed

lemma jobs_moved_frame:
  assumes "jobs_moved s t"
  shows "st_manifests t = st_manifests s" "st_results t = st_results s" "st_cases t = st_cases s"
    "st_result_by_job t = st_result_by_job s" "st_max_cases t = st_max_cases s" "st_max_results t = st_max_results s"
    "st_max_jobs t = st_max_jobs s"
proof -
  have t: "t = s\<lparr>st_jobs := st_jobs t\<rparr>" using assms by (simp add: jobs_moved_def)
  show "st_manifests t = st_manifests s" "st_results t = st_results s" "st_cases t = st_cases s"
    "st_result_by_job t = st_result_by_job s" "st_max_cases t = st_max_cases s" "st_max_results t = st_max_results s"
    "st_max_jobs t = st_max_jobs s"
    using arg_cong[OF t, of st_manifests] arg_cong[OF t, of st_results] arg_cong[OF t, of st_cases]
      arg_cong[OF t, of st_result_by_job] arg_cong[OF t, of st_max_cases] arg_cong[OF t, of st_max_results]
      arg_cong[OF t, of st_max_jobs] by simp_all
qed

lemma jobs_moved_ok:
  assumes ok: "store_ok s" and mv: "jobs_moved s t"
  shows "store_ok t"
proof -
  have keys: "dkeys (st_jobs t) = dkeys (st_jobs s)" using mv by (simp add: jobs_moved_def)
  have dict: "dict_ok (st_jobs s)" "dict_ok (st_jobs t)" using ok keys by (simp_all add: store_ok_def keyed_def)
  note fields = jobs_moved_frame[OF mv]
  have len: "length (st_jobs t) = length (st_jobs s)" using arg_cong[OF keys, of length] by simp
  have old: "\<exists>j. dget (st_jobs s) jid = Some j \<and> job_move\<^sup>*\<^sup>* j j' \<and> same_job j j'" if j: "dget (st_jobs t) jid = Some j'" for jid j'
  proof -
    from j have "jid \<in> set (dkeys (st_jobs s))" unfolding keys[symmetric] by (force dest: map_of_SomeD)
    then obtain j where "dget (st_jobs s) jid = Some j" by auto
    with jobs_moved_same[OF mv this] j show ?thesis by auto
  qed
  have key: "jb_id j' = jid" if "dget (st_jobs t) jid = Some j'" for jid j'
    using old[OF that] ok by (auto simp: store_ok_def same_job_def dest: keyed_dget)
  have keyed: "keyed jb_id (st_jobs t)"
    unfolding keyed_def using dict(2) key map_of_is_SomeI[OF dict(2)] by blast
  have "map jb_seq (dvals (st_jobs t)) = map jb_seq (dvals (st_jobs s))"
    unfolding dvals_lookup[OF dict(1)] dvals_lookup[OF dict(2)] keys
  proof (rule map_cong[OF refl])
    fix k assume "k \<in> set (dkeys (st_jobs s))"
    then obtain j where j: "dget (st_jobs s) k = Some j" by auto
    obtain j' where "dget (st_jobs t) k = Some j'" "same_job j j'" by (rule jobs_moved_same[OF mv j])
    with j show "jb_seq (the (dget (st_jobs t) k)) = jb_seq (the (dget (st_jobs s) k))" by (simp add: same_job_def)
  qed
  moreover have "job_ok t j'" if "dget (st_jobs t) jid = Some j'" for jid j'
  proof -
    from old[OF that] obtain j where "dget (st_jobs s) jid = Some j" "job_move\<^sup>*\<^sup>* j j'" by blast
    then have "job_ok s j'" using ok job_moves_ok by (auto simp: store_ok_def)
    then show ?thesis unfolding job_ok_def fields .
  qed
  moreover have "\<exists>j' r. dget (st_jobs t) jid = Some j' \<and> dget (st_results t) rid = Some r \<and> res_job r = Some jid \<and>
      res_cluster r = jb_cluster j' \<and> res_manifest r = jb_manifest j'"
    if "dget (st_result_by_job t) jid = Some rid" for jid rid
  proof -
    from that ok obtain j r where j: "dget (st_jobs s) jid = Some j" "dget (st_results s) rid = Some r" "res_job r = Some jid"
        "res_cluster r = jb_cluster j" "res_manifest r = jb_manifest j"
      unfolding fields store_ok_def by blast
    from jobs_moved_same[OF mv j(1)] obtain j' where "dget (st_jobs t) jid = Some j'" "same_job j j'" by blast
    with j show ?thesis by (auto simp: fields same_job_def)
  qed
  moreover have "jb_seq j' < length (st_jobs t)" if "dget (st_jobs t) jid = Some j'" for jid j'
    using old[OF that] ok by (auto simp: store_ok_def same_job_def len)
  ultimately show ?thesis using ok keyed by (simp add: store_ok_def fields len result_ok_def)
qed

section \<open>The calls that move jobs\<close>

lemma store_okD:
  assumes "store_ok s"
  shows "keyed jb_id (st_jobs s)" "dget (st_jobs s) jid = Some j \<Longrightarrow> jb_id j = jid"
    "dget (st_jobs s) jid = Some j \<Longrightarrow> job_ok s j"
    "dget (st_manifests s) mid = Some m \<Longrightarrow> dmem (man_cluster m, man_case m) (st_cases s) \<and> man_id m = mid"
    "dget (st_results s) rid = Some r \<Longrightarrow> result_ok s r"
  using assms by (auto simp: store_ok_def dest: keyed_dget)

lemma held_current: "held lz now s = Inr (Some j) \<Longrightarrow> store_ok s \<Longrightarrow> dget (st_jobs s) (jb_id j) = Some j \<and> jb_id j = lz_job lz"
  by (auto simp: held_iff store_okD)

lemma with_held_moved:
  assumes "with_held lz now s lost f = Inr (x, t)" and "store_ok s"
    and "\<And>j. held lz now s = Inr (Some j) \<Longrightarrow> dget (st_jobs s) (jb_id j) = Some j \<Longrightarrow> is_held_state (jb_state j) \<Longrightarrow>
      f j = Inr (x, t) \<Longrightarrow> jobs_moved s t"
  shows "jobs_moved s t"
  using assms(1) unfolding with_held_iff
proof (elim disjE exE conjE)
  fix j assume h: "held lz now s = Inr (Some j)" and f: "f j = Inr (x, t)"
  show ?thesis
    by (rule assms(3)[OF h]) (use held_current[OF h assms(2)] h f in \<open>auto simp: held_iff\<close>)
qed simp

lemma set_job_dget [simp]: "dget (st_jobs (set_job j s)) jid = (if jid = jb_id j then Some j else dget (st_jobs s) jid)"
  by (simp add: set_job_def)

lemma heartbeat_moved:
  assumes "heartbeat lz sec now now' s = Inr (x, t)" and "store_ok s"
  shows "jobs_moved s t"
  using assms(1) unfolding heartbeat_def
  by (rule with_held_moved[OF _ assms(2)]) (auto intro: set_job_moved mv_beat)

lemma heartbeat_held:
  assumes "heartbeat lz sec now now' s = Inr (x, t)" and "x \<noteq> HbLost" and "store_ok s"
  obtains j where "held lz now s = Inr (Some j)" "jb_id j = lz_job lz"
    "t = set_job (j\<lparr>jb_heartbeat := Some now', jb_expires := Some (now' + sec)\<rparr>) s" "x = (if jb_cancel j then HbCancel else HbOk)"
  using assms held_current[of lz now s] by (auto simp: heartbeat_def with_held_iff)

lemma mark_running_moved:
  assumes "mark_running lz sec now now' s = Inr (x, t)" and "store_ok s"
  shows "jobs_moved s t"
proof -
  from assms(1) obtain y s' where h: "heartbeat lz sec now now' s = Inr (y, s')"
      and rest: "(if y = HbLost then Inr (y, s') else (case dget (st_jobs s') (lz_job lz) of
                  None \<Rightarrow> Inl (NoKey (lz_job lz), s')
                | Some j \<Rightarrow> Inr (y, set_job (j\<lparr>jb_state := Running\<rparr>) s'))) = Inr (x, t)"
    by (auto simp: mark_running_def split: sum.splits)
  have m: "jobs_moved s s'" by (rule heartbeat_moved[OF h assms(2)])
  show ?thesis
  proof (cases "y = HbLost")
    case True
    with rest m show ?thesis by simp
  next
    case False
    obtain j where j: "held lz now s = Inr (Some j)" "jb_id j = lz_job lz"
        "s' = set_job (j\<lparr>jb_heartbeat := Some now', jb_expires := Some (now' + sec)\<rparr>) s"
      by (rule heartbeat_held[OF h False assms(2)])
    let ?j = "j\<lparr>jb_heartbeat := Some now', jb_expires := Some (now' + sec)\<rparr>"
    have "jobs_moved s' (set_job (?j\<lparr>jb_state := Running\<rparr>) s')"
      by (rule set_job_moved[of _ ?j]) (use j in \<open>auto simp: held_iff intro: mv_run\<close>)
    moreover have "t = set_job (?j\<lparr>jb_state := Running\<rparr>) s'" using rest False j by simp
    ultimately show ?thesis using jobs_moved_trans[OF m] by simp
  qed
qed

lemma fail_moved:
  assumes "fail_job lz err b now s = Inr (x, t)" and "store_ok s"
  shows "jobs_moved s t"
  using assms(1) unfolding fail_job_def Let_def
  by (rule with_held_moved[OF _ assms(2)]) (auto intro: set_job_moved mv_fail)

lemma acknowledge_moved:
  assumes "acknowledge_cancel lz now s = Inr (x, t)" and "store_ok s"
  shows "jobs_moved s t"
  using assms(1) unfolding acknowledge_cancel_def
  by (rule with_held_moved[OF _ assms(2)]) (auto intro: set_job_moved mv_drop split: if_splits)

lemma with_view_state [simp]: "with_view j s = Inr (v, t) \<longleftrightarrow> job_view_of j s = Inr v \<and> t = s"
  by (auto simp: with_view_def split: sum.splits)

lemma cancel_moved:
  assumes "cancel_job jid sc s = Inr (x, t)" and "store_ok s"
  shows "jobs_moved s t"
proof (cases "dget (st_jobs s) jid")
  case (Some j)
  have "dget (st_jobs s) (jb_id j) = Some j" using Some store_okD(2)[OF assms(2) Some] by simp
  with Some assms(1) set_job_moved[OF this mv_cancel] show ?thesis
    by (auto simp: cancel_job_def Let_def split: if_splits sum.splits)
qed (use assms(1) in \<open>simp add: cancel_job_def\<close>)

section \<open>Claiming\<close>

text \<open>A job that a worker may be given at a time.\<close>

definition claimable :: "int \<Rightarrow> scope \<Rightarrow> job \<Rightarrow> bool" where
  "claimable now sc j \<longleftrightarrow> visible sc (jb_cluster j) \<and> \<not> jb_cancel j \<and> jb_attempts j < jb_max_attempts j \<and>
     (jb_state j = Queued \<or> (is_held_state (jb_state j) \<and> (\<exists>e. jb_expires j = Some e \<and> e \<le> now)))"

text \<open>The lease a claim gives, and what it did to the job.\<close>

definition granted :: "string \<Rightarrow> int \<Rightarrow> int \<Rightarrow> store \<Rightarrow> store \<Rightarrow> job \<Rightarrow> lease \<Rightarrow> bool" where
  "granted owner sec now s t j lz \<longleftrightarrow>
     dget (st_jobs s) (jb_id j) = Some j \<and>
     (\<exists>expired. dget (st_jobs t) (jb_id j) = Some (leased_job j owner now sec expired)) \<and>
     (\<exists>m. dget (st_manifests s) (jb_manifest j) = Some m \<and>
        lz = \<lparr>lz_job = jb_id j, lz_cluster = jb_cluster j, lz_owner = owner, lz_kind = jb_kind j,
              lz_attempt = jb_attempts j + 1, lz_manifest = m\<rparr>)"

definition claim_result :: "job list \<Rightarrow> string \<Rightarrow> int \<Rightarrow> int \<Rightarrow> scope \<Rightarrow> store \<Rightarrow> store \<Rightarrow> lease option \<Rightarrow> bool" where
  "claim_result js owner sec now sc s t r \<longleftrightarrow>
     (case r of
        None \<Rightarrow> \<forall>j \<in> set js. \<not> claimable now sc j
      | Some lz \<Rightarrow> \<exists>pre j post. js = pre @ j # post \<and> (\<forall>k \<in> set pre. \<not> claimable now sc k) \<and>
          claimable now sc j \<and> granted owner sec now s t j lz)"

lemma claim_result_Cons:
  assumes "claim_result js owner sec now sc s' t r" and "\<not> claimable now sc j"
    and "\<And>k. k \<in> set js \<Longrightarrow> dget (st_jobs s') (jb_id k) = dget (st_jobs s) (jb_id k)"
    and "st_manifests s' = st_manifests s"
  shows "claim_result (j # js) owner sec now sc s t r"
proof (cases r)
  case (Some lz)
  with assms(1) obtain pre k post where k: "js = pre @ k # post" "\<forall>x \<in> set pre. \<not> claimable now sc x"
      "claimable now sc k" "granted owner sec now s' t k lz" by (auto simp: claim_result_def)
  have "j # js = (j # pre) @ k # post" "\<forall>x \<in> set (j # pre). \<not> claimable now sc x" using k assms(2) by simp_all
  moreover have "granted owner sec now s t k lz" using k assms(3)[of k] assms(4) by (simp add: granted_def)
  ultimately show ?thesis using k(3) unfolding claim_result_def Some option.case by blast
qed (use assms(1,2) in \<open>simp add: claim_result_def\<close>)

lemma lease_expired_ok:
  "job_ok s j \<Longrightarrow> lease_expired j now = Inr (is_held_state (jb_state j) \<and> (\<exists>e. jb_expires j = Some e \<and> e \<le> now))"
  by (cases "jb_expires j") (auto simp: lease_expired_def expired_at_def job_ok_def)

lemma claim_from_spec:
  assumes "store_ok s" and "\<forall>j \<in> set js. dget (st_jobs s) (jb_id j) = Some j" and "distinct (map jb_id js)"
  shows "\<exists>r t. claim_from js owner sec now sc s = Inr (r, t) \<and> jobs_moved s t \<and> claim_result js owner sec now sc s t r"
  using assms
proof (induction js arbitrary: s)
  case Nil
  then show ?case by (simp add: claim_result_def)
next
  case (Cons j js)
  have j: "dget (st_jobs s) (jb_id j) = Some j" using Cons.prems(2) by simp
  have ok: "job_ok s j" by (rule store_okD(3)[OF Cons.prems(1) j])
  let ?exp = "is_held_state (jb_state j) \<and> (\<exists>e. jb_expires j = Some e \<and> e \<le> now)"
  note expired = lease_expired_ok[OF ok, of now]
  have others: "\<forall>k \<in> set js. dget (st_jobs s) (jb_id k) = Some k" "distinct (map jb_id js)"
    using Cons.prems(2,3) by simp_all
  have apart: "\<forall>k \<in> set js. jb_id k \<noteq> jb_id j" using Cons.prems(3) by (simp add: image_iff) metis
  have skip: ?case if c: "\<not> claimable now sc j" and step: "claim_from (j # js) owner sec now sc s = claim_from js owner sec now sc s"
  proof -
    from Cons.IH[OF Cons.prems(1) others(1,2)] obtain r t where
      "claim_from js owner sec now sc s = Inr (r, t)" "jobs_moved s t" "claim_result js owner sec now sc s t r" by blast
    with step claim_result_Cons[OF this(3) c] show ?thesis by auto
  qed
  have drop: ?case if c: "\<not> claimable now sc j" and mv: "job_move j j'" and id: "jb_id j' = jb_id j"
      and step: "claim_from (j # js) owner sec now sc s = claim_from js owner sec now sc (set_job j' s)" for j'
  proof -
    have m: "jobs_moved s (set_job j' s)" by (rule set_job_moved[OF j mv])
    have "\<forall>k \<in> set js. dget (st_jobs (set_job j' s)) (jb_id k) = Some k" using others(1) apart id by simp
    from Cons.IH[OF jobs_moved_ok[OF Cons.prems(1) m] this others(2)] obtain r t where
      r: "claim_from js owner sec now sc (set_job j' s) = Inr (r, t)" "jobs_moved (set_job j' s) t"
        "claim_result js owner sec now sc (set_job j' s) t r" by blast
    have "claim_result (j # js) owner sec now sc s t r"
      by (rule claim_result_Cons[OF r(3) c]) (use apart id in \<open>simp_all add: set_job_def\<close>)
    with step r jobs_moved_trans[OF m r(2)] show ?thesis by auto
  qed
  show ?case
  proof (cases "visible sc (jb_cluster j) \<and> (jb_state j = Queued \<or> ?exp)")
    case False
    show ?thesis by (rule skip) (use False expired in \<open>auto simp: claimable_def\<close>)
  next
    case True
    show ?thesis
    proof (cases "jb_cancel j")
      case cancel: True
      then have "is_held_state (jb_state j)" using True ok by (auto simp: job_ok_def)
      then show ?thesis
        by (intro drop[OF _ mv_drop]) (use True cancel expired in \<open>auto simp: claimable_def release_def\<close>)
    next
      case no_cancel: False
      show ?thesis
      proof (cases "jb_attempts j < jb_max_attempts j")
        case False
        then have "is_held_state (jb_state j)" using True ok by (auto simp: job_ok_def)
        then show ?thesis
          by (intro drop[OF _ mv_give_up]) (use True False no_cancel expired in \<open>auto simp: claimable_def release_def\<close>)
      next
        case budget: True
        let ?j = "leased_job j owner now sec ?exp"
        obtain m where m: "dget (st_manifests s) (jb_manifest j) = Some m" using ok by (auto simp: job_ok_def)
        have mv: "jobs_moved s (set_job ?j s)"
          by (rule set_job_moved[OF j mv_lease]) (use True no_cancel budget in auto)
        have id: "jb_id ?j = jb_id j" by (simp add: leased_job_def)
        have "claim_from (j # js) owner sec now sc s = grant ?j owner (set_job ?j s)"
          using True no_cancel budget expired by (auto simp: Let_def)
        also have "\<dots> = Inr (Some \<lparr>lz_job = jb_id j, lz_cluster = jb_cluster j, lz_owner = owner, lz_kind = jb_kind j,
              lz_attempt = jb_attempts j + 1, lz_manifest = m\<rparr>, set_job ?j s)"
          using m by (simp add: grant_def set_job_def leased_job_def)
        finally have step: "claim_from (j # js) owner sec now sc s = \<dots>" .
        have "granted owner sec now s (set_job ?j s) j \<lparr>lz_job = jb_id j, lz_cluster = jb_cluster j, lz_owner = owner,
              lz_kind = jb_kind j, lz_attempt = jb_attempts j + 1, lz_manifest = m\<rparr>"
          unfolding granted_def using j m id by auto
        moreover have "claimable now sc j" using True no_cancel budget by (auto simp: claimable_def)
        ultimately have "claim_result (j # js) owner sec now sc s (set_job ?j s) (Some \<lparr>lz_job = jb_id j, lz_cluster = jb_cluster j,
            lz_owner = owner, lz_kind = jb_kind j, lz_attempt = jb_attempts j + 1, lz_manifest = m\<rparr>)"
          unfolding claim_result_def option.case by (intro exI[of _ "[]"] exI[of _ j] exI[of _ js]) simp
        with step mv show ?thesis by blast
      qed
    qed
  qed
qed

theorem claim_spec:
  assumes "store_ok s"
  shows "\<exists>r t. claim owner sec now sc s = Inr (r, t) \<and> jobs_moved s t \<and>
    claim_result (sort_key jb_seq (dvals (st_jobs s))) owner sec now sc s t r"
  unfolding claim_def
proof (rule claim_from_spec[OF assms])
  have k: "keyed jb_id (st_jobs s)" using assms by (simp add: store_ok_def)
  show "\<forall>j \<in> set (sort_key jb_seq (dvals (st_jobs s))). dget (st_jobs s) (jb_id j) = Some j"
    using keyed_dvals[OF k] by simp
  have "map jb_id (dvals (st_jobs s)) = dkeys (st_jobs s)" using k by (auto simp: keyed_def)
  then have "distinct (map jb_id (dvals (st_jobs s)))" using k by (simp add: keyed_def del: map_map)
  then show "distinct (map jb_id (sort_key jb_seq (dvals (st_jobs s))))"
    by (simp add: distinct_map del: map_map)
qed

section \<open>New records\<close>

text \<open>Content addressing: a manifest filed under the same id is the same manifest.\<close>

definition genuine :: "manifest \<Rightarrow> store \<Rightarrow> bool" where
  "genuine m s \<longleftrightarrow> man_kind m \<in> set JOB_KINDS \<and> (\<forall>m'. dget (st_manifests s) (man_id m) = Some m' \<longrightarrow> m' = m)"

lemma result_prefix_iff: "result_prefix k \<noteq> None \<longleftrightarrow> k \<in> set JOB_KINDS"
  by (simp add: result_prefix_def JOB_KINDS_def)

lemma create_case_ok:
  assumes "create_case sha256 c s = Inr (b, t)" and "store_ok s"
  shows "store_ok t"
proof -
  let ?k = "(cs_cluster c, cs_id c)" and ?c = "c\<lparr>cs_hash := digest sha256 (cs_input c)\<rparr>"
  have "t = s \<or> (\<not> dmem ?k (st_cases s) \<and> length (st_cases s) < st_max_cases s \<and> t = s\<lparr>st_cases := dset ?k ?c (st_cases s)\<rparr>)"
    using assms(1) by (auto simp: create_case_def Let_def split: if_splits)
  then show ?thesis
  proof
    assume h: "\<not> dmem ?k (st_cases s) \<and> length (st_cases s) < st_max_cases s \<and> t = s\<lparr>st_cases := dset ?k ?c (st_cases s)\<rparr>"
    then have "length (st_cases t) = Suc (length (st_cases s))" by (simp add: dset_fresh)
    moreover have "keyed (\<lambda>c. (cs_cluster c, cs_id c)) (st_cases t)" using h assms(2) by (simp add: keyed_dset store_ok_def)
    moreover have "job_ok t j = job_ok s j" "result_ok t r = result_ok s r" for j r
      using h by (simp_all add: job_ok_def result_ok_def)
    ultimately show ?thesis using h assms(2) unfolding store_ok_def by simp
  qed (use assms(2) in simp)
qed

lemma put_manifest_parts:
  assumes "put_manifest m s = Inr (u, t)" and "genuine m s" and "store_ok s"
  shows "store_ok t" and "dget (st_manifests t) (man_id m) = Some m" and "t = s\<lparr>st_manifests := st_manifests t\<rparr>"
proof -
  have t: "t = s\<lparr>st_manifests := setdefault (man_id m) m (st_manifests s)\<rparr>" and c: "dmem (man_cluster m, man_case m) (st_cases s)"
    using assms(1) by (auto simp: put_manifest_def split: if_splits)
  have look: "dget (st_manifests t) mid = (if mid = man_id m then Some m else dget (st_manifests s) mid)" for mid
    using t assms(2) by (auto simp: setdefault_def genuine_def)
  then show "dget (st_manifests t) (man_id m) = Some m" by simp
  show "t = s\<lparr>st_manifests := st_manifests t\<rparr>" by (simp add: t)
  have up: "dget (st_manifests t) mid = Some m'" if "dget (st_manifests s) mid = Some m'" for mid m'
    using that assms(2) by (auto simp: look genuine_def)
  have "job_ok t j" if "job_ok s j" for j using that up unfolding job_ok_def by (auto simp: t)
  moreover have "result_ok t r" if "result_ok s r" for r using that up unfolding result_ok_def by (auto simp: t)
  moreover have "keyed man_id (st_manifests t)" using assms(3) by (simp add: t setdefault_def store_ok_def keyed_dset)
  moreover have "dmem (man_cluster m', man_case m') (st_cases t)" if "dget (st_manifests t) mid = Some m'" for mid m'
  proof -
    have cases: "st_cases t = st_cases s" by (simp add: t)
    from that[unfolded look] have "m' = m \<or> dget (st_manifests s) mid = Some m'" by (simp split: if_splits)
    with c store_okD(4)[OF assms(3)] show ?thesis unfolding cases by blast
  qed
  ultimately show "store_ok t" using assms(3) unfolding store_ok_def by (simp add: t)
qed

lemma result_added:
  assumes "store_ok s" and "\<not> dmem rid (st_results s)" and "res_id r = rid" and "result_ok (s\<lparr>st_results := dset rid r (st_results s)\<rparr>) r"
    and "length (st_results s) < st_max_results s"
  shows "store_ok (s\<lparr>st_results := dset rid r (st_results s)\<rparr>)"
proof -
  let ?t = "s\<lparr>st_results := dset rid r (st_results s)\<rparr>"
  have "job_ok ?t j = job_ok s j" "\<And>r'. result_ok ?t r' = result_ok s r'" for j by (simp_all add: job_ok_def result_ok_def)
  moreover have "\<exists>j r'. dget (st_jobs s) jid = Some j \<and> dget (st_results ?t) i = Some r' \<and> res_job r' = Some jid \<and>
      res_cluster r' = jb_cluster j \<and> res_manifest r' = jb_manifest j"
    if i: "dget (st_result_by_job s) jid = Some i" for jid i
  proof -
    from i assms(1) obtain j r' where r': "dget (st_jobs s) jid = Some j" "dget (st_results s) i = Some r'" "res_job r' = Some jid"
        "res_cluster r' = jb_cluster j" "res_manifest r' = jb_manifest j" unfolding store_ok_def by blast
    then have "i \<noteq> rid" using assms(2) by auto
    with r' show ?thesis by auto
  qed
  moreover have "keyed res_id (st_results ?t)" using assms(1,3) by (simp add: keyed_dset store_ok_def)
  moreover have "length (st_results ?t) \<le> st_max_results s" using assms(2,5) by (simp add: dset_fresh)
  ultimately show ?thesis using assms(1,4) unfolding store_ok_def by simp
qed

lemma record_analysis_ok:
  assumes "record_analysis tok m body s = Inr (rid, t)" and "store_ok s" and "genuine m s" and "\<not> dmem rid (st_results s)"
  shows "store_ok t"
proof -
  obtain s' p where put: "put_manifest m s = Inr ((), s')" and p: "result_prefix (man_kind m) = Some p"
    and rid: "rid = new_id p tok" and room: "length (st_results s) < st_max_results s"
    and t: "t = s'\<lparr>st_results := dset rid \<lparr>res_id = rid, res_cluster = man_cluster m, res_case = man_case m,
                 res_manifest = man_id m, res_job = None, res_kind = man_kind m, res_version = 1, res_body = body\<rparr>
                 (st_results s')\<rparr>"
    using assms(1) by (auto simp: record_analysis_def Let_def split: if_splits sum.splits option.splits)
  note put = put_manifest_parts[OF put assms(3,2)]
  have f: "st_results s' = st_results s" "st_max_results s' = st_max_results s"
    using arg_cong[OF put(3), of st_results] arg_cong[OF put(3), of st_max_results] by simp_all
  show ?thesis unfolding t
    by (rule result_added[OF put(1)]) (use f assms(4) room put(2) in \<open>simp_all add: result_ok_def\<close>)
qed

lemma publish_ok:
  assumes ok: "store_ok s" and j: "dget (st_jobs s) (jb_id j) = Some j" "is_held_state (jb_state j)"
    and new: "\<not> dmem (jb_id j) (st_result_by_job s)" "\<not> dmem rid (st_results s)"
    and m: "dget (st_manifests s) (jb_manifest j) = Some m" and room: "length (st_results s) < st_max_results s"
  shows "store_ok (publish rid j m body s)"
proof -
  let ?r = "\<lparr>res_id = rid, res_cluster = jb_cluster j, res_case = man_case m, res_manifest = man_id m,
            res_job = Some (jb_id j), res_kind = jb_kind j, res_version = 1, res_body = body\<rparr>"
  let ?t = "publish rid j m body s" and ?j = "release j Succeeded None"
  have jok: "job_ok s j" by (rule store_okD(3)[OF ok j(1)])
  have mid: "man_id m = jb_manifest j" using store_okD(4)[OF ok m] by simp
  have mj: "man_cluster m = jb_cluster j" "man_kind m = jb_kind j" using jok m by (auto simp: job_ok_def)
  have id: "jb_id ?j = jb_id j" "jb_seq ?j = jb_seq j" by (simp_all add: release_def)
  have f [simp]: "st_jobs ?t = dset (jb_id j) ?j (st_jobs s)" "st_results ?t = dset rid ?r (st_results s)"
    "st_result_by_job ?t = dset (jb_id j) rid (st_result_by_job s)" "st_manifests ?t = st_manifests s" "st_cases ?t = st_cases s"
    "st_max_cases ?t = st_max_cases s" "st_max_results ?t = st_max_results s" "st_max_jobs ?t = st_max_jobs s"
    using id by (simp_all add: publish_def set_job_def)
  have keys: "dkeys (dset (jb_id j) ?j (st_jobs s)) = dkeys (st_jobs s)" using j(1) by (intro dkeys_dset_old) simp
  have dict: "dict_ok (st_jobs s)" "dict_ok (dset (jb_id j) ?j (st_jobs s))"
    using ok by (simp_all add: store_ok_def keyed_def)
  have jobs: "job_ok ?t k" if "dget (st_jobs ?t) i = Some k" for i k
  proof (cases "i = jb_id j")
    case True
    then have "k = ?j" using that by simp
    then show ?thesis using jok m mj j(2) by (auto simp: job_ok_def release_def held_cases)
  next
    case False
    then have k: "dget (st_jobs s) i = Some k" using that by simp
    then have "job_ok s k" "jb_id k \<noteq> jb_id j" using store_okD(2,3)[OF ok] False by auto
    then show ?thesis by (auto simp: job_ok_def)
  qed
  have results: "result_ok ?t r" if "dget (st_results ?t) i = Some r" for i r
  proof (cases "i = rid")
    case True
    then have "r = ?r" using that by simp
    then show ?thesis using m mid mj by (auto simp: result_ok_def)
  next
    case False
    then have r: "dget (st_results s) i = Some r" using that by simp
    then have "result_ok s r" by (rule store_okD(5)[OF ok])
    moreover have "res_job r \<noteq> Some (jb_id j)" using \<open>result_ok s r\<close> new(1) by (auto simp: result_ok_def)
    ultimately show ?thesis by (auto simp: result_ok_def)
  qed
  have refs: "\<exists>k r. dget (st_jobs ?t) i = Some k \<and> dget (st_results ?t) i' = Some r \<and> res_job r = Some i \<and>
      res_cluster r = jb_cluster k \<and> res_manifest r = jb_manifest k"
    if "dget (st_result_by_job ?t) i = Some i'" for i i'
  proof (cases "i = jb_id j")
    case True
    then have "i' = rid" using that by simp
    with True mid show ?thesis by (simp add: release_def)
  next
    case False
    then have "dget (st_result_by_job s) i = Some i'" using that by simp
    then obtain k r where k: "dget (st_jobs s) i = Some k" "dget (st_results s) i' = Some r" "res_job r = Some i"
        "res_cluster r = jb_cluster k" "res_manifest r = jb_manifest k" using ok unfolding store_ok_def by blast
    then have "i' \<noteq> rid" using new(2) by auto
    with k False show ?thesis by auto
  qed
  have seqs: "map jb_seq (dvals (st_jobs ?t)) = map jb_seq (dvals (st_jobs s))"
    unfolding f dvals_lookup[OF dict(1)] dvals_lookup[OF dict(2)] keys using j(1) id by simp
  have len: "length (st_jobs ?t) = length (st_jobs s)" using arg_cong[OF keys, of length] by simp
  have "jb_seq k < length (st_jobs ?t)" if "dget (st_jobs ?t) i = Some k" for i k
    using that ok j(1) id unfolding len by (auto simp: store_ok_def split: if_splits)
  moreover have "length (st_results ?t) \<le> st_max_results s" using new(2) room by (simp add: dset_fresh)
  moreover have "length (st_jobs ?t) \<le> st_max_jobs s" unfolding len using ok by (simp add: store_ok_def)
  moreover have "keyed jb_id (st_jobs ?t)" "keyed res_id (st_results ?t)" "dict_ok (st_result_by_job ?t)"
    using ok id by (simp_all add: store_ok_def keyed_dset)
  moreover have "distinct (map jb_seq (dvals (st_jobs ?t)))" unfolding seqs using ok by (simp add: store_ok_def)
  ultimately show ?thesis
    using ok jobs results refs unfolding store_ok_def
    by (simp del: f(1,2,3))
qed

lemma enqueue_parts:
  assumes "enqueue tok m created_by k s = Inr (v, t)" and "genuine m s" and "store_ok s"
  obtains s' where "store_ok s'" "s' = s\<lparr>st_manifests := st_manifests s'\<rparr>" "dget (st_manifests s') (man_id m) = Some m"
    "t = set_job (fresh_job (new_id ''job'' tok) m created_by k (length (st_jobs s))) s'"
    "1 \<le> k" "k \<le> 10" "length (st_jobs s) < st_max_jobs s"
proof -
  obtain s' where put: "put_manifest m s = Inr ((), s')" and k: "1 \<le> k" "k \<le> 10" and room: "length (st_jobs s) < st_max_jobs s"
    and t: "t = set_job (fresh_job (new_id ''job'' tok) m created_by k (length (st_jobs s'))) s'"
    using assms(1) by (auto simp: enqueue_def Let_def split: if_splits sum.splits)
  note parts = put_manifest_parts[OF put assms(2,3)]
  have "st_jobs s' = st_jobs s" using arg_cong[OF parts(3), of st_jobs] by simp
  with parts k room t that show thesis by simp
qed

lemma fresh_job_parts [simp]:
  "jb_id (fresh_job jid m by k n) = jid" "jb_seq (fresh_job jid m by k n) = n" "jb_state (fresh_job jid m by k n) = Queued"
  "jb_cluster (fresh_job jid m by k n) = man_cluster m" "jb_manifest (fresh_job jid m by k n) = man_id m"
  "jb_kind (fresh_job jid m by k n) = man_kind m" "jb_owner (fresh_job jid m by k n) = None"
  "jb_expires (fresh_job jid m by k n) = None" "jb_attempts (fresh_job jid m by k n) = 0"
  "jb_max_attempts (fresh_job jid m by k n) = k" "\<not> jb_cancel (fresh_job jid m by k n)"
  by (simp_all add: fresh_job_def)

lemma enqueue_ok:
  assumes "enqueue tok m created_by k s = Inr (v, t)" and "store_ok s" and "genuine m s"
    and fresh: "\<not> dmem (new_id ''job'' tok) (st_jobs s)"
  shows "store_ok t"
proof -
  let ?id = "new_id ''job'' tok"
  obtain s' where s': "store_ok s'" "s' = s\<lparr>st_manifests := st_manifests s'\<rparr>" "dget (st_manifests s') (man_id m) = Some m"
    and t: "t = set_job (fresh_job ?id m created_by k (length (st_jobs s))) s'"
    and k: "1 \<le> k" "k \<le> 10" "length (st_jobs s) < st_max_jobs s"
    by (rule enqueue_parts[OF assms(1,3,2)])
  let ?j = "fresh_job ?id m created_by k (length (st_jobs s))"
  have f: "st_jobs s' = st_jobs s" "st_max_jobs s' = st_max_jobs s"
    using arg_cong[OF s'(2), of st_jobs] arg_cong[OF s'(2), of st_max_jobs] by simp_all
  have tj: "st_jobs t = st_jobs s @ [(?id, ?j)]" using fresh by (simp add: t set_job_def f dset_fresh)
  have tf: "st_results t = st_results s'" "st_manifests t = st_manifests s'" "st_cases t = st_cases s'"
    "st_result_by_job t = st_result_by_job s'" "st_max_cases t = st_max_cases s'" "st_max_results t = st_max_results s'"
    "st_max_jobs t = st_max_jobs s" by (simp_all add: t set_job_def f)
  have look: "dget (st_jobs t) i = (if i = ?id then Some ?j else dget (st_jobs s) i)" for i
    by (simp add: t f)
  have no_result: "\<not> dmem ?id (st_result_by_job s')"
  proof
    assume "dmem ?id (st_result_by_job s')"
    then obtain rid where "dget (st_result_by_job s') ?id = Some rid" by auto
    with s'(1) obtain j where "dget (st_jobs s') ?id = Some j" unfolding store_ok_def by blast
    with fresh show False by (simp add: f)
  qed
  have "job_ok t ?j" using k s'(3) no_result assms(3) by (auto simp: job_ok_def tf genuine_def)
  moreover have "job_ok t j" if "dget (st_jobs s) i = Some j" for i j
  proof -
    have "job_ok s' j" using store_okD(3)[OF s'(1), of i j] that by (simp add: f)
    then show ?thesis unfolding job_ok_def tf .
  qed
  ultimately have jobs: "\<forall>i j. dget (st_jobs t) i = Some j \<longrightarrow> job_ok t j" by (auto simp: look)
  have results: "result_ok t r = result_ok s' r" for r by (simp add: result_ok_def tf)
  have refs: "\<exists>j r. dget (st_jobs t) i = Some j \<and> dget (st_results t) rid = Some r \<and> res_job r = Some i \<and>
      res_cluster r = jb_cluster j \<and> res_manifest r = jb_manifest j" if h: "dget (st_result_by_job t) i = Some rid" for i rid
  proof -
    from h no_result have "i \<noteq> ?id" by (auto simp: tf)
    moreover from h s'(1) obtain j r where "dget (st_jobs s') i = Some j" "dget (st_results s') rid = Some r" "res_job r = Some i"
        "res_cluster r = jb_cluster j" "res_manifest r = jb_manifest j" unfolding tf store_ok_def by blast
    ultimately show ?thesis by (auto simp: look tf f)
  qed
  have "keyed jb_id (st_jobs t)" using s'(1) by (simp add: t set_job_def store_ok_def keyed_dset)
  moreover have seq: "jb_seq j < length (st_jobs s)" if "dget (st_jobs s) i = Some j" for i j
    using s'(1) that by (auto simp: store_ok_def f)
  have "jb_seq j < Suc (length (st_jobs s))" if "dget (st_jobs t) i = Some j" for i j
    using that seq[of i j] by (auto simp: look split: if_splits)
  then have "\<forall>i j. dget (st_jobs t) i = Some j \<longrightarrow> jb_seq j < length (st_jobs t)" by (simp add: tj)
  moreover have "distinct (map jb_seq (dvals (st_jobs t)))"
  proof -
    have "jb_seq j < length (st_jobs s)" if "(i, j) \<in> set (st_jobs s)" for i j
    proof -
      have "dict_ok (st_jobs s)" using s'(1) by (simp add: store_ok_def keyed_def f)
      from seq[OF in_set_dget[OF this that]] show ?thesis .
    qed
    moreover have "distinct (map jb_seq (dvals (st_jobs s)))" using s'(1) by (simp add: store_ok_def f)
    ultimately show ?thesis by (force simp: tj)
  qed
  ultimately show ?thesis using s'(1) jobs refs k(3) unfolding store_ok_def results tf by (simp add: tj)
qed

lemma complete_parts:
  assumes "complete_job tok lz body now s = Inr (x, t)" and "store_ok s"
  obtains (nothing) "x = None" "t = s"
    | (full) j err where "x = None" "dget (st_jobs s) (jb_id j) = Some j" "is_held_state (jb_state j)"
        "t = set_job (release j Failed (Some err)) s"
    | (published) j m p where "held lz now s = Inr (Some j)" "x = Some (new_id p tok)"
        "dget (st_jobs s) (jb_id j) = Some j" "is_held_state (jb_state j)" "\<not> jb_cancel j" "\<not> dmem (jb_id j) (st_result_by_job s)"
        "dget (st_manifests s) (jb_manifest j) = Some m" "length (st_results s) < st_max_results s"
        "result_prefix (jb_kind j) = Some p" "t = publish (new_id p tok) j m body s"
proof -
  let ?f = "\<lambda>j. if jb_cancel j \<or> dmem (jb_id j) (st_result_by_job s) then Inr (None, s)
       else case dget (st_manifests s) (jb_manifest j) of
         None \<Rightarrow> Inr (None, s)
       | Some m \<Rightarrow>
           if \<not> dmem (man_cluster m, man_case m) (st_cases s) then Inr (None, s)
           else if length (st_results s) \<ge> st_max_results s then
             Inr (None, set_job (release j Failed (Some (''in-memory result limit ('' @ str_of_nat (st_max_results s) @
               '') reached''))) s)
           else (case result_prefix (jb_kind j) of
                   None \<Rightarrow> Inl (NoKey (jb_kind j), s)
                 | Some p \<Rightarrow> Inr (Some (new_id p tok), publish (new_id p tok) j m body s))"
  consider "x = None" "t = s" | j where "held lz now s = Inr (Some j)" "?f j = Inr (x, t)"
    using assms(1) unfolding complete_job_def with_held_iff by blast
  then show thesis
  proof cases
    case 1
    then show thesis by (rule nothing)
  next
    case (2 j)
    have cur: "dget (st_jobs s) (jb_id j) = Some j" "is_held_state (jb_state j)"
      using held_current[OF 2(1) assms(2)] 2(1) by (simp_all add: held_iff)
    have nothing': thesis if "x = None" "s = t" by (rule nothing) (simp_all add: that)
    from 2(2) show thesis
      by (auto split: if_splits option.splits intro: nothing' full[OF _ cur] published[OF 2(1) _ cur])
  qed
qed

lemma complete_ok:
  assumes "complete_job tok lz body now s = Inr (x, t)" and "store_ok s"
    and "\<And>k p. result_prefix k = Some p \<Longrightarrow> \<not> dmem (new_id p tok) (st_results s)"
  shows "store_ok t"
  using assms(1,2)
proof (cases rule: complete_parts)
  case (full j err)
  then show ?thesis using jobs_moved_ok[OF assms(2) set_job_moved[OF _ mv_give_up]] by simp
next
  case (published j m p)
  then show ?thesis using publish_ok[OF assms(2) published(3,4,6) assms(3)[OF published(9)] published(7,8)] by simp
qed (use assms(2) in simp)

section \<open>Steps of the store\<close>

text \<open>
  One call that returns. New ids are fresh, and a manifest that is stored is genuine; nothing else is
  asked of the callers.
\<close>

inductive store_step :: "store \<Rightarrow> store \<Rightarrow> bool" where
  s_case: "create_case sha256 c s = Inr (b, t) \<Longrightarrow> store_step s t"
| s_record: "record_analysis tok m body s = Inr (rid, t) \<Longrightarrow> genuine m s \<Longrightarrow> \<not> dmem rid (st_results s) \<Longrightarrow> store_step s t"
| s_enqueue: "enqueue tok m by k s = Inr (v, t) \<Longrightarrow> genuine m s \<Longrightarrow> \<not> dmem (new_id ''job'' tok) (st_jobs s) \<Longrightarrow> store_step s t"
| s_cancel: "cancel_job jid sc s = Inr (v, t) \<Longrightarrow> store_step s t"
| s_claim: "claim owner sec now sc s = Inr (r, t) \<Longrightarrow> store_step s t"
| s_beat: "heartbeat lz sec now now' s = Inr (h, t) \<Longrightarrow> store_step s t"
| s_run: "mark_running lz sec now now' s = Inr (h, t) \<Longrightarrow> store_step s t"
| s_complete: "complete_job tok lz body now s = Inr (x, t) \<Longrightarrow>
    (\<And>k p. result_prefix k = Some p \<Longrightarrow> \<not> dmem (new_id p tok) (st_results s)) \<Longrightarrow> store_step s t"
| s_fail: "fail_job lz err retryable now s = Inr (y, t) \<Longrightarrow> store_step s t"
| s_ack: "acknowledge_cancel lz now s = Inr (z, t) \<Longrightarrow> store_step s t"

lemma claim_moved: "claim owner sec now sc s = Inr (r, t) \<Longrightarrow> store_ok s \<Longrightarrow> jobs_moved s t"
  using claim_spec[of s owner sec now sc] by auto

lemmas moved_calls = cancel_moved claim_moved heartbeat_moved mark_running_moved fail_moved acknowledge_moved

text \<open>A step moves jobs, publishes the result of one, or only adds records.\<close>

definition only_adds :: "store \<Rightarrow> store \<Rightarrow> bool" where
  "only_adds s t \<longleftrightarrow>
     map_of (st_jobs s) \<subseteq>\<^sub>m map_of (st_jobs t) \<and> map_of (st_results s) \<subseteq>\<^sub>m map_of (st_results t) \<and>
     st_result_by_job t = st_result_by_job s"

lemma store_step_cases:
  assumes "store_step s t" and "store_ok s"
  obtains (moved) "jobs_moved s t" | (added) "only_adds s t"
    | (published) lz now j rid m body where "held lz now s = Inr (Some j)" "dget (st_jobs s) (jb_id j) = Some j"
        "is_held_state (jb_state j)" "\<not> jb_cancel j" "\<not> dmem (jb_id j) (st_result_by_job s)" "\<not> dmem rid (st_results s)"
        "t = publish rid j m body s"
  using assms(1)
proof cases
  case (s_case sha256 c b)
  then have "only_adds s t" by (auto simp: create_case_def Let_def only_adds_def split: if_splits)
  then show thesis by (rule added)
next
  case (s_record tok m body rid)
  then have "only_adds s t"
    by (auto simp: record_analysis_def put_manifest_def Let_def only_adds_def map_le_def dom_def split: if_splits option.splits)
  then show thesis by (rule added)
next
  case (s_enqueue tok m who k v)
  then have "only_adds s t"
    by (auto simp: enqueue_def put_manifest_def Let_def only_adds_def map_le_def dom_def set_job_def split: if_splits)
  then show thesis by (rule added)
next
  case (s_complete tok lz body now x)
  from s_complete(1) assms(2) show thesis
  proof (cases rule: complete_parts)
    case (full j err)
    then show thesis using set_job_moved[OF _ mv_give_up] by (intro moved) simp
  next
    case (published j m p)
    then show thesis using s_complete(2)[OF published(9)] that(3)[of lz now j "new_id p tok" m body] by simp
  qed (use moved in simp)
qed (use assms(2) in \<open>auto intro: moved moved_calls\<close>)

theorem store_step_ok: "store_step s t \<Longrightarrow> store_ok s \<Longrightarrow> store_ok t"
  by (induction rule: store_step.induct)
     (blast intro: create_case_ok record_analysis_ok enqueue_ok complete_ok jobs_moved_ok moved_calls)+

lemma empty_store_ok: "empty_store mc mr mj = Inr s \<Longrightarrow> store_ok s"
  by (auto simp: empty_store_def store_ok_def split: if_splits)

theorem reachable_store_ok: "empty_store mc mr mj = Inr s0 \<Longrightarrow> store_step\<^sup>*\<^sup>* s0 s \<Longrightarrow> store_ok s"
  by (rotate_tac, induction rule: rtranclp_induct) (auto intro: store_step_ok empty_store_ok)

lemma steps_ok: "store_step\<^sup>*\<^sup>* s t \<Longrightarrow> store_ok s \<Longrightarrow> store_ok t"
  by (induction rule: rtranclp_induct) (auto intro: store_step_ok)

section \<open>What stays\<close>

definition job_after :: "job \<Rightarrow> job \<Rightarrow> bool" where
  "job_after j j' \<longleftrightarrow> same_job j j' \<and> jb_attempts j \<le> jb_attempts j' \<and> (terminal (jb_state j) \<longrightarrow> j' = j) \<and>
     (jb_cancel j \<longrightarrow> jb_cancel j' \<and> (jb_state j' = Succeeded \<longrightarrow> jb_state j = Succeeded))"

lemma job_after_refl [simp]: "job_after j j"
  by (simp add: job_after_def)

lemma job_after_trans [trans]: "job_after a b \<Longrightarrow> job_after b c \<Longrightarrow> job_after a c"
proof -
  assume ab: "job_after a b" and bc: "job_after b c"
  show ?thesis
  proof (cases "terminal (jb_state a)")
    case True
    then have "b = a" using ab by (simp add: job_after_def)
    with bc show ?thesis by simp
  next
    case False
    have "same_job a c" using ab bc same_job_trans[of a b c] by (simp add: job_after_def)
    moreover have "jb_attempts a \<le> jb_attempts c" using ab bc by (simp add: job_after_def)
    moreover have "jb_cancel a \<longrightarrow> jb_cancel c \<and> (jb_state c = Succeeded \<longrightarrow> jb_state a = Succeeded)"
      using ab bc unfolding job_after_def by blast
    ultimately show ?thesis using False unfolding job_after_def by blast
  qed
qed

lemma job_moves_after: "job_move\<^sup>*\<^sup>* j j' \<Longrightarrow> job_after j j'"
proof (induction rule: rtranclp_induct)
  case (step k l)
  have "job_after k l" using step(2) job_move_same job_move_terminal job_move_keeps[OF step(2)] by (simp add: job_after_def)
  with step(3) show ?case by (rule job_after_trans)
qed simp

lemma step_job:
  assumes "store_step s t" and "store_ok s" and j: "dget (st_jobs s) jid = Some j"
  shows "\<exists>j'. dget (st_jobs t) jid = Some j' \<and> job_after j j'"
  using assms(1,2)
proof (cases rule: store_step_cases)
  case moved
  then obtain j' where "dget (st_jobs t) jid = Some j'" "job_move\<^sup>*\<^sup>* j j'" using j unfolding jobs_moved_def by blast
  then show ?thesis using job_moves_after by blast
next
  case added
  then have "dget (st_jobs t) jid = Some j" using j by (auto simp: only_adds_def map_le_def dom_def)
  then show ?thesis by simp
next
  case (published lz now k rid m body)
  show ?thesis
  proof (cases "jid = jb_id k")
    case True
    with j published(2) have "k = j" by simp
    then have "dget (st_jobs t) jid = Some (release j Succeeded None)"
      using published(7) True by (simp add: publish_def release_def)
    moreover have "job_after j (release j Succeeded None)"
      using published(3,4) \<open>k = j\<close> by (simp add: job_after_def same_job_def release_def)
    ultimately show ?thesis by blast
  next
    case False
    then show ?thesis using j published(7) by (simp add: publish_def release_def)
  qed
qed

lemma steps_job:
  "store_step\<^sup>*\<^sup>* s t \<Longrightarrow> store_ok s \<Longrightarrow> dget (st_jobs s) jid = Some j \<Longrightarrow>
     \<exists>j'. dget (st_jobs t) jid = Some j' \<and> job_after j j'"
proof (induction rule: rtranclp_induct)
  case (step t u)
  then obtain k where k: "dget (st_jobs t) jid = Some k" "job_after j k" by blast
  from step_job[OF step(2) steps_ok[OF step(1,4)] k(1)] k(2) show ?case by (blast intro: job_after_trans)
qed simp

text \<open>A published result stays as it is.\<close>

definition published_as :: "store \<Rightarrow> string \<Rightarrow> string \<Rightarrow> result \<Rightarrow> bool" where
  "published_as s jid rid r \<longleftrightarrow> dget (st_result_by_job s) jid = Some rid \<and> dget (st_results s) rid = Some r"

lemma step_result: "store_step s t \<Longrightarrow> store_ok s \<Longrightarrow> published_as s jid rid r \<Longrightarrow> published_as t jid rid r"
proof (erule store_step_cases, assumption)
  assume p: "published_as s jid rid r"
  show "published_as t jid rid r" if "jobs_moved s t"
    using p by (simp add: published_as_def jobs_moved_frame[OF that])
  show "published_as t jid rid r" if "only_adds s t"
    using p that by (auto simp: only_adds_def published_as_def map_le_def dom_def)
  show "published_as t jid rid r" if "\<not> dmem (jb_id j) (st_result_by_job s)" "\<not> dmem rid' (st_results s)" "t = publish rid' j m body s"
    for j :: job and rid' m body
    using p that(1,2) unfolding that(3) by (cases "jid = jb_id j"; cases "rid = rid'") (simp_all add: published_as_def publish_def set_job_def)
qed

lemma steps_result:
  "store_step\<^sup>*\<^sup>* s t \<Longrightarrow> store_ok s \<Longrightarrow> published_as s jid rid r \<Longrightarrow> published_as t jid rid r"
  by (induction rule: rtranclp_induct) (auto intro: step_result steps_ok)

section \<open>Leases\<close>

text \<open>Once a job was granted again, an earlier lease is never held again.\<close>

lemma granted_fences:
  assumes "store_ok t" and "granted owner sec now s t j lz" and "store_step\<^sup>*\<^sup>* t u"
    and "lz_job old = jb_id j" and "lz_attempt old \<le> jb_attempts j"
  shows "held old now' u \<noteq> Inr (Some k)"
proof
  assume h: "held old now' u = Inr (Some k)"
  from assms(2) obtain e where t: "dget (st_jobs t) (jb_id j) = Some (leased_job j owner now sec e)" by (auto simp: granted_def)
  from steps_job[OF assms(3,1) t] obtain j' where "dget (st_jobs u) (jb_id j) = Some j'" "jb_attempts j + 1 \<le> jb_attempts j'"
    by (auto simp: job_after_def leased_job_def)
  with h assms(4,5) show False by (auto simp: held_iff)
qed

lemma held_total: "store_ok s \<Longrightarrow> \<exists>r. held lz now s = Inr r"
proof (cases "dget (st_jobs s) (lz_job lz)")
  case (Some j)
  assume "store_ok s"
  from store_okD(3)[OF this Some] show ?thesis
    by (cases "jb_expires j") (auto simp: held_def Some expired_at_def job_ok_def)
qed (simp add: held_def)

lemma with_held_total:
  assumes "store_ok s" and "\<And>j. held lz now s = Inr (Some j) \<Longrightarrow> \<exists>r. f j = Inr r"
  shows "\<exists>r. with_held lz now s lost f = Inr r"
proof -
  obtain r where "held lz now s = Inr r" using held_total[OF assms(1)] by blast
  then show ?thesis using assms(2) by (cases r) (auto simp: with_held_def)
qed

lemma view_total: "store_ok s \<Longrightarrow> \<exists>v. job_view_of j s = Inr v"
proof (cases "dget (st_result_by_job s) (jb_id j)")
  case (Some rid)
  assume "store_ok s"
  then obtain r where "dget (st_results s) rid = Some r" using Some unfolding store_ok_def by blast
  with Some show ?thesis by (simp add: job_view_of_def)
qed (simp add: job_view_of_def)

theorem worker_calls_total:
  assumes ok: "store_ok s"
  shows "\<exists>r. claim owner sec now sc s = Inr r" and "\<exists>r. heartbeat lz sec now now' s = Inr r"
    and "\<exists>r. mark_running lz sec now now' s = Inr r" and "\<exists>r. complete_job tok lz body now s = Inr r"
    and "\<exists>r. fail_job lz err retryable now s = Inr r" and "\<exists>r. acknowledge_cancel lz now s = Inr r"
    and "\<exists>r. cancel_job jid sc s = Inr r" and "\<exists>r. get_job jid sc s = Inr r"
proof -
  show "\<exists>r. claim owner sec now sc s = Inr r" using claim_spec[OF ok] by blast
  show beat: "\<exists>r. heartbeat lz sec now now' s = Inr r"
    unfolding heartbeat_def by (rule with_held_total[OF ok]) simp
  then obtain x t where h: "heartbeat lz sec now now' s = Inr (x, t)" by auto
  show "\<exists>r. mark_running lz sec now now' s = Inr r"
  proof (cases "x = HbLost")
    case False
    obtain j where "jb_id j = lz_job lz" "t = set_job (j\<lparr>jb_heartbeat := Some now', jb_expires := Some (now' + sec)\<rparr>) s"
      by (rule heartbeat_held[OF h False ok])
    with h show ?thesis by (simp add: mark_running_def)
  qed (simp add: mark_running_def h)
  show "\<exists>r. complete_job tok lz body now s = Inr r"
    unfolding complete_job_def
  proof (rule with_held_total[OF ok])
    fix j assume "held lz now s = Inr (Some j)"
    then have "job_ok s j" using held_current[OF _ ok] store_okD(3)[OF ok] by blast
    then have "jb_kind j \<in> set JOB_KINDS" by (simp add: job_ok_def)
    from iffD2[OF result_prefix_iff this] obtain p where "result_prefix (jb_kind j) = Some p" by auto
    then show "\<exists>r. (if jb_cancel j \<or> dmem (jb_id j) (st_result_by_job s) then Inr (None, s)
       else case dget (st_manifests s) (jb_manifest j) of
         None \<Rightarrow> Inr (None, s)
       | Some m \<Rightarrow>
           if \<not> dmem (man_cluster m, man_case m) (st_cases s) then Inr (None, s)
           else if length (st_results s) \<ge> st_max_results s then
             Inr (None, set_job (release j Failed (Some (''in-memory result limit ('' @ str_of_nat (st_max_results s) @
               '') reached''))) s)
           else (case result_prefix (jb_kind j) of
                   None \<Rightarrow> Inl (NoKey (jb_kind j), s)
                 | Some p \<Rightarrow> Inr (Some (new_id p tok), publish (new_id p tok) j m body s))) = Inr r"
      by (auto split: option.splits)
  qed
  show "\<exists>r. fail_job lz err retryable now s = Inr r"
    unfolding fail_job_def Let_def by (rule with_held_total[OF ok]) simp
  show "\<exists>r. acknowledge_cancel lz now s = Inr r"
    unfolding acknowledge_cancel_def by (rule with_held_total[OF ok]) auto
  show "\<exists>r. cancel_job jid sc s = Inr r"
  proof (cases "dget (st_jobs s) jid")
    case (Some j)
    have "dget (st_jobs s) (jb_id j) = Some j" using Some store_okD(2)[OF ok Some] by simp
    then have "store_ok (set_job (cancelled_job j) s)" by (rule jobs_moved_ok[OF ok set_job_moved[OF _ mv_cancel]])
    from view_total[OF this, of "cancelled_job j"] Some show ?thesis by (auto simp: cancel_job_def Let_def with_view_def)
  qed (simp add: cancel_job_def)
  show "\<exists>r. get_job jid sc s = Inr r"
  proof (cases "dget (st_jobs s) jid")
    case (Some j)
    obtain v where "job_view_of j s = Inr v" using view_total[OF ok] by blast
    with Some show ?thesis by (simp add: get_job_def)
  qed (simp add: get_job_def)
qed

end
