(* ===== verification/Api_Correct.thy ===== *)
theory Api_Correct
  imports Api Storage_Correct
begin

text \<open>
  What a request can do: the key set and its fetches, the limits, and which part of the store a
  handler may change.
\<close>

section \<open>The key set\<close>

text \<open>The calls that look up a key, one after the other (they hold a lock), with the times of their fetches.\<close>

inductive key_run :: "((string, json) dict \<Rightarrow> 'k jwk option) \<Rightarrow> oidc_config \<Rightarrow> int list \<Rightarrow> 'k jwks \<Rightarrow> 'k jwks \<Rightarrow> bool"
  for from_dict :: "(string, json) dict \<Rightarrow> 'k jwk option" and cfg :: oidc_config where
  at_rest: "key_run from_dict cfg [] st st"
| fetches: "key_of from_dict cfg env kid st = (r, st1) \<Longrightarrow> must_fetch cfg kid (at_start env) st \<Longrightarrow>
    key_run from_dict cfg ts st1 st2 \<Longrightarrow> key_run from_dict cfg (at_start env # ts) st st2"
| cached: "key_of from_dict cfg env kid st = (r, st1) \<Longrightarrow> \<not> must_fetch cfg kid (at_start env) st \<Longrightarrow>
    key_run from_dict cfg ts st1 st2 \<Longrightarrow> key_run from_dict cfg ts st st2"

lemma key_of_attempt:
  assumes "key_of from_dict cfg env kid st = (r, st1)"
  shows "jk_attempted st1 = (if must_fetch cfg kid (at_start env) st then Some (at_start env) else jk_attempted st)"
    and "\<not> must_fetch cfg kid (at_start env) st \<Longrightarrow> st1 = st"
  using assms by (auto simp: key_of_def refresh_def Let_def split: sum.splits if_splits)

definition spaced :: "int \<Rightarrow> int option \<Rightarrow> int list \<Rightarrow> bool" where
  "spaced d before ts \<longleftrightarrow>
     (\<forall>t0. before = Some t0 \<longrightarrow> (case ts of [] \<Rightarrow> True | t # _ \<Rightarrow> t - t0 \<ge> d)) \<and>
     (\<forall>i. Suc i < length ts \<longrightarrow> ts ! Suc i - ts ! i \<ge> d)"

lemma spaced_Cons:
  assumes "spaced d (Some t) ts" and "\<And>t0. before = Some t0 \<Longrightarrow> t - t0 \<ge> d"
  shows "spaced d before (t # ts)"
proof -
  have "(t # ts) ! Suc i - (t # ts) ! i \<ge> d" if "Suc i < length (t # ts)" for i
    using that assms(1) by (cases i; cases ts) (auto simp: spaced_def)
  with assms(2) show ?thesis by (simp add: spaced_def)
qed

lemma key_run_spaced: "key_run from_dict cfg ts st st' \<Longrightarrow> spaced (oc_jwks_min_refresh cfg) (jk_attempted st) ts"
proof (induction rule: key_run.induct)
  case (fetches env kid st r st1 ts st2)
  show ?case
  proof (rule spaced_Cons)
    show "spaced (oc_jwks_min_refresh cfg) (Some (at_start env)) ts"
      using fetches.IH key_of_attempt(1)[OF fetches.hyps(1)] fetches.hyps(2) by simp
    show "at_start env - t0 \<ge> oc_jwks_min_refresh cfg" if "jk_attempted st = Some t0" for t0
      using fetches.hyps(2) that by (simp add: must_fetch_def recently_tried_def)
  qed
qed (auto simp: spaced_def dest: key_of_attempt)

lemma spaced_apart:
  assumes "spaced d before ts"
  shows "i + n < length ts \<Longrightarrow> ts ! (i + n) - ts ! i \<ge> int n * d"
proof (induction n)
  case (Suc n)
  then have "ts ! Suc (i + n) - ts ! (i + n) \<ge> d" using assms by (simp add: spaced_def)
  with Suc show ?case by (simp add: algebra_simps)
qed simp

text \<open>Where the keys come from.\<close>

definition keys_ok :: "((string, json) dict \<Rightarrow> 'k jwk option) \<Rightarrow> (string, 'k jwk) dict \<Rightarrow> bool" where
  "keys_ok from_dict keys \<longleftrightarrow>
     (\<forall>kid k. dget keys kid = Some k \<longrightarrow> (\<exists>m. usable_jwk m \<and> jget m ''kid'' = JStr kid \<and> from_dict m = Some k))"

lemma add_key_ok: "keys_ok from_dict keys \<Longrightarrow> keys_ok from_dict (add_key from_dict x keys)"
  by (auto simp: add_key_def keys_ok_def split: json.split option.split)

lemma fold_keys_ok: "keys_ok from_dict keys \<Longrightarrow> keys_ok from_dict (fold (add_key from_dict) xs keys)"
  by (induction xs arbitrary: keys) (simp_all add: add_key_ok)

lemma key_of_ok:
  assumes "key_of from_dict cfg env kid st = (r, st1)" and "keys_ok from_dict (jk_keys st)"
  shows "keys_ok from_dict (jk_keys st1)" and "\<And>k. r = Inr k \<Longrightarrow> dget (jk_keys st1) kid = Some k"
proof -
  have "keys_ok from_dict []" by (simp add: keys_ok_def)
  then show "keys_ok from_dict (jk_keys st1)"
    using assms fold_keys_ok by (auto simp: key_of_def refresh_def Let_def split: sum.splits if_splits)
  show "dget (jk_keys st1) kid = Some k" if "r = Inr k" for k
    using assms(1) that by (auto simp: key_of_def Let_def split: sum.splits if_splits option.splits)
qed

lemma key_run_ok: "key_run from_dict cfg ts st st' \<Longrightarrow> keys_ok from_dict (jk_keys st) \<Longrightarrow> keys_ok from_dict (jk_keys st')"
  by (induction rule: key_run.induct) (blast dest: key_of_ok(1))+

section \<open>Claims\<close>

text \<open>The roles a token claims, after the role map.\<close>

definition claimed_role :: "oidc_config \<Rightarrow> (string, json) dict \<Rightarrow> string \<Rightarrow> bool" where
  "claimed_role cfg claims r \<longleftrightarrow>
     (\<exists>v. (jget claims (oc_role_claim cfg) = JStr v \<or>
           (\<exists>vs. jget claims (oc_role_claim cfg) = JList vs \<and> JStr v \<in> set vs)) \<and>
        (if oc_role_map cfg = [] then r = v else dget (oc_role_map cfg) v = Some r))"

lemma map_filter_Some: "set (List.map_filter f xs) = {y. \<exists>x \<in> set xs. f x = Some y}"
  by (force simp: map_filter_def)

lemma string_case: "(case v of JStr s \<Rightarrow> Some s | _ \<Rightarrow> None) = Some y \<longleftrightarrow> v = JStr y"
  by (cases v) simp_all

lemma strings_of: "set (List.map_filter (\<lambda>v. case v of JStr s \<Rightarrow> Some s | _ \<Rightarrow> None) vs) = {s. JStr s \<in> set vs}"
  unfolding map_filter_Some string_case by blast

lemma role_of_claimed:
  assumes "role_of cfg claims = Inr r"
  shows "claimed_role cfg claims r \<and> r \<in> set ROLE_PRIORITY \<and>
    (\<forall>r'. claimed_role cfg claims r' \<longrightarrow> r' \<in> set ROLE_PRIORITY \<longrightarrow>
       r' = r \<or> r = ''analyst'' \<or> (r = ''viewer'' \<and> r' = ''lab-operator''))"
proof -
  define roles where "roles = (let values = (case jget claims (oc_role_claim cfg) of
          JStr s \<Rightarrow> [s]
        | JList vs \<Rightarrow> List.map_filter (\<lambda>v. case v of JStr s \<Rightarrow> Some s | _ \<Rightarrow> None) vs
        | _ \<Rightarrow> []) in
      if oc_role_map cfg \<noteq> [] then List.map_filter (dget (oc_role_map cfg)) values else values)"
  have claimed: "claimed_role cfg claims x \<longleftrightarrow> x \<in> set roles" for x
    unfolding claimed_role_def roles_def Let_def
    by (cases "jget claims (oc_role_claim cfg)") (auto simp: map_filter_Some string_case split: option.splits)
  from assms have "filter (\<lambda>r. r \<in> set roles) ROLE_PRIORITY \<noteq> []" and
    r: "r = hd (filter (\<lambda>r. r \<in> set roles) ROLE_PRIORITY)"
    by (auto simp: role_of_def roles_def Let_def split: list.splits)
  then show ?thesis unfolding claimed by (auto simp: ROLE_PRIORITY_def split: if_splits)
qed

definition claimed_cluster :: "oidc_config \<Rightarrow> (string, json) dict \<Rightarrow> string \<Rightarrow> bool" where
  "claimed_cluster cfg claims c \<longleftrightarrow>
     (\<exists>s. jget claims (oc_clusters_claim cfg) = JStr s \<and> c \<in> set (split_on CHR ''|'' s)) \<or>
     (\<exists>vs. jget claims (oc_clusters_claim cfg) = JList vs \<and> JStr c \<in> set vs)"

lemma clusters_of_claimed:
  assumes "clusters_of cfg claims = Inr cs"
  shows "cs \<noteq> {} \<and> (\<forall>c \<in> cs. claimed_cluster cfg claims c) \<and> (''*'' \<in> cs \<longrightarrow> oc_allow_wildcard cfg)"
proof -
  from assms obtain vals where v: "cluster_values (jget claims (oc_clusters_claim cfg)) = Inr vals"
    and cs: "cs = set (filter (\<lambda>v. v \<noteq> [] \<and> length v \<le> 128) vals)" "cs \<noteq> {}" "''*'' \<in> cs \<longrightarrow> oc_allow_wildcard cfg"
    by (auto simp: clusters_of_def rbind_Inr Let_def split: if_splits)
  have "claimed_cluster cfg claims c" if "c \<in> set vals" for c
  proof (cases "jget claims (oc_clusters_claim cfg)")
    case (JStr s)
    with v that show ?thesis by (auto simp: cluster_values_def claimed_cluster_def)
  next
    case (JList vs)
    with v have "list_all2 (\<lambda>x s. x = JStr s) vs vals"
      by (auto simp: cluster_values_def traverse_Inr elim!: list_all2_mono split: json.splits)
    with that have "JStr c \<in> set vs" by (auto simp: list_all2_conv_all_nth in_set_conv_nth)
    with JList show ?thesis by (simp add: claimed_cluster_def)
  qed (use v in \<open>simp_all add: cluster_values_def\<close>)
  with cs show ?thesis by auto
qed

lemma algorithm_of_Inr: "algorithm_of v = Inr (alg, t) \<longleftrightarrow> v = JStr alg \<and> dget ALLOWED_ALGS alg = Some t"
  by (cases v) (auto simp: algorithm_of_def split: option.splits)

lemma validate_parts:
  assumes "validate exceeds header_of from_dict decode cfg env token st = (Inr ident, st')"
  obtains header alg t kid k claims where "header_of token = Some header" "jget header ''alg'' = JStr alg"
    "dget ALLOWED_ALGS alg = Some t" "jget header ''kid'' = JStr kid" "key_of from_dict cfg env kid st = (Inr k, st')"
    "jwk_type k = t" "decode token (jwk_key k) alg = Inr claims" "identity_of exceeds cfg env claims = Inr ident"
  using assms
  by (auto simp: validate_def algorithm_of_Inr split: if_splits option.splits sum.splits json.splits list.splits prod.splits)

section \<open>Limits\<close>

lemma sum_dvals_dset: "sum_list (dvals (dset k (v :: nat) d)) + (case dget d k of None \<Rightarrow> 0 | Some w \<Rightarrow> w) = sum_list (dvals d) + v"
  by (induction d) (auto split: option.splits)

text \<open>A limiter never holds more than its total, nor more than its share for one principal.\<close>

definition limiter_ok :: "limiter \<Rightarrow> bool" where
  "limiter_ok l \<longleftrightarrow> slots_held l \<le> lm_total l \<and> (\<forall>name. held_by l name \<le> lm_per_principal l)"

lemma acquire_ok:
  assumes "acquire name l = Inr l'" and "limiter_ok l"
  shows "limiter_ok l' \<and> slots_held l' = slots_held l + 1"
proof -
  have l': "l' = l\<lparr>lm_held := dset name (held_by l name + 1) (lm_held l)\<rparr>" and room: "held_by l name < lm_per_principal l"
    "slots_held l < lm_total l" using assms(1) by (auto simp: acquire_def split: if_splits)
  have "slots_held l' + held_by l name = slots_held l + (held_by l name + 1)"
    using sum_dvals_dset[of name "held_by l name + 1" "lm_held l"] by (simp add: l' slots_held_def held_by_def)
  moreover have "held_by l' n \<le> lm_per_principal l'" for n
    using assms(2) room by (simp add: l' held_by_def limiter_ok_def)
  ultimately show ?thesis using room by (simp add: l' limiter_ok_def)
qed

lemma sum_dvals_ddel: "dict_ok d \<Longrightarrow>
    sum_list (dvals (ddel k d)) + (case dget d k of None \<Rightarrow> 0 | Some w \<Rightarrow> w) = (sum_list (dvals d) :: nat)"
  by (induction d) (auto simp: AList.delete_eq filter_id_conv image_iff split: option.splits)

text \<open>A slot that was acquired and given back leaves the limiter as it was, whatever happened in between.\<close>

lemma with_slot_gives_back:
  assumes "with_slot name block l = (r, l')" and "dict_ok (lm_held l)"
  shows "slots_held l' = slots_held l \<and> held_by l' n = held_by l n"
proof (cases "acquire name l")
  case (Inr l1)
  then have l1: "l1 = l\<lparr>lm_held := dset name (held_by l name + 1) (lm_held l)\<rparr>" and l': "l' = release_slot name l1"
    using assms(1) by (auto simp: with_slot_def acquire_def split: if_splits)
  have h: "held_by l1 name = held_by l name + 1" by (simp add: l1 held_by_def)
  have s1: "slots_held l1 = slots_held l + 1"
    using sum_dvals_dset[of name "held_by l name + 1" "lm_held l"] by (simp add: l1 slots_held_def held_by_def)
  have ok: "dict_ok (lm_held l1)" using assms(2) by (simp add: l1)
  show ?thesis
  proof (cases "held_by l name = 0")
    case True
    then have del: "l' = l1\<lparr>lm_held := ddel name (lm_held l1)\<rparr>" by (simp add: l' release_slot_def h Let_def)
    have "slots_held l' + 1 = slots_held l1"
      using sum_dvals_ddel[OF ok, of name] h True by (simp add: del slots_held_def held_by_def split: option.splits)
    moreover have "held_by l' n = held_by l n" using True by (simp add: del l1 held_by_def)
    ultimately show ?thesis using s1 by simp
  next
    case False
    then have again: "l' = l1\<lparr>lm_held := dset name (held_by l name) (lm_held l1)\<rparr>" by (simp add: l' release_slot_def h Let_def)
    have "slots_held l' + (held_by l name + 1) = slots_held l1 + held_by l name"
      using sum_dvals_dset[of name "held_by l name" "lm_held l1"] h by (simp add: again slots_held_def held_by_def split: option.splits)
    moreover have "held_by l' n = held_by l n" by (simp add: again l1 held_by_def split: option.splits)
    ultimately show ?thesis using s1 by simp
  qed
qed (use assms(1) in \<open>simp add: with_slot_def\<close>)

lemma read_chunks_bounded:
  "read_chunks n seen ms = Some (Body b) \<Longrightarrow> int (length b) \<le> n"
  by (induction n seen ms rule: read_chunks.induct) (auto split: if_splits)

lemma limited_body_bounded: "limited_body n l ms = Some (Body b) \<Longrightarrow> int (length b) \<le> n"
  using read_chunks_bounded[of n "[]" ms b] by (auto simp: limited_body_def split: option.splits if_splits)

section \<open>What a handler may change\<close>

text \<open>The part of the store that belongs to a cluster.\<close>

definition part_of :: "string \<Rightarrow> store \<Rightarrow>
    (string \<times> string, stored_case) dict \<times> (string, manifest) dict \<times> (string, job) dict \<times> (string, result) dict" where
  "part_of cl s =
     (filter (\<lambda>(k, c). fst k = cl) (st_cases s), filter (\<lambda>(i, m). man_cluster m = cl) (st_manifests s),
      filter (\<lambda>(i, j). jb_cluster j = cl) (st_jobs s), filter (\<lambda>(i, r). res_cluster r = cl) (st_results s))"

definition only_touches :: "string \<Rightarrow> store \<Rightarrow> store \<Rightarrow> bool" where
  "only_touches cl s t \<longleftrightarrow> (\<forall>other. other \<noteq> cl \<longrightarrow> part_of other t = part_of other s)"

definition state_after :: "'a step \<Rightarrow> store" where
  "state_after r = (case r of Inl (e, t) \<Rightarrow> t | Inr (x, t) \<Rightarrow> t)"

lemma filter_dset:
  "\<not> P (k, v) \<Longrightarrow> (\<And>w. dget d k = Some w \<Longrightarrow> \<not> P (k, w)) \<Longrightarrow> filter P (dset k v d) = filter P d"
  by (induction d) (auto split: if_splits)

lemma only_touches_refl [simp]: "only_touches cl s s"
  by (simp add: only_touches_def)

lemma only_touches_trans: "only_touches cl s t \<Longrightarrow> only_touches cl t u \<Longrightarrow> only_touches cl s u"
  by (simp add: only_touches_def)

lemma create_case_touches: "only_touches (cs_cluster c) s (state_after (create_case sha256 c s))"
  by (auto simp: create_case_def Let_def state_after_def only_touches_def part_of_def filter_dset)

lemma put_manifest_touches: "only_touches (man_cluster m) s (state_after (put_manifest m s))"
  by (auto simp: put_manifest_def setdefault_def state_after_def only_touches_def part_of_def intro!: filter_dset split: option.splits)

lemma put_manifest_Inr: "put_manifest m s = Inr (u, t) \<Longrightarrow> only_touches (man_cluster m) s t"
  using put_manifest_touches[of m s] by (simp add: state_after_def)

lemma put_manifest_Inl: "put_manifest m s = Inl (e, t) \<Longrightarrow> t = s"
  by (auto simp: put_manifest_def split: if_splits)

lemma put_manifest_keeps:
  "put_manifest m s = Inr (u, t) \<Longrightarrow> st_results t = st_results s \<and> st_jobs t = st_jobs s \<and> st_result_by_job t = st_result_by_job s"
  by (auto simp: put_manifest_def split: if_splits)

text \<open>The random token of a request is fresh.\<close>

definition fresh_token :: "string \<Rightarrow> store \<Rightarrow> bool" where
  "fresh_token tok s \<longleftrightarrow> \<not> dmem (new_id ''job'' tok) (st_jobs s) \<and>
     (\<forall>k p. result_prefix k = Some p \<longrightarrow> \<not> dmem (new_id p tok) (st_results s))"

lemma record_analysis_touches:
  assumes "fresh_token tok s"
  shows "only_touches (man_cluster m) s (state_after (record_analysis tok m body s))"
proof (cases "put_manifest m s")
  case (Inl e)
  then show ?thesis using put_manifest_Inl[of m s] by (cases e) (auto simp: record_analysis_def state_after_def)
next
  case (Inr x)
  then obtain t where t: "put_manifest m s = Inr ((), t)" by (cases x) auto
  have "only_touches (man_cluster m) t (t\<lparr>st_results := dset rid r (st_results t)\<rparr>)"
    if "\<not> dmem rid (st_results s)" "res_cluster r = man_cluster m" for rid r
    using that put_manifest_keeps[OF t] by (auto simp: only_touches_def part_of_def intro!: filter_dset)
  with put_manifest_Inr[OF t] assms show ?thesis
    by (auto simp: record_analysis_def t state_after_def fresh_token_def Let_def intro: only_touches_trans split: option.splits)
qed

lemma set_job_touches:
  assumes "\<And>j'. dget (st_jobs s) (jb_id j) = Some j' \<Longrightarrow> jb_cluster j' = jb_cluster j"
  shows "only_touches (jb_cluster j) s (set_job j s)"
  using assms by (auto simp: only_touches_def part_of_def set_job_def filter_dset)

lemma state_after_view [simp]: "state_after (with_view j s) = s"
  by (simp add: with_view_def state_after_def split: sum.splits)

lemma enqueue_touches:
  assumes "fresh_token tok s"
  shows "only_touches (man_cluster m) s (state_after (enqueue tok m who n s))"
proof (cases "put_manifest m s")
  case (Inl e)
  then show ?thesis using put_manifest_Inl[of m s] by (cases e) (auto simp: enqueue_def state_after_def)
next
  case (Inr x)
  then obtain t where t: "put_manifest m s = Inr ((), t)" by (cases x) auto
  let ?j = "fresh_job (new_id ''job'' tok) m who n (length (st_jobs t))"
  have "only_touches (man_cluster m) t (set_job ?j t)"
    using set_job_touches[of t ?j] put_manifest_keeps[OF t] assms by (simp add: fresh_token_def fresh_job_def)
  with put_manifest_Inr[OF t] have "only_touches (man_cluster m) s (state_after (with_view ?j (set_job ?j t)))"
    by (simp add: only_touches_def)
  then show ?thesis by (simp add: enqueue_def t Let_def) (simp add: state_after_def)
qed

lemma cancel_touches:
  assumes "store_ok s" and "dget (st_jobs s) jid = Some j"
  shows "only_touches (jb_cluster j) s (state_after (cancel_job jid sc s))"
proof -
  have "keyed jb_id (st_jobs s)" using assms(1) by (simp add: store_ok_def)
  then have jid: "jb_id j = jid" using assms(2) by (rule keyed_dget)
  have c: "jb_id (cancelled_job j) = jid" "jb_cluster (cancelled_job j) = jb_cluster j" by (simp_all add: cancelled_job_def jid)
  have "only_touches (jb_cluster j) s (set_job (cancelled_job j) s)"
    using set_job_touches[of s "cancelled_job j"] assms(2) by (simp add: c)
  then show ?thesis
    using assms(2) state_after_view[of "cancelled_job j" "set_job (cancelled_job j) s"]
    by (auto simp: cancel_job_def Let_def state_after_def split: sum.splits)
qed

section \<open>Handlers\<close>

lemma calling_state:
  "calling checks call ans s = (r, t) \<Longrightarrow> t = s \<or> (\<exists>x. checks = Inr x \<and> t = state_after (call x s))"
  by (auto simp: calling_def state_after_def split: sum.splits prod.splits)

lemma only_analysts_Inr [simp]: "only_analysts p cl = Inr u \<longleftrightarrow> may_analyze p cl"
  by (simp add: only_analysts_def)

lemma internal_Inr [simp]: "internal r = Inr x \<longleftrightarrow> r = Inr x"
  by (simp add: internal_def split: sum.splits)

lemma build_manifest_Inr: "build_manifest sha256 v cl cid kind payload = Inr m \<Longrightarrow> man_cluster m = cl"
  by (auto simp: build_manifest_def Let_def split: if_splits)

text \<open>A change of the store is confined to a cluster the principal may analyze.\<close>

definition authorized_change :: "principal \<Rightarrow> store \<Rightarrow> store \<Rightarrow> bool" where
  "authorized_change p s t \<longleftrightarrow> t = s \<or> (\<exists>cl. may_analyze p cl \<and> only_touches cl s t)"

lemma authorized_calling:
  assumes "calling checks call ans s = (r, t)" and "\<And>x. checks = Inr x \<Longrightarrow> may_analyze p (cluster x)"
    and "\<And>x. checks = Inr x \<Longrightarrow> only_touches (cluster x) s (state_after (call x s))"
  shows "authorized_change p s t"
  using calling_state[OF assms(1)] assms(2,3) unfolding authorized_change_def by blast

lemma post_case_authorized: "post_case sv p b s = (r, t) \<Longrightarrow> authorized_change p s t"
  unfolding post_case_def
  by (erule authorized_calling[where cluster = cs_cluster])
    (auto simp: compiled_case_def rbind_Inr create_case_touches split: sum.splits)

lemma requested_input_parts:
  "requested_input sv p cid rq cluster s = Inr (c, raw, inp) \<Longrightarrow> may_analyze p (cs_cluster c)"
  by (auto simp: requested_input_def rbind_Inr Let_def)

lemma post_analysis_authorized:
  assumes "post_analysis sv p cid rq cluster s = (r, t)" and "fresh_token (sv_token sv) s"
  shows "authorized_change p s t"
  using assms(1) unfolding post_analysis_def
  by (rule authorized_calling[where cluster = "\<lambda>(m, doc). man_cluster m"])
    (auto simp: rbind_Inr dest!: build_manifest_Inr requested_input_parts, metis record_analysis_touches[OF assms(2)])

lemma post_job_authorized:
  assumes "post_job sv p n m s = (r, t)" and "fresh_token (sv_token sv) s"
    and "\<And>x. m = Inr x \<Longrightarrow> may_analyze p (man_cluster x)"
  shows "authorized_change p s t"
  using assms(1) unfolding post_job_def
  by (rule authorized_calling[where cluster = man_cluster]) (simp_all add: assms(3) enqueue_touches[OF assms(2)])

lemma post_jobs_authorized:
  assumes "fresh_token (sv_token sv) s"
  shows "post_analysis_job sv p cid rq n cluster s = (r, t) \<Longrightarrow> authorized_change p s t"
    and "post_plan_job sv p cid prq n cluster s = (r, t) \<Longrightarrow> authorized_change p s t"
    and "post_verification_job sv p rid k s = (r, t) \<Longrightarrow> authorized_change p s t"
  unfolding post_analysis_job_def post_plan_job_def post_verification_job_def
  by (erule post_job_authorized[OF _ assms];
      auto simp: rbind_Inr dest!: build_manifest_Inr requested_input_parts)+

lemma job_for_parts:
  assumes "job_for jid p s = Inr v"
  obtains j where "dget (st_jobs s) jid = Some j" "jv_cluster v = jb_cluster j" "visible (scope_of p) (jb_cluster j)"
  using assms
  by (auto simp: job_for_def rbind_Inr read_store_def found_def get_job_def job_view_of_def public_job_def
      split: sum.splits option.splits if_splits)

lemma post_cancel_authorized:
  assumes "post_cancel p jid s = (r, t)" and "store_ok s"
  shows "authorized_change p s t"
proof (cases "t = s")
  case False
  with calling_state[OF assms(1)[unfolded post_cancel_def]] obtain v where v: "job_for jid p s = Inr v"
      "may_analyze p (jv_cluster v)" and t: "t = state_after (cancel_job jid (scope_of p) s)"
    by (auto simp: rbind_Inr split: if_splits)
  from job_for_parts[OF v(1)] obtain j where "dget (st_jobs s) jid = Some j" "jv_cluster v = jb_cluster j" by metis
  with cancel_touches[OF assms(2)] v(2) t show ?thesis unfolding authorized_change_def by metis
qed (simp add: authorized_change_def)

lemma on_store_state: "on_store f a = (r, a') \<Longrightarrow> \<exists>t. f (ap_store a) = (r, t) \<and> ap_store a' = t"
  by (auto simp: on_store_def split: prod.splits)

lemma unchanged_authorized: "ap_store a' = ap_store a \<Longrightarrow> authorized_change p (ap_store a) (ap_store a')"
  by (simp add: authorized_change_def)

theorem route_authorized:
  assumes run: "route sv cfg p rq a = (r, a')" and ok: "store_ok (ap_store a)" and tok: "fresh_token (sv_token sv) (ap_store a)"
  shows "authorized_change p (ap_store a) (ap_store a')"
proof (cases rq)
  case (VerifyAnalysis rid)
  with run show ?thesis by (auto simp: on_heavy_def split: prod.splits intro: unchanged_authorized)
next
  case (MakePlan cid prq cluster)
  with run show ?thesis by (auto simp: on_heavy_def split: prod.splits intro: unchanged_authorized)
next
  case (CreateCase b)
  with on_store_state[of _ a r a'] run post_case_authorized show ?thesis by fastforce
next
  case (RunAnalysis cid arq cluster)
  with on_store_state[of _ a r a'] run post_analysis_authorized tok show ?thesis by fastforce
next
  case (AnalysisJob cid arq n cluster)
  with on_store_state[of _ a r a'] run post_jobs_authorized(1)[OF tok] show ?thesis by fastforce
next
  case (PlanJob cid prq n cluster)
  with on_store_state[of _ a r a'] run post_jobs_authorized(2)[OF tok] show ?thesis by fastforce
next
  case (VerificationJob rid n)
  with on_store_state[of _ a r a'] run post_jobs_authorized(3)[OF tok] show ?thesis by fastforce
next
  case (CancelJob jid)
  with on_store_state[of _ a r a'] run post_cancel_authorized ok show ?thesis by fastforce
qed (use run in \<open>auto simp: on_read_def intro: unchanged_authorized\<close>)

section \<open>Handlers and the storage protocol\<close>

text \<open>Content addressing: what is filed under the id of a manifest that a request builds is that manifest.\<close>

definition no_collision :: "(string \<Rightarrow> string) \<Rightarrow> store \<Rightarrow> bool" where
  "no_collision sha256 s \<longleftrightarrow>
     (\<forall>v cl cid kind payload m. build_manifest sha256 v cl cid kind payload = Inr m \<longrightarrow> genuine m s)"

abbreviation stepped :: "store \<Rightarrow> store \<Rightarrow> bool" where
  "stepped s t \<equiv> t = s \<or> store_step s t"

lemma create_case_stepped: "stepped s (state_after (create_case sha256 c s))"
proof (cases "create_case sha256 c s")
  case (Inl e)
  then show ?thesis by (auto simp: create_case_def Let_def state_after_def split: if_splits)
next
  case (Inr x)
  then show ?thesis using s_case by (cases x) (auto simp: state_after_def)
qed

lemma record_analysis_stepped:
  assumes "genuine m s" and "fresh_token tok s"
  shows "stepped s (state_after (record_analysis tok m body s))"
proof (cases "record_analysis tok m body s")
  case (Inl e)
  from assms(1) have "result_prefix (man_kind m) \<noteq> None" unfolding genuine_def result_prefix_iff by blast
  with Inl put_manifest_Inl[of m s] show ?thesis
    by (cases e) (auto simp: record_analysis_def Let_def state_after_def split: if_splits sum.splits option.splits)
next
  case (Inr x)
  obtain rid t where x: "x = (rid, t)" by (cases x)
  with Inr obtain p where "result_prefix (man_kind m) = Some p" "rid = new_id p tok"
    by (auto simp: record_analysis_def Let_def split: if_splits sum.splits option.splits)
  with assms(2) have "\<not> dmem rid (st_results s)" by (simp add: fresh_token_def)
  with s_record[OF Inr[unfolded x] assms(1)] show ?thesis by (simp add: Inr x state_after_def)
qed

lemma enqueue_stepped:
  assumes "genuine m s" and "fresh_token tok s" and "store_ok s"
  shows "stepped s (state_after (enqueue tok m who n s))"
proof (cases "enqueue tok m who n s")
  case (Inl e)
  have none: "dget (st_result_by_job s) (new_id ''job'' tok) = None"
  proof (rule ccontr)
    assume "dget (st_result_by_job s) (new_id ''job'' tok) \<noteq> None"
    then have "dmem (new_id ''job'' tok) (st_jobs s)" using assms(3) unfolding store_ok_def by fastforce
    with assms(2) show False by (simp add: fresh_token_def)
  qed
  have "snd e = s"
  proof (cases "put_manifest m s")
    case (Inr y)
    then obtain t where t: "put_manifest m s = Inr ((), t)" by (cases y) auto
    have "job_view_of (fresh_job (new_id ''job'' tok) m who n k) (set_job j t) \<noteq> Inl err" for k j err
      using none put_manifest_keeps[OF t] by (simp add: job_view_of_def fresh_job_def set_job_def)
    with Inl t show ?thesis by (auto simp: enqueue_def Let_def with_view_def split: if_splits sum.splits)
  qed (use Inl put_manifest_Inl[of m s] in \<open>auto simp: enqueue_def split: if_splits prod.splits\<close>)
  with Inl show ?thesis by (cases e) (simp add: state_after_def)
next
  case (Inr x)
  obtain v t where x: "x = (v, t)" by (cases x)
  show ?thesis using s_enqueue[OF Inr[unfolded x] assms(1)] assms(2) by (simp add: Inr x state_after_def fresh_token_def)
qed

lemma cancel_stepped:
  assumes "store_ok s"
  shows "stepped s (state_after (cancel_job jid sc s))"
proof (cases "cancel_job jid sc s")
  case (Inr x)
  then show ?thesis using s_cancel by (cases x) (auto simp: state_after_def)
next
  case (Inl e)
  then obtain j where j: "dget (st_jobs s) jid = Some j" and e: "with_view (cancelled_job j) (set_job (cancelled_job j) s) = Inl e"
    by (auto simp: cancel_job_def Let_def split: option.splits if_splits sum.splits prod.splits)
  obtain v where "job_view_of (cancelled_job j) s = Inr v" using view_total[OF assms] by blast
  then have False using e by (auto simp: with_view_def job_view_of_def set_job_def split: option.splits sum.splits if_splits)
  then show ?thesis ..
qed

lemma built_genuine: "no_collision sha256 s \<Longrightarrow> build_manifest sha256 v cl cid kind payload = Inr m \<Longrightarrow> genuine m s"
  by (auto simp: no_collision_def)

lemma calling_stepped:
  assumes "calling checks call ans s = (r, t)" and "\<And>x. checks = Inr x \<Longrightarrow> stepped s (state_after (call x s))"
  shows "stepped s t"
  using calling_state[OF assms(1)] assms(2) by blast

lemma post_analysis_stepped:
  assumes "post_analysis sv p cid rq cluster s = (r, t)" and "fresh_token (sv_token sv) s" and "no_collision (sv_sha256 sv) s"
  shows "stepped s t"
  using assms(1) unfolding post_analysis_def
  by (rule calling_stepped)
    (auto simp: rbind_Inr dest!: built_genuine[OF assms(3)] record_analysis_stepped[OF _ assms(2)])

lemma post_job_stepped:
  assumes "post_job sv p n m s = (r, t)" and "fresh_token (sv_token sv) s" and "store_ok s"
    and "\<And>x. m = Inr x \<Longrightarrow> genuine x s"
  shows "stepped s t"
  using assms(1) unfolding post_job_def
  by (rule calling_stepped) (use enqueue_stepped[OF _ assms(2,3)] assms(4) in blast)

lemma post_jobs_stepped:
  assumes "fresh_token (sv_token sv) s" and "store_ok s" and "no_collision (sv_sha256 sv) s"
  shows "post_analysis_job sv p cid rq n cluster s = (r, t) \<Longrightarrow> stepped s t"
    and "post_plan_job sv p cid prq n cluster s = (r, t) \<Longrightarrow> stepped s t"
    and "post_verification_job sv p rid k s = (r, t) \<Longrightarrow> stepped s t"
  unfolding post_analysis_job_def post_plan_job_def post_verification_job_def
  by (erule post_job_stepped[OF _ assms(1,2)]; auto simp: rbind_Inr dest!: built_genuine[OF assms(3)])+

theorem route_stepped:
  assumes run: "route sv cfg p rq a = (r, a')" and ok: "store_ok (ap_store a)" and tok: "fresh_token (sv_token sv) (ap_store a)"
    and sha: "no_collision (sv_sha256 sv) (ap_store a)"
  shows "stepped (ap_store a) (ap_store a')"
proof (cases rq)
  case (VerifyAnalysis rid)
  with run show ?thesis by (auto simp: on_heavy_def split: prod.splits)
next
  case (MakePlan cid prq cluster)
  with run show ?thesis by (auto simp: on_heavy_def split: prod.splits)
next
  case (CreateCase b)
  with on_store_state[of _ a r a'] run calling_stepped create_case_stepped show ?thesis by (fastforce simp: post_case_def)
next
  case (RunAnalysis cid arq cluster)
  with on_store_state[of _ a r a'] run post_analysis_stepped tok sha show ?thesis by fastforce
next
  case (AnalysisJob cid arq n cluster)
  with on_store_state[of _ a r a'] run post_jobs_stepped(1)[OF tok ok sha] show ?thesis by fastforce
next
  case (PlanJob cid prq n cluster)
  with on_store_state[of _ a r a'] run post_jobs_stepped(2)[OF tok ok sha] show ?thesis by fastforce
next
  case (VerificationJob rid n)
  with on_store_state[of _ a r a'] run post_jobs_stepped(3)[OF tok ok sha] show ?thesis by fastforce
next
  case (CancelJob jid)
  with run have "post_cancel p jid (ap_store a) = (r, ap_store a')" using on_store_state by fastforce
  then show ?thesis unfolding post_cancel_def by (rule calling_stepped) (rule cancel_stepped[OF ok])
qed (use run in \<open>auto simp: on_read_def\<close>)

end
