(* ===== verification/Worker.thy ===== *)
theory Worker
  imports Storage_Correct
begin

text \<open>
  The worker of \<open>services/worker/afterlock_worker/runner.py\<close>. It is a client of the \<open>Storage\<close>
  protocol, a record of calls here. Other processes act between its calls: \<open>env\<close> says what they do
  after the n-th call, and the beats of the heartbeat thread come with what happened before each.
  The executor is a parameter, as in the source.

  The locale \<open>storage_contract\<close> holds the laws of the protocol the worker needs; it is interpreted
  on the in-memory backend.
\<close>

section \<open>The protocol\<close>

type_synonym ('s, 'a) call = "'s \<Rightarrow> (store_exn \<times> 's) + 'a \<times> 's"

record 's backend =
  bk_claim :: "string \<Rightarrow> int \<Rightarrow> ('s, lease option) call"
  bk_mark_running :: "lease \<Rightarrow> int \<Rightarrow> ('s, heartbeat_status) call"
  bk_heartbeat :: "lease \<Rightarrow> int \<Rightarrow> ('s, heartbeat_status) call"
  bk_complete :: "lease \<Rightarrow> json \<Rightarrow> ('s, string option) call"
  bk_fail :: "lease \<Rightarrow> string \<Rightarrow> bool \<Rightarrow> ('s, job_state option) call"
  bk_ack :: "lease \<Rightarrow> ('s, bool) call"

definition after :: "('s, 'a) call \<Rightarrow> ('a \<Rightarrow> ('s, 'b) call) \<Rightarrow> ('s, 'b) call" where
  "after f g s = (case f s of Inl e \<Rightarrow> Inl e | Inr (x, t) \<Rightarrow> g x t)"

definition give :: "'a \<Rightarrow> ('s, 'a) call" where
  "give x s = Inr (x, s)"

definition others :: "('s \<Rightarrow> 's) \<Rightarrow> ('s, unit) call" where
  "others f s = Inr ((), f s)"

section \<open>The worker\<close>

datatype exec_exn = PermanentJobError string | Unexpected string

record outcome =
  out_job :: "string option"
  out_state :: string
  out_result :: "string option"

fun job_state_name :: "job_state \<Rightarrow> string" where
  "job_state_name Queued = ''queued''"
| "job_state_name Leased = ''leased''"
| "job_state_name Running = ''running''"
| "job_state_name Succeeded = ''succeeded''"
| "job_state_name Failed = ''failed''"
| "job_state_name Cancelled = ''cancelled''"

record flags =
  fl_lost :: bool
  fl_cancel :: bool

text \<open>
  \<open>_heartbeat_loop\<close>: one beat per entry of the list, until the lease is lost. An exception of the
  storage is ignored.
\<close>

fun heartbeat_loop :: "'s backend \<Rightarrow> lease \<Rightarrow> int \<Rightarrow> ('s \<Rightarrow> 's) list \<Rightarrow> flags \<Rightarrow> 's \<Rightarrow> flags \<times> 's" where
  "heartbeat_loop bk lz sec [] fl s = (fl, s)"
| "heartbeat_loop bk lz sec (e # es) fl s =
     (case bk_heartbeat bk lz sec (e s) of
        Inl (x, t) \<Rightarrow> heartbeat_loop bk lz sec es fl t
      | Inr (HbLost, t) \<Rightarrow> (fl\<lparr>fl_lost := True\<rparr>, t)
      | Inr (HbCancel, t) \<Rightarrow> heartbeat_loop bk lz sec es (fl\<lparr>fl_cancel := True\<rparr>) t
      | Inr (HbOk, t) \<Rightarrow> heartbeat_loop bk lz sec es fl t)"

definition beating :: "'s backend \<Rightarrow> lease \<Rightarrow> int \<Rightarrow> ('s \<Rightarrow> 's) list \<Rightarrow> flags \<Rightarrow> ('s, flags) call" where
  "beating bk lz sec es fl s = Inr (heartbeat_loop bk lz sec es fl s)"

definition outcome_of :: "lease \<Rightarrow> string \<Rightarrow> outcome" where
  "outcome_of lz st = \<lparr>out_job = Some (lz_job lz), out_state = st, out_result = None\<rparr>"

definition or_lost :: "job_state option \<Rightarrow> string" where
  "or_lost st = (case st of None \<Rightarrow> ''lost'' | Some x \<Rightarrow> job_state_name x)"

text \<open>The executor raised: the failure is reported before the heartbeat thread is stopped.\<close>

definition report_failure ::
  "'s backend \<Rightarrow> int \<Rightarrow> ('s \<Rightarrow> 's) list \<Rightarrow> lease \<Rightarrow> exec_exn \<Rightarrow> ('s, outcome) call" where
  "report_failure bk sec late lz e =
     after (case e of PermanentJobError m \<Rightarrow> bk_fail bk lz m False | Unexpected m \<Rightarrow> bk_fail bk lz m True) (\<lambda>st.
     after (beating bk lz sec late \<lparr>fl_lost = False, fl_cancel = False\<rparr>) (\<lambda>_.
     give (outcome_of lz (or_lost st))))"

text \<open>Lease lost, cancellation raced in, or already published: never publish twice.\<close>

definition publish_result :: "'s backend \<Rightarrow> (nat \<Rightarrow> 's \<Rightarrow> 's) \<Rightarrow> lease \<Rightarrow> json \<Rightarrow> ('s, outcome) call" where
  "publish_result bk env lz body =
     after (bk_complete bk lz body) (\<lambda>rid.
       case rid of
         None \<Rightarrow>
           after (others (env 3)) (\<lambda>_.
           after (bk_ack bk lz) (\<lambda>ack. give (outcome_of lz (if ack then ''cancelled'' else ''lost''))))
       | Some r \<Rightarrow> give \<lparr>out_job = Some (lz_job lz), out_state = ''succeeded'', out_result = Some r\<rparr>)"

definition finish :: "'s backend \<Rightarrow> (nat \<Rightarrow> 's \<Rightarrow> 's) \<Rightarrow> flags \<Rightarrow> lease \<Rightarrow> json \<Rightarrow> ('s, outcome) call" where
  "finish bk env fl lz body =
     (if fl_lost fl then give (outcome_of lz ''lost'')
      else after (if fl_cancel fl then bk_ack bk lz else give False) (\<lambda>ack.
        if ack then give (outcome_of lz ''cancelled'')
        else after (others (env 2)) (\<lambda>_. publish_result bk env lz body)))"

definition run_job ::
  "'s backend \<Rightarrow> (string \<Rightarrow> (string, json) dict \<Rightarrow> exec_exn + json) \<Rightarrow> int \<Rightarrow> (nat \<Rightarrow> 's \<Rightarrow> 's) \<Rightarrow>
   ('s \<Rightarrow> 's) list \<Rightarrow> ('s \<Rightarrow> 's) list \<Rightarrow> lease \<Rightarrow> ('s, outcome) call" where
  "run_job bk executor sec env beats late lz =
     after (bk_mark_running bk lz sec) (\<lambda>status.
       case status of
         HbLost \<Rightarrow> give (outcome_of lz ''lost'')
       | HbCancel \<Rightarrow>
           after (others (env 1)) (\<lambda>_. after (bk_ack bk lz) (\<lambda>_. give (outcome_of lz ''cancelled'')))
       | HbOk \<Rightarrow>
           after (beating bk lz sec beats \<lparr>fl_lost = False, fl_cancel = False\<rparr>) (\<lambda>fl.
             case executor (lz_kind lz) (man_payload (lz_manifest lz)) of
               Inl e \<Rightarrow> after (others (env 1)) (\<lambda>_. report_failure bk sec late lz e)
             | Inr body \<Rightarrow> after (others (env 1)) (\<lambda>_. finish bk env fl lz body)))"

definition process_one ::
  "(string \<Rightarrow> string) \<Rightarrow> 's backend \<Rightarrow> (string \<Rightarrow> (string, json) dict \<Rightarrow> exec_exn + json) \<Rightarrow> string \<Rightarrow> int \<Rightarrow>
   (nat \<Rightarrow> 's \<Rightarrow> 's) \<Rightarrow> ('s \<Rightarrow> 's) list \<Rightarrow> ('s \<Rightarrow> 's) list \<Rightarrow> ('s, outcome) call" where
  "process_one sha256 bk executor owner sec env beats late =
     after (bk_claim bk owner sec) (\<lambda>lease.
       case lease of
         None \<Rightarrow> give \<lparr>out_job = None, out_state = ''idle'', out_result = None\<rparr>
       | Some lz \<Rightarrow>
           after (others (env 0)) (\<lambda>_.
           if \<not> manifest_intact sha256 (lz_manifest lz) then
             after (bk_fail bk lz ''manifest integrity check failed'' False) (\<lambda>st. give (outcome_of lz (or_lost st)))
           else run_job bk executor sec env beats late lz))"

text \<open>\<open>drain\<close>: what the others do is given anew for each job.\<close>

fun drain ::
  "(string \<Rightarrow> string) \<Rightarrow> 's backend \<Rightarrow> (string \<Rightarrow> (string, json) dict \<Rightarrow> exec_exn + json) \<Rightarrow> string \<Rightarrow> int \<Rightarrow>
   (nat \<Rightarrow> nat \<Rightarrow> 's \<Rightarrow> 's) \<Rightarrow> (nat \<Rightarrow> ('s \<Rightarrow> 's) list) \<Rightarrow> (nat \<Rightarrow> ('s \<Rightarrow> 's) list) \<Rightarrow> nat \<Rightarrow> ('s, outcome list) call" where
  "drain sha256 bk executor owner sec env beats late 0 = give []"
| "drain sha256 bk executor owner sec env beats late (Suc limit) =
     after (process_one sha256 bk executor owner sec (env limit) (beats limit) (late limit)) (\<lambda>o1.
       if out_state o1 = ''idle'' then give []
       else after (drain sha256 bk executor owner sec env beats late limit) (\<lambda>os. give (o1 # os)))"

section \<open>The in-memory backend as a protocol\<close>

text \<open>
  The state is the store and the number of calls made on it, which selects the clock readings and the
  random token of a call.
\<close>

type_synonym world = "store \<times> nat"

definition at_call :: "(nat \<Rightarrow> store \<Rightarrow> 'a step) \<Rightarrow> (world, 'a) call" where
  "at_call f w =
     (case f (snd w) (fst w) of
        Inl (e, s) \<Rightarrow> Inl (e, (s, Suc (snd w)))
      | Inr (x, s) \<Rightarrow> Inr (x, (s, Suc (snd w))))"

definition memory_backend :: "(nat \<Rightarrow> int) \<Rightarrow> (nat \<Rightarrow> string) \<Rightarrow> scope \<Rightarrow> world backend" where
  "memory_backend clock tok sc = \<lparr>
     bk_claim = (\<lambda>owner sec. at_call (\<lambda>n. claim owner sec (clock (2 * n)) sc)),
     bk_mark_running = (\<lambda>lz sec. at_call (\<lambda>n. mark_running lz sec (clock (2 * n)) (clock (2 * n + 1)))),
     bk_heartbeat = (\<lambda>lz sec. at_call (\<lambda>n. heartbeat lz sec (clock (2 * n)) (clock (2 * n + 1)))),
     bk_complete = (\<lambda>lz body. at_call (\<lambda>n. complete_job (tok n) lz body (clock (2 * n)))),
     bk_fail = (\<lambda>lz err retryable. at_call (\<lambda>n. fail_job lz err retryable (clock (2 * n)))),
     bk_ack = (\<lambda>lz. at_call (\<lambda>n. acknowledge_cancel lz (clock (2 * n))))\<rparr>"

section \<open>The contract\<close>

text \<open>
  \<open>result_of\<close> is the published result of a job and \<open>later\<close> what may happen to the storage. A call
  returns and leads to a later state; only \<open>complete\<close> publishes, at most once, what it was given.
\<close>

definition returns :: "('s \<Rightarrow> 'a \<Rightarrow> 's \<Rightarrow> bool) \<Rightarrow> ('s, 'a) call \<Rightarrow> 's \<Rightarrow> bool" where
  "returns Q f s \<longleftrightarrow> (\<exists>x t. f s = Inr (x, t) \<and> Q s x t)"

locale storage_contract =
  fixes bk :: "'s backend" and good :: "'s \<Rightarrow> bool" and result_of :: "'s \<Rightarrow> string \<Rightarrow> json option"
    and later :: "'s \<Rightarrow> 's \<Rightarrow> bool"
  assumes later_refl: "later s s"
    and later_trans: "later s t \<Longrightarrow> later t u \<Longrightarrow> later s u"
    and later_good: "later s t \<Longrightarrow> good s \<Longrightarrow> good t"
    and later_result: "later s t \<Longrightarrow> good s \<Longrightarrow> result_of s jid = Some b \<Longrightarrow> result_of t jid = Some b"
    and claim_law: "good s \<Longrightarrow> returns (\<lambda>s x t. later s t) (bk_claim bk owner sec) s"
    and mark_law: "good s \<Longrightarrow> returns (\<lambda>s x t. later s t) (bk_mark_running bk lz sec) s"
    and beat_law: "good s \<Longrightarrow> returns (\<lambda>s x t. later s t) (bk_heartbeat bk lz sec) s"
    and fail_law: "good s \<Longrightarrow> returns (\<lambda>s x t. later s t \<and> x \<noteq> Some Succeeded) (bk_fail bk lz err retryable) s"
    and ack_law: "good s \<Longrightarrow> returns (\<lambda>s x t. later s t) (bk_ack bk lz) s"
    and complete_law: "good s \<Longrightarrow> returns (\<lambda>s x t. later s t \<and>
      (x \<noteq> None \<longrightarrow> result_of s (lz_job lz) = None \<and> result_of t (lz_job lz) = Some body)) (bk_complete bk lz body) s"
begin

text \<open>A call whose outcome satisfies \<open>P\<close>, in a later state.\<close>

definition ends :: "('s \<Rightarrow> outcome \<Rightarrow> bool) \<Rightarrow> ('s, outcome) call \<Rightarrow> 's \<Rightarrow> bool" where
  "ends P f s \<longleftrightarrow> returns (\<lambda>s x t. later s t \<and> P t x) f s"

lemma ends_after:
  assumes "returns (\<lambda>s x t. later s t \<and> R x t) f s" and "good s"
    and "\<And>x t. good t \<Longrightarrow> R x t \<Longrightarrow> ends P (g x) t"
  shows "ends P (after f g) s"
proof -
  from assms(1) obtain x t where f: "f s = Inr (x, t)" "later s t" "R x t" by (auto simp: returns_def)
  from assms(3)[OF later_good[OF f(2) assms(2)] f(3)] obtain y u where "g x t = Inr (y, u)" "later t u" "P u y"
    by (auto simp: ends_def returns_def)
  moreover have "later s u" using f(2) \<open>later t u\<close> by (rule later_trans)
  ultimately show ?thesis using f(1) by (simp add: ends_def returns_def after_def)
qed

lemma ends_call:
  assumes "returns (\<lambda>s x t. later s t) f s" and "good s" and "\<And>x t. good t \<Longrightarrow> ends P (g x) t"
  shows "ends P (after f g) s"
  by (rule ends_after[where R = "\<lambda>_ _. True"]) (use assms in auto)

lemma ends_give: "P s x \<Longrightarrow> ends P (give x) s"
  by (simp add: ends_def returns_def give_def later_refl)

lemma give_law: "returns (\<lambda>s x t. later s t) (give x) s"
  by (simp add: returns_def give_def later_refl)

lemma others_law: "later s (f s) \<Longrightarrow> returns (\<lambda>s x t. later s t) (others f) s"
  by (simp add: returns_def others_def)

lemma heartbeat_loop_later:
  assumes "\<forall>e \<in> set es. \<forall>s. good s \<longrightarrow> later s (e s)"
  shows "good s \<Longrightarrow> later s (snd (heartbeat_loop bk lz sec es fl s))"
  using assms
proof (induction es arbitrary: fl s)
  case (Cons e es)
  have e: "later s (e s)" "good (e s)" using Cons.prems later_good by auto
  from beat_law[OF e(2), of lz sec] obtain x t where b: "bk_heartbeat bk lz sec (e s) = Inr (x, t)" "later (e s) t"
    by (auto simp: returns_def)
  have t: "later s t" "good t" using e b(2) later_trans later_good by blast+
  have "later s (snd (heartbeat_loop bk lz sec es fl' t))" for fl'
    using Cons.IH[OF t(2)] Cons.prems(2) later_trans[OF t(1)] by simp
  with t(1) show ?case by (cases x) (simp_all add: b(1))
qed (simp add: later_refl)

lemma beating_law:
  "good s \<Longrightarrow> \<forall>e \<in> set es. \<forall>s. good s \<longrightarrow> later s (e s) \<Longrightarrow> returns (\<lambda>s x t. later s t) (beating bk lz sec es fl) s"
  using heartbeat_loop_later[of es s lz sec fl] by (simp add: returns_def beating_def) (metis prod.collapse)

text \<open>An outcome \<open>succeeded\<close> means that the result of the executor is the published result of the job.\<close>

definition honest :: "(string \<Rightarrow> string) \<Rightarrow> (string \<Rightarrow> (string, json) dict \<Rightarrow> exec_exn + json) \<Rightarrow> 's \<Rightarrow> outcome \<Rightarrow> bool" where
  "honest sha256 executor t o1 \<longleftrightarrow> (out_state o1 = ''succeeded'' \<longrightarrow>
     (\<exists>(lz :: lease) body. out_job o1 = Some (lz_job lz) \<and> manifest_intact sha256 (lz_manifest lz) \<and>
        executor (lz_kind lz) (man_payload (lz_manifest lz)) = Inr body \<and> result_of t (lz_job lz) = Some body))"

lemma not_succeeded [simp]: "st \<noteq> ''succeeded'' \<Longrightarrow> honest sha256 executor t (outcome_of lz st)"
  by (simp add: honest_def outcome_of_def)

lemma or_lost_not_succeeded: "st \<noteq> Some Succeeded \<Longrightarrow> or_lost st \<noteq> ''succeeded''"
  by (cases "the st") (auto simp: or_lost_def split: option.splits)

lemma idle_honest [simp]: "honest sha256 executor t \<lparr>out_job = None, out_state = ''idle'', out_result = None\<rparr>"
  by (simp add: honest_def)

theorem process_one_honest:
  assumes good: "good s" and env: "\<forall>n s. good s \<longrightarrow> later s (env n s)"
    and beats: "\<forall>e \<in> set (beats @ late). \<forall>s. good s \<longrightarrow> later s (e s)"
  shows "ends (honest sha256 executor) (process_one sha256 bk executor owner sec env beats late) s"
proof -
  note laws = claim_law mark_law ack_law give_law beating_law others_law
  have out: "returns (\<lambda>s x t. later s t) (others (env n)) t" if "good t" for n t
    using env that by (intro others_law) blast
  have fail: "ends (honest sha256 executor) (after (bk_fail bk lz err r) (\<lambda>st. g st)) t"
    if "good t" and g: "\<And>st u. good u \<Longrightarrow> or_lost st \<noteq> ''succeeded'' \<Longrightarrow> ends (honest sha256 executor) (g st) u" for lz err r g t
    by (rule ends_after[where R = "\<lambda>x t. x \<noteq> Some Succeeded", OF fail_law[OF that(1)] that(1)])
       (use g or_lost_not_succeeded in blast)
  have report: "ends (honest sha256 executor) (report_failure bk sec late lz e) t" if t: "good t" for lz e t
  proof -
    have g: "ends (honest sha256 executor) (after (beating bk lz sec late fl) (\<lambda>_. give (outcome_of lz (or_lost st)))) u"
      if "good u" "or_lost st \<noteq> ''succeeded''" for st u fl
      by (rule ends_call[OF beating_law[OF that(1)] that(1)]) (use beats that in \<open>auto intro: ends_give\<close>)
    show ?thesis unfolding report_failure_def by (cases e) (auto intro!: fail[OF t] g)
  qed
  have publish: "ends (honest sha256 executor) (publish_result bk env lz body) t"
    if t: "good t" and "manifest_intact sha256 (lz_manifest lz)"
      and "executor (lz_kind lz) (man_payload (lz_manifest lz)) = Inr body" for lz body t
  proof -
    have none: "ends (honest sha256 executor) (after (others (env 3)) (\<lambda>_. after (bk_ack bk lz)
        (\<lambda>ack. give (outcome_of lz (if ack then ''cancelled'' else ''lost''))))) u" if "good u" for u
      by (rule ends_call[OF out[OF that] that], rule ends_call[OF ack_law], assumption+, rule ends_give) simp
    show ?thesis
      unfolding publish_result_def
    proof (rule ends_after[where R = "\<lambda>x u. x \<noteq> None \<longrightarrow> result_of u (lz_job lz) = Some body"])
      show "returns (\<lambda>s x u. later s u \<and> (x \<noteq> None \<longrightarrow> result_of u (lz_job lz) = Some body)) (bk_complete bk lz body) t"
        using complete_law[OF t, of lz body] by (auto simp: returns_def)
      fix x :: "string option" and u assume u: "good u" "x \<noteq> None \<longrightarrow> result_of u (lz_job lz) = Some body"
      show "ends (honest sha256 executor) (case x of None \<Rightarrow> after (others (env 3)) (\<lambda>_. after (bk_ack bk lz)
              (\<lambda>ack. give (outcome_of lz (if ack then ''cancelled'' else ''lost''))))
            | Some r \<Rightarrow> give \<lparr>out_job = Some (lz_job lz), out_state = ''succeeded'', out_result = Some r\<rparr>) u"
      proof (cases x)
        case (Some r)
        have "honest sha256 executor u \<lparr>out_job = Some (lz_job lz), out_state = ''succeeded'', out_result = Some r\<rparr>"
          using u(2) Some that(2,3) by (auto simp: honest_def)
        then show ?thesis using Some by (simp add: ends_give)
      qed (use none u(1) in simp)
    qed (rule t)
  qed
  have finish: "ends (honest sha256 executor) (finish bk env fl lz body) t"
    if t: "good t" and h: "manifest_intact sha256 (lz_manifest lz)"
      "executor (lz_kind lz) (man_payload (lz_manifest lz)) = Inr body" for fl lz body t
  proof -
    have rest: "ends (honest sha256 executor) (if ack then give (outcome_of lz ''cancelled'')
        else after (others (env 2)) (\<lambda>_. publish_result bk env lz body)) u" if u: "good u" for ack u
      using ends_call[OF out[OF u] u publish[OF _ h]] by (simp add: ends_give)
    have step: "returns (\<lambda>s x t. later s t) (if fl_cancel fl then bk_ack bk lz else give False) t"
      using ack_law[OF t, of lz] later_refl by (auto simp: returns_def give_def)
    show ?thesis
      unfolding finish_def using ends_call[OF step t rest] by (simp add: ends_give)
  qed
  have run: "ends (honest sha256 executor) (run_job bk executor sec env beats late lz) t"
    if t: "good t" and h: "manifest_intact sha256 (lz_manifest lz)" for lz t
    unfolding run_job_def
  proof (rule ends_call[OF mark_law[OF t] t])
    fix status :: heartbeat_status and u assume u: "good u"
    have cancel: "ends (honest sha256 executor) (after (others (env 1)) (\<lambda>_. after (bk_ack bk lz)
        (\<lambda>_. give (outcome_of lz ''cancelled'')))) u"
      by (rule ends_call[OF out[OF u] u], rule ends_call[OF ack_law], assumption+, rule ends_give) simp
    have go: "ends (honest sha256 executor) (case executor (lz_kind lz) (man_payload (lz_manifest lz)) of
          Inl e \<Rightarrow> after (others (env 1)) (\<lambda>_. report_failure bk sec late lz e)
        | Inr body \<Rightarrow> after (others (env 1)) (\<lambda>_. finish bk env fl lz body)) v" if v: "good v" for fl v
    proof (cases "executor (lz_kind lz) (man_payload (lz_manifest lz))")
      case (Inl e)
      then show ?thesis using ends_call[OF out[OF v] v report] by simp
    next
      case (Inr body)
      then show ?thesis using ends_call[OF out[OF v] v finish[OF _ h Inr]] by simp
    qed
    have "\<forall>e \<in> set beats. \<forall>s. good s \<longrightarrow> later s (e s)" using beats by simp
    from ends_call[OF beating_law[OF u this] u go]
    show "ends (honest sha256 executor) (case status of
         HbLost \<Rightarrow> give (outcome_of lz ''lost'')
       | HbCancel \<Rightarrow> after (others (env 1)) (\<lambda>_. after (bk_ack bk lz) (\<lambda>_. give (outcome_of lz ''cancelled'')))
       | HbOk \<Rightarrow> after (beating bk lz sec beats \<lparr>fl_lost = False, fl_cancel = False\<rparr>) (\<lambda>fl.
             case executor (lz_kind lz) (man_payload (lz_manifest lz)) of
               Inl e \<Rightarrow> after (others (env 1)) (\<lambda>_. report_failure bk sec late lz e)
             | Inr body \<Rightarrow> after (others (env 1)) (\<lambda>_. finish bk env fl lz body))) u"
      using cancel by (cases status) (simp_all add: ends_give)
  qed
  show ?thesis
    unfolding process_one_def
  proof (rule ends_call[OF claim_law[OF good] good])
    fix x :: "lease option" and t assume t: "good t"
    show "ends (honest sha256 executor) (case x of None \<Rightarrow> give \<lparr>out_job = None, out_state = ''idle'', out_result = None\<rparr>
       | Some lz \<Rightarrow> after (others (env 0)) (\<lambda>_.
           if \<not> manifest_intact sha256 (lz_manifest lz) then
             after (bk_fail bk lz ''manifest integrity check failed'' False) (\<lambda>st. give (outcome_of lz (or_lost st)))
           else run_job bk executor sec env beats late lz)) t"
    proof (cases x)
      case (Some lz)
      have "ends (honest sha256 executor) (if \<not> manifest_intact sha256 (lz_manifest lz) then
             after (bk_fail bk lz ''manifest integrity check failed'' False) (\<lambda>st. give (outcome_of lz (or_lost st)))
           else run_job bk executor sec env beats late lz) u" if u: "good u" for u
        using run[OF u] fail[OF u, of "\<lambda>st. give (outcome_of lz (or_lost st))"] by (simp add: ends_give)
      then show ?thesis using Some ends_call[OF out[OF t] t] by simp
    qed (simp add: ends_give)
  qed
qed

end

section \<open>The in-memory backend keeps the contract\<close>

definition memory_result :: "world \<Rightarrow> string \<Rightarrow> json option" where
  "memory_result w jid =
     (case dget (st_result_by_job (fst w)) jid of
        None \<Rightarrow> None | Some rid \<Rightarrow> map_option res_body (dget (st_results (fst w)) rid))"

text \<open>Tokens of calls to come name no result yet.\<close>

definition token_used :: "(nat \<Rightarrow> string) \<Rightarrow> nat \<Rightarrow> store \<Rightarrow> bool" where
  "token_used tok n s \<longleftrightarrow> (\<exists>k p. result_prefix k = Some p \<and> dmem (new_id p (tok n)) (st_results s))"

definition memory_good :: "(nat \<Rightarrow> string) \<Rightarrow> world \<Rightarrow> bool" where
  "memory_good tok w \<longleftrightarrow> inj tok \<and> store_ok (fst w) \<and> (\<forall>n \<ge> snd w. \<not> token_used tok n (fst w))"

definition memory_later :: "(nat \<Rightarrow> string) \<Rightarrow> world \<Rightarrow> world \<Rightarrow> bool" where
  "memory_later tok w w' \<longleftrightarrow> store_step\<^sup>*\<^sup>* (fst w) (fst w') \<and> snd w \<le> snd w' \<and>
     (\<forall>n \<ge> snd w'. token_used tok n (fst w') \<longrightarrow> token_used tok n (fst w))"

lemma result_prefix_length: "result_prefix k = Some p \<Longrightarrow> length p = 2"
  by (auto simp: result_prefix_def split: if_splits)

lemma new_id_inject:
  assumes "new_id p t = new_id p' t'" and "result_prefix k = Some p" and "result_prefix k' = Some p'"
  shows "p = p' \<and> t = t'"
  using assms(1) result_prefix_length[OF assms(2)] result_prefix_length[OF assms(3)] by (simp add: new_id_def)

lemma memory_result_published:
  "store_ok (fst w) \<Longrightarrow> memory_result w jid = Some b \<longleftrightarrow>
     (\<exists>rid r. published_as (fst w) jid rid r \<and> res_body r = b)"
  by (auto simp: memory_result_def published_as_def split: option.splits)

text \<open>A call that leaves the results alone is a step to a later world.\<close>

lemma at_call_returns:
  assumes "f (snd w) (fst w) = Inr (x, s)" and "store_step (fst w) s"
    and "\<And>n. Suc (snd w) \<le> n \<Longrightarrow> token_used tok n s \<Longrightarrow> token_used tok n (fst w)" and "Q x (s, Suc (snd w))"
  shows "returns (\<lambda>w x w'. memory_later tok w w' \<and> Q x w') (at_call f) w"
  using assms by (auto simp: returns_def at_call_def memory_later_def)

lemma at_call_moved:
  assumes "\<exists>r. f (snd w) (fst w) = Inr r" and "\<And>x s. f (snd w) (fst w) = Inr (x, s) \<Longrightarrow> store_step (fst w) s"
    and "\<And>x s. f (snd w) (fst w) = Inr (x, s) \<Longrightarrow> jobs_moved (fst w) s"
    and "\<And>x s. f (snd w) (fst w) = Inr (x, s) \<Longrightarrow> Q x (s, Suc (snd w))"
  shows "returns (\<lambda>w x w'. memory_later tok w w' \<and> Q x w') (at_call f) w"
proof -
  obtain x s where f: "f (snd w) (fst w) = Inr (x, s)" using assms(1) by auto
  show ?thesis
    by (rule at_call_returns[where f = f and w = w and x = x and s = s and Q = Q, OF f assms(2)[OF f] _ assms(4)[OF f]])
       (simp add: token_used_def jobs_moved_frame[OF assms(3)[OF f]])
qed

lemma complete_returns:
  assumes g: "memory_good tok w"
    and f: "complete_job (tok (snd w)) lz body now (fst w) = Inr (x, t)"
  shows "store_step (fst w) t" and "\<And>n. Suc (snd w) \<le> n \<Longrightarrow> token_used tok n t \<Longrightarrow> token_used tok n (fst w)"
    and "x \<noteq> None \<longrightarrow> memory_result w (lz_job lz) = None \<and> memory_result (t, n') (lz_job lz) = Some body"
proof -
  have ok: "store_ok (fst w)" and fresh: "\<not> token_used tok (snd w) (fst w)" and inj: "inj tok"
    using g by (auto simp: memory_good_def)
  then have new: "\<not> dmem (new_id p (tok (snd w))) (st_results (fst w))" if "result_prefix k = Some p" for k p
    using that unfolding token_used_def by blast
  show "store_step (fst w) t" by (rule s_complete[OF f]) (rule new)
  from f ok have "(\<forall>n. Suc (snd w) \<le> n \<longrightarrow> token_used tok n t \<longrightarrow> token_used tok n (fst w)) \<and>
      (x \<noteq> None \<longrightarrow> memory_result w (lz_job lz) = None \<and> memory_result (t, n') (lz_job lz) = Some body)"
  proof (cases rule: complete_parts)
    case (full j err)
    then have "jobs_moved (fst w) t" using set_job_moved[OF _ mv_give_up] by simp
    from jobs_moved_frame(2)[OF this] full(1) show ?thesis by (simp add: token_used_def)
  next
    case (published j m p)
    have id: "jb_id j = lz_job lz" using held_current[OF published(1) ok] by simp
    have "token_used tok n (fst w)" if n: "Suc (snd w) \<le> n" and u: "token_used tok n t" for n
    proof -
      from u obtain k p' where p': "result_prefix k = Some p'" "dmem (new_id p' (tok n)) (st_results t)"
        unfolding token_used_def by blast
      have "tok n \<noteq> tok (snd w)" using inj n by (auto dest: injD)
      then have "new_id p' (tok n) \<noteq> new_id p (tok (snd w))" using new_id_inject[OF _ p'(1) published(9)] by blast
      with p' show ?thesis unfolding token_used_def published(10) by (auto simp: publish_def set_job_def split: if_splits)
    qed
    moreover have "memory_result w (lz_job lz) = None" using published(6) id by (simp add: memory_result_def)
    moreover have "memory_result (t, n') (lz_job lz) = Some body"
      unfolding published(10) by (simp add: memory_result_def publish_def set_job_def id)
    ultimately show ?thesis by blast
  qed simp
  then show "\<And>n. Suc (snd w) \<le> n \<Longrightarrow> token_used tok n t \<Longrightarrow> token_used tok n (fst w)"
    and "x \<noteq> None \<longrightarrow> memory_result w (lz_job lz) = None \<and> memory_result (t, n') (lz_job lz) = Some body" by blast+
qed

lemma returns_weaken: "returns (\<lambda>s x t. L s t \<and> True) f s \<Longrightarrow> returns (\<lambda>s x t. L s t) f s"
  by simp

interpretation memory: storage_contract "memory_backend clock tok sc" "memory_good tok" memory_result "memory_later tok"
  for clock :: "nat \<Rightarrow> int" and tok :: "nat \<Rightarrow> string" and sc :: scope
proof unfold_locales
  fix s t u :: world and jid b owner sec lz err retryable body
  show "memory_later tok s s" by (simp add: memory_later_def)
  show "memory_later tok s u" if "memory_later tok s t" "memory_later tok t u"
    using that by (force simp: memory_later_def intro: rtranclp_trans)
  show "memory_good tok t" if "memory_later tok s t" "memory_good tok s"
    using that by (auto simp: memory_later_def memory_good_def intro: steps_ok)
  show "memory_result t jid = Some b" if "memory_later tok s t" "memory_good tok s" "memory_result s jid = Some b"
  proof -
    have ok: "store_ok (fst s)" "store_ok (fst t)" and st: "store_step\<^sup>*\<^sup>* (fst s) (fst t)"
      using that(1,2) by (auto simp: memory_later_def memory_good_def intro: steps_ok)
    from that(3) obtain rid r where "published_as (fst s) jid rid r" "res_body r = b"
      using memory_result_published[OF ok(1)] by auto
    with steps_result[OF st ok(1)] show ?thesis using memory_result_published[OF ok(2)] by blast
  qed
next
  fix s :: world and owner sec lz err retryable body
  assume g: "memory_good tok s"
  then have ok: "store_ok (fst s)" by (simp add: memory_good_def)
  note total = worker_calls_total[OF ok]
  note moved = moved_calls[OF _ ok]
  show "returns (\<lambda>s x t. memory_later tok s t) (bk_claim (memory_backend clock tok sc) owner sec) s"
    unfolding memory_backend_def backend.simps
    by (rule returns_weaken, rule at_call_moved, rule total) (auto intro: moved s_claim)
  show "returns (\<lambda>s x t. memory_later tok s t) (bk_mark_running (memory_backend clock tok sc) lz sec) s"
    unfolding memory_backend_def backend.simps
    by (rule returns_weaken, rule at_call_moved, rule total) (auto intro: moved s_run)
  show "returns (\<lambda>s x t. memory_later tok s t) (bk_heartbeat (memory_backend clock tok sc) lz sec) s"
    unfolding memory_backend_def backend.simps
    by (rule returns_weaken, rule at_call_moved, rule total) (auto intro: moved s_beat)
  show "returns (\<lambda>s x t. memory_later tok s t \<and> x \<noteq> Some Succeeded) (bk_fail (memory_backend clock tok sc) lz err retryable) s"
    unfolding memory_backend_def backend.simps
    by (rule at_call_moved, rule total, erule s_fail, erule moved)
       (auto simp: fail_job_def with_held_iff failed_job_def release_def Let_def split: if_splits)
  show "returns (\<lambda>s x t. memory_later tok s t) (bk_ack (memory_backend clock tok sc) lz) s"
    unfolding memory_backend_def backend.simps
    by (rule returns_weaken, rule at_call_moved, rule total) (auto intro: moved s_ack)
  show "returns (\<lambda>s x t. memory_later tok s t \<and>
      (x \<noteq> None \<longrightarrow> memory_result s (lz_job lz) = None \<and> memory_result t (lz_job lz) = Some body))
      (bk_complete (memory_backend clock tok sc) lz body) s"
  proof -
    obtain x t where f: "complete_job (tok (snd s)) lz body (clock (2 * snd s)) (fst s) = Inr (x, t)"
      using total(4)[of "tok (snd s)" lz body "clock (2 * snd s)"] by auto
    show ?thesis
      unfolding memory_backend_def backend.simps
      using f complete_returns(1,2)[OF g f] complete_returns(3)[OF g f, of "Suc (snd s)"]
      by (auto simp: returns_def at_call_def memory_later_def)
  qed
qed

end
