(* ===== verification/Storage_Properties.thy ===== *)
theory Storage_Properties
  imports Worker
begin

text \<open>
  The properties of the storage and of the worker, with a small history of a store that the
  witnesses use: a case, a queued job, a claim, an expired lease and a second claim.
\<close>

section \<open>A store in use\<close>

definition demo_manifest :: manifest where
  "demo_manifest = \<lparr>man_id = ''m1'', man_cluster = ''k1'', man_case = ''c1'', man_kind = ''analysis'', man_input_hash = ''h'',
     man_profile = JNull, man_engine = ''0'', man_payload = [(''input'', JNull)]\<rparr>"

definition demo0 :: store where "demo0 = projr (empty_store 5 5 5)"

definition demo1 :: store where
  "demo1 = snd (projr (create_case (\<lambda>s. s) \<lparr>cs_id = ''c1'', cs_cluster = ''k1'', cs_input = JNull, cs_diagnostics = JNull, cs_hash = ''''\<rparr> demo0))"

definition demo2 :: store where "demo2 = snd (projr (enqueue ''1'' demo_manifest ''u'' 3 demo1))"

definition demo3 :: store where "demo3 = snd (projr (claim ''w1'' 10 0 None demo2))"

definition demo_lease :: lease where "demo_lease = the (fst (projr (claim ''w1'' 10 0 None demo2)))"

definition demo4 :: store where "demo4 = snd (projr (claim ''w2'' 10 20 None demo3))"

definition demo_lease2 :: lease where "demo_lease2 = the (fst (projr (claim ''w2'' 10 20 None demo3)))"

definition demo5 :: store where "demo5 = snd (projr (complete_job ''2'' demo_lease2 JNull 25 demo4))"

definition demo_cancelled :: store where "demo_cancelled = snd (projr (cancel_job ''job-1'' None demo4))"

lemma demo_runs:
  "empty_store 5 5 5 = Inr demo0"
  "create_case (\<lambda>s. s) \<lparr>cs_id = ''c1'', cs_cluster = ''k1'', cs_input = JNull, cs_diagnostics = JNull, cs_hash = ''''\<rparr> demo0 = Inr (True, demo1)"
  "enqueue ''1'' demo_manifest ''u'' 3 demo1 = Inr (fst (projr (enqueue ''1'' demo_manifest ''u'' 3 demo1)), demo2)"
  "claim ''w1'' 10 0 None demo2 = Inr (Some demo_lease, demo3)"
  "claim ''w2'' 10 20 None demo3 = Inr (Some demo_lease2, demo4)"
  "complete_job ''2'' demo_lease2 JNull 25 demo4 = Inr (Some ''an-2'', demo5)"
  "cancel_job ''job-1'' None demo4 = Inr (fst (projr (cancel_job ''job-1'' None demo4)), demo_cancelled)"
  by code_simp+

lemma demo_fresh:
  "st_manifests demo1 = []" "dget (st_jobs demo1) (new_id ''job'' ''1'') = None" "st_results demo4 = []" "man_kind demo_manifest \<in> set JOB_KINDS"
  by code_simp+

lemma demo_steps: "store_step\<^sup>*\<^sup>* demo0 demo2" "store_step demo2 demo3" "store_step demo3 demo4" "store_step demo4 demo5"
  "store_step demo4 demo_cancelled"
proof -
  have "genuine demo_manifest demo1" using demo_fresh by (simp add: genuine_def)
  then have "store_step demo1 demo2" using demo_fresh by (intro s_enqueue[OF demo_runs(3)]) simp_all
  with s_case[OF demo_runs(2)] show "store_step\<^sup>*\<^sup>* demo0 demo2" by simp
  show "store_step demo2 demo3" "store_step demo3 demo4" by (rule s_claim[OF demo_runs(4)] s_claim[OF demo_runs(5)])+
  show "store_step demo4 demo5" by (rule s_complete[OF demo_runs(6)]) (simp add: demo_fresh)
  show "store_step demo4 demo_cancelled" by (rule s_cancel[OF demo_runs(7)])
qed

lemma demo_reach: "store_step\<^sup>*\<^sup>* demo0 demo3" "store_step\<^sup>*\<^sup>* demo0 demo4" "store_step\<^sup>*\<^sup>* demo0 demo5"
  using demo_steps by auto

section \<open>Jobs and results\<close>

text \<open>
  C24: Whatever calls are made on a store that starts empty, in any order and by anybody, its tables
  stay consistent: leases and owners come and go together, attempts stay within their budget, every
  job, manifest and result refers to records that exist in the same cluster, a job has a result
  exactly when it succeeded, and no table outgrows its cap.
\<close>
theorem storage_stays_consistent:
  assumes "empty_store mc mr mj = Inr s0" and "store_step\<^sup>*\<^sup>* s0 s"
  shows "store_ok s"
  by (rule reachable_store_ok[OF assms])

theorem storage_stays_consistent_witness: "store_ok demo5"
  by (rule storage_stays_consistent[OF demo_runs(1) demo_reach(3)])

text \<open>
  C25: A job is published at most once: two results of one job are the same result, and its job
  has succeeded.
\<close>
theorem at_most_one_result:
  assumes "empty_store mc mr mj = Inr s0" and "store_step\<^sup>*\<^sup>* s0 s"
    and "dget (st_results s) rid = Some r" "res_job r = Some jid"
    and "dget (st_results s) rid' = Some r'" "res_job r' = Some jid"
  shows "rid = rid' \<and> r = r' \<and> (\<exists>j. dget (st_jobs s) jid = Some j \<and> jb_state j = Succeeded)"
proof -
  have ok: "store_ok s" by (rule reachable_store_ok[OF assms(1,2)])
  have id: "res_id q = i" if "dget (st_results s) i = Some q" for i q
    using ok that by (auto simp: store_ok_def dest: keyed_dget)
  have by_job: "dget (st_result_by_job s) jid = Some i" if "dget (st_results s) i = Some q" "res_job q = Some jid" for i q
    using store_okD(5)[OF ok that(1)] that(2) id[OF that(1)] by (simp add: result_ok_def)
  have "rid = rid'" using by_job[OF assms(3,4)] by_job[OF assms(5,6)] by simp
  moreover obtain j where j: "dget (st_jobs s) jid = Some j" using ok by_job[OF assms(3,4)] unfolding store_ok_def by blast
  moreover have "jb_state j = Succeeded"
    using store_okD(2,3)[OF ok j] by_job[OF assms(3,4)] by (auto simp: job_ok_def)
  ultimately show ?thesis using assms(3,5) by simp
qed

theorem at_most_one_result_witness:
  "\<exists>r. dget (st_results demo5) ''an-2'' = Some r \<and> (\<exists>j. dget (st_jobs demo5) ''job-1'' = Some j \<and> jb_state j = Succeeded)"
proof -
  have "case dget (st_results demo5) ''an-2'' of None \<Rightarrow> False | Some r \<Rightarrow> res_job r = Some ''job-1''" by code_simp
  then obtain r where r: "dget (st_results demo5) ''an-2'' = Some r" "res_job r = Some ''job-1''" by (auto split: option.splits)
  from at_most_one_result[OF demo_runs(1) demo_reach(3) r r] r(1) show ?thesis by blast
qed

text \<open>
  C28: A job that succeeded, failed or was cancelled never changes again, and a published result
  stays as it is.
\<close>
theorem final_jobs_never_change:
  assumes "store_ok s" and "store_step\<^sup>*\<^sup>* s t" and "dget (st_jobs s) jid = Some j" and "terminal (jb_state j)"
  shows "dget (st_jobs t) jid = Some j \<and> (\<forall>rid r. published_as s jid rid r \<longrightarrow> published_as t jid rid r)"
  using steps_job[OF assms(2,1,3)] assms(4) steps_result[OF assms(2,1)] by (auto simp: job_after_def)

theorem final_jobs_never_change_witness:
  "\<exists>j. dget (st_jobs demo5) ''job-1'' = Some j \<and> terminal (jb_state j)"
proof -
  have "case dget (st_jobs demo5) ''job-1'' of None \<Rightarrow> False | Some j \<Rightarrow> terminal (jb_state j)" by code_simp
  then obtain j where j: "dget (st_jobs demo5) ''job-1'' = Some j" "terminal (jb_state j)" by (auto split: option.splits)
  have "store_ok demo5" by (rule reachable_store_ok[OF demo_runs(1) demo_reach(3)])
  from final_jobs_never_change[OF this rtranclp.rtrancl_refl j] j(2) show ?thesis by blast
qed

text \<open>
  C26: Fencing. When a job is claimed again, an earlier lease of it, even of the same owner, has no
  power left at any later time: completing, failing, beating or acknowledging with it changes nothing.
\<close>
theorem stale_lease_is_fenced:
  assumes "store_ok s" and "claim owner sec now sc s = Inr (Some lz, t)" and "store_step\<^sup>*\<^sup>* t u"
    and "lz_job old = lz_job lz" and "lz_attempt old < lz_attempt lz"
  shows "complete_job tok old body now' u = Inr (None, u) \<and> fail_job old err retryable now' u = Inr (None, u) \<and>
    heartbeat old sec' now' now'' u = Inr (HbLost, u) \<and> acknowledge_cancel old now' u = Inr (False, u)"
proof -
  from claim_spec[OF assms(1), of owner sec now sc] assms(2) obtain j where
      g: "granted owner sec now s t j lz" and mv: "jobs_moved s t" by (auto simp: claim_result_def)
  have ok: "store_ok t" by (rule jobs_moved_ok[OF assms(1) mv])
  have "lz_job old = jb_id j" "lz_attempt old \<le> jb_attempts j" using g assms(4,5) by (auto simp: granted_def)
  from granted_fences[OF ok g assms(3) this] have "held old now' u \<noteq> Inr (Some k)" for k .
  moreover obtain r where "held old now' u = Inr r" using held_total[OF steps_ok[OF assms(3) ok]] by blast
  ultimately have "held old now' u = Inr None" by (cases r) auto
  then show ?thesis by (simp add: complete_job_def fail_job_def heartbeat_def acknowledge_cancel_def with_held_def)
qed

theorem stale_lease_is_fenced_witness: "complete_job ''9'' demo_lease JNull 21 demo4 = Inr (None, demo4)"
proof -
  have "lz_job demo_lease = lz_job demo_lease2" "lz_attempt demo_lease < lz_attempt demo_lease2" by code_simp+
  moreover have "store_ok demo3" by (rule reachable_store_ok[OF demo_runs(1) demo_reach(1)])
  ultimately show ?thesis using stale_lease_is_fenced[OF _ demo_runs(5) rtranclp.rtrancl_refl] by blast
qed

text \<open>
  C29: A cancellation request is final. Once it is recorded on a job without a result, no later
  sequence of calls publishes a result of that job.
\<close>
theorem cancelled_job_is_never_published:
  assumes "store_ok s" and "dget (st_jobs s) jid = Some j" and "jb_cancel j" and "jb_state j \<noteq> Succeeded"
    and "store_step\<^sup>*\<^sup>* s t"
  shows "\<exists>j'. dget (st_jobs t) jid = Some j' \<and> jb_cancel j' \<and> jb_state j' \<noteq> Succeeded \<and> dget (st_result_by_job t) jid = None"
proof -
  from steps_job[OF assms(5,1,2)] obtain j' where j': "dget (st_jobs t) jid = Some j'" "job_after j j'" by blast
  have "jb_cancel j'" "jb_state j' \<noteq> Succeeded" using j'(2) assms(3,4) by (auto simp: job_after_def)
  moreover have ok: "store_ok t" by (rule steps_ok[OF assms(5,1)])
  ultimately show ?thesis using j'(1) store_okD(2,3)[OF ok j'(1)] by (auto simp: job_ok_def)
qed

theorem cancelled_job_is_never_published_witness:
  "\<exists>j. dget (st_jobs demo_cancelled) ''job-1'' = Some j \<and> dget (st_result_by_job demo_cancelled) ''job-1'' = None"
proof -
  have "case dget (st_jobs demo_cancelled) ''job-1'' of None \<Rightarrow> False | Some j \<Rightarrow> jb_cancel j \<and> jb_state j \<noteq> Succeeded" by code_simp
  then obtain j where j: "dget (st_jobs demo_cancelled) ''job-1'' = Some j" "jb_cancel j" "jb_state j \<noteq> Succeeded"
    by (auto split: option.splits)
  have "store_ok demo_cancelled" using demo_reach(2) demo_steps(5)
    by (intro reachable_store_ok[OF demo_runs(1)]) (rule rtranclp.rtrancl_into_rtrancl)
  from cancelled_job_is_never_published[OF this j rtranclp.rtrancl_refl] j(1) show ?thesis by blast
qed

text \<open>
  C30: Claiming is first come, first served and never starves a worker: a claim gives a lease exactly
  when some visible job is claimable, on the oldest such job, with one more attempt, and that lease
  is then held until it expires.
\<close>
theorem claim_takes_oldest:
  assumes "store_ok s"
  shows "\<exists>r t. claim owner sec now sc s = Inr (r, t) \<and>
    (r = None \<longleftrightarrow> (\<forall>j \<in> set (dvals (st_jobs s)). \<not> claimable now sc j)) \<and>
    (\<forall>lz. r = Some lz \<longrightarrow> (\<exists>j. dget (st_jobs s) (lz_job lz) = Some j \<and> claimable now sc j \<and> lz_attempt lz = jb_attempts j + 1 \<and>
       (\<forall>k \<in> set (dvals (st_jobs s)). claimable now sc k \<longrightarrow> jb_seq j \<le> jb_seq k) \<and>
       (\<forall>time. time < now + sec \<longrightarrow> (\<exists>h. held lz time t = Inr (Some h)))))"
proof -
  let ?js = "sort_key jb_seq (dvals (st_jobs s))"
  obtain r t where c: "claim owner sec now sc s = Inr (r, t)" "claim_result ?js owner sec now sc s t r"
    using claim_spec[OF assms] by blast
  have none: "\<forall>j \<in> set (dvals (st_jobs s)). \<not> claimable now sc j" if "r = None"
    using c(2) that by (simp add: claim_result_def)
  have some: "\<exists>j. dget (st_jobs s) (lz_job lz) = Some j \<and> claimable now sc j \<and> lz_attempt lz = jb_attempts j + 1 \<and>
       (\<forall>k \<in> set (dvals (st_jobs s)). claimable now sc k \<longrightarrow> jb_seq j \<le> jb_seq k) \<and>
       (\<forall>time. time < now + sec \<longrightarrow> (\<exists>h. held lz time t = Inr (Some h)))" if "r = Some lz" for lz
  proof -
    from c(2) that obtain pre j post where js: "?js = pre @ j # post" and pre: "\<forall>k \<in> set pre. \<not> claimable now sc k"
      and j: "claimable now sc j" and g: "granted owner sec now s t j lz" by (auto simp: claim_result_def)
    have "sorted (map jb_seq (pre @ j # post))" unfolding js[symmetric] by simp
    then have least: "\<forall>k \<in> set (j # post). jb_seq j \<le> jb_seq k" by (auto simp: sorted_append)
    have "jb_seq j \<le> jb_seq k" if k: "k \<in> set (dvals (st_jobs s))" "claimable now sc k" for k
    proof -
      have "k \<in> set (pre @ j # post)" unfolding js[symmetric] using k(1) by simp
      then show ?thesis using pre k(2) least by auto
    qed
    moreover have "\<exists>h. held lz time t = Inr (Some h)" if "time < now + sec" for time
      using g that by (auto simp: held_iff granted_def leased_job_def)
    ultimately show ?thesis using g j by (auto simp: granted_def)
  qed
  have "(r = None) = (\<forall>j \<in> set (dvals (st_jobs s)). \<not> claimable now sc j)"
  proof (cases r)
    case (Some lz)
    from some[OF this] obtain j where "dget (st_jobs s) (lz_job lz) = Some j" "claimable now sc j" by blast
    moreover from this(1) have "j \<in> set (dvals (st_jobs s))" by (force dest: map_of_SomeD)
    ultimately show ?thesis using Some by auto
  qed (use none in simp)
  with c(1) some show ?thesis by blast
qed

theorem claim_takes_oldest_witness:
  "\<exists>r t. claim ''w1'' 10 0 None demo2 = Inr (r, t) \<and> (\<forall>lz. r = Some lz \<longrightarrow> (\<exists>h. held lz 5 t = Inr (Some h)))"
proof -
  have "store_ok demo2" by (rule reachable_store_ok[OF demo_runs(1) demo_steps(1)])
  from claim_takes_oldest[OF this, of "''w1''" 10 0 None] show ?thesis by fastforce
qed

text \<open>
  On a consistent store no call of a worker or of a client about a job raises: lost leases and
  unknown jobs are answers, not exceptions.
\<close>
theorem job_calls_never_raise:
  assumes "store_ok s"
  shows "(\<exists>r. claim owner sec now sc s = Inr r) \<and> (\<exists>r. heartbeat lz sec now now' s = Inr r) \<and>
    (\<exists>r. mark_running lz sec now now' s = Inr r) \<and> (\<exists>r. complete_job tok lz body now s = Inr r) \<and>
    (\<exists>r. fail_job lz err retryable now s = Inr r) \<and> (\<exists>r. acknowledge_cancel lz now s = Inr r) \<and>
    (\<exists>r. cancel_job jid sc s = Inr r) \<and> (\<exists>r. get_job jid sc s = Inr r)"
  by (intro conjI worker_calls_total[OF assms])

theorem job_calls_never_raise_witness: "\<exists>r. mark_running demo_lease2 10 21 22 demo4 = Inr r"
  using job_calls_never_raise[OF reachable_store_ok[OF demo_runs(1) demo_reach(2)]] by blast

text \<open>
  C31: Cluster scoping. Outside the caller's scope a job cannot be seen or cancelled, and cases,
  listings, analyses and leases that a call returns belong to the scope.
\<close>
theorem scope_is_respected:
  "(dget (st_jobs s) jid = Some j \<and> \<not> visible sc (jb_cluster j) \<longrightarrow>
      get_job jid sc s = Inr None \<and> cancel_job jid sc s = Inr (None, s)) \<and>
   (keyed (\<lambda>c. (cs_cluster c, cs_id c)) (st_cases s) \<and> get_case cid sc cl s = Inr (Some c) \<longrightarrow>
      visible sc (cs_cluster c) \<and> cs_id c = cid \<and> (cl = None \<or> cl = Some (cs_cluster c))) \<and>
   ((i, k) \<in> set (list_cases sc s) \<longrightarrow> visible sc k \<and> dmem (k, i) (st_cases s)) \<and>
   (get_analysis rid sc s = Inr (Some a) \<longrightarrow> visible sc (av_cluster a))"
proof (intro conjI impI)
  assume "dget (st_jobs s) jid = Some j \<and> \<not> visible sc (jb_cluster j)"
  then show "get_job jid sc s = Inr None" "cancel_job jid sc s = Inr (None, s)"
    by (simp_all add: get_job_def cancel_job_def)
next
  assume h: "keyed (\<lambda>c. (cs_cluster c, cs_id c)) (st_cases s) \<and> get_case cid sc cl s = Inr (Some c)"
  let ?ms = "filter (\<lambda>((k, i), c). i = cid \<and> visible sc k \<and> (cl = None \<or> cl = Some k)) (st_cases s)"
  have pick: "pick_case cs cid = Inr (Some c) \<Longrightarrow> c \<in> set cs" for cs
    by (cases "(cs, cid)" rule: pick_case.cases) auto
  from h pick[of "map snd ?ms"] obtain e where e: "e \<in> set ?ms" "snd e = c" by (auto simp: get_case_def)
  moreover from e h have "fst e = (cs_cluster c, cs_id c)" by (auto simp: keyed_def)
  ultimately show "visible sc (cs_cluster c)" "cs_id c = cid" "cl = None \<or> cl = Some (cs_cluster c)" by auto
next
  assume h: "(i, k) \<in> set (list_cases sc s)"
  then show "visible sc k" by (auto simp: list_cases_def)
  from h have "(k, i) \<in> set (dkeys (st_cases s))" by (force simp: list_cases_def simp del: mem_dkeys)
  then show "dmem (k, i) (st_cases s)" by auto
next
  assume "get_analysis rid sc s = Inr (Some a)"
  then show "visible sc (av_cluster a)" by (auto simp: get_analysis_def split: option.splits if_splits)
qed

theorem scope_is_respected_witness: "get_job ''job-1'' (Some {''k2''}) demo4 = Inr None"
proof -
  have "case dget (st_jobs demo4) ''job-1'' of None \<Rightarrow> False | Some j \<Rightarrow> \<not> visible (Some {''k2''}) (jb_cluster j)" by code_simp
  then obtain j where "dget (st_jobs demo4) ''job-1'' = Some j \<and> \<not> visible (Some {''k2''}) (jb_cluster j)" by (auto split: option.splits)
  then show ?thesis using scope_is_respected[of demo4 "''job-1''" j "Some {''k2''}"] by blast
qed

text \<open>
  A manifest built for a job passes the integrity check the worker makes before running it,
  and its id is determined by its content.
\<close>
theorem built_manifest_is_intact:
  assumes "build_manifest sha256 engine cluster cid kind payload = Inr m"
  shows "manifest_intact sha256 m \<and> man_id m = ''mf-'' @ take 40 (after_colon (man_input_hash m)) \<and> kind \<in> set JOB_KINDS"
  using assms by (auto simp: build_manifest_def manifest_intact_def Let_def split: if_splits)

theorem built_manifest_is_intact_witness:
  "\<exists>m. build_manifest rev ''0.1.0'' ''k1'' ''c1'' ''plan'' [] = Inr m \<and> manifest_intact rev m"
  using built_manifest_is_intact[of rev "''0.1.0''" "''k1''" "''c1''" "''plan''" "[]"]
  by (auto simp: build_manifest_def JOB_KINDS_def Let_def)

section \<open>The worker on the in-memory storage\<close>

text \<open>
  C27: A worker on the in-memory storage always finishes its job without an exception, whatever other
  processes do to the storage between its calls. When it reports success, the executor ran on an
  intact manifest and the published result of the job is exactly what the executor returned.
\<close>
theorem worker_publishes_what_it_computed:
  assumes "memory_good tok w" and "\<forall>n w. memory_good tok w \<longrightarrow> memory_later tok w (env n w)"
    and "\<forall>e \<in> set (beats @ late). \<forall>w. memory_good tok w \<longrightarrow> memory_later tok w (e w)"
  shows "\<exists>o1 w'. process_one sha256 (memory_backend clock tok sc) executor owner sec env beats late w = Inr (o1, w') \<and>
    memory_later tok w w' \<and>
    (out_state o1 = ''succeeded'' \<longrightarrow> (\<exists>(lz :: lease) body. out_job o1 = Some (lz_job lz) \<and>
       manifest_intact sha256 (lz_manifest lz) \<and> executor (lz_kind lz) (man_payload (lz_manifest lz)) = Inr body \<and>
       memory_result w' (lz_job lz) = Some body))"
  using memory.process_one_honest[OF assms, of sha256 executor clock sc owner sec]
  unfolding memory.ends_def returns_def memory.honest_def by blast

theorem worker_publishes_what_it_computed_witness:
  "\<exists>o1 w'. process_one (\<lambda>s. s) (memory_backend (\<lambda>n. 0) (\<lambda>n. replicate n (CHR ''x'')) None) (\<lambda>k p. Inr JNull) ''w'' 10
     (\<lambda>n w. w) [] [] (demo2, 0) = Inr (o1, w')"
proof -
  have ok: "store_ok demo2" by (rule reachable_store_ok[OF demo_runs(1) demo_steps(1)])
  have "st_results demo2 = []" by code_simp
  then have "memory_good (\<lambda>n. replicate n (CHR ''x'')) (demo2, 0)"
    using ok by (auto simp: memory_good_def token_used_def inj_def replicate_eq_replicate)
  from worker_publishes_what_it_computed[OF this, of "\<lambda>n w. w" "[]" "[]" "\<lambda>s. s" "\<lambda>n. 0" None "\<lambda>k p. Inr JNull" "''w''" 10]
  show ?thesis by (force simp: memory_later_def)
qed

end
