(* ===== verification/Api_Properties.thy ===== *)
theory Api_Properties
  imports Api_Correct Storage_Properties Evidence_Facts
begin

text \<open>
  The properties of the API and of its authentication, on the store of \<open>Storage_Properties\<close>: an
  analyst with a static token cancels the job there, and a provider with one key signs a token.
\<close>

section \<open>Authentication\<close>

definition demo_oidc :: oidc_config where
  "demo_oidc = \<lparr>oc_issuer = ''i'', oc_audience = ''a'', oc_jwks_url = ''https://i'', oc_role_claim = ''role'',
     oc_clusters_claim = ''clusters'', oc_role_map = [], oc_allow_wildcard = False, oc_leeway = 30, oc_jwks_ttl = 300,
     oc_jwks_min_refresh = 30, oc_allow_insecure = False\<rparr>"


definition demo_from_dict :: "(string, json) dict \<Rightarrow> string jwk option" where
  "demo_from_dict m = Some \<lparr>jwk_type = (case jget m ''kty'' of JStr t \<Rightarrow> t | _ \<Rightarrow> []), jwk_key = ''key''\<rparr>"


definition demo_env :: surroundings where
  "demo_env = \<lparr>at_start = 100, at_fetch = 100, at_end = 101,
     fetched = Inr [(''keys'', JList [JObj [(''kty'', JStr ''RSA''), (''kid'', JStr ''k'')],
                                     JObj [(''kty'', JStr ''oct''), (''kid'', JStr ''z'')]])]\<rparr>"



text \<open>
  C18: However many tokens arrive, with whatever key identifiers and however the provider answers, the
  key document is fetched at most once per \<open>jwks_min_refresh\<close>: any two fetches are apart by that
  interval times their distance in the sequence.
\<close>
theorem key_fetches_are_spaced:
  assumes "key_run from_dict cfg ts st st'" and "i < j" "j < length ts"
  shows "ts ! j - ts ! i \<ge> int (j - i) * oc_jwks_min_refresh cfg"
  using spaced_apart[OF key_run_spaced[OF assms(1)], of i "j - i"] assms(2,3) by simp

definition demo_unknown :: surroundings where
  "demo_unknown = demo_env\<lparr>at_start := 120\<rparr>"

definition demo_later :: surroundings where
  "demo_later = demo_env\<lparr>at_start := 135\<rparr>"

theorem key_fetches_are_spaced_witness:
  "\<exists>st. key_run demo_from_dict demo_oidc [100, 135] no_keys st \<and> [100, 135] ! 1 - [100, 135] ! 0 \<ge> int 1 * 30"
proof -
  let ?step = "\<lambda>env kid st. snd (key_of demo_from_dict demo_oidc env kid st)"
  let ?s1 = "?step demo_env ''k'' no_keys" and ?s2 = "\<lambda>s. ?step demo_unknown ''y'' s"
  have m: "must_fetch demo_oidc ''k'' (at_start demo_env) (no_keys :: string jwks)"
    "\<not> must_fetch demo_oidc ''y'' (at_start demo_unknown) ?s1"
    "must_fetch demo_oidc ''y'' (at_start demo_later) (?s2 ?s1)" by code_simp+
  have t: "at_start demo_env = 100" "at_start demo_later = 135" by (simp_all add: demo_env_def demo_later_def)
  note step = prod.collapse[symmetric]
  have "key_run demo_from_dict demo_oidc [at_start demo_env, at_start demo_later] no_keys (?step demo_later ''y'' (?s2 ?s1))"
    by (rule fetches[OF step m(1)], rule cached[OF step m(2)], rule fetches[OF step m(3)], rule at_rest)
  then have run: "key_run demo_from_dict demo_oidc [100, 135] no_keys (?step demo_later ''y'' (?s2 ?s1))" by (simp add: t)
  from key_fetches_are_spaced[OF run, of 0 1] run show ?thesis by (auto simp: demo_oidc_def)
qed

section \<open>Requests\<close>

definition demo_tokens :: "(string, principal) dict" where
  "demo_tokens = [(''0123456789abcdef'', \<lparr>pr_name = ''principal-0'', pr_role = ''analyst'', pr_clusters = {''k1''}\<rparr>),
     (''fedcba9876543210'', \<lparr>pr_name = ''principal-1'', pr_role = ''viewer'', pr_clusters = {''k1''}\<rparr>)]"

lemma demo_tokens_parsed:
  "parse_tokens (\<lambda>s. s) ''0123456789abcdef:analyst:k1,fedcba9876543210:viewer:k1'' = Inr demo_tokens"
  by code_simp

definition demo_services :: services where
  "demo_services = \<lparr>sv_sha256 = (\<lambda>s. s), sv_json_pairs = (\<lambda>s. None), sv_dumps = (\<lambda>j. []), sv_fromiso = (\<lambda>s. NotIso),
     sv_profiles = [], sv_engine = ''0'', sv_token = ''9''\<rparr>"

definition demo_settings :: settings where
  "demo_settings = \<lparr>sg_docs = ''off'', sg_verify_max_states = 100, sg_sse_max_seconds = 300, sg_sse_heartbeat_seconds = 15\<rparr>"

definition demo_api :: "string api" where
  "demo_api = \<lparr>ap_store = demo4, ap_heavy = \<lparr>lm_what = ''verification/planning'', lm_per_principal = 1, lm_total = 4, lm_held = []\<rparr>,
     ap_keys = no_keys\<rparr>"

definition demo_serve :: "string \<Rightarrow> response reply \<times> string api" where
  "demo_serve token = serve demo_services demo_settings demo_tokens None (Some (''Bearer '' @ token)) (CancelJob ''job-1'') demo_api"

definition demo_caller :: principal where
  "demo_caller = \<lparr>pr_name = ''principal-0'', pr_role = ''analyst'', pr_clusters = {''k1''}\<rparr>"

lemma demo_authenticates:
  "authenticate (\<lambda>s. s) demo_tokens None (Some (''Bearer '' @ ''0123456789abcdef'')) (no_keys :: string jwks) = (Inr demo_caller, no_keys)"
  by code_simp

lemma demo_cancels:
  "map (\<lambda>(i, j). jb_cancel j) (filter (\<lambda>(i, j). jb_cluster j = ''k1'') (st_jobs (snd (post_cancel demo_caller ''job-1'' demo4)))) = [True]"
  "map (\<lambda>(i, j). jb_cancel j) (filter (\<lambda>(i, j). jb_cluster j = ''k1'') (st_jobs demo4)) = [False]"
  by code_simp+

lemma demo_api_ok: "store_ok (ap_store demo_api)" "fresh_token (sv_token demo_services) (ap_store demo_api)"
proof -
  show "store_ok (ap_store demo_api)"
    using reachable_store_ok[OF demo_runs(1) demo_reach(2)] by (simp add: demo_api_def)
  have "dget (st_jobs demo4) (new_id ''job'' ''9'') = None" by code_simp
  then show "fresh_token (sv_token demo_services) (ap_store demo_api)"
    using demo_fresh(3) by (simp add: fresh_token_def demo_services_def demo_api_def)
qed

text \<open>
  C15: Whatever the request, if the cases, manifests, jobs or results of a cluster are not what they
  were, the caller presented a valid credential whose principal is an analyst for that cluster. A
  viewer, a lab operator, an analyst of other clusters and a caller without credential change nothing
  there.
\<close>
theorem only_analysts_change_a_cluster:
  assumes "serve sv cfg tokens check header rq a = (r, a')"
    and "store_ok (ap_store a)" and "fresh_token (sv_token sv) (ap_store a)"
    and "part_of cl (ap_store a') \<noteq> part_of cl (ap_store a)"
  shows "\<exists>p keys. authenticate (sv_sha256 sv) tokens check header (ap_keys a) = (Inr p, keys) \<and> may_analyze p cl"
proof -
  obtain res keys where auth: "authenticate (sv_sha256 sv) tokens check header (ap_keys a) = (res, keys)" by (rule prod.exhaust)
  show ?thesis
  proof (cases res)
    case (Inl e)
    with assms(1,4) auth show ?thesis by (auto simp: serve_def)
  next
    case (Inr p)
    with assms(1) auth have "route sv cfg p rq (a\<lparr>ap_keys := keys\<rparr>) = (r, a')" by (simp add: serve_def)
    with assms(2,3) have "authorized_change p (ap_store a) (ap_store a')" using route_authorized by fastforce
    with assms(4) have "may_analyze p cl" unfolding authorized_change_def only_touches_def by metis
    with auth Inr show ?thesis by blast
  qed
qed

theorem only_analysts_change_a_cluster_witness:
  "part_of ''k1'' (ap_store (snd (demo_serve ''0123456789abcdef''))) \<noteq> part_of ''k1'' (ap_store demo_api) \<and>
   (\<exists>p keys. authenticate (\<lambda>s. s) demo_tokens None (Some ''Bearer 0123456789abcdef'') no_keys = (Inr p, keys :: string jwks) \<and>
      may_analyze p ''k1'')"
proof -
  have "snd (demo_serve ''0123456789abcdef'') = demo_api\<lparr>ap_store := snd (post_cancel demo_caller ''job-1'' demo4)\<rparr>"
    unfolding demo_serve_def serve_def using demo_authenticates
    by (simp add: demo_services_def demo_api_def on_store_def case_prod_unfold)
  with demo_cancels have d: "part_of ''k1'' (ap_store (snd (demo_serve ''0123456789abcdef''))) \<noteq> part_of ''k1'' (ap_store demo_api)"
    by (auto simp: part_of_def demo_api_def)
  from only_analysts_change_a_cluster[OF prod.collapse[symmetric] demo_api_ok d[unfolded demo_serve_def]] d show ?thesis
    by (simp add: demo_services_def demo_api_def)
qed



text \<open>
  What is uploaded as inventory is stored as it is: only a bundle read from a directory passes
  \<open>_scan_document\<close>, so a case created over HTTP may hold what \<open>load_bundle\<close> would refuse.
\<close>

lemma uploaded_inventory_is_stored_verbatim:
  assumes "compiled_case sv p b = Inr c"
  shows "\<exists>raw. cs_input c = JObj raw \<and> dget raw ''inventory'' = Some (JObj (ib_inventory b))"
proof -
  from assms obtain doc diag where
    "project (sv_sha256 sv) (sv_json_pairs sv) (sv_fromiso sv) (sv_profiles sv) (inline_replay sv b) = Inr (doc, diag)"
    and "cs_input c = doc"
    by (auto simp: compiled_case_def rbind_Inr split: sum.splits)
  moreover from this(1) have "\<exists>raw. doc = JObj raw \<and> dget raw ''inventory'' = Some (JObj (ib_inventory b))"
    by (rule project_parts) (simp add: projected_doc_def inline_replay_def)
  ultimately show ?thesis by simp
qed

end
