(* ===== verification/Execute.thy ===== *)
theory Execute
  imports Api_Properties Examples
begin

text \<open>
  \<open>execute\<close> of \<open>afterlock_worker/runner.py\<close>: the job of a manifest is run by the engine, the planner or
  the reference checker, and an analysis job gives what the API's synchronous endpoint gives.
\<close>

section \<open>The executor\<close>

datatype job_output =
    AnalysisOut json
  | PlanOut plan_report
  | VerificationOut "(string, problem list) dict" "(string \<times> ref_view_report) list"

definition MODES :: "(string \<times> mode) list" where
  "MODES = map (\<lambda>m. (mode_name m, m)) [ModeFull, ModeSnapshot, ModeNoLifecycle, ModeFinalState]"

definition payload_item :: "(string, json) dict \<Rightarrow> string \<Rightarrow> exec_exn + json" where
  "payload_item payload k =
     (case dget payload k of None \<Rightarrow> Inl (PermanentJobError (''manifest payload missing '' @ k)) | Some v \<Rightarrow> Inr v)"

text \<open>A \<open>ModelError\<close> and a \<open>KeyError\<close>, wherever they are raised, are permanent; the rest is retried.\<close>

fun engine_failure :: "exn option \<Rightarrow> exec_exn" where
  "engine_failure (Some (ModelErr e)) = PermanentJobError ''invalid_input''"
| "engine_failure (Some (KeyError k)) = PermanentJobError (''manifest payload missing '' @ k)"
| "engine_failure _ = Unexpected []"

fun reference_failure :: "ref_error \<Rightarrow> exec_exn" where
  "reference_failure (RefKey k) = PermanentJobError (''manifest payload missing '' @ k)"
| "reference_failure _ = Unexpected []"

definition failing :: "('e \<Rightarrow> exec_exn) \<Rightarrow> 'e + 'a \<Rightarrow> exec_exn + 'a" where
  "failing f r = (case r of Inl e \<Rightarrow> Inl (f e) | Inr x \<Rightarrow> Inr x)"

text \<open>\<open>int\<close> of a payload member; a float is outside the model.\<close>

definition int_of_item :: "json \<Rightarrow> exec_exn + int" where
  "int_of_item v =
     (case v of
        JInt n \<Rightarrow> Inr n
      | JBool b \<Rightarrow> Inr (if b then 1 else 0)
      | JStr s \<Rightarrow> (case py_int s of None \<Rightarrow> Inl (Unexpected s) | Some n \<Rightarrow> Inr n)
      | _ \<Rightarrow> Inl (Unexpected []))"

definition parsed_item :: "(string \<Rightarrow> string) \<Rightarrow> (string, json) dict \<Rightarrow> exec_exn + analysis_input" where
  "parsed_item sha256 payload =
     rbind (payload_item payload ''input'') (\<lambda>v. failing engine_failure (lift_parse (parse_analysis_input sha256 v)))"

definition object_item :: "(string, json) dict \<Rightarrow> string \<Rightarrow> exec_exn + (string, json) dict" where
  "object_item payload k =
     rbind (payload_item payload k) (\<lambda>v. case v of JObj m \<Rightarrow> Inr m | _ \<Rightarrow> Inl (Unexpected []))"

definition run_analysis_job :: "(string \<Rightarrow> string) \<Rightarrow> (string, json) dict \<Rightarrow> exec_exn + job_output" where
  "run_analysis_job sha256 payload =
     rbind (payload_item payload ''mode'') (\<lambda>v.
     case (case v of JStr s \<Rightarrow> map_of MODES s | _ \<Rightarrow> None) of
       None \<Rightarrow> Inl (PermanentJobError (''unsupported mode '' @ py_repr v))
     | Some md \<Rightarrow>
         rbind (parsed_item sha256 payload) (\<lambda>inp.
         rbind (failing engine_failure (analyze inp md)) (\<lambda>b. Inr (AnalysisOut (bundle_json sha256 b)))))"

definition run_plan_job :: "(string \<Rightarrow> string) \<Rightarrow> (string, json) dict \<Rightarrow> exec_exn + job_output" where
  "run_plan_job sha256 payload =
     rbind (rbind (payload_item payload ''max_length'') int_of_item) (\<lambda>n.
     rbind (rbind (payload_item payload ''max_evaluations'') int_of_item) (\<lambda>k.
     rbind (parsed_item sha256 payload) (\<lambda>inp.
     rbind (failing engine_failure (plan sha256 inp
       (default_config\<lparr>pc_max_length := n, pc_max_evaluations := k\<rparr>) None)) (\<lambda>r. Inr (PlanOut r)))))"

definition run_verification_job :: "(string, json) dict \<Rightarrow> exec_exn + job_output" where
  "run_verification_job payload =
     rbind (object_item payload ''input'') (\<lambda>raw.
     rbind (object_item payload ''result'') (\<lambda>result.
     rbind (failing reference_failure (verify_witnesses raw result)) (\<lambda>ws.
     rbind (failing reference_failure (explore raw (default_limits\<lparr>rl_max_states := 50000\<rparr>))) (\<lambda>ex.
     Inr (VerificationOut ws ex)))))"

definition execute :: "(string \<Rightarrow> string) \<Rightarrow> string \<Rightarrow> (string, json) dict \<Rightarrow> exec_exn + job_output" where
  "execute sha256 kind payload =
     (if kind = ''analysis'' then run_analysis_job sha256 payload
      else if kind = ''plan'' then run_plan_job sha256 payload
      else if kind = ''verification'' then run_verification_job payload
      else Inl (PermanentJobError (''unknown job kind '' @ kind)))"

section \<open>Jobs and the synchronous endpoint\<close>

lemma MODES_name: "map_of MODES (mode_name md) = Some md"
  by (cases md) (simp_all add: MODES_def)

lemma lift_parse_Inr: "lift_parse (Inr x) = Inr x"
  by (simp add: lift_parse_def)

lemma execute_analysis:
  assumes "parse_analysis_input sha256 (JObj raw) = Inr inp" and "analyze inp md = Inr b"
  shows "execute sha256 ''analysis'' (analysis_payload raw md) = Inr (AnalysisOut (bundle_json sha256 b))"
  using assms
  by (simp add: execute_def run_analysis_job_def analysis_payload_def payload_item_def MODES_name parsed_item_def
      lift_parse_Inr failing_def)

text \<open>An accepted request for an analysis parses, and its analysis answers.\<close>

lemma invalid_input_Inr: "invalid_input r = Inr x \<longleftrightarrow> r = Inr x"
  by (simp add: invalid_input_def split: sum.splits)

lemma requested_answers:
  assumes "requested_input sv p cid rq cluster s = Inr (c, raw, inp)"
  shows "parse_analysis_input (sv_sha256 sv) (JObj raw) = Inr inp \<and> (\<exists>b. analyze inp md = Inr b)"
proof -
  have parsed: "parse_analysis_input (sv_sha256 sv) (JObj raw) = Inr inp"
    using assms by (auto simp: requested_input_def rbind_Inr invalid_input_Inr Let_def)
  from analyze_total[OF parse_analysis_input_ok[OF this]] parsed show ?thesis by blast
qed

lemma build_manifest_fields:
  "build_manifest sha256 v cl cid kind payload = Inr m \<Longrightarrow> man_kind m = kind \<and> man_payload m = payload \<and> man_case m = cid"
  by (auto simp: build_manifest_def Let_def split: if_splits)

text \<open>The job that a request for an analysis job leaves in the store.\<close>

lemma analysis_job_parts:
  assumes "post_analysis_job sv p cid rq n cluster s = (Inr res, t)" and "store_ok s" and "no_collision (sv_sha256 sv) s"
  obtains c raw inp m j where "requested_input sv p cid rq cluster s = Inr (c, raw, inp)"
    "build_manifest (sv_sha256 sv) (sv_engine sv) (cs_cluster c) cid ''analysis'' (analysis_payload raw (aq_mode rq)) = Inr m"
    "res = JobAccepted (jb_id j) Queued (man_id m)" "dget (st_jobs t) (jb_id j) = Some j" "jb_manifest j = man_id m"
    "dget (st_manifests t) (man_id m) = Some m" "\<exists>u. put_manifest m s = Inr ((), u)"
proof -
  from assms(1) obtain c raw inp m v where q: "requested_input sv p cid rq cluster s = Inr (c, raw, inp)"
    and m: "build_manifest (sv_sha256 sv) (sv_engine sv) (cs_cluster c) cid ''analysis'' (analysis_payload raw (aq_mode rq)) = Inr m"
    and e: "enqueue (sv_token sv) m (pr_name p) n s = Inr (v, t)" and res: "res = JobAccepted (jv_id v) (jv_state v) (jv_manifest v)"
    by (auto simp: post_analysis_job_def post_job_def calling_def rbind_Inr split: sum.splits prod.splits)
  from e obtain u where put: "put_manifest m s = Inr ((), u)"
    and w: "with_view (fresh_job (new_id ''job'' (sv_token sv)) m (pr_name p) n (length (st_jobs u)))
      (set_job (fresh_job (new_id ''job'' (sv_token sv)) m (pr_name p) n (length (st_jobs u))) u) = Inr (v, t)"
    by (auto simp: enqueue_def Let_def split: if_splits sum.splits prod.splits)
  let ?j = "fresh_job (new_id ''job'' (sv_token sv)) m (pr_name p) n (length (st_jobs u))"
  have t: "t = set_job ?j u" and v: "job_view_of ?j t = Inr v" using w by auto
  have "jv_id v = jb_id ?j \<and> jv_state v = Queued \<and> jv_manifest v = man_id m"
    using v by (auto simp: job_view_of_def public_job_def fresh_job_def split: option.splits if_splits)
  moreover have "dget (st_manifests u) (man_id m) = Some m"
    using put_manifest_parts(2)[OF put built_genuine[OF assms(3) m] assms(2)] .
  ultimately show thesis
    by (intro that[OF q m, of ?j]) (simp_all add: t res set_job_def put)
qed

text \<open>
  C19: The two ways to an analysis agree. A job accepted by the API carries a manifest on which the
  worker's executor succeeds, and its output is the document that the synchronous endpoint returns
  for the same request on the same store, unless the table of results is full there.
\<close>
theorem analysis_job_equals_endpoint:
  assumes "post_analysis_job sv p cid rq n cluster s = (Inr (JobAccepted jid st mid), t)"
    and "store_ok s" and "no_collision (sv_sha256 sv) s"
  shows "\<exists>j m doc. dget (st_jobs t) jid = Some j \<and> jb_manifest j = mid \<and> dget (st_manifests t) mid = Some m \<and>
    execute (sv_sha256 sv) (man_kind m) (man_payload m) = Inr (AnalysisOut doc) \<and>
    (fst (post_analysis sv p cid rq cluster s) = Inr (AnalysisDone (new_id ''an'' (sv_token sv)) doc) \<or>
     fst (post_analysis sv p cid rq cluster s) = Inl (HttpError 507 ''result''))"
proof -
  obtain c raw inp m j where q: "requested_input sv p cid rq cluster s = Inr (c, raw, inp)"
    and m: "build_manifest (sv_sha256 sv) (sv_engine sv) (cs_cluster c) cid ''analysis'' (analysis_payload raw (aq_mode rq)) = Inr m"
    and res: "JobAccepted jid st mid = JobAccepted (jb_id j) Queued (man_id m)" and job: "dget (st_jobs t) (jb_id j) = Some j"
      "jb_manifest j = man_id m" "dget (st_manifests t) (man_id m) = Some m" and put: "\<exists>u. put_manifest m s = Inr ((), u)"
    by (rule analysis_job_parts[OF assms])
  from requested_answers[OF q] obtain b where b: "parse_analysis_input (sv_sha256 sv) (JObj raw) = Inr inp" "analyze inp (aq_mode rq) = Inr b"
    by blast
  let ?doc = "bundle_json (sv_sha256 sv) b"
  have run: "execute (sv_sha256 sv) (man_kind m) (man_payload m) = Inr (AnalysisOut ?doc)"
    using execute_analysis[OF b] build_manifest_fields[OF m] by simp
  have "result_prefix (man_kind m) = Some ''an''" using build_manifest_fields[OF m] by (simp add: result_prefix_def)
  with put have "record_analysis (sv_token sv) m ?doc s = Inl (StorageFull ''result'', s) \<or>
      (\<exists>u. record_analysis (sv_token sv) m ?doc s = Inr (new_id ''an'' (sv_token sv), u))"
    by (auto simp: record_analysis_def Let_def)
  then have "fst (post_analysis sv p cid rq cluster s) = Inr (AnalysisDone (new_id ''an'' (sv_token sv)) ?doc) \<or>
     fst (post_analysis sv p cid rq cluster s) = Inl (HttpError 507 ''result'')"
    by (auto simp: post_analysis_def calling_def q m b(2) internal_def)
  with run job res show ?thesis by auto
qed

definition demo_case_store :: store where
  "demo_case_store = snd (projr (create_case (\<lambda>s. [])
     \<lparr>cs_id = ''c1'', cs_cluster = ''k1'', cs_input = case_doc, cs_diagnostics = JNull, cs_hash = []\<rparr> demo0))"

definition demo_case_services :: services where
  "demo_case_services = demo_services\<lparr>sv_sha256 := (\<lambda>s. [])\<rparr>"

definition demo_analyst :: principal where
  "demo_analyst = \<lparr>pr_name = ''a'', pr_role = ''analyst'', pr_clusters = {''k1''}\<rparr>"

definition demo_job_request :: "response reply \<times> store" where
  "demo_job_request = post_analysis_job demo_case_services demo_analyst ''c1'' \<lparr>aq_remediation = None, aq_mode = ModeFull\<rparr> 3 None
     demo_case_store"

lemma demo_case_stored:
  "case_for ''c1'' demo_analyst None demo_case_store = Inr \<lparr>cs_id = ''c1'', cs_cluster = ''k1'', cs_input = case_doc,
     cs_diagnostics = JNull, cs_hash = ''sha256:''\<rparr>"
  "dmem (''k1'', ''c1'') (st_cases demo_case_store)" "st_jobs demo_case_store = []" "st_max_jobs demo_case_store = 5"
  "st_result_by_job demo_case_store = []"
  by code_simp+

lemma demo_job_accepted: "\<exists>jid st mid. fst demo_job_request = Inr (JobAccepted jid st mid)"
proof -
  obtain raw where raw: "case_doc = JObj raw" by (simp add: case_doc_def)
  have "requested_input demo_case_services demo_analyst ''c1'' \<lparr>aq_remediation = None, aq_mode = ModeFull\<rparr> None demo_case_store =
    Inr (\<lparr>cs_id = ''c1'', cs_cluster = ''k1'', cs_input = case_doc, cs_diagnostics = JNull, cs_hash = ''sha256:''\<rparr>, raw, case_input)"
    using case_parses unfolding requested_input_def demo_case_stored(1)
    by (simp add: only_analysts_def may_analyze_def may_read_def demo_analyst_def object_of_def raw demo_case_services_def
        invalid_input_def)
  then show ?thesis
    by (simp add: demo_job_request_def post_analysis_job_def build_manifest_def JOB_KINDS_def Let_def internal_def post_job_def
        calling_def enqueue_def put_manifest_def demo_case_stored with_view_def job_view_of_def set_job_def public_job_def)
qed

theorem analysis_job_equals_endpoint_witness:
  "\<exists>(m :: manifest) doc. execute (\<lambda>s. []) (man_kind m) (man_payload m) = Inr (AnalysisOut doc) \<and>
     st_manifests (snd demo_job_request) \<noteq> []"
proof -
  from demo_job_accepted obtain jid st mid where "fst demo_job_request = Inr (JobAccepted jid st mid)" by blast
  then have r: "demo_job_request = (Inr (JobAccepted jid st mid), snd demo_job_request)" by (metis prod.collapse)
  have made: "create_case (\<lambda>s. []) \<lparr>cs_id = ''c1'', cs_cluster = ''k1'', cs_input = case_doc, cs_diagnostics = JNull, cs_hash = []\<rparr>
      demo0 = Inr (True, demo_case_store)" by code_simp
  have ok: "store_ok demo_case_store"
    using reachable_store_ok[OF demo_runs(1)] s_case[OF made] by (simp add: r_into_rtranclp)
  have "st_manifests demo_case_store = []" by code_simp
  then have sha: "no_collision (sv_sha256 demo_case_services) demo_case_store"
    by (auto simp: no_collision_def genuine_def build_manifest_def Let_def split: if_splits)
  have "sv_sha256 demo_case_services = (\<lambda>s. [])" by (simp add: demo_case_services_def)
  with analysis_job_equals_endpoint[OF r[unfolded demo_job_request_def] ok sha] obtain m doc where
    m: "dget (st_manifests (snd demo_job_request)) mid = Some m"
    and "execute (\<lambda>s. []) (man_kind m) (man_payload m) = Inr (AnalysisOut doc)"
    unfolding demo_job_request_def by metis
  moreover from m have "st_manifests (snd demo_job_request) \<noteq> []" by auto
  ultimately show ?thesis by blast
qed

end
