(* ===== verification/Receipts.thy ===== *)
theory Receipts
  imports Json Complex_Main
begin

text \<open>
  The pure part of the validation lab: what an observation says (\<open>labs/supervisor/receipts.py\<close>) and
  the labels derived from observations alone (\<open>benchmarks/lab_labels.py\<close>). Times are rationals; the
  statistics of timings are left out.
\<close>

section \<open>Rotation of credentials\<close>

datatype receipt_error = NotAllowed string | NoMember string

definition propagation_seconds :: "rat \<Rightarrow> receipt_error + int" where
  "propagation_seconds ack = (if ack < 0 then Inl (NotAllowed ''negative acknowledgement time'') else Inr \<lceil>ack\<rceil>)"

text \<open>The copy with the delay at the one service of that name.\<close>

definition names_service :: "string \<Rightarrow> json \<Rightarrow> bool" where
  "names_service service v = (case v of JObj m \<Rightarrow> jget m ''name'' = JStr service | _ \<Rightarrow> False)"

definition delayed :: "string \<Rightarrow> int \<Rightarrow> json \<Rightarrow> json" where
  "delayed service d v =
     (case v of
        JObj m \<Rightarrow> if names_service service v then JObj (dset ''rotation_propagation_seconds'' (JInt d) m) else v
      | _ \<Rightarrow> v)"

definition with_rotation_propagation ::
  "(string, json) dict \<Rightarrow> string \<Rightarrow> int \<Rightarrow> int option \<Rightarrow> receipt_error + (string, json) dict" where
  "with_rotation_propagation doc service d wait =
     (if d < 0 \<or> (case wait of None \<Rightarrow> False | Some w \<Rightarrow> w < 0) then Inl (NotAllowed ''delay and wait must be >= 0'')
      else case jget doc ''inventory'' of
        JObj im \<Rightarrow>
          (let services = (case dget im ''services'' of Some (JList xs) \<Rightarrow> xs | _ \<Rightarrow> []) in
           if length (filter (names_service service) services) \<noteq> 1 then Inl (NotAllowed ''expected exactly one service'')
           else let doc' = dset ''inventory'' (JObj (dset ''services'' (JList (map (delayed service d) services)) im)) doc in
             Inr (case wait of
                    None \<Rightarrow> doc'
                  | Some w \<Rightarrow> dset ''remediation''
                      (JList ((case dget doc' ''remediation'' of Some (JList as) \<Rightarrow> as | _ \<Rightarrow> []) @
                              [JObj [(''kind'', JStr ''wait''), (''seconds'', JInt w)]])) doc'))
      | _ \<Rightarrow> Inl (NoMember ''inventory''))"

definition answered :: "int \<Rightarrow> bool" where
  "answered s \<longleftrightarrow> 200 \<le> s \<and> s < 300"

record window =
  rw_probes :: nat
  rw_first_seconds :: "rat option"
  rw_first_status :: "int option"
  rw_last_accepted :: "rat option"
  rw_first_refused :: "rat option"
  rw_reaccepted :: bool
  rw_observed :: bool

definition rotation_window :: "(rat \<times> int) list \<Rightarrow> window" where
  "rotation_window probes =
     (let accepted = map fst (filter (\<lambda>(t, s). answered s) probes);
          refused = map fst (filter (\<lambda>(t, s). s \<ge> 300) probes);
          first_refused = (if refused = [] then None else Some (fold min (tl refused) (hd refused))) in
      \<lparr>rw_probes = length probes,
       rw_first_seconds = (if probes = [] then None else Some (fst (hd probes))),
       rw_first_status = (if probes = [] then None else Some (snd (hd probes))),
       rw_last_accepted = (if accepted = [] then None else Some (fold max (tl accepted) (hd accepted))),
       rw_first_refused = first_refused,
       rw_reaccepted = (case first_refused of None \<Rightarrow> False | Some r \<Rightarrow> list_ex (\<lambda>t. t > r) accepted),
       rw_observed = (probes \<noteq> [] \<and> answered (snd (hd probes)))\<rparr>)"

section \<open>Receipts\<close>

definition EXPECTATIONS :: "string list" where
  "EXPECTATIONS = [''answer_ok'', ''answer_denied'', ''no_answer'']"

definition agrees :: "int \<Rightarrow> string \<Rightarrow> receipt_error + bool" where
  "agrees observed expect =
     (if expect \<notin> set EXPECTATIONS then Inl (NotAllowed (''unknown expectation '' @ expect))
      else if expect = ''no_answer'' then Inr (observed = 0)
      else if observed = 0 then Inr False
      else Inr (answered observed = (expect = ''answer_ok'')))"

record receipt =
  rc_step :: string
  rc_prediction :: string
  rc_status :: int
  rc_agrees :: bool
  rc_case :: "string option"
  rc_objective :: "string option"

definition CHECK_PASSED :: int where "CHECK_PASSED = 200"
definition CHECK_FAILED :: int where "CHECK_FAILED = 422"

definition check_receipt :: "string \<Rightarrow> bool \<Rightarrow> string \<Rightarrow> receipt_error + receipt" where
  "check_receipt step passed prediction =
     (let observed = (if passed then CHECK_PASSED else CHECK_FAILED) in
      rbind (agrees observed ''answer_ok'') (\<lambda>ok.
      Inr \<lparr>rc_step = step, rc_prediction = prediction, rc_status = observed, rc_agrees = ok, rc_case = None, rc_objective = None\<rparr>))"

definition validation :: "receipt list \<Rightarrow> string" where
  "validation rs = (if rs \<noteq> [] \<and> list_all rc_agrees rs then ''lab_confirmed'' else ''lab_contradicted'')"

record run =
  rn_receipts :: "receipt list"
  rn_validation :: "string option"

record step_seen =
  ss_predictions :: "string list"
  ss_statuses :: "int list"
  ss_agrees :: "bool list"
  ss_runs :: "string list"

definition seen_in :: "string \<times> receipt \<Rightarrow> (string, step_seen) dict \<Rightarrow> (string, step_seen) dict" where
  "seen_in nr steps =
     (case nr of (name, r) \<Rightarrow>
      let s = (case dget steps (rc_step r) of
                 None \<Rightarrow> \<lparr>ss_predictions = [], ss_statuses = [], ss_agrees = [], ss_runs = []\<rparr> | Some s \<Rightarrow> s) in
      dset (rc_step r) \<lparr>ss_predictions = ss_predictions s @ [rc_prediction r], ss_statuses = ss_statuses s @ [rc_status r],
        ss_agrees = ss_agrees s @ [rc_agrees r], ss_runs = ss_runs s @ [name]\<rparr> steps)"

definition steps_of :: "(string \<times> run) list \<Rightarrow> (string, step_seen) dict" where
  "steps_of nrs = fold seen_in (concat (map (\<lambda>(n, r). map (Pair n) (rn_receipts r)) nrs)) []"

record step_summary =
  sm_predictions :: "string list"
  sm_statuses :: "int list"
  sm_all_agree :: bool
  sm_identical :: bool

record summary =
  su_runs :: "(string \<times> string) list"
  su_all_agree :: bool
  su_missing :: "(string \<times> string list) list"
  su_steps :: "(string \<times> step_summary) list"

definition summarise :: "run list \<Rightarrow> string list option \<Rightarrow> receipt_error + summary" where
  "summarise runs given =
     (let names = (case given of Some (n # ns) \<Rightarrow> n # ns | _ \<Rightarrow> map (\<lambda>i. ''run-'' @ str_of_nat (i + 1)) [0..<length runs]) in
      if length names \<noteq> length runs then Inl (NotAllowed ''zip'')
      else let nrs = zip names runs; steps = steps_of nrs;
               per_run = map (\<lambda>(n, r). (n, case rn_validation r of None \<Rightarrow> validation (rn_receipts r) | Some v \<Rightarrow> v)) nrs;
               missing = map (\<lambda>(k, s). (k, sorted_set (filter (\<lambda>n. n \<notin> set (ss_runs s)) names)))
                 (filter (\<lambda>(k, s). length (ss_runs s) \<noteq> length runs) steps) in
        Inr \<lparr>su_runs = per_run,
             su_all_agree = (runs \<noteq> [] \<and> list_all (\<lambda>(n, v). v = ''lab_confirmed'') per_run \<and> missing = []),
             su_missing = missing,
             su_steps = map (\<lambda>(k, s). (k, \<lparr>sm_predictions = sorted_set (ss_predictions s), sm_statuses = ss_statuses s,
               sm_all_agree = (list_all (\<lambda>b. b) (ss_agrees s) \<and> length (ss_agrees s) = length runs),
               sm_identical = (length (remdups (ss_statuses s)) = 1)\<rparr>)) steps\<rparr>)"

section \<open>Labels from observations\<close>

definition label_for :: "string \<Rightarrow> int \<Rightarrow> string option" where
  "label_for objective status =
     (if status = 0 then None
      else if starts_with objective ''legitimate:'' then Some (if answered status then ''preserved'' else ''broken'')
      else Some (if answered status then ''violated'' else ''satisfied_within_scope''))"

definition LEGACY_STEP_CASES :: "(string, string \<times> string) dict" where
  "LEGACY_STEP_CASES =
     [(''copied-credential-accepted-by-canary'', (''residual-token'', ''protect-canary'')),
      (''residual-token-still-reads-secret'', (''residual-token'', ''protect-secret'')),
      (''copied-credential-survives-kubernetes-containment'', (''copied-downstream'', ''protect-canary'')),
      (''copied-credential-rejected-after-rotation'', (''targeted-containment'', ''protect-canary'')),
      (''legitimate-workload-uses-rotated-credential'', (''targeted-containment'', ''legitimate:release-canary'')),
      (''negative-control-admission-denies'', (''admission-denied'', ''protect-secret''))]"

definition mapped_to :: "receipt \<Rightarrow> (string \<times> string) option" where
  "mapped_to r =
     (let pair = (case rc_case r of
         Some (c # cs) \<Rightarrow> Some (c # cs, case rc_objective r of None \<Rightarrow> [] | Some obj \<Rightarrow> obj)
       | _ \<Rightarrow> dget LEGACY_STEP_CASES (rc_step r)) in
      case pair of None \<Rightarrow> None | Some (c, obj) \<Rightarrow> if obj = [] then None else Some (c, obj))"

record labelled =
  lb_observed :: "string list"
  lb_evidence :: "(string \<times> string \<times> int) list"

type_synonym labels = "(string \<times> string, labelled) dict"

definition label_receipt :: "string \<times> receipt \<Rightarrow> labels \<times> ((string \<times> string \<times> int) \<times> string) list \<Rightarrow>
    labels \<times> ((string \<times> string \<times> int) \<times> string) list" where
  "label_receipt fr st =
     (case fr of (fname, r) \<Rightarrow>
      let ref = (fname, rc_step r, rc_status r) in
      case mapped_to r of
        None \<Rightarrow> (fst st, snd st @ [(ref, ''step not mapped to a replay case'')])
      | Some key \<Rightarrow>
          (case label_for (snd key) (rc_status r) of
             None \<Rightarrow> (fst st, snd st @ [(ref, ''no answer observed'')])
           | Some lab \<Rightarrow>
               let e = (case dget (fst st) key of None \<Rightarrow> \<lparr>lb_observed = [], lb_evidence = []\<rparr> | Some e \<Rightarrow> e) in
               (dset key \<lparr>lb_observed = lb_observed e @ [lab], lb_evidence = lb_evidence e @ [ref]\<rparr> (fst st), snd st)))"

definition final_label :: "labelled \<Rightarrow> string" where
  "final_label e = (case sorted_set (lb_observed e) of [l] \<Rightarrow> l | _ \<Rightarrow> ''disputed'')"

definition derive :: "(string \<times> receipt list) list \<Rightarrow>
    ((string \<times> string) \<times> string \<times> (string \<times> string \<times> int) list) list \<times> ((string \<times> string \<times> int) \<times> string) list" where
  "derive files =
     (case fold label_receipt (concat (map (\<lambda>(f, rs). map (Pair f) rs) (sort_key fst files))) ([], []) of
        (labs, unlabelled) \<Rightarrow> (map (\<lambda>(k, e). (k, final_label e, lb_evidence e)) (sort_key fst labs), unlabelled))"

section \<open>What the lab may conclude\<close>

text \<open>The measured delay is an upper bound, in whole seconds, and the least one.\<close>

lemma propagation_covers: "propagation_seconds ack = Inr d \<Longrightarrow> ack \<le> of_int d \<and> of_int d < ack + 1 \<and> 0 \<le> d"
  by (auto simp: propagation_seconds_def split: if_splits) linarith+

text \<open>No answer is never taken for a refusal.\<close>

lemma silence_is_no_refusal: "agrees 0 expect = Inr True \<longleftrightarrow> expect = ''no_answer''"
  by (simp add: agrees_def EXPECTATIONS_def)

lemma check_receipt_agrees: "check_receipt step passed prediction = Inr r \<Longrightarrow> rc_agrees r = passed"
  by (cases passed)
    (auto simp: check_receipt_def Let_def agrees_def EXPECTATIONS_def CHECK_PASSED_def CHECK_FAILED_def answered_def rbind_Inr)

lemma validation_confirmed: "validation rs = ''lab_confirmed'' \<longleftrightarrow> rs \<noteq> [] \<and> (\<forall>r \<in> set rs. rc_agrees r)"
  by (simp add: validation_def list_all_iff)

text \<open>Labels are made of observations: the predictions and the agreement of a receipt are not read.\<close>

definition blind :: "receipt \<Rightarrow> receipt" where
  "blind r = r\<lparr>rc_prediction := [], rc_agrees := False\<rparr>"

lemma blind_simps [simp]: "rc_step (blind r) = rc_step r" "rc_status (blind r) = rc_status r" "mapped_to (blind r) = mapped_to r"
  by (simp_all add: blind_def mapped_to_def Let_def cong: option.case_cong list.case_cong)

lemma label_receipt_blind: "label_receipt (f, blind r) = label_receipt (f, r)"
  unfolding label_receipt_def prod.case blind_simps ..

lemma derive_blind: "derive (map (apsnd (map blind)) files) = derive files"
proof -
  have sorted: "sort_key fst (map (apsnd (map blind)) files) = map (apsnd (map blind)) (sort_key fst files)"
  proof (induction files)
    case (Cons x xs)
    have "insort_key fst (apsnd (map blind) x) (map (apsnd (map blind)) ys) = map (apsnd (map blind)) (insort_key fst x ys)" for ys
      by (induction ys) (auto simp: apsnd_def map_prod_def split: prod.splits)
    with Cons show ?case by simp
  qed simp
  have "fold label_receipt (concat (map (\<lambda>(f, rs). map (Pair f) rs) (map (apsnd (map blind)) fs))) st =
      fold label_receipt (concat (map (\<lambda>(f, rs). map (Pair f) rs) fs)) st" for fs st
  proof (induction fs arbitrary: st)
    case (Cons x xs)
    have "fold label_receipt (map (Pair f) (map blind rs)) st = fold label_receipt (map (Pair f) rs) st" for f rs st
      by (induction rs arbitrary: st) (simp_all add: label_receipt_blind)
    with Cons show ?case by (cases x) (simp add: fold_append)
  qed simp
  then show ?thesis unfolding derive_def sorted by (rule arg_cong)
qed

text \<open>
  Whether a step is missing from a run is told by the number of its receipts: a step that occurs
  twice in one run and never in the other is not reported, and the runs are said to agree.
\<close>

lemma repeated_step_hides_a_missing_one:
  "\<exists>runs su. summarise runs None = Inr su \<and> su_all_agree su \<and> su_missing su = [] \<and>
     ''a'' \<notin> rc_step ` set (rn_receipts (runs ! 1)) \<and> ''a'' \<in> rc_step ` set (rn_receipts (runs ! 0))"
proof -
  let ?r = "\<lambda>step. \<lparr>rc_step = step, rc_prediction = [], rc_status = 200, rc_agrees = True, rc_case = None, rc_objective = None\<rparr>"
  let ?runs = "[\<lparr>rn_receipts = [?r ''a'', ?r ''a''], rn_validation = None\<rparr>, \<lparr>rn_receipts = [?r ''b'', ?r ''b''], rn_validation = None\<rparr>]"
  have "case summarise ?runs None of Inr su \<Rightarrow> su_all_agree su \<and> su_missing su = [] | Inl _ \<Rightarrow> False" by code_simp
  then obtain su where "summarise ?runs None = Inr su" "su_all_agree su" "su_missing su = []" by (auto split: sum.splits)
  then show ?thesis by (intro exI[of _ ?runs] exI[of _ su]) simp
qed

end
