(* ===== verification/Spec2Isabelle.thy ===== *)
theory Spec2Isabelle
  imports Replay Planner_Properties Reference_Properties Evidence_Properties Execute Receipts
begin

text \<open>
  AFTERLOCK decides whether a containment plan for a compromised Kubernetes cluster leaves the
  attacker a way to the objectives. This development models the program's core, written in Python.

  The parts and their theories.

    \<^item> Shared vocabulary: Prelude (insertion-ordered dictionaries, results with errors, loops
      whose body may raise), Strings (\<open>str\<close>, \<open>int\<close>, \<open>split\<close>, \<open>join\<close>, the search for a free name),
      Json (JSON values, the accessors, the canonical form and its digest).
    \<^item> \<open>packages/afterlock/model.py\<close>: Model (the dataclasses as records, their methods) and Parse
      (\<open>parse_analysis_input\<close> with every check in order). Parse_Correct: what an accepted document
      guarantees (\<open>input_ok\<close>), the round trip of defender actions.
    \<^item> \<open>packages/afterlock/semantics.py\<close>: Semantics (the environment, authorization, credentials,
      admission, reconciliation, defender actions, legitimate operations) and Semantics_Correct.
    \<^item> \<open>packages/afterlock/engine.py\<close>: Engine (facts, derivations, one pass of the rules), Closure
      (the iteration to the fixpoint, terminating by a measure), Run (possible history, the intervals
      of the remediation, the four modes, witnesses, legitimate operations). Attacker gives the
      attacker as a step relation without any saturation; Invariant, Names, Join, World, Saturation,
      Provenance, Coverage and Run_Correct relate the two: every operation keeps the invariant and
      only adds, a fixpoint of the pass is closed under the attacker's steps, and the record of an
      interval covers every interleaving.
    \<^item> \<open>packages/afterlock/results.py\<close>: Results (\<open>analyze\<close>, the bundle and its JSON document).
    \<^item> \<open>packages/afterlock/planner.py\<close>: Planner (candidates, the baseline, the uniform-cost search
      over sequences of actions, each evaluated by \<open>analyze\<close>), Planner_Correct (the invariant of
      the search, its costs and counts) and Planner_Properties (what the status of a report means,
      bounds, answers, the plan read back as an input).
    \<^item> \<open>packages/afterlock_reference\<close>: the independent checker. Reference (reading the raw document,
      the semantics on tuples of frozen sets), Explore (single attacker steps, both breadth-first
      searches) and Replay (verification of witnesses), with no definition shared with the engine's
      model. Search shows that a breadth-first search visits exactly the reachable states (the locale
      \<open>explored\<close>, interpreted on the checker's own visit); Agreement and
      Agreement_Input relate the two semantics and the two readings of a document, and
      Reference_Properties states that both go through the same environments and judge alike.
    \<^item> \<open>packages/afterlock/evidence.py\<close>: Evidence (redaction, timestamps, validation of envelopes,
      loading a bundle) and Projection (deduplication, the attribution fixpoint, the facts of each
      event, the projected analysis input). Evidence_Correct: what passed the scans is clean, the
      kept events are determined by the set of lines, the attribution is the least fixpoint.
      Evidence_Facts: where facts come from, how a projection is composed. Bundle_Example: a bundle
      loaded and projected; Evidence_Properties.
    \<^item> \<open>services/api/afterlock_api/storage.py\<close> and \<open>services/worker/afterlock_worker/runner.py\<close>: Storage
      (\<open>MemoryStorage\<close> as functions of an explicit store and clock reading), Storage_Correct (the
      invariant of the store, what a call can do to a job), Worker (\<open>process_one\<close> over any backend,
      with the contract of a backend as the locale \<open>storage_contract\<close>, interpreted on the in-memory
      store) and Storage_Properties.
    \<^item> \<open>services/api/afterlock_api/oidc.py\<close> and \<open>app.py\<close>: Auth (the configuration, the cache of
      signing keys with its back-off, validation of a token, static tokens, principals, limits on
      bodies and concurrency) and Api (the routes over the in-memory store but for the
      explanation, health and schema routes, the dispatch after authentication, the progress stream). Api_Correct: runs of key lookups, what a validated token
      consists of, slots that are given back, which part of the store a handler may change, and that
      a handler makes at most one call of the storage protocol; Api_Properties. Execute: the executor
      of \<open>runner.py\<close>, and that a job gives what the synchronous endpoint gives.
    \<^item> \<open>labs/supervisor/receipts.py\<close> and \<open>benchmarks/lab_labels.py\<close>: Receipts (expectations,
      validation and summaries of lab runs, labels derived from observations).
    \<^item> Examples: a concrete case, parsed, analysed and traced, on which the properties are applied.

  How they interact: a document is parsed into an \<open>analysis_input\<close>; \<open>run_view\<close> runs the engine
  once per view of the evidence on the environment of \<open>from_inventory\<close>, alternating saturation
  with a defender action and the controllers' reconciliation; \<open>analyze\<close> joins both outcomes into
  a bundle; the planner calls \<open>analyze\<close> for every sequence it pops; the worker claims a job from
  the storage, runs an executor, and publishes its result under the lease it was given. The
  reference checker starts from the raw document again. Evidence enters as a replay bundle, or in the
  body of a request: \<open>project\<close> makes the document the parser reads, and the API files it as a case,
  analyses it, plans for it or enqueues jobs on the same store the worker claims from.

  Conventions. Every mutated object is passed and returned; an exception is the left part of a sum,
  with the state it leaves behind where the code can observe it. Python integers are \<open>int\<close>. A dict
  keeps its insertion order. A set that is only tested is a HOL set, one that is iterated is the
  sorted list of its elements. A string is a list of 8-bit characters, compared by code point.

  Bounds and fuel. The saturation is bounded by \<open>max_derivations\<close>, and its loop terminates because
  every further iteration has counted a derivation. The visit of a witness gets as fuel one more than
  the number of derivations, which is enough since premises precede what they derive. Both
  searches of the reference terminate because a state is admitted at most \<open>max_states\<close> times; the
  planner's because a popped node is replaced by longer ones below \<open>max_length\<close>.

  The attribution of evidence adds a pod in every further round, and there are finitely many.

  Parameters. SHA-256, the clock readings, the random tokens of identifiers and the executor of a
  job are arguments of the definitions that use them; so are reading and writing JSON text
  (\<open>json_pairs\<close>, \<open>sv_dumps\<close>), decoding UTF-8, reading a timestamp (\<open>fromiso\<close>), the files of a bundle,
  the profiles on disk, the answers of the key server and the JWT library. That a random token is
  fresh and that no two manifests share an id (\<open>fresh_token\<close>, \<open>no_collision\<close>, \<open>genuine\<close>) are hypotheses.

  Not modelled. \<open>PostgresStorage\<close> and \<open>migrate.py\<close> are SQL against a database; the shapes of requests
  are checked by pydantic; \<open>explain\<close> and the plan report's sentences format results for reading;
  \<open>ReplayBundle.write\<close> writes files; the command line, the worker's polling loop, the driver of the
  validation lab, the benchmark harness and the dataset generators are input and output around the parts above; the
  collector and the web client are written in other languages. Rounding of floating-point costs,
  truncation of a float by \<open>int\<close> in the reference, and characters above 8 bits are outside the model.
\<close>

section \<open>Analysis input\<close>

text \<open>
  C20: Every document that \<open>parse_analysis_input\<close> accepts gives a well-formed input: distinct
  identifiers, references that resolve, versions and durations in range, at least one objective,
  reserved UIDs unused, every remediation action with the parameters of its kind, and a remediation
  that fits the bound on intervals.
\<close>
theorem parsed_input_well_formed:
  assumes "parse_analysis_input sha256 doc = Inr inp"
  shows "input_ok inp \<and> int (length (inp_remediation inp)) + 1 \<le> max_intervals (inp_bounds inp)"
  using parse_analysis_input_ok[OF assms] parse_analysis_input_fits[OF assms] by blast

theorem parsed_input_well_formed_witness:
  "input_ok case_input \<and> int (length (inp_remediation case_input)) + 1 \<le> max_intervals (inp_bounds case_input)"
  by (rule parsed_input_well_formed[OF case_parses])

text \<open>
  C39: A remediation action that the parser produced survives printing and parsing again:
  \<open>to_json\<close> never fails on it and \<open>parse_action\<close> of the result gives the same action back.
\<close>
theorem parsed_action_roundtrip:
  assumes "parse_action raw w = Inr a"
  shows "\<exists>j. act_to_json a = Inr j \<and> parse_action j w' = Inr a"
  by (rule action_json_roundtrip[OF parse_action_ok[OF assms]])

theorem parsed_action_roundtrip_witness:
  "\<exists>j. act_to_json case_action = Inr j \<and> parse_action j ''again'' = Inr case_action"
  by (rule parsed_action_roundtrip[of "JObj [(''kind'', JStr ''remove_binding''), (''namespace'', JStr ''app''), (''name'', JStr ''rb'')]" "''x''"])
     code_simp

text \<open>
  The canonical encoding that digests are computed from does not depend on the order in which
  a JSON object lists its keys.
\<close>
theorem canonical_form_ignores_key_order:
  assumes "mset kvs = mset kvs'" and "distinct (map fst kvs)"
  shows "canonical_json (JObj kvs) = canonical_json (JObj kvs') \<and>
    digest sha256 (JObj kvs) = digest sha256 (JObj kvs')"
  using canonical_json_key_order[OF assms] by (simp add: digest_def)

theorem canonical_form_ignores_key_order_witness:
  "canonical_json (JObj [(''b'', JInt 1), (''a'', JNull)]) = canonical_json (JObj [(''a'', JNull), (''b'', JInt 1)]) \<and>
   digest rev (JObj [(''b'', JInt 1), (''a'', JNull)]) = digest rev (JObj [(''a'', JNull), (''b'', JInt 1)])"
  by (rule canonical_form_ignores_key_order) simp_all

text \<open>
  A user name is read as a service account exactly when it is the name \<open>sa_username\<close> builds
  from a namespace and a name without colons, and then gives both back.
\<close>
theorem service_account_username_roundtrip:
  "parse_sa_username u = Some (ns, n) \<longleftrightarrow> u = sa_username ns n \<and> plain_name ns \<and> plain_name n"
  by (rule parse_sa_username_Some)

section \<open>Kubernetes semantics\<close>

text \<open>
  C35: S-TOK. A token authenticates at a time iff it is a supported service-account token,
  unexpired then, for an API audience, of an existing account with the recorded UID, and bound to
  no pod or to a live pod of that account.
\<close>
theorem token_rule:
  "us_usable (credential_usable env c prof now) \<longleftrightarrow>
     cred_supported c \<and> token_valid env c prof (case now of None \<Rightarrow> e_time env | Some t \<Rightarrow> t)"
  by (rule us_usable_iff)


text \<open>
  RBAC has no deny rules: a defender action never grants anybody a permission that was not
  there before.
\<close>
theorem remediation_never_grants:
  "set (authorizing_bindings (apply_effect e env) u v r ns n) \<subseteq> set (authorizing_bindings env u v r ns n)"
proof (rule authorizing_bindings_mono)
  show "e_roles (apply_effect e env) = e_roles env" by simp
  show "set (e_bindings (apply_effect e env)) \<subseteq> set (e_bindings env)"
    by (cases e) (auto simp: rotate_def Let_def del_pods_def del_controller_cascade_def set_ddel split: option.splits)
qed

text \<open>
  S-ADM. Admission is undecided when an unsupported policy governs the namespace, denied when
  some policy there denies the creator the service account, and allowed otherwise.
\<close>
theorem admission_rule:
  "ad_outcome (admission_decision env creator ns sa) =
     (if \<exists>p \<in> set (e_admission env). adm_namespace p = ns \<and> \<not> adm_supported p then AdmUnsupported
      else if \<exists>p \<in> set (e_admission env). adm_namespace p = ns \<and> policy_denies p creator sa then AdmDeny
      else AdmAllow)"
  by (rule admission_outcome)





section \<open>The attacker's saturation\<close>



text \<open>
  C22: The saturation only does what the attacker can do: from the state it is started in, without
  the capabilities of the previous interval, to the state it returns there is a run of attacker
  steps that respects the bound on derivations.
\<close>
theorem saturation_is_attacker_run:
  assumes "closure r i s = Inr t"
  shows "sat_run r i (no_eph s) t \<and> grows (no_eph s) t"
  using closure_run[OF assms] sat_run_grows by blast

theorem saturation_is_attacker_run_witness:
  "\<exists>t. closure case_run 0 (begun case_start) = Inr t \<and> sat_run case_run 0 (no_eph (begun case_start)) t"
  using case_closure saturation_is_attacker_run by blast

text \<open>
  C5: The saturation stops only when nothing is left: in the state it returns every attacker step
  leaves facts, credentials, capabilities, environment and count as they are.
\<close>
theorem saturation_reaches_fixpoint:
  assumes "closure r i s = Inr t" and "accounted i s" and "att_step r i t u"
  shows "x_facts u = x_facts t \<and> x_creds u = x_creds t \<and> x_eph u = x_eph t \<and> x_env u = x_env t \<and>
    x_count u = x_count t"
proof -
  have "accounted i t"
    by (rule sat_run_keeps[OF closure_run[OF assms(1)], of "accounted i"])
       (use assms(2) accounted_step in \<open>auto simp: accounted_def\<close>)
  moreover have "x_count u = x_count t"
    using closure_saturated[OF assms(1,2)] assms(3) by (simp add: saturated_def)
  ultimately show ?thesis using uncounted_step[OF assms(3)] by (simp add: same_def)
qed

theorem saturation_reaches_fixpoint_witness:
  "\<exists>t u. closure case_run 0 (begun case_start) = Inr t \<and> att_step case_run 0 t u \<and> x_facts u = x_facts t"
proof -
  obtain t where t: "closure case_run 0 (begun case_start) = Inr t" using case_closure by blast
  have step: "att_step case_run 0 t (mark_unknown ''k'' (UnsupportedCredential ''c'' []) t)" by (rule att_step.remark)
  from saturation_reaches_fixpoint[OF t case_accounted step] t step show ?thesis by blast
qed

text \<open>
  C23: The only exception the saturation can raise is the bound on derivations, and then that bound
  was really passed, after a run of attacker steps.
\<close>
theorem saturation_only_runs_out_of_bounds:
  assumes "est_ok s" and "prof_api_audiences (inp_profile (r_inp r)) \<noteq> []" and "closure r i s = Inl (e, t)"
  shows "e = BoundsExceeded \<and> x_count t > max_derivations (inp_bounds (r_inp r)) \<and>
    (\<exists>u. sat_run r i (no_eph s) u \<and> x_facts t = x_facts u \<and> x_count t = x_count u + 1)"
  using closure_stops[OF assms(3,1,2)] by (auto simp: sat_stops_def stopped_def)

theorem saturation_only_runs_out_of_bounds_witness:
  "\<exists>t. closure (tight_run) 0 (begun case_start) = Inl (BoundsExceeded, t) \<and> x_count t > 1"
proof -
  obtain e t where t: "closure (tight_run) 0 (begun case_start) = Inl (e, t)" using tight_closure by auto
  from saturation_only_runs_out_of_bounds[OF est_invD(1)[OF case_start_inv] tight_audiences t] t show ?thesis
    by (simp add: tight_run_def)
qed

text \<open>
  C2: Order does not matter within an interval: from a state with delimited names, whatever facts,
  capabilities, credentials and workloads any interleaving of attacker steps reaches, the state the
  saturation returns has them too (a token possibly in a longer-lived issue).
\<close>
theorem saturation_covers_interleavings:
  assumes "closure r i s = Inr t" and "tidy r i (no_eph s)" and "accounted i s"
    and "(att_step r i)\<^sup>*\<^sup>* (no_eph s) u"
  shows "covers t u"
  by (rule closure_covers_interleavings[OF assms])

theorem saturation_covers_interleavings_witness:
  "\<exists>t. closure case_run 0 (begun case_start) = Inr t \<and> covers t (learn case_read (begun case_start))"
proof -
  obtain t where t: "closure case_run 0 (begun case_start) = Inr t" using case_closure by blast
  have "covers t (learn case_read (begun case_start))"
    by (rule saturation_covers_interleavings[OF t])
       (use case_tidy case_accounted case_step in \<open>simp_all add: case_no_eph r_into_rtranclp\<close>)
  with t show ?thesis by blast
qed

section \<open>The analysis\<close>

text \<open>
  C4: \<open>analyze\<close> never fails on a document the parser accepted: in every mode it returns a bundle,
  with the inferred statuses, witnesses and the conclusion.
\<close>
theorem analysis_answers:
  assumes "parse_analysis_input sha256 doc = Inr inp"
  shows "\<exists>b. analyze inp md = Inr b \<and> bun_input b = inp"
proof -
  obtain b where b: "analyze inp md = Inr b" using analyze_total[OF parse_analysis_input_ok[OF assms]] by blast
  have "bun_input b = inp" by (rule analyze_parts[OF b])
  with b show ?thesis by blast
qed

theorem analysis_answers_witness: "\<exists>b. analyze case_input ModeNoLifecycle = Inr b \<and> bun_input b = case_input"
  by (rule analysis_answers[OF case_parses])

text \<open>
  C3: The conclusion \<open>contained_within_scope\<close> is given only when both views were explored within
  their bounds, without unsupported semantics and without coverage gaps, and no objective's goal
  holds at the end in either.
\<close>
theorem containment_needs_everything:
  assumes "parse_analysis_input sha256 doc = Inr inp" and "analyze inp md = Inr b"
    and "bun_conclusion b = ContainedWithinScope"
  shows "inp_coverage_gaps inp = [] \<and>
    (\<forall>vo \<in> {bun_evidence_view b, bun_possible_view b}. vo_unknowns vo = [] \<and> \<not> vo_bounds_exceeded vo \<and>
       (\<forall>obj \<in> set (inp_objectives inp). \<not> dmem (objective_goal (obj_target obj)) (vo_goals_final vo)))"
  using conclusion_contained[OF assms(2,3)] parse_analysis_input_ok[OF assms(1)] by (simp add: input_ok_def)

theorem containment_needs_everything_witness:
  "\<exists>b. analyze case_input ModeFull = Inr b \<and> vo_unknowns (bun_possible_view b) = [] \<and>
     \<not> dmem (CanReadSecret ''app'' ''db'') (vo_goals_final (bun_possible_view b))"
proof -
  obtain b where b: "analyze case_input ModeFull = Inr b" "bun_conclusion b = ContainedWithinScope"
    using case_contained by (auto split: sum.splits)
  from containment_needs_everything[OF case_parses b] b(1) show ?thesis by (auto simp: case_input_def)
qed

text \<open>
  C1: Before the first defender action nothing escapes the analysis. From the seeded state of a
  parsed case with plain names, any interleaving of attacker steps reaches only facts that the
  evidence view recorded and capabilities listed for its first interval.
\<close>
theorem first_interval_is_complete:
  assumes "parse_analysis_input sha256 doc = Inr inp" and "plain_input inp"
    and "run_view inp EvidenceView ModeFull = Inr vo" and "\<not> vo_bounds_exceeded vo"
    and "initial (the_run inp EvidenceView ModeFull) = Inr (s, hist)"
    and "(att_step (the_run inp EvidenceView ModeFull) 0)\<^sup>*\<^sup>* (begun s) u"
  shows "(\<forall>f. dmem f (x_facts u) \<longrightarrow> dmem f (vo_derivations vo)) \<and>
    (\<forall>f. dmem f (x_eph u) \<longrightarrow> f \<in> set (ir_goals (hd (vo_intervals vo))))"
  using first_interval_covered[OF parse_analysis_input_ok[OF assms(1)] assms(2-6)] by blast

theorem first_interval_is_complete_witness:
  "\<exists>vo. run_view case_input EvidenceView ModeFull = Inr vo \<and>
     CanReadSecret ''app'' ''db'' \<in> set (ir_goals (hd (vo_intervals vo)))"
proof -
  obtain vo where vo: "run_view case_input EvidenceView ModeFull = Inr vo" "\<not> vo_bounds_exceeded vo"
    using case_runs by (auto split: sum.splits)
  from first_interval_is_complete[OF case_parses case_plain vo case_initial[unfolded case_run_def]
      r_into_rtranclp[where r = "att_step (the_run case_input EvidenceView ModeFull) 0", OF case_step[unfolded case_run_def]]]
    vo(1) case_read_reached show ?thesis by blast
qed

text \<open>
  C6: Whatever capability a view reports at the end, its witness exists, ends in the derivation of
  that capability, and lists every premise before the derivation that uses it (for plain names).
\<close>
theorem witness_replays:
  assumes "parse_analysis_input sha256 doc = Inr inp" and "plain_input inp"
    and "run_view inp vw md = Inr vo" and "dget (vo_goals_final vo) g = Some d"
  shows "\<exists>steps. witness vo g = Inr (steps @ [d]) \<and> der_fact d = g \<and> premises_first {} (steps @ [d])"
proof -
  from run_view_answers[OF parse_analysis_input_ok[OF assms(1)], of True vw md] assms(2,3)
  have "outcome_ok True vo" by auto
  from witness_found[OF this[unfolded outcome_ok_def] assms(4)] show ?thesis by metis
qed

theorem witness_replays_witness:
  "\<exists>vo d steps. run_view case_input EvidenceView ModeFull = Inr vo \<and>
     witness vo (CanUseDownstream ''pay'') = Inr (steps @ [d]) \<and> premises_first {} (steps @ [d])"
proof -
  obtain vo d where vo: "run_view case_input EvidenceView ModeFull = Inr vo"
      "dget (vo_goals_final vo) (CanUseDownstream ''pay'') = Some d"
    using case_runs by (auto split: sum.splits)
  from witness_replays[OF case_parses case_plain vo] vo(1) show ?thesis by blast
qed

end
